(* ===== verification/Bcu_Prelude.thy ===== *)
theory Bcu_Prelude
  imports Main "HOL-Library.Word" "HOL-Library.Code_Target_Nat"
begin

text \<open>
  What every component of the development shares: the names of C objects (addresses,
  C strings, return codes), and the arithmetic of a ring of \<open>N\<close> cells, which the byte
  buffer and the block buffer both are.

  An address is its value after the cast \<open>(int)ptr\<close> that the code itself makes to hand a
  buffer or an alarm to its clients; \<open>NULL\<close> is 0. Memory is a total store: a read through
  a stale address gives whatever the store holds there, and a component's invariant says
  which addresses are live.
\<close>

section \<open>C objects\<close>

type_synonym ptr = int
type_synonym byte = "8 word"

abbreviation (input) NULL :: ptr where "NULL \<equiv> 0"
abbreviation (input) NUL :: char where "NUL \<equiv> CHR 0x00"

text \<open>\<open>strlen\<close> and the comparison of two NUL-terminated strings.\<close>

definition c_str :: "char list \<Rightarrow> string" where
  "c_str s = takeWhile (\<lambda>c. c \<noteq> NUL) s"

definition c_strlen :: "char list \<Rightarrow> nat" where
  "c_strlen s = length (c_str s)"

text \<open>\<open>strncmp(s, t, n) == 0\<close>: the first \<open>n\<close> characters agree, up to a common terminator.\<close>

definition c_strncmp_eq :: "char list \<Rightarrow> char list \<Rightarrow> nat \<Rightarrow> bool" where
  "c_strncmp_eq s t n \<longleftrightarrow> take n (c_str s) = take n (c_str t)"

lemma c_str_idem [simp]: "c_str (c_str s) = c_str s"
  by (simp add: c_str_def)

lemma c_str_no_nul: "NUL \<notin> set (c_str s)"
  by (auto simp: c_str_def dest: set_takeWhileD)

lemma c_str_id: "NUL \<notin> set s \<Longrightarrow> c_str s = s"
  unfolding c_str_def by (auto simp: takeWhile_eq_all_conv)

lemma c_str_append_nul: "NUL \<notin> set s \<Longrightarrow> c_str (s @ NUL # t) = s"
  unfolding c_str_def by (subst takeWhile_append2) auto

section \<open>Collections of the development\<close>

named_theorems inv_intro \<open>operations keep the invariant of their component\<close>
named_theorems frame \<open>what an operation leaves unchanged\<close>

section \<open>Rings\<close>

text \<open>
  A ring of \<open>N\<close> cells, read at \<open>rd\<close> and written at \<open>wr\<close>. The successor of a cell, the
  number of cells from \<open>rd\<close> up to \<open>wr\<close>, and the values they hold.
\<close>

definition ring_next :: "nat \<Rightarrow> nat \<Rightarrow> nat" where
  "ring_next N p = (if p + 1 \<ge> N then 0 else p + 1)"

definition ring_count :: "nat \<Rightarrow> nat \<Rightarrow> nat \<Rightarrow> nat" where
  "ring_count N rd wr = (if rd \<le> wr then wr - rd else wr + N - rd)"

definition ring_view :: "'a list \<Rightarrow> nat \<Rightarrow> nat \<Rightarrow> 'a list" where
  "ring_view mem rd n = map (\<lambda>i. mem ! ((rd + i) mod length mem)) [0..<n]"

lemma ring_next_less [simp]: "0 < N \<Longrightarrow> ring_next N p < N"
  by (simp add: ring_next_def)

lemma ring_next_mod: "p < N \<Longrightarrow> ring_next N p = (p + 1) mod N"
  by (cases "Suc p = N") (auto simp: ring_next_def)

lemma ring_count_less: "rd < N \<Longrightarrow> wr < N \<Longrightarrow> ring_count N rd wr < N"
  by (auto simp: ring_count_def)

lemma ring_count_self [simp]: "ring_count N p p = 0"
  by (simp add: ring_count_def)

lemma ring_count_0_iff: "rd < N \<Longrightarrow> wr < N \<Longrightarrow> ring_count N rd wr = 0 \<longleftrightarrow> rd = wr"
  by (auto simp: ring_count_def)

lemma ring_count_full_iff:
  "rd < N \<Longrightarrow> wr < N \<Longrightarrow> ring_next N wr = rd \<longleftrightarrow> ring_count N rd wr = N - 1"
  by (auto simp: ring_count_def ring_next_def)

lemma ring_count_put:
  "rd < N \<Longrightarrow> wr < N \<Longrightarrow> ring_next N wr \<noteq> rd \<Longrightarrow>
    ring_count N rd (ring_next N wr) = Suc (ring_count N rd wr)"
  by (auto simp: ring_count_def ring_next_def split: if_splits)

lemma ring_count_get:
  "rd < N \<Longrightarrow> wr < N \<Longrightarrow> rd \<noteq> wr \<Longrightarrow>
    ring_count N rd wr = Suc (ring_count N (ring_next N rd) wr)"
  by (auto simp: ring_count_def ring_next_def split: if_splits)

lemma ring_count_wr: "rd < N \<Longrightarrow> wr < N \<Longrightarrow> (rd + ring_count N rd wr) mod N = wr"
  by (auto simp: ring_count_def mod_if)

lemma ring_view_length [simp]: "length (ring_view mem rd n) = n"
  by (simp add: ring_view_def)

lemma ring_view_0 [simp]: "ring_view mem rd 0 = []"
  by (simp add: ring_view_def)

lemma ring_view_nth: "i < n \<Longrightarrow> ring_view mem rd n ! i = mem ! ((rd + i) mod length mem)"
  by (simp add: ring_view_def)

lemma ring_view_Suc:
  "rd < length mem \<Longrightarrow>
    ring_view mem rd (Suc n) = mem ! rd # ring_view mem (ring_next (length mem) rd) n"
  by (rule nth_equalityI)
    (auto simp: ring_view_nth ring_next_mod mod_simps nth_Cons split: nat.splits)

lemma ring_view_snoc:
  "ring_view mem rd (Suc n) = ring_view mem rd n @ [mem ! ((rd + n) mod length mem)]"
  by (simp add: ring_view_def)

lemma ring_view_drop:
  "drop k (ring_view mem rd n) = ring_view mem ((rd + k) mod length mem) (n - k)"
  by (rule nth_equalityI) (auto simp: ring_view_nth mod_simps ac_simps)

lemma ring_view_take: "take k (ring_view mem rd n) = ring_view mem rd (min k n)"
  by (rule nth_equalityI) (auto simp: ring_view_nth)

lemma ring_offset: "(rd :: nat) < N \<Longrightarrow> i < N \<Longrightarrow> (rd + i) mod N = (if rd + i < N then rd + i else rd + i - N)"
  by (auto simp: mod_if [of "rd + i" N] mod_if [of "rd + i - N" N])

lemma ring_view_put:
  assumes "rd < length mem" and "n < length mem" and "wr = (rd + n) mod length mem"
  shows "ring_view (mem[wr := x]) rd (Suc n) = ring_view mem rd n @ [x]"
proof (rule nth_equalityI)
  fix i assume "i < length (ring_view (mem[wr := x]) rd (Suc n))"
  then have i: "i < Suc n" by simp
  have "(rd + i) mod length mem \<noteq> wr" if "i < n"
    using that assms by (auto simp: ring_offset split: if_splits)
  moreover have "wr < length mem" using assms(1,3) by (cases mem) auto
  ultimately show "ring_view (mem[wr := x]) rd (Suc n) ! i = (ring_view mem rd n @ [x]) ! i"
    using i assms(3) by (cases "i < n") (auto simp: ring_view_nth nth_append less_Suc_eq)
qed simp

text \<open>Cells outside the view may change without changing it.\<close>

lemma ring_view_cong:
  "length mem' = length mem \<Longrightarrow>
    (\<And>i. i < n \<Longrightarrow> mem' ! ((rd + i) mod length mem) = mem ! ((rd + i) mod length mem)) \<Longrightarrow>
    ring_view mem' rd n = ring_view mem rd n"
  by (rule nth_equalityI) (auto simp: ring_view_nth)

end
