(* ===== verification/Id_Registry.thy ===== *)
theory Id_Registry
  imports Bcu_Prelude
begin

text \<open>
  The list of identifier nodes with which the byte buffers, the block buffers and the eCos
  alarms are named and their identifiers checked (\<open>buffer_read_write_fun.cxx\<close>,
  \<open>alarm_list_fun.cxx\<close>). The three copies in the source run the same statements over
  \<open>char_buffer_id_t\<close>, \<open>block_buffer_id_t\<close> and \<open>alarm_list_node_t\<close>; the list is modelled
  once here, and the components that own a copy name it and map it to their lines.

  The first element of the list is the statically allocated head, which is never freed:
  deleting it only clears its \<open>used\<close> flag. The other elements are allocated nodes, in the
  order of their \<open>next\<close> links. A node's name is the 64-byte array of the struct.
\<close>

section \<open>Nodes\<close>

abbreviation (input) BUFFER_NAME_LEN :: nat where "BUFFER_NAME_LEN \<equiv> 64"

record id_node =
  nd_name :: "char list"
  nd_ptr :: ptr
  nd_used :: byte

type_synonym id_list = "id_node list"

definition id_head_init :: id_node where
  "id_head_init = \<lparr>nd_name = replicate BUFFER_NAME_LEN NUL, nd_ptr = NULL, nd_used = 0\<rparr>"

text \<open>
  \<open>strncpy(dst, name, min_len - 1); dst[min_len] = 0\<close> with
  \<open>min_len = strlen(name) >= 64 ? 64 : strlen(name) + 1\<close>. The \<open>strncpy\<close> copies
  \<open>min_len - 1\<close> characters and no terminator; the terminator is stored one cell further,
  at \<open>min_len\<close>. For \<open>min_len = 64\<close> that store falls on the field after the name, which
  the next statement of the code overwrites; \<open>list_update\<close> beyond the array is the
  identity.
\<close>

definition nd_set_name :: "char list \<Rightarrow> string \<Rightarrow> char list" where
  "nd_set_name dst name =
     (let min_len = (if c_strlen name \<ge> BUFFER_NAME_LEN then BUFFER_NAME_LEN
                     else c_strlen name + 1)
      in (take (min_len - 1) name @ drop (min_len - 1) dst)[min_len := NUL])"

section \<open>Operations\<close>

text \<open>The walk of \<open>CharBufferIsValid\<close>: a used node holds the pointer.\<close>

fun id_is_valid :: "id_list \<Rightarrow> ptr \<Rightarrow> bool" where
  "id_is_valid [] p = False"
| "id_is_valid (nd # nds) p =
     (if nd_used nd = 1 \<and> nd_ptr nd = p then True else id_is_valid nds p)"

text \<open>The walk of \<open>CharBufferIdReset\<close>, for the nodes behind the head and for the list.\<close>

fun id_unlink :: "id_list \<Rightarrow> ptr \<Rightarrow> id_list" where
  "id_unlink [] p = []"
| "id_unlink (nd # nds) p =
     (if nd_used nd = 1 \<and> nd_ptr nd = p then nds else nd # id_unlink nds p)"

fun id_reset :: "id_list \<Rightarrow> ptr \<Rightarrow> id_list" where
  "id_reset [] p = []"
| "id_reset (nd # nds) p =
     (if nd_used nd = 1 \<and> nd_ptr nd = p then nd\<lparr>nd_used := 0\<rparr> # nds
      else nd # id_unlink nds p)"

text \<open>
  The walk of \<open>CharBufferOpen\<close>: the first used node whose name matches. A name of 64 or
  more characters is compared on 63 characters, a shorter one only with names of its own
  length, and the empty name with none.
\<close>

definition nd_open_len :: "id_node \<Rightarrow> string \<Rightarrow> nat" where
  "nd_open_len nd name =
     (if c_strlen name \<ge> BUFFER_NAME_LEN then BUFFER_NAME_LEN - 1
      else if c_strlen name = c_strlen (nd_name nd) then c_strlen (nd_name nd)
      else 0)"

fun id_open :: "id_list \<Rightarrow> string \<Rightarrow> ptr" where
  "id_open [] name = -1"
| "id_open (nd # nds) name =
     (if nd_used nd = 1 \<and> nd_open_len nd name > 0
         \<and> c_strncmp_eq (nd_name nd) name (nd_open_len nd name)
      then nd_ptr nd else id_open nds name)"

text \<open>The three loops of \<open>CharBufferPointerSave\<close>.\<close>

fun id_name_used :: "id_list \<Rightarrow> string \<Rightarrow> bool" where
  "id_name_used [] name = False"
| "id_name_used (nd # nds) name =
     (if nd_used nd = 1 \<and> c_str (nd_name nd) = c_str name then True
      else id_name_used nds name)"

fun id_fill_free :: "id_list \<Rightarrow> ptr \<Rightarrow> string \<Rightarrow> id_list option" where
  "id_fill_free [] p name = None"
| "id_fill_free (nd # nds) p name =
     (if nd_used nd = 0
      then Some (nd\<lparr>nd_used := 1, nd_name := nd_set_name (nd_name nd) name, nd_ptr := p\<rparr> # nds)
      else map_option ((#) nd) (id_fill_free nds p name))"

definition id_new_node :: "ptr \<Rightarrow> string \<Rightarrow> id_node" where
  "id_new_node p name =
     \<lparr>nd_name = nd_set_name (replicate BUFFER_NAME_LEN NUL) name, nd_ptr = p, nd_used = 1\<rparr>"

text \<open>
  The result of saving pointer \<open>p\<close> under \<open>name\<close>; \<open>alloc\<close> says whether the allocation of
  a node succeeds, and \<open>err\<close> is the code returned for a null argument.
\<close>

definition id_save :: "int \<Rightarrow> bool \<Rightarrow> id_list \<Rightarrow> ptr \<Rightarrow> string option \<Rightarrow> id_list \<times> int" where
  "id_save err alloc nds p name =
     (case name of
        None \<Rightarrow> (nds, err)
      | Some s \<Rightarrow>
          if p = NULL then (nds, err)
          else if id_name_used nds s then (nds, -1)
          else (case id_fill_free nds p s of
                  Some nds' \<Rightarrow> (nds', 0)
                | None \<Rightarrow> if alloc then (nds @ [id_new_node p s], 0) else (nds, -1)))"

section \<open>Well-formed lists\<close>

text \<open>
  The pointers registered in the list, in list order; and the invariant: every node has a
  terminated 64-byte name and a flag 0 or 1, only the head can be unused, no live pointer
  is \<open>NULL\<close>, and no pointer is registered twice.
\<close>

definition id_live :: "id_list \<Rightarrow> ptr list" where
  "id_live nds = map nd_ptr (filter (\<lambda>nd. nd_used nd = 1) nds)"

definition nd_wf :: "id_node \<Rightarrow> bool" where
  "nd_wf nd \<longleftrightarrow> length (nd_name nd) = BUFFER_NAME_LEN \<and> nd_name nd ! 63 = NUL
     \<and> (nd_used nd = 0 \<or> nd_used nd = 1)"

definition id_wf :: "id_list \<Rightarrow> bool" where
  "id_wf nds \<longleftrightarrow> nds \<noteq> [] \<and> list_all nd_wf nds \<and> list_all (\<lambda>nd. nd_used nd = 1) (tl nds)
     \<and> NULL \<notin> set (id_live nds) \<and> distinct (id_live nds)"

lemma id_live_simps [simp]:
  "id_live [] = []"
  "id_live (nd # nds) = (if nd_used nd = 1 then nd_ptr nd # id_live nds else id_live nds)"
  "id_live (nds @ nds') = id_live nds @ id_live nds'"
  by (simp_all add: id_live_def)

lemma id_is_valid_iff: "id_is_valid nds p \<longleftrightarrow> p \<in> set (id_live nds)"
  by (induction nds p rule: id_is_valid.induct) auto

lemma id_valid_not_null: "id_wf nds \<Longrightarrow> id_is_valid nds p \<Longrightarrow> p \<noteq> NULL"
  by (auto simp: id_wf_def id_is_valid_iff)

lemma id_wf_init: "id_wf [id_head_init]"
  by (simp add: id_wf_def nd_wf_def id_head_init_def)

lemma nd_set_name_length [simp]:
  "length dst = BUFFER_NAME_LEN \<Longrightarrow> length (nd_set_name dst s) = BUFFER_NAME_LEN"
  by (auto simp: nd_set_name_def c_strlen_def c_str_def Let_def
      min_absorb2 [OF length_takeWhile_le] min_absorb2 [of 63 "length s"]
      dest: order_trans [OF _ length_takeWhile_le])

text \<open>
  What a reader of the name finds: the requested name, up to 63 characters, but with one
  stale character of the old name behind it when the old name was longer.
\<close>

lemma nd_set_name_str:
  assumes "length dst = BUFFER_NAME_LEN" and "NUL \<notin> set s" and "length s < 63"
  shows "c_str (nd_set_name dst s) = (if dst ! length s = NUL then s else s @ [dst ! length s])"
proof -
  have s: "c_str s = s" using assms(2) by (rule c_str_id)
  have "drop (length s) dst = dst ! length s # dst ! Suc (length s) # drop (Suc (Suc (length s))) dst"
    using assms(1,3) by (simp add: Cons_nth_drop_Suc)
  then have "nd_set_name dst s = s @ dst ! length s # NUL # drop (Suc (Suc (length s))) dst"
    using assms(3) s by (simp add: nd_set_name_def c_strlen_def Let_def list_update_append)
  moreover have "c_str (s @ c # NUL # t) = s @ [c]" if "c \<noteq> NUL" for c t
    using c_str_append_nul [of "s @ [c]" t] assms(2) that by simp
  ultimately show ?thesis
    using assms(2) by (simp add: c_str_append_nul)
qed

lemma nd_set_name_pristine:
  assumes "NUL \<notin> set s" and "length s < 63"
  shows "c_str (nd_set_name (replicate BUFFER_NAME_LEN NUL) s) = s"
  using nd_set_name_str [OF _ assms, of "replicate BUFFER_NAME_LEN NUL"] assms(2) by simp

lemma nd_set_name_terminated:
  assumes "length dst = BUFFER_NAME_LEN" and "dst ! 63 = NUL" and "NUL \<notin> set s"
  shows "nd_set_name dst s ! 63 = NUL"
proof -
  have s: "c_str s = s" using assms(3) by (rule c_str_id)
  show ?thesis
  proof (cases "Suc (length s) = 63")
    case True
    then show ?thesis using assms s by (simp add: nd_set_name_def c_strlen_def Let_def)
  next
    case False
    then show ?thesis
      using assms s by (auto simp: nd_set_name_def c_strlen_def Let_def nth_append)
  qed
qed

section \<open>What the operations keep\<close>

lemma id_fill_free_None: "id_fill_free nds p s = None \<longleftrightarrow> list_all (\<lambda>nd. nd_used nd \<noteq> 0) nds"
  by (induction nds p s rule: id_fill_free.induct) auto

lemma id_fill_free_wf:
  assumes "id_wf nds" and "id_fill_free nds p s = Some nds'"
  shows "\<exists>nd nds0. nds = nd # nds0 \<and> nd_used nd = 0
    \<and> nds' = nd\<lparr>nd_used := 1, nd_name := nd_set_name (nd_name nd) s, nd_ptr := p\<rparr> # nds0"
proof -
  obtain nd nds0 where nds: "nds = nd # nds0" using assms(1) by (cases nds) (auto simp: id_wf_def)
  have "list_all (\<lambda>nd. nd_used nd \<noteq> 0) nds0"
    using assms(1) nds by (auto simp: id_wf_def list_all_iff)
  then have "id_fill_free nds0 p s = None" by (simp add: id_fill_free_None)
  with assms(2) nds show ?thesis by (auto split: if_splits)
qed

lemma id_save_wf:
  assumes "id_wf nds" and "p \<notin> set (id_live nds)" and "NUL \<notin> set s"
    and "id_save err alloc nds p (Some s) = (nds', 0)" and "err \<noteq> 0"
  shows "id_wf nds'" and "set (id_live nds') = insert p (set (id_live nds))" and "p \<noteq> NULL"
proof -
  show p: "p \<noteq> NULL" using assms(4,5) by (auto simp: id_save_def split: if_splits)
  have "id_wf nds' \<and> set (id_live nds') = insert p (set (id_live nds))"
  proof (cases "id_fill_free nds p s")
    case None
    then have "nds' = nds @ [id_new_node p s]"
      using assms(4) p by (auto simp: id_save_def split: if_splits)
    moreover have "list_all (\<lambda>nd. nd_used nd \<noteq> 0) nds" using None by (simp add: id_fill_free_None)
    moreover have "nd_wf (id_new_node p s)"
      using assms(3) by (simp add: nd_wf_def id_new_node_def nd_set_name_terminated)
    ultimately show ?thesis
      using assms(1,2) p by (cases nds) (auto simp: id_wf_def id_new_node_def)
  next
    case (Some nds2)
    then have "nds' = nds2" using assms(4) p by (auto simp: id_save_def split: if_splits)
    with id_fill_free_wf [OF assms(1) Some] obtain nd nds0 where
      "nds = nd # nds0" "nd_used nd = 0"
      "nds' = nd\<lparr>nd_used := 1, nd_name := nd_set_name (nd_name nd) s, nd_ptr := p\<rparr> # nds0"
      by blast
    then show ?thesis
      using assms(1,2,3) p by (auto simp: id_wf_def nd_wf_def nd_set_name_terminated)
  qed
  then show "id_wf nds'" and "set (id_live nds') = insert p (set (id_live nds))" by simp_all
qed

lemma id_save_fail:
  "id_save err alloc nds p name = (nds', r) \<Longrightarrow> r \<noteq> 0 \<Longrightarrow> nds' = nds"
  by (auto simp: id_save_def split: option.splits if_splits)

lemma id_unlink_live: "id_live (id_unlink nds p) = remove1 p (id_live nds)"
  by (induction nds p rule: id_unlink.induct) auto

lemma id_unlink_list_all: "list_all P nds \<Longrightarrow> list_all P (id_unlink nds p)"
  by (induction nds p rule: id_unlink.induct) auto

lemma id_reset_live: "id_live (id_reset nds p) = remove1 p (id_live nds)"
  by (cases nds) (auto simp: id_unlink_live)

lemma id_reset_wf:
  assumes "id_wf nds"
  shows "id_wf (id_reset nds p)"
proof -
  have "NULL \<notin> set (id_live (id_reset nds p))" and "distinct (id_live (id_reset nds p))"
    using assms by (auto simp: id_reset_live id_wf_def dest: notin_set_remove1)
  with assms show ?thesis
    by (cases nds) (auto simp: id_wf_def nd_wf_def id_unlink_list_all)
qed

lemma id_reset_valid:
  "id_wf nds \<Longrightarrow> id_is_valid (id_reset nds p) q \<longleftrightarrow> id_is_valid nds q \<and> q \<noteq> p"
  by (auto simp: id_is_valid_iff id_reset_live id_wf_def)

text \<open>Looking a name up: nodes with other names are passed over.\<close>

lemma id_open_skip:
  assumes "\<not> id_name_used nds s" and "c_strlen s < BUFFER_NAME_LEN"
  shows "id_open (nds @ nds') s = id_open nds' s"
  using assms
  by (induction nds) (auto simp: nd_open_len_def c_strncmp_eq_def c_strlen_def split: if_splits)

lemma id_open_hit:
  assumes "nd_used nd = 1" and "c_str (nd_name nd) = c_str s" and "0 < c_strlen s"
    and "c_strlen s < BUFFER_NAME_LEN"
  shows "id_open (nd # nds) s = nd_ptr nd"
  using assms by (simp add: nd_open_len_def c_strncmp_eq_def c_strlen_def)

lemma id_open_empty: "c_strlen s = 0 \<Longrightarrow> id_open nds s = -1"
  by (induction nds) (auto simp: nd_open_len_def)

text \<open>
  Save, then open: the name finds the pointer when it was saved in a new node or in a head
  that never had a longer name (in particular the pristine head).
\<close>

lemma id_open_save:
  assumes wf: "id_wf nds" and nonnul: "NUL \<notin> set s" and len: "0 < length s" "length s < 63"
    and save: "id_save err alloc nds p (Some s) = (nds', 0)" and err: "err \<noteq> 0"
    and hd: "nd_used (hd nds) = 0 \<Longrightarrow> nd_name (hd nds) ! length s = NUL"
  shows "id_open nds' s = p"
proof -
  have s: "c_str s = s" using nonnul by (rule c_str_id)
  have unused: "\<not> id_name_used nds s" and p: "p \<noteq> NULL"
    using save err by (auto simp: id_save_def split: if_splits)
  show ?thesis
  proof (cases "id_fill_free nds p s")
    case None
    then have "nds' = nds @ [id_new_node p s]"
      using save p unused by (auto simp: id_save_def split: if_splits)
    moreover have "c_str (nd_name (id_new_node p s)) = s"
      using nonnul len by (simp add: id_new_node_def nd_set_name_pristine)
    ultimately show ?thesis
      using s len unused id_open_hit [of "id_new_node p s" s "[]"]
      by (simp add: id_open_skip c_strlen_def id_new_node_def del: id_open.simps)
  next
    case (Some nds2)
    with save p unused have "nds' = nds2" by (auto simp: id_save_def)
    with id_fill_free_wf [OF wf Some] obtain nd nds0 where
      nd: "nds = nd # nds0" "nd_used nd = 0" and nds':
      "nds' = nd\<lparr>nd_used := 1, nd_name := nd_set_name (nd_name nd) s, nd_ptr := p\<rparr> # nds0"
      by blast
    have "length (nd_name nd) = BUFFER_NAME_LEN" using wf nd by (simp add: id_wf_def nd_wf_def)
    then have "c_str (nd_set_name (nd_name nd) s) = s"
      using nd hd nonnul len by (simp add: nd_set_name_str)
    then show ?thesis using nds' s len by (simp add: id_open_hit c_strlen_def del: id_open.simps)
  qed
qed

text \<open>
  The registry as a map from names to pointers, for names that fit into a node: saving a name
  that is not used adds it to the map and leaves the other names alone.
\<close>

definition plain_name :: "string \<Rightarrow> bool" where
  "plain_name s \<longleftrightarrow> NUL \<notin> set s \<and> 0 < length s \<and> length s < 63"

definition id_pristine :: "id_list \<Rightarrow> bool" where
  "id_pristine nds \<longleftrightarrow> (nd_used (hd nds) = 0 \<longrightarrow> nd_name (hd nds) = replicate BUFFER_NAME_LEN NUL)"

lemma plain_nameD:
  assumes "plain_name s"
  shows "c_str s = s" "c_strlen s = length s" "0 < length s" "length s < BUFFER_NAME_LEN"
  using assms by (simp_all add: plain_name_def c_str_id c_strlen_def)

lemma id_name_used_append: "id_name_used (nds @ nds') s \<longleftrightarrow> id_name_used nds s \<or> id_name_used nds' s"
  by (induction nds) auto

lemma id_open_other:
  assumes "plain_name t" and "c_str (nd_name nd) \<noteq> t"
  shows "id_open (nds @ nd # nds') t = id_open (nds @ nds') t"
  using assms plain_nameD [OF assms(1)]
  by (induction nds) (auto simp: nd_open_len_def c_strncmp_eq_def c_strlen_def)

lemma id_save_cases:
  assumes "id_wf nds" and "id_pristine nds" and "plain_name s"
    and "id_save err alloc nds p (Some s) = (nds', 0)" and "err \<noteq> 0"
  obtains nd where "nds' = nds @ [nd]" "nd_used (hd nds) \<noteq> 0"
      "nd_used nd = 1" "nd_ptr nd = p" "c_str (nd_name nd) = s"
    | hd0 nd tl where "nds = hd0 # tl" "nds' = nd # tl" "nd_used hd0 = 0" "nd_used nd = 1"
      "nd_ptr nd = p" "c_str (nd_name nd) = s"
proof -
  have p: "p \<noteq> NULL" and unused: "\<not> id_name_used nds s"
    using assms(4,5) by (auto simp: id_save_def split: if_splits)
  have nul: "NUL \<notin> set s" "length s < 63" using assms(3) by (simp_all add: plain_name_def)
  show ?thesis
  proof (cases "id_fill_free nds p s")
    case None
    then have "nds' = nds @ [id_new_node p s]"
      using assms(4) p unused by (auto simp: id_save_def split: if_splits)
    moreover have "nd_used (hd nds) \<noteq> 0"
      using None assms(1) by (cases nds) (auto simp: id_fill_free_None id_wf_def)
    ultimately show ?thesis
      using that(1) nul by (simp add: id_new_node_def nd_set_name_pristine)
  next
    case (Some nds2)
    with p unused assms(4) have "nds' = nds2" by (auto simp: id_save_def)
    with id_fill_free_wf [OF assms(1) Some] obtain nd nds0 where
      nd: "nds = nd # nds0" "nd_used nd = 0"
        "nds' = nd\<lparr>nd_used := 1, nd_name := nd_set_name (nd_name nd) s, nd_ptr := p\<rparr> # nds0"
      by blast
    moreover have "c_str (nd_set_name (nd_name nd) s) = s"
      using assms(2) nd nul by (simp add: id_pristine_def nd_set_name_pristine)
    ultimately show ?thesis using that(2) by auto
  qed
qed

lemma id_save_map:
  assumes "id_wf nds" and "id_pristine nds" and "plain_name s"
    and "id_save err alloc nds p (Some s) = (nds', 0)" and "err \<noteq> 0"
  shows "plain_name t \<Longrightarrow> id_name_used nds' t \<longleftrightarrow> t = s \<or> id_name_used nds t"
    and "plain_name t \<Longrightarrow> id_open nds' t = (if t = s then p else id_open nds t)"
    and "id_pristine nds'"
proof -
  have same: "id_open nds' s = p"
    using assms by (intro id_open_save [OF assms(1) _ _ _ assms(4,5)])
      (auto simp: plain_name_def id_pristine_def)
  have "(plain_name t \<longrightarrow> (id_name_used nds' t \<longleftrightarrow> t = s \<or> id_name_used nds t)
      \<and> (t \<noteq> s \<longrightarrow> id_open nds' t = id_open nds t)) \<and> id_pristine nds'"
    using assms
  proof (cases rule: id_save_cases)
    case (1 nd)
    then show ?thesis
      using assms(1) id_open_other [of t nd nds "[]"]
      by (auto simp: id_name_used_append plain_nameD id_pristine_def id_wf_def simp del: id_open.simps)
  next
    case (2 hd0 nd tl)
    then show ?thesis
      using id_open_other [of t nd "[]" tl]
      by (auto simp: plain_nameD id_pristine_def)
  qed
  with same show "plain_name t \<Longrightarrow> id_name_used nds' t \<longleftrightarrow> t = s \<or> id_name_used nds t"
    and "plain_name t \<Longrightarrow> id_open nds' t = (if t = s then p else id_open nds t)"
    and "id_pristine nds'" by auto
qed

lemma id_open_unused: "plain_name s \<Longrightarrow> \<not> id_name_used nds s \<Longrightarrow> id_open nds s = -1"
  using id_open_skip [of nds s "[]"] by (simp add: plain_nameD)

lemma id_save_ok:
  assumes "p \<noteq> NULL" and "\<not> id_name_used nds s"
  shows "snd (id_save err True nds p (Some s)) = 0"
  using assms by (simp add: id_save_def split: option.splits)

end
