(* ===== verification/Fifo_Interface.thy ===== *)
theory Fifo_Interface
  imports Bcu_Prelude
begin

text \<open>
  The contract of a bounded first-in first-out buffer, as the clients of the byte buffer
  (audio) and of the block buffer (commands) rely on it. A state has a list view and a
  configuration that no operation changes; \<open>put\<close> refuses exactly when the view is as long
  as the configured capacity, and keeps the stored form of an item (a block buffer cuts an
  item to its slot); \<open>get\<close> returns the oldest item. The client facts are proved here once
  from the contract and reach each buffer by its interpretation.
\<close>

section \<open>Bursts and runs\<close>

text \<open>Put items until one is refused; the number accepted and the state.\<close>

fun fifo_puts :: "('a \<Rightarrow> 's \<Rightarrow> 's option) \<Rightarrow> 'a list \<Rightarrow> 's \<Rightarrow> nat \<times> 's" where
  "fifo_puts put [] s = (0, s)"
| "fifo_puts put (x # xs) s =
     (case put x s of
        None \<Rightarrow> (0, s)
      | Some s' \<Rightarrow> (let (n, s'') = fifo_puts put xs s' in (Suc n, s'')))"

text \<open>Get up to \<open>k\<close> items.\<close>

fun fifo_gets :: "('s \<Rightarrow> ('b \<times> 's) option) \<Rightarrow> nat \<Rightarrow> 's \<Rightarrow> 'b list \<times> 's" where
  "fifo_gets get 0 s = ([], s)"
| "fifo_gets get (Suc k) s =
     (case get s of
        None \<Rightarrow> ([], s)
      | Some (y, s') \<Rightarrow> (let (ys, s'') = fifo_gets get k s' in (y # ys, s'')))"

text \<open>Any sequence of puts and gets: the items accepted, the items delivered, the state.\<close>

datatype 'a fifo_op = Put 'a | Get

fun fifo_run :: "('a \<Rightarrow> 's \<Rightarrow> 's option) \<Rightarrow> ('s \<Rightarrow> ('b \<times> 's) option)
    \<Rightarrow> 'a fifo_op list \<Rightarrow> 's \<Rightarrow> 'a list \<times> 'b list \<times> 's" where
  "fifo_run put get [] s = ([], [], s)"
| "fifo_run put get (Put x # ops) s =
     (case put x s of
        None \<Rightarrow> fifo_run put get ops s
      | Some s' \<Rightarrow> (let (xs, ys, s'') = fifo_run put get ops s' in (x # xs, ys, s'')))"
| "fifo_run put get (Get # ops) s =
     (case get s of
        None \<Rightarrow> fifo_run put get ops s
      | Some (y, s') \<Rightarrow> (let (xs, ys, s'') = fifo_run put get ops s' in (xs, y # ys, s'')))"

section \<open>The contract\<close>

locale bounded_fifo =
  fixes inv :: "'s \<Rightarrow> bool"
    and view :: "'s \<Rightarrow> 'b list"
    and conf :: "'s \<Rightarrow> 'c"
    and cap :: "'c \<Rightarrow> nat"
    and store :: "'c \<Rightarrow> 'a \<Rightarrow> 'b"
    and put :: "'a \<Rightarrow> 's \<Rightarrow> 's option"
    and get :: "'s \<Rightarrow> ('b \<times> 's) option"
  assumes view_bounded: "inv s \<Longrightarrow> length (view s) \<le> cap (conf s)"
    and put_refused: "inv s \<Longrightarrow> put x s = None \<longleftrightarrow> length (view s) = cap (conf s)"
    and put_accepted: "inv s \<Longrightarrow> put x s = Some s' \<Longrightarrow>
      inv s' \<and> view s' = view s @ [store (conf s) x] \<and> conf s' = conf s"
    and get_refused: "inv s \<Longrightarrow> get s = None \<longleftrightarrow> view s = []"
    and get_delivers: "inv s \<Longrightarrow> get s = Some (y, s') \<Longrightarrow>
      inv s' \<and> view s = y # view s' \<and> conf s' = conf s"
begin

lemma puts_spec:
  assumes "inv s" and "fifo_puts put xs s = (n, s')"
  shows "inv s' \<and> conf s' = conf s
    \<and> n = min (length xs) (cap (conf s) - length (view s))
    \<and> view s' = view s @ map (store (conf s)) (take n xs)"
  using assms
proof (induction xs arbitrary: s n)
  case Nil
  then show ?case by simp
next
  case (Cons x xs)
  show ?case
  proof (cases "put x s")
    case None
    with Cons.prems show ?thesis by (simp add: put_refused)
  next
    case (Some t)
    obtain m where m: "fifo_puts put xs t = (m, s')" "n = Suc m"
      using Cons.prems Some by (auto split: prod.splits)
    have t: "inv t" "view t = view s @ [store (conf s) x]" "conf t = conf s"
      using put_accepted [OF Cons.prems(1) Some] by simp_all
    have "length (view s) < cap (conf s)"
      using view_bounded [OF Cons.prems(1)] put_refused [OF Cons.prems(1), of x] Some by simp
    then show ?thesis using Cons.IH [OF t(1) m(1)] t m(2) by simp
  qed
qed

lemma gets_spec:
  assumes "inv s" and "fifo_gets get k s = (ys, s')"
  shows "inv s' \<and> conf s' = conf s \<and> ys = take k (view s) \<and> view s' = drop k (view s)"
  using assms
proof (induction k arbitrary: s ys)
  case 0
  then show ?case by simp
next
  case (Suc k)
  show ?case
  proof (cases "get s")
    case None
    with Suc.prems show ?thesis by (simp add: get_refused)
  next
    case (Some r)
    obtain y t where r: "r = (y, t)" by (cases r)
    obtain zs where zs: "fifo_gets get k t = (zs, s')" "ys = y # zs"
      using Suc.prems Some r by (auto split: prod.splits)
    have "inv t" "view s = y # view t" "conf t = conf s"
      using get_delivers [OF Suc.prems(1)] Some r by simp_all
    with Suc.IH zs show ?thesis by simp
  qed
qed

text \<open>Nothing is lost, invented or reordered by any sequence of operations.\<close>

lemma run_spec:
  assumes "inv s" and "fifo_run put get ops s = (xs, ys, s')"
  shows "inv s' \<and> conf s' = conf s \<and> view s @ map (store (conf s)) xs = ys @ view s'"
  using assms
proof (induction ops arbitrary: s xs ys)
  case Nil
  then show ?case by simp
next
  case (Cons a ops)
  show ?case
  proof (cases a)
    case (Put x)
    show ?thesis
    proof (cases "put x s")
      case None
      with Cons Put show ?thesis by simp
    next
      case (Some t)
      with Cons.prems Put obtain zs where "fifo_run put get ops t = (zs, ys, s')" "xs = x # zs"
        by (auto split: prod.splits)
      with Cons.IH put_accepted [OF Cons.prems(1) Some] show ?thesis by fastforce
    qed
  next
    case Get
    show ?thesis
    proof (cases "get s")
      case None
      with Cons Get show ?thesis by simp
    next
      case (Some r)
      obtain y t where r: "r = (y, t)" by (cases r)
      with Cons.prems Some Get obtain zs where "fifo_run put get ops t = (xs, zs, s')" "ys = y # zs"
        by (auto split: prod.splits)
      with Cons.IH get_delivers [OF Cons.prems(1)] Some r show ?thesis by fastforce
    qed
  qed
qed

lemma put_get_empty:
  assumes "inv s" and "view s = []" and "put x s = Some t"
  shows "\<exists>u. get t = Some (store (conf s) x, u) \<and> view u = []"
proof -
  have t: "inv t" "view t = [store (conf s) x]" using put_accepted [OF assms(1,3)] assms(2) by simp_all
  then obtain r where "get t = Some r" using get_refused [of t] by auto
  moreover obtain y u where "r = (y, u)" by (cases r)
  ultimately show ?thesis using get_delivers [OF t(1)] t(2) by fastforce
qed

end

end
