(* ===== verification/Char_Buffer.thy ===== *)
theory Char_Buffer
  imports Id_Registry Fifo_Interface
begin

text \<open>
  The byte buffers of \<open>buffer_read_write_fun.cxx\<close> (\<open>char_buffer_t\<close>): a ring of
  \<open>buffer_size\<close> bytes between \<open>pb_head\<close> and \<open>pb_tail\<close>, read at \<open>pb_readfrom\<close> and written at
  \<open>pb_writeto\<close>, one cell always free. The ring holds the audio on its way to and from the
  network. Buffers live in a store indexed by their identifier (the address of the struct)
  and are registered by name in an identifier list; every operation first checks that its
  identifier is registered.
\<close>

section \<open>State\<close>

abbreviation (input) errBUFFER_FULL :: int where "errBUFFER_FULL \<equiv> -1"
abbreviation (input) errBUFFER_EMPTY :: int where "errBUFFER_EMPTY \<equiv> -2"
abbreviation (input) errBUFFER_POINTER_ERROR :: int where "errBUFFER_POINTER_ERROR \<equiv> -3"
abbreviation (input) errBUFFER_RW_BUSY :: int where "errBUFFER_RW_BUSY \<equiv> -4"

text \<open>
  \<open>char_buffer_t\<close>; \<open>cb_mem\<close> is the block of bytes allocated at \<open>pb_head\<close>. Addresses inside
  the block are natural numbers, so that pointer differences are those of the code.
\<close>

record char_buffer =
  cb_head :: nat
  cb_tail :: nat
  cb_writeto :: nat
  cb_readfrom :: nat
  cb_size :: nat
  cb_clear_count :: byte
  cb_mem :: "byte list"

record char_heap =
  ch_ids :: id_list
  ch_bufs :: "ptr \<Rightarrow> char_buffer"

definition cb_load :: "char_buffer \<Rightarrow> nat \<Rightarrow> byte" where
  "cb_load b p = cb_mem b ! (p - cb_head b)"

definition cb_store :: "char_buffer \<Rightarrow> nat \<Rightarrow> byte \<Rightarrow> char_buffer" where
  "cb_store b p x = b\<lparr>cb_mem := (cb_mem b)[p - cb_head b := x]\<rparr>"

definition cb_step :: "char_buffer \<Rightarrow> nat \<Rightarrow> nat" where
  "cb_step b p = (if p + 1 \<ge> cb_tail b then cb_head b else p + 1)"

definition ch_upd :: "char_heap \<Rightarrow> ptr \<Rightarrow> char_buffer \<Rightarrow> char_heap" where
  "ch_upd h p b = h\<lparr>ch_bufs := (ch_bufs h)(p := b)\<rparr>"

definition CharBufferIsValid :: "char_heap \<Rightarrow> ptr \<Rightarrow> bool" where
  "CharBufferIsValid h p = (if p = NULL then False else id_is_valid (ch_ids h) p)"

section \<open>Naming, creation, deletion\<close>

definition CharBufferIdReset :: "char_heap \<Rightarrow> ptr \<Rightarrow> char_heap" where
  "CharBufferIdReset h p =
     (if p = NULL then h else h\<lparr>ch_ids := id_reset (ch_ids h) p\<rparr>)"

definition CharBufferOpen :: "char_heap \<Rightarrow> string option \<Rightarrow> ptr" where
  "CharBufferOpen h name =
     (case name of None \<Rightarrow> -1 | Some s \<Rightarrow> id_open (ch_ids h) s)"

definition CharBufferPointerSave :: "bool \<Rightarrow> char_heap \<Rightarrow> ptr \<Rightarrow> string option \<Rightarrow> char_heap \<times> int" where
  "CharBufferPointerSave node_ok h p name =
     (let (nds, r) = id_save (-1) node_ok (ch_ids h) p name in (h\<lparr>ch_ids := nds\<rparr>, r))"

text \<open>
  What the allocator returns to \<open>CharBufferCreate\<close>: the address of the struct and of the
  bytes (0 for \<open>NULL\<close>), whether a list node could be allocated, and the uninitialised
  contents that the code does not set (\<open>clear_count\<close> and the bytes).
\<close>

record cb_alloc =
  ca_struct :: ptr
  ca_head :: nat
  ca_node :: bool
  ca_clear :: byte
  ca_junk :: "byte list"

definition cb_new :: "cb_alloc \<Rightarrow> nat \<Rightarrow> char_buffer" where
  "cb_new a buffer_size =
     \<lparr>cb_head = ca_head a, cb_tail = ca_head a + buffer_size, cb_writeto = ca_head a,
      cb_readfrom = ca_head a, cb_size = buffer_size, cb_clear_count = ca_clear a, cb_mem = ca_junk a\<rparr>"

definition CharBufferCreate :: "cb_alloc \<Rightarrow> char_heap \<Rightarrow> nat \<Rightarrow> string option \<Rightarrow> char_heap \<times> ptr" where
  "CharBufferCreate a h buffer_size name =
     (case name of
        None \<Rightarrow> (h, NULL)
      | Some s \<Rightarrow>
          if buffer_size > 0 \<and> ca_struct a \<noteq> NULL \<and> ca_head a \<noteq> 0
          then (let h1 = ch_upd h (ca_struct a) (cb_new a buffer_size);
                    (h2, r) = CharBufferPointerSave (ca_node a) h1 (ca_struct a) (Some s)
                in if r = 0 then (h2, ca_struct a) else (h2, NULL))
          else (h, NULL))"

definition CharBufferDelete :: "char_heap \<Rightarrow> ptr \<Rightarrow> char_heap" where
  "CharBufferDelete h p =
     (if \<not> CharBufferIsValid h p then h else CharBufferIdReset h p)"

section \<open>Writing and reading\<close>

text \<open>One turn of the loop of \<open>CharBufferWrite\<close>; \<open>None\<close> when the next cell is the read cell.\<close>

definition cb_put :: "byte \<Rightarrow> char_buffer \<Rightarrow> char_buffer option" where
  "cb_put x b =
     (if cb_step b (cb_writeto b) = cb_readfrom b then None
      else Some ((cb_store b (cb_writeto b) x)\<lparr>cb_writeto := cb_step b (cb_writeto b)\<rparr>))"

fun cb_write_loop :: "char_buffer \<Rightarrow> byte list \<Rightarrow> int \<Rightarrow> int \<Rightarrow> char_buffer \<times> int" where
  "cb_write_loop b [] copy_bytes xreturn = (b, xreturn)"
| "cb_write_loop b (x # src) copy_bytes xreturn =
     (case cb_put x b of
        None \<Rightarrow> (b, if copy_bytes = 0 then errBUFFER_FULL else xreturn)
      | Some b' \<Rightarrow> cb_write_loop b' src (copy_bytes + 1) (copy_bytes + 1))"

definition CharBufferWrite :: "char_heap \<Rightarrow> ptr \<Rightarrow> byte list option \<Rightarrow> nat \<Rightarrow> char_heap \<times> int" where
  "CharBufferWrite h p psrc data_real_size =
     (case psrc of
        None \<Rightarrow> (h, errBUFFER_POINTER_ERROR)
      | Some src \<Rightarrow>
          if \<not> CharBufferIsValid h p then (h, errBUFFER_POINTER_ERROR)
          else (let (b, r) = cb_write_loop (ch_bufs h p) (take data_real_size src) 0 0
                in (ch_upd h p b, r)))"

text \<open>One turn of the loop of \<open>CharBufferRead\<close>; \<open>None\<close> when the buffer is empty.\<close>

definition cb_get :: "char_buffer \<Rightarrow> (byte \<times> char_buffer) option" where
  "cb_get b =
     (if cb_writeto b = cb_readfrom b then None
      else Some (cb_load b (cb_readfrom b), b\<lparr>cb_readfrom := cb_step b (cb_readfrom b)\<rparr>))"

text \<open>
  The loop of \<open>CharBufferRead\<close>; \<open>room\<close> is \<open>dest_buffer_size - copy_bytes\<close>, and \<open>dest\<close> the
  bytes already copied. The emptiness test comes before the test of the room.
\<close>

fun cb_read_loop :: "char_buffer \<Rightarrow> nat \<Rightarrow> byte list \<Rightarrow> int \<Rightarrow> char_buffer \<times> byte list \<times> int" where
  "cb_read_loop b room dest xreturn =
     (case cb_get b of
        None \<Rightarrow> (b, dest, if dest = [] then errBUFFER_EMPTY else xreturn)
      | Some (x, b') \<Rightarrow>
          (case room of
             0 \<Rightarrow> (b, dest, xreturn)
           | Suc room' \<Rightarrow> cb_read_loop b' room' (dest @ [x]) (int (length dest) + 1)))"

declare cb_read_loop.simps [simp del]

text \<open>The result is the heap, the bytes stored in the caller's area, and the return value.\<close>

definition CharBufferRead :: "char_heap \<Rightarrow> ptr \<Rightarrow> bool \<Rightarrow> nat \<Rightarrow> char_heap \<times> byte list \<times> int" where
  "CharBufferRead h p dest_null dest_size =
     (if \<not> CharBufferIsValid h p \<or> dest_null then (h, [], errBUFFER_POINTER_ERROR)
      else (let (b, out, r) = cb_read_loop (ch_bufs h p) dest_size [] 0
            in (ch_upd h p b, out, r)))"

section \<open>Enquiries\<close>

definition cb_free :: "char_buffer \<Rightarrow> int" where
  "cb_free b =
     (if cb_step b (cb_writeto b) = cb_readfrom b then errBUFFER_FULL
      else if cb_readfrom b \<le> cb_writeto b
      then int (cb_size b) - int (cb_writeto b - cb_readfrom b) - 1
      else int (cb_readfrom b) - int (cb_writeto b) - 1)"

definition CharBufferIsFull :: "char_heap \<Rightarrow> ptr \<Rightarrow> int" where
  "CharBufferIsFull h p =
     (if \<not> CharBufferIsValid h p then errBUFFER_POINTER_ERROR else cb_free (ch_bufs h p))"

definition CharBufferCurrentBytes :: "char_heap \<Rightarrow> ptr \<Rightarrow> int" where
  "CharBufferCurrentBytes h p =
     (if \<not> CharBufferIsValid h p then errBUFFER_POINTER_ERROR
      else (let b = ch_bufs h p in
        if cb_step b (cb_writeto b) = cb_readfrom b then errBUFFER_FULL
        else int (cb_size b) -
          (if cb_readfrom b \<le> cb_writeto b
           then int (cb_size b) - int (cb_writeto b - cb_readfrom b) - 1
           else int (cb_readfrom b) - int (cb_writeto b) - 1)))"

text \<open>
  \<open>CharBufferCurrentReadPointer\<close>: the read pointer, the bytes readable in all and the bytes
  readable before the end of the block (its two out parameters); \<open>None\<close> is \<open>NULL\<close>.
\<close>

definition CharBufferCurrentReadPointer :: "char_heap \<Rightarrow> ptr \<Rightarrow> (nat \<times> nat \<times> nat) option" where
  "CharBufferCurrentReadPointer h p =
     (if \<not> CharBufferIsValid h p then None
      else (let b = ch_bufs h p in
        if cb_readfrom b \<le> cb_writeto b
        then Some (cb_readfrom b, cb_writeto b - cb_readfrom b, cb_writeto b - cb_readfrom b)
        else Some (cb_readfrom b,
          (cb_tail b - cb_readfrom b) + (cb_writeto b - cb_head b),
          cb_tail b - cb_readfrom b)))"

section \<open>Moving the read pointer\<close>

text \<open>
  The pointer moves of \<open>CharBufferUpdateCurrentReadPointer\<close> for \<open>n = origin_len - left_len\<close>
  (an unsigned 32-bit difference) bytes consumed by a driver that read them in place. The
  sum of a pointer and \<open>n\<close> is not reduced: a pointer past the address space has no value in C.
\<close>

definition cb_advance :: "char_buffer \<Rightarrow> nat \<Rightarrow> char_buffer" where
  "cb_advance b n =
     (if cb_readfrom b = cb_writeto b then b
      else if cb_readfrom b < cb_writeto b
      then (let tmp_rd = cb_readfrom b + n
            in b\<lparr>cb_readfrom := (if tmp_rd \<ge> cb_writeto b then cb_writeto b else tmp_rd)\<rparr>)
      else (let tmp_rd = cb_readfrom b + n in
        if tmp_rd \<ge> cb_tail b
        then (let delta_1 = cb_tail b - cb_readfrom b;
                  delta_2 = cb_writeto b - cb_head b;
                  delta_3 = n - delta_1
              in b\<lparr>cb_readfrom := cb_head b + (if delta_3 \<ge> delta_2 then delta_2 else delta_3)\<rparr>)
        else b\<lparr>cb_readfrom := tmp_rd\<rparr>))"

definition CharBufferUpdateCurrentReadPointer :: "char_heap \<Rightarrow> ptr \<Rightarrow> 32 word \<Rightarrow> 32 word \<Rightarrow> char_heap" where
  "CharBufferUpdateCurrentReadPointer h p origin_len left_len =
     (if \<not> CharBufferIsValid h p then h
      else ch_upd h p (cb_advance (ch_bufs h p) (unat (origin_len - left_len))))"

text \<open>The second version undoes the move when the buffer was cleared in between.\<close>

definition CharBufferUpdateCurrentReadPointer2 :: "char_heap \<Rightarrow> ptr \<Rightarrow> 32 word \<Rightarrow> 32 word \<Rightarrow> byte \<Rightarrow> char_heap" where
  "CharBufferUpdateCurrentReadPointer2 h p origin_len left_len last_clear_flag =
     (if \<not> CharBufferIsValid h p then h
      else (let b = ch_bufs h p;
                b' = cb_advance b (unat (origin_len - left_len))
            in if cb_readfrom b = cb_writeto b then h
               else if last_clear_flag \<noteq> cb_clear_count b'
               then ch_upd h p (b'\<lparr>cb_readfrom := cb_readfrom b, cb_writeto := cb_writeto b\<rparr>)
               else ch_upd h p b'))"

text \<open>The pointer moves of \<open>SingleThreadCharBufferBackWrite\<close>; \<open>back_len\<close> is a signed int.\<close>

definition cb_back :: "char_buffer \<Rightarrow> int \<Rightarrow> char_buffer" where
  "cb_back b back_len =
     (let rd = int (cb_readfrom b); wr = int (cb_writeto b);
          hd = int (cb_head b); tl = int (cb_tail b)
      in if rd \<le> wr
         then (if rd - hd \<ge> back_len then b\<lparr>cb_readfrom := nat (rd - back_len)\<rparr>
               else if (rd - hd) + (tl - wr - 1) \<ge> back_len
               then b\<lparr>cb_readfrom := nat (tl - (back_len - (rd - hd)))\<rparr>
               else b)
         else (if rd - wr - 1 \<ge> back_len then b\<lparr>cb_readfrom := nat (rd - back_len)\<rparr> else b))"

definition SingleThreadCharBufferBackWrite :: "char_heap \<Rightarrow> ptr \<Rightarrow> int \<Rightarrow> char_heap \<times> int" where
  "SingleThreadCharBufferBackWrite h p back_len =
     (if \<not> CharBufferIsValid h p then (h, errBUFFER_POINTER_ERROR)
      else (ch_upd h p (cb_back (ch_bufs h p) back_len), 0))"

section \<open>Clearing\<close>

definition CharBufferClear :: "char_heap \<Rightarrow> ptr \<Rightarrow> char_heap" where
  "CharBufferClear h p =
     (if \<not> CharBufferIsValid h p then h
      else (let b = ch_bufs h p
            in ch_upd h p (b\<lparr>cb_writeto := cb_head b, cb_readfrom := cb_head b,
                             cb_clear_count := cb_clear_count b + 1\<rparr>)))"

definition CharBufferBrush :: "char_heap \<Rightarrow> ptr \<Rightarrow> char_heap" where
  "CharBufferBrush h p =
     (if \<not> CharBufferIsValid h p then h
      else ch_upd h p ((ch_bufs h p)\<lparr>cb_readfrom := cb_head (ch_bufs h p)\<rparr>))"

definition CharBufferCheckClearFlag :: "char_heap \<Rightarrow> ptr \<Rightarrow> int" where
  "CharBufferCheckClearFlag h p =
     (if \<not> CharBufferIsValid h p then -1 else int (unat (cb_clear_count (ch_bufs h p))))"

section \<open>The invariant and the contents\<close>

text \<open>
  The pointers stay inside the block; the contents are the bytes from the read pointer up to
  the write pointer, going round the end of the block.
\<close>

definition cb_inv :: "char_buffer \<Rightarrow> bool" where
  "cb_inv b \<longleftrightarrow> 0 < cb_size b \<and> cb_tail b = cb_head b + cb_size b
     \<and> length (cb_mem b) = cb_size b
     \<and> cb_head b \<le> cb_readfrom b \<and> cb_readfrom b < cb_tail b
     \<and> cb_head b \<le> cb_writeto b \<and> cb_writeto b < cb_tail b"

definition cb_rd :: "char_buffer \<Rightarrow> nat" where
  "cb_rd b = cb_readfrom b - cb_head b"

definition cb_wr :: "char_buffer \<Rightarrow> nat" where
  "cb_wr b = cb_writeto b - cb_head b"

definition cb_count :: "char_buffer \<Rightarrow> nat" where
  "cb_count b = ring_count (cb_size b) (cb_rd b) (cb_wr b)"

definition cb_view :: "char_buffer \<Rightarrow> byte list" where
  "cb_view b = ring_view (cb_mem b) (cb_rd b) (cb_count b)"

lemma cb_rd_wr_simps [simp]:
  "cb_rd (b\<lparr>cb_readfrom := v\<rparr>) = v - cb_head b"
  "cb_wr (b\<lparr>cb_readfrom := v\<rparr>) = cb_wr b"
  "cb_wr (b\<lparr>cb_writeto := v\<rparr>) = v - cb_head b"
  "cb_rd (b\<lparr>cb_writeto := v\<rparr>) = cb_rd b"
  by (simp_all add: cb_rd_def cb_wr_def)

lemma cb_view_length [simp]: "length (cb_view b) = cb_count b"
  by (simp add: cb_view_def)

lemma cb_invD:
  assumes "cb_inv b"
  shows "0 < cb_size b" "length (cb_mem b) = cb_size b"
    "cb_rd b < cb_size b" "cb_wr b < cb_size b"
    "cb_readfrom b = cb_head b + cb_rd b" "cb_writeto b = cb_head b + cb_wr b"
    "cb_tail b = cb_head b + cb_size b" "cb_count b < cb_size b"
  using assms
  by (auto simp: cb_inv_def cb_rd_def cb_wr_def cb_count_def intro!: ring_count_less)

lemma cb_inv_range:
  "cb_inv b \<Longrightarrow> length (cb_mem b) = cb_tail b - cb_head b
     \<and> cb_readfrom b \<in> {cb_head b..<cb_tail b} \<and> cb_writeto b \<in> {cb_head b..<cb_tail b}"
  by (auto simp: cb_inv_def)

lemma cb_step_ring:
  "cb_inv b \<Longrightarrow> r < cb_size b \<Longrightarrow> cb_step b (cb_head b + r) = cb_head b + ring_next (cb_size b) r"
  by (auto simp: cb_inv_def cb_step_def ring_next_def)

lemma cb_step_full:
  "cb_inv b \<Longrightarrow> cb_step b (cb_writeto b) = cb_readfrom b \<longleftrightarrow> cb_count b = cb_size b - 1"
  using ring_count_full_iff [of "cb_rd b" "cb_size b" "cb_wr b"]
  by (simp add: cb_invD(3,4,5,6) cb_step_ring cb_count_def)

lemma cb_empty: "cb_inv b \<Longrightarrow> cb_writeto b = cb_readfrom b \<longleftrightarrow> cb_count b = 0"
  using ring_count_0_iff [of "cb_rd b" "cb_size b" "cb_wr b"]
  by (auto simp: cb_invD(3,4,5,6) cb_count_def)

lemma cb_put_accepted:
  assumes inv: "cb_inv b" and put: "cb_put x b = Some b'"
  shows "cb_inv b' \<and> cb_view b' = cb_view b @ [x] \<and> cb_size b' = cb_size b"
proof -
  note d = cb_invD [OF inv]
  let ?N = "cb_size b"
  have nx: "cb_step b (cb_writeto b) = cb_head b + ring_next ?N (cb_wr b)"
    using cb_step_ring [OF inv d(4)] d(6) by simp
  have room: "cb_count b \<noteq> ?N - 1" and
    b': "b' = (cb_store b (cb_writeto b) x)\<lparr>cb_writeto := cb_head b + ring_next ?N (cb_wr b)\<rparr>"
    using put cb_step_full [OF inv] nx by (auto simp: cb_put_def split: if_splits)
  then have offs: "cb_rd b' = cb_rd b" "cb_wr b' = ring_next ?N (cb_wr b)"
    "cb_size b' = ?N" "cb_mem b' = (cb_mem b)[cb_wr b := x]"
    by (simp_all add: cb_store_def cb_rd_def cb_wr_def)
  moreover have "cb_inv b'"
    using inv b' by (auto simp: cb_inv_def cb_store_def)
  moreover have "cb_count b' = Suc (cb_count b)"
    using room ring_count_full_iff [OF d(3,4)] ring_count_put [OF d(3,4)] offs
    by (simp add: cb_count_def)
  moreover have "cb_wr b = (cb_rd b + cb_count b) mod ?N"
    using ring_count_wr [OF d(3,4)] by (simp add: cb_count_def)
  ultimately show ?thesis
    using d(2,3,8) ring_view_put [of "cb_rd b" "cb_mem b" "cb_count b" "cb_wr b" x]
    by (simp add: cb_view_def)
qed

lemma cb_get_delivers:
  assumes inv: "cb_inv b" and get: "cb_get b = Some (x, b')"
  shows "cb_inv b' \<and> cb_view b = x # cb_view b' \<and> cb_size b' = cb_size b"
proof -
  note d = cb_invD [OF inv]
  let ?N = "cb_size b"
  have nx: "cb_step b (cb_readfrom b) = cb_head b + ring_next ?N (cb_rd b)"
    using cb_step_ring [OF inv d(3)] d(5) by simp
  have "cb_writeto b \<noteq> cb_readfrom b" using get by (auto simp: cb_get_def)
  then have ne: "cb_wr b \<noteq> cb_rd b" using d(5,6) by simp
  have x: "x = cb_mem b ! cb_rd b" and
    b': "b' = b\<lparr>cb_readfrom := cb_head b + ring_next ?N (cb_rd b)\<rparr>"
    using get nx by (auto simp: cb_get_def cb_load_def cb_rd_def split: if_splits)
  have offs: "cb_rd b' = ring_next ?N (cb_rd b)" "cb_wr b' = cb_wr b" "cb_size b' = ?N"
    using b' by (simp_all add: cb_rd_def cb_wr_def)
  moreover have "cb_inv b'" using inv b' by (auto simp: cb_inv_def)
  moreover have "cb_count b = Suc (cb_count b')"
    using ring_count_get [OF d(3,4) ne [symmetric]] offs by (simp add: cb_count_def)
  ultimately show ?thesis
    using d(2,3) x b' ring_view_Suc [of "cb_rd b" "cb_mem b" "cb_count b'"] by (simp add: cb_view_def)
qed

text \<open>The byte buffer is a bounded queue with room for one byte less than its block.\<close>

interpretation cbf: bounded_fifo cb_inv cb_view cb_size "\<lambda>n. n - 1" "\<lambda>_ x. x" cb_put cb_get
proof unfold_locales
  fix s x s' y assume inv: "cb_inv s"
  show "length (cb_view s) \<le> cb_size s - 1" using cb_invD(8) [OF inv] by simp
  show "cb_put x s = None \<longleftrightarrow> length (cb_view s) = cb_size s - 1"
    using cb_step_full [OF inv] by (simp add: cb_put_def)
  show "cb_put x s = Some s' \<Longrightarrow>
    cb_inv s' \<and> cb_view s' = cb_view s @ [x] \<and> cb_size s' = cb_size s"
    by (rule cb_put_accepted [OF inv])
  show "cb_get s = None \<longleftrightarrow> cb_view s = []"
    using cb_empty [OF inv] by (simp add: cb_get_def flip: length_0_conv)
  show "cb_get s = Some (y, s') \<Longrightarrow>
    cb_inv s' \<and> cb_view s = y # cb_view s' \<and> cb_size s' = cb_size s"
    by (rule cb_get_delivers [OF inv])
qed

lemma cb_write_loop_puts:
  "0 \<le> k \<Longrightarrow> cb_write_loop b src k r =
     (let (n, b') = fifo_puts cb_put src b
      in (b', if n > 0 then k + int n else if src = [] then r
              else if k = 0 then errBUFFER_FULL else r))"
proof (induction src arbitrary: b k r)
  case Nil
  then show ?case by simp
next
  case (Cons x src)
  show ?case
  proof (cases "cb_put x b")
    case None
    then show ?thesis by simp
  next
    case (Some b')
    obtain m c where mc: "fifo_puts cb_put src b' = (m, c)" by (cases "fifo_puts cb_put src b'")
    show ?thesis
      using Some mc Cons.prems Cons.IH [of "k + 1" b' "k + 1"] by auto
  qed
qed

lemma cb_read_loop_gets:
  "cb_read_loop b room dest r =
     (let (out, b') = fifo_gets cb_get room b
      in (b', dest @ out, if out \<noteq> [] then int (length (dest @ out))
              else if cb_get b = None \<and> dest = [] then errBUFFER_EMPTY else r))"
proof (induction room arbitrary: b dest r)
  case 0
  then show ?case by (subst cb_read_loop.simps) (auto split: option.splits)
next
  case (Suc room)
  show ?case
  proof (cases "cb_get b")
    case None
    then show ?thesis by (subst cb_read_loop.simps) simp
  next
    case (Some xb)
    obtain x b' where "xb = (x, b')" by (cases xb)
    moreover obtain out c where "fifo_gets cb_get room b' = (out, c)"
      by (cases "fifo_gets cb_get room b'")
    ultimately show ?thesis
      using Some by (subst cb_read_loop.simps) (auto simp: Suc.IH)
  qed
qed

lemma cb_write_loop_spec:
  assumes inv: "cb_inv b" and run: "cb_write_loop b src 0 0 = (b', r)"
  defines "n \<equiv> min (length src) (cb_size b - 1 - cb_count b)"
  shows "cb_inv b'" and "cb_size b' = cb_size b" and "cb_view b' = cb_view b @ take n src"
    and "r = (if src \<noteq> [] \<and> n = 0 then errBUFFER_FULL else int n)"
proof -
  obtain m c where mc: "fifo_puts cb_put src b = (m, c)" by (cases "fifo_puts cb_put src b")
  note s = cbf.puts_spec [OF inv mc]
  then have "m = n" by (simp add: n_def)
  have eqs: "b' = c" "r = (if m > 0 then int m else if src = [] then 0 else errBUFFER_FULL)"
    using mc run by (auto simp: cb_write_loop_puts simp del: cb_write_loop.simps)
  show "cb_inv b'" "cb_size b' = cb_size b" "cb_view b' = cb_view b @ take n src"
    using s eqs(1) \<open>m = n\<close> by simp_all
  show "r = (if src \<noteq> [] \<and> n = 0 then errBUFFER_FULL else int n)"
    using eqs(2) \<open>m = n\<close> by (simp add: n_def)
qed

lemma cb_read_loop_spec:
  assumes inv: "cb_inv b" and run: "cb_read_loop b k [] 0 = (b', out, r)"
  shows "cb_inv b'" and "cb_size b' = cb_size b" and "out = take k (cb_view b)"
    and "cb_view b' = drop k (cb_view b)"
    and "r = (if cb_view b = [] then errBUFFER_EMPTY else int (length out))"
proof -
  obtain ys c where yc: "fifo_gets cb_get k b = (ys, c)" by (cases "fifo_gets cb_get k b")
  note s = cbf.gets_spec [OF inv yc]
  have eqs: "b' = c" "out = ys"
    "r = (if ys \<noteq> [] then int (length ys) else if cb_get b = None then errBUFFER_EMPTY else 0)"
    using yc run by (auto simp: cb_read_loop_gets)
  show "cb_inv b'" "cb_size b' = cb_size b" "out = take k (cb_view b)"
    "cb_view b' = drop k (cb_view b)"
    using s eqs by simp_all
  then show "r = (if cb_view b = [] then errBUFFER_EMPTY else int (length out))"
    using eqs cbf.get_refused [OF inv] by auto
qed

section \<open>The heap invariant\<close>

text \<open>The identifier list is well formed and every registered buffer keeps its invariant.\<close>

definition ch_inv :: "char_heap \<Rightarrow> bool" where
  "ch_inv h \<longleftrightarrow> id_wf (ch_ids h) \<and> (\<forall>p \<in> set (id_live (ch_ids h)). cb_inv (ch_bufs h p))"

lemma ch_upd_simps [simp]:
  "ch_ids (ch_upd h p b) = ch_ids h"
  "ch_bufs (ch_upd h p b) = (ch_bufs h)(p := b)"
  by (simp_all add: ch_upd_def)

lemma ch_upd_back: "ch_upd (ch_upd h p b) p (ch_bufs h p) = h"
  by (simp add: ch_upd_def)

lemma valid_upd [simp]: "CharBufferIsValid (ch_upd h p b) q = CharBufferIsValid h q"
  by (simp add: CharBufferIsValid_def)

lemma ch_valid_live: "ch_inv h \<Longrightarrow> CharBufferIsValid h p \<longleftrightarrow> p \<in> set (id_live (ch_ids h))"
  by (auto simp: CharBufferIsValid_def ch_inv_def id_is_valid_iff id_wf_def)

lemma ch_inv_valid: "ch_inv h \<Longrightarrow> CharBufferIsValid h p \<Longrightarrow> cb_inv (ch_bufs h p)"
  using ch_valid_live by (auto simp: ch_inv_def)

lemma ch_inv_upd [inv_intro]: "ch_inv h \<Longrightarrow> cb_inv b \<Longrightarrow> ch_inv (ch_upd h p b)"
  by (auto simp: ch_inv_def)

lemma cb_new_inv:
  "0 < n \<Longrightarrow> length (ca_junk a) = n \<Longrightarrow> cb_inv (cb_new a n)"
  by (simp add: cb_new_def cb_inv_def)

lemma cb_new_size: "cb_size (cb_new a n) = n"
  by (simp add: cb_new_def)

lemma cb_new_view: "cb_view (cb_new a n) = []"
  by (simp add: cb_view_def cb_count_def cb_rd_def cb_wr_def cb_new_def)

lemma cb_advance_inv [inv_intro]: "cb_inv b \<Longrightarrow> cb_inv (cb_advance b n)"
  by (auto simp: cb_inv_def cb_advance_def Let_def)

lemma cb_advance_view:
  assumes inv: "cb_inv b"
  shows "cb_view (cb_advance b n) = drop n (cb_view b)"
proof -
  note d = cb_invD [OF inv]
  let ?N = "cb_size b" and ?b = "cb_advance b n"
  have same: "cb_mem ?b = cb_mem b" "cb_size ?b = ?N" "cb_wr ?b = cb_wr b"
    by (auto simp: cb_advance_def Let_def)
  have rd: "cb_rd ?b = (if n \<ge> cb_count b then cb_wr b else (cb_rd b + n) mod ?N)"
  proof (cases "cb_rd b \<le> cb_wr b")
    case True
    then show ?thesis
      using d(3,4) by (auto simp: cb_advance_def Let_def cb_count_def ring_count_def d(5-7))
  next
    case False
    then show ?thesis
      using d(3,4)
      by (auto simp: cb_advance_def Let_def cb_count_def ring_count_def d(5-7) mod_if)
  qed
  have "cb_count ?b = cb_count b - n"
    using same rd d(3,4) ring_count_less [OF d(3,4)]
    by (auto simp: cb_count_def ring_count_def mod_if)
  then show ?thesis
    using same rd d(2) by (simp add: cb_view_def ring_view_drop)
qed

section \<open>Putting bytes back\<close>

lemma cb_gets_pointer:
  assumes "cb_inv b" and "fifo_gets cb_get k b = (ys, b')"
  shows "b' = b\<lparr>cb_readfrom := cb_head b + (cb_rd b + min k (cb_count b)) mod cb_size b\<rparr>"
  using assms
proof (induction k arbitrary: b ys)
  case 0
  then show ?case by (simp add: cb_invD(3) flip: cb_invD(5))
next
  case (Suc k)
  show ?case
  proof (cases "cb_get b")
    case None
    then have "cb_count b = 0"
      using cbf.get_refused [OF Suc.prems(1)] by (simp flip: cb_view_length)
    with None Suc.prems show ?thesis by (simp add: cb_invD(3) flip: cb_invD(5))
  next
    case (Some xc)
    obtain x c where xc: "xc = (x, c)" by (cases xc)
    obtain zs where zs: "fifo_gets cb_get k c = (zs, b')"
      using Suc.prems Some xc by (auto split: prod.splits)
    note d = cb_invD [OF Suc.prems(1)]
    have "cb_step b (cb_readfrom b) = cb_head b + (cb_rd b + 1) mod cb_size b"
      using d(3,5) cb_step_ring [OF Suc.prems(1) d(3)] by (simp add: ring_next_mod)
    then have c: "c = b\<lparr>cb_readfrom := cb_head b + (cb_rd b + 1) mod cb_size b\<rparr>"
      using Some xc by (auto simp: cb_get_def split: if_splits)
    note del = cb_get_delivers [OF Suc.prems(1), of x c]
    have "cb_inv c" and view: "cb_view b = x # cb_view c" using del Some xc by simp_all
    have "cb_count b = Suc (cb_count c)" using arg_cong [OF view, of length] by simp
    then show ?thesis
      using Suc.IH [OF \<open>cb_inv c\<close> zs] c by (simp add: mod_simps)
  qed
qed

lemma cb_back_read:
  assumes inv: "cb_inv b" and n: "n \<le> cb_count b"
  shows "cb_back (b\<lparr>cb_readfrom := cb_head b + (cb_rd b + n) mod cb_size b\<rparr>) (int n) = b"
proof -
  note d = cb_invD [OF inv]
  define m where "m = (cb_rd b + n) mod cb_size b"
  have m: "m = (if cb_rd b + n < cb_size b then cb_rd b + n else cb_rd b + n - cb_size b)"
    using n d(3,8) by (simp add: m_def ring_offset)
  have r: "b\<lparr>cb_readfrom := cb_head b + cb_rd b\<rparr> = b" by (simp flip: d(5))
  have nat: "nat (int x - int y) = x - y" "nat (int x + int y) = x + y" for x y by simp_all
  show ?thesis
  proof (cases "cb_rd b \<le> cb_wr b")
    case True
    then have "n \<le> m" and "m = cb_rd b + n" and "m \<le> cb_wr b"
      using n m d(3,4) by (auto simp: cb_count_def ring_count_def)
    then show ?thesis
      by (simp add: cb_back_def Let_def d(6) nat r flip: m_def)
  next
    case False
    show ?thesis
    proof (cases "cb_rd b + n < cb_size b")
      case True
      then have "m = cb_rd b + n" using m by simp
      with False show ?thesis by (simp add: cb_back_def Let_def d(6) nat r flip: m_def)
    next
      case wraps: False
      then have mn: "m = cb_rd b + n - cb_size b" using m by simp
      have "nat (int (cb_tail b) - (int n - int m)) = cb_head b + cb_rd b"
        using mn wraps d(3,7) by simp
      moreover have "m \<le> cb_wr b" "m < n" "int n \<le> int m + (int (cb_size b) - int (cb_wr b) - 1)"
        using mn wraps False n d(3) by (auto simp: cb_count_def ring_count_def)
      ultimately show ?thesis
        using d(7) by (simp add: cb_back_def Let_def d(6) r flip: m_def)
    qed
  qed
qed

lemma cb_back_inv [inv_intro]: "cb_inv b \<Longrightarrow> 0 \<le> n \<Longrightarrow> cb_inv (cb_back b n)"
  by (auto simp: cb_inv_def cb_back_def Let_def)

section \<open>Enquiries\<close>

lemma cb_free_eq:
  assumes inv: "cb_inv b"
  shows "cb_free b = (if cb_count b = cb_size b - 1 then errBUFFER_FULL
                      else int (cb_size b - 1 - cb_count b))"
proof -
  note d = cb_invD [OF inv]
  show ?thesis
  proof (cases "cb_rd b \<le> cb_wr b")
    case True
    then show ?thesis using cb_step_full [OF inv] d(3,4,8)
      by (auto simp: cb_free_def d(5,6) cb_count_def ring_count_def)
  next
    case False
    then show ?thesis using cb_step_full [OF inv] d(3,4,8)
      by (auto simp: cb_free_def d(5,6) cb_count_def ring_count_def)
  qed
qed

lemma current_bytes_eq:
  assumes "ch_inv h" and "CharBufferIsValid h p"
  shows "CharBufferCurrentBytes h p =
    (if cb_count (ch_bufs h p) = cb_size (ch_bufs h p) - 1 then errBUFFER_FULL
     else int (cb_count (ch_bufs h p)) + 1)"
proof -
  let ?b = "ch_bufs h p"
  have inv: "cb_inv ?b" using assms by (rule ch_inv_valid)
  have "CharBufferCurrentBytes h p =
    (if cb_step ?b (cb_writeto ?b) = cb_readfrom ?b then errBUFFER_FULL
     else int (cb_size ?b) - cb_free ?b)"
    using assms(2) by (simp add: CharBufferCurrentBytes_def cb_free_def Let_def)
  then show ?thesis
    using cb_free_eq [OF inv] cb_step_full [OF inv] cb_invD(8) [OF inv] by auto
qed

lemma current_read_pointer:
  assumes "ch_inv h" and "CharBufferIsValid h p"
    and "CharBufferCurrentReadPointer h p = Some (rd, tot, right)"
  shows "tot = cb_count (ch_bufs h p)" and "right \<le> tot"
    and "take right (cb_view (ch_bufs h p))
      = take right (drop (rd - cb_head (ch_bufs h p)) (cb_mem (ch_bufs h p)))"
proof -
  let ?b = "ch_bufs h p"
  note d = cb_invD [OF ch_inv_valid [OF assms(1,2)]]
  have rd: "rd = cb_head ?b + cb_rd ?b" and
    tr: "tot = cb_count ?b \<and> right = min tot (cb_size ?b - cb_rd ?b)"
    using assms(2,3) d(3,4)
    by (auto simp: CharBufferCurrentReadPointer_def Let_def d(5-7) cb_count_def ring_count_def
        split: if_splits)
  then show "tot = cb_count ?b" and "right \<le> tot" by simp_all
  show "take right (cb_view ?b) = take right (drop (rd - cb_head ?b) (cb_mem ?b))"
    using rd tr d(2,3) by (intro nth_equalityI) (auto simp: cb_view_def ring_view_nth)
qed

section \<open>Reachable heaps\<close>

text \<open>
  One call of an operation. A new buffer gets a struct that is not in use and a block of the
  size asked for; names are C strings; \<open>back_len\<close> is what the caller last read.
\<close>

inductive ch_step :: "char_heap \<Rightarrow> char_heap \<Rightarrow> bool" where
  step_create: "\<lbrakk>ca_struct a \<notin> set (id_live (ch_ids h)); length (ca_junk a) = n; NUL \<notin> set s;
      CharBufferCreate a h n (Some s) = (h', p)\<rbrakk> \<Longrightarrow> ch_step h h'"
| step_delete: "ch_step h (CharBufferDelete h p)"
| step_write: "CharBufferWrite h p src n = (h', r) \<Longrightarrow> ch_step h h'"
| step_read: "CharBufferRead h p dest_null n = (h', out, r) \<Longrightarrow> ch_step h h'"
| step_update: "ch_step h (CharBufferUpdateCurrentReadPointer h p origin_len left_len)"
| step_update2: "ch_step h (CharBufferUpdateCurrentReadPointer2 h p origin_len left_len flag)"
| step_back: "\<lbrakk>0 \<le> back_len; SingleThreadCharBufferBackWrite h p back_len = (h', r)\<rbrakk> \<Longrightarrow> ch_step h h'"
| step_clear: "ch_step h (CharBufferClear h p)"
| step_brush: "ch_step h (CharBufferBrush h p)"

inductive ch_reach :: "char_heap \<Rightarrow> bool" where
  reach_init: "ch_reach \<lparr>ch_ids = [id_head_init], ch_bufs = bufs\<rparr>"
| reach_step: "\<lbrakk>ch_reach h; ch_step h h'\<rbrakk> \<Longrightarrow> ch_reach h'"

inductive_cases ch_stepE: "ch_step h h'"

lemma ch_inv_write:
  assumes "ch_inv h" and "CharBufferWrite h p src n = (h', r)"
  shows "ch_inv h'"
  using assms cb_write_loop_spec(1) [OF ch_inv_valid]
  by (auto simp: CharBufferWrite_def split: option.splits if_splits prod.splits intro!: ch_inv_upd)

lemma ch_inv_read:
  assumes "ch_inv h" and "CharBufferRead h p dn n = (h', out, r)"
  shows "ch_inv h'"
  using assms cb_read_loop_spec(1) [OF ch_inv_valid]
  by (auto simp: CharBufferRead_def split: if_splits prod.splits intro!: ch_inv_upd)

lemma ch_inv_delete [inv_intro]: "ch_inv h \<Longrightarrow> ch_inv (CharBufferDelete h p)"
  by (auto simp: CharBufferDelete_def CharBufferIdReset_def ch_inv_def id_reset_wf id_reset_live
      dest: notin_set_remove1)

lemma cb_rewind_inv:
  "cb_inv b \<Longrightarrow> cb_inv (b\<lparr>cb_writeto := cb_head b, cb_readfrom := cb_head b, cb_clear_count := c\<rparr>)"
  "cb_inv b \<Longrightarrow> cb_inv (b\<lparr>cb_readfrom := cb_head b\<rparr>)"
  by (simp_all add: cb_inv_def)

lemma ch_inv_clear [inv_intro]: "ch_inv h \<Longrightarrow> ch_inv (CharBufferClear h p)"
  by (simp add: CharBufferClear_def Let_def ch_inv_upd cb_rewind_inv ch_inv_valid)

lemma ch_inv_brush [inv_intro]: "ch_inv h \<Longrightarrow> ch_inv (CharBufferBrush h p)"
  by (simp add: CharBufferBrush_def ch_inv_upd cb_rewind_inv ch_inv_valid)

lemma ch_inv_update [inv_intro]:
  "ch_inv h \<Longrightarrow> ch_inv (CharBufferUpdateCurrentReadPointer h p ol ll)"
  by (simp add: CharBufferUpdateCurrentReadPointer_def inv_intro ch_inv_valid)

lemma ch_inv_update2 [inv_intro]:
  assumes "ch_inv h"
  shows "ch_inv (CharBufferUpdateCurrentReadPointer2 h p ol ll f)"
proof (cases "CharBufferIsValid h p")
  case True
  then have inv: "cb_inv (ch_bufs h p)" using assms by (rule ch_inv_valid [rotated])
  let ?b = "cb_advance (ch_bufs h p) (unat (ol - ll))"
  have "cb_inv (?b\<lparr>cb_readfrom := cb_readfrom (ch_bufs h p), cb_writeto := cb_writeto (ch_bufs h p)\<rparr>)"
    using inv by (auto simp: cb_inv_def cb_advance_def Let_def)
  with inv assms show ?thesis
    by (simp add: CharBufferUpdateCurrentReadPointer2_def Let_def inv_intro)
qed (use assms in \<open>simp add: CharBufferUpdateCurrentReadPointer2_def\<close>)

lemma char_create_cases:
  assumes "CharBufferCreate a h n (Some s) = (h', p)" and "p \<noteq> NULL"
  shows "p = ca_struct a" and "0 < n" and "ch_bufs h' = (ch_bufs h)(p := cb_new a n)"
    and "id_save (-1) (ca_node a) (ch_ids h) p (Some s) = (ch_ids h', 0)"
  using assms
  by (auto simp: CharBufferCreate_def CharBufferPointerSave_def Let_def split: prod.splits if_splits)

lemma char_create_fail:
  assumes "CharBufferCreate a h n (Some s) = (h', NULL)"
  shows "ch_ids h' = ch_ids h" and "q \<noteq> ca_struct a \<Longrightarrow> ch_bufs h' q = ch_bufs h q"
  using assms
  by (auto simp: CharBufferCreate_def CharBufferPointerSave_def Let_def dest: id_save_fail
      split: prod.splits if_splits)

lemma ch_inv_create:
  assumes h: "ch_inv h" and fresh: "ca_struct a \<notin> set (id_live (ch_ids h))"
    and junk: "length (ca_junk a) = n" and s: "NUL \<notin> set s"
    and create: "CharBufferCreate a h n (Some s) = (h', p)"
  shows "ch_inv h'"
proof (cases "p = NULL")
  case True
  then have "ch_ids h' = ch_ids h" and "\<And>q. q \<noteq> ca_struct a \<Longrightarrow> ch_bufs h' q = ch_bufs h q"
    using char_create_fail [of a h n s h'] create by simp_all
  moreover have "q \<noteq> ca_struct a" if "q \<in> set (id_live (ch_ids h))" for q
    using that fresh by auto
  ultimately show ?thesis using h by (simp add: ch_inv_def)
next
  case False
  note c = char_create_cases [OF create False]
  have wf: "id_wf (ch_ids h)" using h by (simp add: ch_inv_def)
  have "id_wf (ch_ids h')" "set (id_live (ch_ids h')) = insert p (set (id_live (ch_ids h)))"
    using id_save_wf [OF wf _ s c(4)] fresh c(1) by simp_all
  then show ?thesis
    using h c(2,3) junk cb_new_inv by (auto simp: ch_inv_def)
qed

lemma ch_inv_back [inv_intro]:
  "ch_inv h \<Longrightarrow> 0 \<le> n \<Longrightarrow> ch_inv (fst (SingleThreadCharBufferBackWrite h p n))"
  by (simp add: SingleThreadCharBufferBackWrite_def inv_intro ch_inv_valid)

lemma ch_inv_step: "ch_step h h' \<Longrightarrow> ch_inv h \<Longrightarrow> ch_inv h'"
proof (induction rule: ch_step.induct)
  case (step_back n h p h' r)
  then show ?case using ch_inv_back [of h n p] by simp
qed (simp_all add: inv_intro, (erule (1) ch_inv_create ch_inv_write ch_inv_read; assumption?)+)


section \<open>Any sequence of reads and writes\<close>

text \<open>
  A client that writes and reads one buffer; the bytes accepted by the writes and the bytes
  delivered by the reads, in order.
\<close>

datatype char_io = Wr "byte list" | Rd nat

fun char_io_run :: "char_heap \<Rightarrow> ptr \<Rightarrow> char_io list \<Rightarrow> byte list \<times> byte list \<times> char_heap" where
  "char_io_run h p [] = ([], [], h)"
| "char_io_run h p (Wr src # ios) =
     (let (h1, r) = CharBufferWrite h p (Some src) (length src);
          (w, d, h2) = char_io_run h1 p ios
      in (take (nat r) src @ w, d, h2))"
| "char_io_run h p (Rd n # ios) =
     (let (h1, out, r) = CharBufferRead h p False n;
          (w, d, h2) = char_io_run h1 p ios
      in (w, out @ d, h2))"

lemma char_write_view:
  assumes "ch_inv h" and "CharBufferIsValid h p"
    and "CharBufferWrite h p (Some src) (length src) = (h', r)"
  shows "cb_view (ch_bufs h' p) = cb_view (ch_bufs h p) @ take (nat r) src"
    and "CharBufferIsValid h' p"
    and "r = (if src \<noteq> [] \<and> cb_count (ch_bufs h p) = cb_size (ch_bufs h p) - 1 then errBUFFER_FULL
          else int (min (length src) (cb_size (ch_bufs h p) - 1 - cb_count (ch_bufs h p))))"
    and "h' = ch_upd h p (ch_bufs h' p)"
    and "cb_size (ch_bufs h' p) = cb_size (ch_bufs h p)"
proof -
  obtain b where b: "cb_write_loop (ch_bufs h p) src 0 0 = (b, r)" "h' = ch_upd h p b"
    using assms(2,3) by (auto simp: CharBufferWrite_def split: prod.splits)
  note inv = ch_inv_valid [OF assms(1,2)]
  note w = cb_write_loop_spec [OF inv b(1)]
  show r: "r = (if src \<noteq> [] \<and> cb_count (ch_bufs h p) = cb_size (ch_bufs h p) - 1 then errBUFFER_FULL
          else int (min (length src) (cb_size (ch_bufs h p) - 1 - cb_count (ch_bufs h p))))"
    using w(4) cb_invD(1,8) [OF inv] by (auto simp: min_def split: if_splits)
  show "cb_view (ch_bufs h' p) = cb_view (ch_bufs h p) @ take (nat r) src"
    using w(3,4) b(2) by (auto split: if_splits)
  show "CharBufferIsValid h' p" using assms(2) b(2) by simp
  show "h' = ch_upd h p (ch_bufs h' p)" "cb_size (ch_bufs h' p) = cb_size (ch_bufs h p)"
    using b(2) w(2) by simp_all
qed

lemma char_read_view:
  assumes "ch_inv h" and "CharBufferIsValid h p"
    and "CharBufferRead h p False n = (h', out, r)"
  shows "cb_view (ch_bufs h p) = out @ cb_view (ch_bufs h' p)"
    and "CharBufferIsValid h' p"
    and "out = take n (cb_view (ch_bufs h p))"
    and "r = (if cb_view (ch_bufs h p) = [] then errBUFFER_EMPTY else int (length out))"
    and "h' = ch_upd h p (ch_bufs h' p)"
    and "cb_size (ch_bufs h' p) = cb_size (ch_bufs h p)"
proof -
  obtain b where b: "cb_read_loop (ch_bufs h p) n [] 0 = (b, out, r)" "h' = ch_upd h p b"
    using assms(2,3) by (auto simp: CharBufferRead_def split: prod.splits)
  note w = cb_read_loop_spec [OF ch_inv_valid [OF assms(1,2)] b(1)]
  show "out = take n (cb_view (ch_bufs h p))" by (rule w(3))
  show "r = (if cb_view (ch_bufs h p) = [] then errBUFFER_EMPTY else int (length out))" by (rule w(5))
  show "cb_view (ch_bufs h p) = out @ cb_view (ch_bufs h' p)" using w(3,4) b(2) by simp
  show "CharBufferIsValid h' p" using assms(2) b(2) by simp
  show "h' = ch_upd h p (ch_bufs h' p)" "cb_size (ch_bufs h' p) = cb_size (ch_bufs h p)"
    using b(2) w(2) by simp_all
qed

lemma char_io_run_lemma:
  "ch_inv h \<Longrightarrow> CharBufferIsValid h p \<Longrightarrow> char_io_run h p ios = (w, d, h') \<Longrightarrow>
    cb_view (ch_bufs h p) @ w = d @ cb_view (ch_bufs h' p) \<and> ch_inv h'
    \<and> (\<forall>q. q \<noteq> p \<longrightarrow> ch_bufs h' q = ch_bufs h q)"
proof (induction h p ios arbitrary: w d rule: char_io_run.induct)
  case (1 h p)
  then show ?case by simp
next
  case (2 h p src ios)
  obtain h1 r where h1: "CharBufferWrite h p (Some src) (length src) = (h1, r)" by fastforce
  obtain w1 where w1: "char_io_run h1 p ios = (w1, d, h')" "w = take (nat r) src @ w1"
    using 2 h1 by (auto split: prod.splits)
  note v = char_write_view [OF 2(2,3) h1]
  have "ch_bufs h1 q = ch_bufs h q" if "q \<noteq> p" for q using that by (subst v(4)) simp
  with 2(1) [OF h1 [symmetric] refl ch_inv_write [OF 2(2) h1] v(2) w1(1)] v(1) w1(2)
  show ?case by (metis append.assoc)
next
  case (3 h p n ios)
  obtain h1 out r where h1: "CharBufferRead h p False n = (h1, out, r)" by (metis prod.collapse)
  obtain d1 where d1: "char_io_run h1 p ios = (w, d1, h')" "d = out @ d1"
    using 3 h1 by (auto split: prod.splits)
  note v = char_read_view [OF 3(2,3) h1]
  have "ch_bufs h1 q = ch_bufs h q" if "q \<noteq> p" for q using that by (subst v(5)) simp
  with 3(1) [OF h1 [symmetric] refl refl ch_inv_read [OF 3(2) h1] v(2) d1(1)] v(1) d1(2)
  show ?case by (metis append.assoc)
qed

section \<open>A concrete heap\<close>

text \<open>Two buffers: one of four bytes that holds three of them round its end, one empty.\<close>

definition char_demo :: char_heap where
  "char_demo =
     \<lparr>ch_ids = [\<lparr>nd_name = ''A'' @ replicate 63 NUL, nd_ptr = 7, nd_used = 1\<rparr>,
               \<lparr>nd_name = ''B'' @ replicate 63 NUL, nd_ptr = 9, nd_used = 1\<rparr>],
      ch_bufs = (\<lambda>_. \<lparr>cb_head = 200, cb_tail = 203, cb_writeto = 201, cb_readfrom = 201,
                      cb_size = 3, cb_clear_count = 0, cb_mem = [0, 0, 0]\<rparr>)
        (7 := \<lparr>cb_head = 100, cb_tail = 104, cb_writeto = 101, cb_readfrom = 102,
               cb_size = 4, cb_clear_count = 5, cb_mem = [30, 0, 10, 20]\<rparr>)\<rparr>"

lemma char_demo_inv: "ch_inv char_demo"
  by (simp add: char_demo_def ch_inv_def id_wf_def nd_wf_def cb_inv_def)

lemma char_demo_valid: "CharBufferIsValid char_demo 7" "CharBufferIsValid char_demo 9"
  by (simp_all add: char_demo_def CharBufferIsValid_def)

lemmas cb_view_code =
  cb_view_def ring_view_def cb_count_def cb_rd_def cb_wr_def ring_count_def upt_rec

lemma char_demo_view:
  "cb_view (ch_bufs char_demo 7) = [10, 20, 30]" "cb_view (ch_bufs char_demo 9) = []"
  "cb_size (ch_bufs char_demo 7) = 4" "cb_size (ch_bufs char_demo 9) = 3"
  by (simp_all add: char_demo_def cb_view_code)

section \<open>Properties\<close>

text \<open>\<open>CharBufferWrite\<close> appends to the buffer the longest prefix of the source that fits
  (one cell of the block stays free), returns the number of bytes taken, or
  \<open>errBUFFER_FULL\<close> when there is something to write and no room at all, and changes no
  other buffer and no registration.\<close>

lemma char_write_spec:
  assumes "ch_inv h" and "CharBufferIsValid h p"
    and "CharBufferWrite h p (Some src) (length src) = (h', r)"
  defines "room \<equiv> cb_size (ch_bufs h p) - 1 - length (cb_view (ch_bufs h p))"
  shows "cb_view (ch_bufs h' p) = cb_view (ch_bufs h p) @ take room src
    \<and> r = (if src \<noteq> [] \<and> room = 0 then errBUFFER_FULL else int (min (length src) room))
    \<and> ch_ids h' = ch_ids h \<and> (\<forall>q. q \<noteq> p \<longrightarrow> ch_bufs h' q = ch_bufs h q) \<and> ch_inv h'"
proof -
  note w = char_write_view [OF assms(1-3)]
  have "ch_ids h' = ch_ids h \<and> (\<forall>q. q \<noteq> p \<longrightarrow> ch_bufs h' q = ch_bufs h q)"
    by (subst (1 2) w(4)) simp
  moreover have "r = (if src \<noteq> [] \<and> room = 0 then errBUFFER_FULL else int (min (length src) room))"
    using w(3) cb_invD(8) [OF ch_inv_valid [OF assms(1,2)]] by (auto simp: room_def)
  moreover from this have "take (nat r) src = take room src" by (cases "room \<le> length src") auto
  ultimately show ?thesis
    using w(1) ch_inv_write [OF assms(1,3)] by simp
qed

text \<open>\<open>CharBufferRead\<close> delivers the oldest bytes, at most as many as asked for, and removes
  exactly those from the buffer; it returns their number, or \<open>errBUFFER_EMPTY\<close> when the
  buffer is empty (even when nothing is asked for).\<close>

lemma char_read_spec:
  assumes "ch_inv h" and "CharBufferIsValid h p"
    and "CharBufferRead h p False n = (h', out, r)"
  shows "out = take n (cb_view (ch_bufs h p))
    \<and> cb_view (ch_bufs h' p) = drop n (cb_view (ch_bufs h p))
    \<and> r = (if cb_view (ch_bufs h p) = [] then errBUFFER_EMPTY else int (length out))
    \<and> ch_ids h' = ch_ids h \<and> (\<forall>q. q \<noteq> p \<longrightarrow> ch_bufs h' q = ch_bufs h q) \<and> ch_inv h'"
proof -
  note v = char_read_view [OF assms]
  have "ch_ids h' = ch_ids h \<and> (\<forall>q. q \<noteq> p \<longrightarrow> ch_bufs h' q = ch_bufs h q)"
    by (subst (1 2) v(5)) simp
  moreover have "cb_view (ch_bufs h' p) = drop n (cb_view (ch_bufs h p))"
    using v(1,3) by (metis append_take_drop_id same_append_eq)
  ultimately show ?thesis using v(3,4) ch_inv_read [OF assms(1,3)] by simp
qed

text \<open>C5: through any sequence of writes and reads of a buffer, no byte is lost, invented or
  reordered: what was in the buffer followed by what the writes accepted is what the reads
  delivered followed by what is left, and no other buffer changes.\<close>

theorem char_fifo_trace:
  assumes "ch_inv h" and "CharBufferIsValid h p" and "char_io_run h p ios = (w, d, h')"
  shows "cb_view (ch_bufs h p) @ w = d @ cb_view (ch_bufs h' p)
    \<and> (\<forall>q. q \<noteq> p \<longrightarrow> ch_bufs h' q = ch_bufs h q)"
  using char_io_run_lemma [OF assms] by blast

theorem char_fifo_trace_witness:
  "fst (snd (char_io_run char_demo 7 [Rd 2, Wr [4, 5, 6], Rd 5])) = [10, 20, 30, 4, 5]"
proof -
  obtain w d h' where run: "char_io_run char_demo 7 [Rd 2, Wr [4, 5, 6], Rd 5] = (w, d, h')"
    by (metis prod.collapse)
  have "fst (char_io_run char_demo 7 [Rd 2, Wr [4, 5, 6], Rd 5]) = [4, 5]"
    and "cb_view (ch_bufs (snd (snd (char_io_run char_demo 7 [Rd 2, Wr [4, 5, 6], Rd 5]))) 7) = []"
    by code_simp+
  then have "w = [4, 5] \<and> cb_view (ch_bufs h' 7) = []" using run by (simp del: char_io_run.simps)
  then show ?thesis
    using char_fifo_trace [OF char_demo_inv char_demo_valid(1) run] run
    by (simp add: char_demo_view del: char_io_run.simps)
qed



text \<open>A client that reads in place sees, at the returned pointer, the first bytes of the
  contents up to the end of the block, and after it reports \<open>origin_len - left_len\<close> bytes as
  consumed exactly those are gone.\<close>

lemma char_read_in_place:
  assumes "ch_inv h" and "CharBufferIsValid h p"
    and "CharBufferCurrentReadPointer h p = Some (rd, tot, right)" and "left_len \<le> origin_len"
  defines "b \<equiv> ch_bufs h p"
    and "h' \<equiv> CharBufferUpdateCurrentReadPointer h p origin_len left_len"
  shows "tot = length (cb_view b) \<and> right \<le> tot
    \<and> take right (cb_view b) = take right (drop (rd - cb_head b) (cb_mem b))
    \<and> cb_view (ch_bufs h' p) = drop (unat origin_len - unat left_len) (cb_view b)"
proof -
  have "ch_bufs h' p = cb_advance b (unat origin_len - unat left_len)"
    using assms(2,4) by (simp add: h'_def b_def CharBufferUpdateCurrentReadPointer_def unat_sub)
  then show ?thesis
    using current_read_pointer [OF assms(1-3)] cb_advance_view [OF ch_inv_valid [OF assms(1,2)]]
    by (simp add: b_def)
qed

text \<open>\<open>SingleThreadCharBufferBackWrite\<close> undoes a read: giving back the number of bytes the
  read returned restores the heap as it was.\<close>

lemma char_back_undoes_read:
  assumes "ch_inv h" and "CharBufferIsValid h p" and "CharBufferRead h p False n = (h', out, r)"
  shows "SingleThreadCharBufferBackWrite h' p (int (length out)) = (h, 0)"
proof -
  let ?b = "ch_bufs h p"
  note inv = ch_inv_valid [OF assms(1,2)]
  obtain ys b' where ys: "fifo_gets cb_get n ?b = (ys, b')" by fastforce
  have out: "out = ys" "h' = ch_upd h p b'"
    using assms(2,3) ys by (auto simp: CharBufferRead_def cb_read_loop_gets)
  have "length ys = min n (cb_count ?b)" using cbf.gets_spec [OF inv ys] by simp
  then have "cb_back b' (int (length out)) = ?b"
    using cb_gets_pointer [OF inv ys] cb_back_read [OF inv, of "length ys"] out(1) by simp
  then show ?thesis
    using assms(2) out(2) by (simp add: SingleThreadCharBufferBackWrite_def ch_upd_back)
qed

text \<open>\<open>CharBufferIsFull\<close> returns the free room, or \<open>errBUFFER_FULL\<close> when there is none;
  \<open>CharBufferCurrentBytes\<close> returns one more than the number of stored bytes, and
  \<open>errBUFFER_FULL\<close> (not their number) when the buffer is full.\<close>

lemma char_enquiries:
  assumes "ch_inv h" and "CharBufferIsValid h p"
  defines "used \<equiv> length (cb_view (ch_bufs h p))" and "cap \<equiv> cb_size (ch_bufs h p) - 1"
  shows "used \<le> cap
    \<and> CharBufferIsFull h p = (if used = cap then errBUFFER_FULL else int (cap - used))
    \<and> CharBufferCurrentBytes h p = (if used = cap then errBUFFER_FULL else int used + 1)"
  using assms(2) cb_free_eq [OF ch_inv_valid [OF assms(1,2)]] current_bytes_eq [OF assms(1,2)]
    cb_invD(8) [OF ch_inv_valid [OF assms(1,2)]]
  by (auto simp: used_def cap_def CharBufferIsFull_def)

text \<open>A buffer that \<open>CharBufferCreate\<close> returns is valid, empty and found again by its name
  (when the name is short and the reused head node, if any, had no longer name), and the
  other buffers keep their contents.\<close>

lemma char_create_open:
  assumes "ch_inv h" and "ca_struct a \<notin> set (id_live (ch_ids h))" and "NUL \<notin> set name"
    and "0 < length name" and "length name < 63"
    and "nd_used (hd (ch_ids h)) = 0 \<Longrightarrow> nd_name (hd (ch_ids h)) ! length name = NUL"
    and "CharBufferCreate a h n (Some name) = (h', p)" and "p \<noteq> NULL"
  shows "CharBufferIsValid h' p \<and> CharBufferOpen h' (Some name) = p
    \<and> cb_view (ch_bufs h' p) = [] \<and> cb_size (ch_bufs h' p) = n
    \<and> (\<forall>q. CharBufferIsValid h q \<longrightarrow> CharBufferIsValid h' q \<and> ch_bufs h' q = ch_bufs h q)"
proof -
  note c = char_create_cases [OF assms(7,8)]
  have wf: "id_wf (ch_ids h)" using assms(1) by (simp add: ch_inv_def)
  have live: "set (id_live (ch_ids h')) = insert p (set (id_live (ch_ids h)))"
    using id_save_wf(2) [OF wf _ assms(3) c(4)] assms(2) c(1) by simp
  have "id_open (ch_ids h') name = p"
    using id_open_save [OF wf assms(3-5) c(4)] assms(6) by simp
  then show ?thesis
    using live c(1,3) assms(1,2,8) wf
    by (auto simp: CharBufferOpen_def CharBufferIsValid_def id_is_valid_iff cb_new_view cb_new_size
        id_wf_def)
qed

end
