(* ===== verification/Block_Buffer.thy ===== *)
theory Block_Buffer
  imports Id_Registry Fifo_Interface
begin

text \<open>
  The block buffers of \<open>buffer_read_write_fun.cxx\<close> (\<open>block_buffer_t\<close>), compiled without
  \<open>CONFIG_BUFFER_MUTEX_LOCK\<close>: a ring of \<open>total_items\<close> slots of \<open>item_size\<close> bytes, each a
  32-bit length followed by the item. They carry the commands between the threads of the
  unit. One thread writes and one reads; there is no lock, so an operation recomputes the
  number of waiting items from the two pointers it has copied, and gives up with
  \<open>errBUFFER_RW_BUSY\<close> when they make no sense.
\<close>

section \<open>State\<close>

record block_buffer =
  bb_head :: nat
  bb_tail :: nat
  bb_writeto :: nat
  bb_readfrom :: nat
  bb_items_waiting :: "32 word"
  bb_total_items :: nat
  bb_item_size :: nat
  bb_mem :: "byte list"

record block_heap =
  bh_ids :: id_list
  bh_bufs :: "ptr \<Rightarrow> block_buffer"

definition bh_upd :: "block_heap \<Rightarrow> ptr \<Rightarrow> block_buffer \<Rightarrow> block_heap" where
  "bh_upd h p b = h\<lparr>bh_bufs := (bh_bufs h)(p := b)\<rparr>"

text \<open>
  Memory of the block: \<open>memcpy\<close> to an offset, and the 32-bit length at the front of a slot
  as the target (little endian) stores it.
\<close>

definition mem_put :: "byte list \<Rightarrow> nat \<Rightarrow> byte list \<Rightarrow> byte list" where
  "mem_put mem off bs = take off mem @ bs @ drop (off + length bs) mem"

definition le32 :: "nat \<Rightarrow> byte list" where
  "le32 n = [of_nat n, of_nat (n div 2 ^ 8), of_nat (n div 2 ^ 16), of_nat (n div 2 ^ 24)]"

definition u32_at :: "byte list \<Rightarrow> nat \<Rightarrow> nat" where
  "u32_at mem off =
     unat (mem ! off) + unat (mem ! (off + 1)) * 2 ^ 8
     + unat (mem ! (off + 2)) * 2 ^ 16 + unat (mem ! (off + 3)) * 2 ^ 24"

section \<open>Naming, creation, deletion\<close>

definition BlockBufferIsValid :: "block_heap \<Rightarrow> ptr \<Rightarrow> bool" where
  "BlockBufferIsValid h p = (if p = NULL then False else id_is_valid (bh_ids h) p)"

definition BlockBufferIdReset :: "block_heap \<Rightarrow> ptr \<Rightarrow> block_heap" where
  "BlockBufferIdReset h p =
     (if p = NULL then h else h\<lparr>bh_ids := id_reset (bh_ids h) p\<rparr>)"

definition BlockBufferOpen :: "block_heap \<Rightarrow> string option \<Rightarrow> ptr" where
  "BlockBufferOpen h name =
     (case name of None \<Rightarrow> -1 | Some s \<Rightarrow> id_open (bh_ids h) s)"

definition BlockBufferPointerSave :: "bool \<Rightarrow> block_heap \<Rightarrow> ptr \<Rightarrow> string option \<Rightarrow> block_heap \<times> int" where
  "BlockBufferPointerSave node_ok h p name =
     (let (nds, r) = id_save (-3) node_ok (bh_ids h) p name in (h\<lparr>bh_ids := nds\<rparr>, r))"

text \<open>What the allocator returns; the sizes are the code's 32-bit products.\<close>

record bb_alloc =
  ba_struct :: ptr
  ba_head :: nat
  ba_node :: bool
  ba_junk :: "byte list"

definition bb_new :: "bb_alloc \<Rightarrow> 32 word \<Rightarrow> 32 word \<Rightarrow> block_buffer" where
  "bb_new a total_items item_size =
     \<lparr>bb_head = ba_head a,
      bb_tail = ba_head a + unat (total_items * (item_size + 4)),
      bb_writeto = ba_head a,
      bb_readfrom = ba_head a + unat ((total_items - 1) * (item_size + 4)),
      bb_items_waiting = 0,
      bb_total_items = unat total_items,
      bb_item_size = unat (item_size + 4),
      bb_mem = ba_junk a\<rparr>"

definition BlockBufferCreate :: "bb_alloc \<Rightarrow> block_heap \<Rightarrow> 32 word \<Rightarrow> 32 word \<Rightarrow> string option
    \<Rightarrow> block_heap \<times> ptr" where
  "BlockBufferCreate a h total_items item_size name =
     (case name of
        None \<Rightarrow> (h, NULL)
      | Some s \<Rightarrow>
          if total_items > 0
          then (let n = (if total_items = 1 then 2 else total_items) in
            if ba_struct a \<noteq> NULL \<and> ba_head a \<noteq> 0
            then (let h1 = bh_upd h (ba_struct a) (bb_new a n item_size);
                      (h2, r) = BlockBufferPointerSave (ba_node a) h1 (ba_struct a) (Some s)
                  in if r = 0 then (h2, ba_struct a) else (h2, NULL))
            else (h, NULL))
          else (h, NULL))"

definition BlockBufferDelete :: "block_heap \<Rightarrow> ptr \<Rightarrow> block_heap" where
  "BlockBufferDelete h p =
     (if \<not> BlockBufferIsValid h p then h else BlockBufferIdReset h p)"

definition BlockBufferClear :: "block_heap \<Rightarrow> ptr \<Rightarrow> block_heap" where
  "BlockBufferClear h p =
     (if \<not> BlockBufferIsValid h p then h
      else (let b = bh_bufs h p
            in bh_upd h p (b\<lparr>bb_items_waiting := 0, bb_writeto := bb_head b,
                 bb_readfrom := bb_head b + (bb_total_items b - 1) * bb_item_size b\<rparr>)))"

section \<open>The pointer check and the count of waiting items\<close>

text \<open>
  The scan of \<open>BlockBufferPtrIsValid\<close> for one pointer, with \<open>left\<close> turns to go at index
  \<open>i\<close>: \<open>None\<close> is its early return -1, otherwise whether the pointer is the start of a slot.
\<close>

fun bb_ptr_scan :: "nat \<Rightarrow> nat \<Rightarrow> nat \<Rightarrow> nat \<Rightarrow> nat \<Rightarrow> bool option" where
  "bb_ptr_scan item_size target tmp_pos i 0 = Some False"
| "bb_ptr_scan item_size target tmp_pos i (Suc left) =
     (if target \<noteq> tmp_pos
      then (if i \<ge> 256 then None else bb_ptr_scan item_size target (tmp_pos + item_size) (i + 1) left)
      else Some True)"

definition BlockBufferPtrIsValid :: "block_buffer \<Rightarrow> int" where
  "BlockBufferPtrIsValid b =
     (if bb_readfrom b < bb_head b \<or> bb_readfrom b > bb_tail b then -1
      else if bb_writeto b < bb_head b \<or> bb_writeto b > bb_tail b then -1
      else (case bb_ptr_scan (bb_item_size b) (bb_readfrom b) (bb_head b) 0 (bb_total_items b) of
              None \<Rightarrow> -1
            | Some rd_valid \<Rightarrow>
                (case bb_ptr_scan (bb_item_size b) (bb_writeto b) (bb_head b) 0 (bb_total_items b) of
                   None \<Rightarrow> -1
                 | Some wr_valid \<Rightarrow> if rd_valid \<and> wr_valid then 0 else -1)))"

definition bb_step :: "block_buffer \<Rightarrow> nat \<Rightarrow> nat" where
  "bb_step b p = (if p + bb_item_size b \<ge> bb_tail b then bb_head b else p + bb_item_size b)"

text \<open>
  The loop of \<open>BlockBufferWrite\<close> and \<open>BlockBufferRead\<close> that counts the slots between the
  pointers; \<open>None\<close> when it runs out of turns or passes its limit of 255 (\<open>busy\<close>).
\<close>

fun bb_count_loop :: "block_buffer \<Rightarrow> nat \<Rightarrow> nat \<Rightarrow> nat \<Rightarrow> nat \<Rightarrow> nat option" where
  "bb_count_loop b rd i 0 items = None"
| "bb_count_loop b rd i (Suc left) items =
     (if bb_step b rd \<noteq> bb_writeto b
      then (if i \<ge> 255 then None else bb_count_loop b (bb_step b rd) (i + 1) left (items + 1))
      else Some items)"

text \<open>The checks that \<open>BlockBufferWrite\<close> and \<open>BlockBufferRead\<close> begin with; \<open>None\<close> is busy.\<close>

definition bb_waiting :: "block_buffer \<Rightarrow> nat option" where
  "bb_waiting b =
     (if BlockBufferPtrIsValid b < 0 then None
      else if bb_total_items b \<noteq> 1
      then bb_count_loop b (bb_readfrom b) 0 (bb_total_items b) 0
      else Some 0)"

section \<open>Writing and reading\<close>

definition prvCopyQueueData :: "block_buffer \<Rightarrow> byte list \<Rightarrow> block_buffer \<times> nat" where
  "prvCopyQueueData b item =
     (let min_len = (if length item \<le> bb_item_size b - 4 then length item else bb_item_size b - 4);
          off = bb_writeto b - bb_head b;
          mem = mem_put (mem_put (bb_mem b) off (le32 min_len)) (off + 4) (take min_len item)
      in (b\<lparr>bb_mem := mem, bb_items_waiting := bb_items_waiting b + 1,
            bb_writeto := bb_step b (bb_writeto b)\<rparr>, min_len))"

definition bb_put :: "byte list \<Rightarrow> block_buffer \<Rightarrow> block_buffer option" where
  "bb_put item b =
     (case bb_waiting b of
        None \<Rightarrow> None
      | Some items_waiting \<Rightarrow>
          if bb_total_items b = 1 \<or> items_waiting < bb_total_items b - 1
          then Some (fst (prvCopyQueueData b item)) else None)"

definition BlockBufferWrite :: "block_heap \<Rightarrow> ptr \<Rightarrow> byte list option \<Rightarrow> nat \<Rightarrow> block_heap \<times> int" where
  "BlockBufferWrite h p psrc src_size =
     (case psrc of
        None \<Rightarrow> (h, -3)
      | Some src \<Rightarrow>
          if \<not> BlockBufferIsValid h p then (h, -3)
          else (let b = bh_bufs h p in
            case bb_waiting b of
              None \<Rightarrow> (h, -4)
            | Some items_waiting \<Rightarrow>
                if bb_total_items b = 1 \<or> items_waiting < bb_total_items b - 1
                then (let (b', n) = prvCopyQueueData b (take src_size src)
                      in (bh_upd h p b', int n))
                else (h, -1)))"

text \<open>
  The next item: the pointer moves to it first, then its length and its bytes are read.
\<close>

definition bb_get :: "block_buffer \<Rightarrow> (byte list \<times> block_buffer) option" where
  "bb_get b =
     (case bb_waiting b of
        None \<Rightarrow> None
      | Some items_waiting \<Rightarrow>
          if items_waiting > 0
          then (let rd = bb_step b (bb_readfrom b);
                    off = rd - bb_head b;
                    real_len = u32_at (bb_mem b) off
                in Some (take real_len (drop (off + 4) (bb_mem b)),
                     b\<lparr>bb_readfrom := rd, bb_items_waiting := bb_items_waiting b - 1\<rparr>))
          else None)"

definition BlockBufferRead :: "block_heap \<Rightarrow> ptr \<Rightarrow> bool \<Rightarrow> nat \<Rightarrow> block_heap \<times> byte list \<times> int" where
  "BlockBufferRead h p dest_null dest_size =
     (if \<not> BlockBufferIsValid h p \<or> dest_null then (h, [], -3)
      else (let b = bh_bufs h p in
        case bb_waiting b of
          None \<Rightarrow> (h, [], -4)
        | Some _ \<Rightarrow>
            (case bb_get b of
               None \<Rightarrow> (h, [], -2)
             | Some (item, b') \<Rightarrow>
                 (bh_upd h p b', take dest_size item, int (length (take dest_size item))))))"

section \<open>Enquiries\<close>

text \<open>The unbounded loop of the enquiries: \<open>None\<close> when it never meets the write pointer.\<close>

partial_function (option) bb_count_forever :: "block_buffer \<Rightarrow> nat \<Rightarrow> nat \<Rightarrow> nat option" where
  "bb_count_forever b rd items =
     (if bb_step b rd \<noteq> bb_writeto b then bb_count_forever b (bb_step b rd) (items + 1)
      else Some items)"

definition bb_items :: "block_buffer \<Rightarrow> nat option" where
  "bb_items b = (if bb_total_items b \<noteq> 1 then bb_count_forever b (bb_readfrom b) 0 else Some 0)"

definition BlockBufferFull :: "block_heap \<Rightarrow> ptr \<Rightarrow> int option" where
  "BlockBufferFull h p =
     (if \<not> BlockBufferIsValid h p then Some (-1)
      else map_option (\<lambda>n. if n = bb_total_items (bh_bufs h p) then 1 else 0) (bb_items (bh_bufs h p)))"

definition BlockBufferCnt :: "block_heap \<Rightarrow> ptr \<Rightarrow> int option" where
  "BlockBufferCnt h p =
     (if \<not> BlockBufferIsValid h p then Some (-1) else map_option int (bb_items (bh_bufs h p)))"

definition BlockBufferEmpty :: "block_heap \<Rightarrow> ptr \<Rightarrow> int option" where
  "BlockBufferEmpty h p =
     (if \<not> BlockBufferIsValid h p then Some (-1)
      else map_option (\<lambda>n. if n = 0 then 1 else 0) (bb_items (bh_bufs h p)))"

section \<open>Memory\<close>

lemma mem_put_length [simp]: "off + length bs \<le> length mem \<Longrightarrow> length (mem_put mem off bs) = length mem"
  by (simp add: mem_put_def)

lemma mem_put_nth:
  "off + length bs \<le> length mem \<Longrightarrow> i < length mem \<Longrightarrow>
    mem_put mem off bs ! i = (if off \<le> i \<and> i < off + length bs then bs ! (i - off) else mem ! i)"
  by (auto simp: mem_put_def nth_append min_def)

lemma le32_length [simp]: "length (le32 n) = 4"
  by (simp add: le32_def)

lemma le32_value:
  "n mod 256 + n div 256 mod 256 * 256 + n div 65536 mod 256 * 65536
    + n div 16777216 * 16777216 = (n :: nat)"
proof -
  have digits: "n = a * 256 + r \<Longrightarrow> a = b * 256 + s \<Longrightarrow> b = c * 256 + t \<Longrightarrow>
    r + s * 256 + t * 65536 + c * 16777216 = n" for a b c r s t :: nat by simp
  have "n div 65536 = n div 256 div 256" "n div 16777216 = n div 256 div 256 div 256"
    by (simp_all flip: div_mult2_eq)
  with digits [OF div_mult_mod_eq [symmetric] div_mult_mod_eq [symmetric] div_mult_mod_eq [symmetric]]
  show ?thesis by (simp only:)
qed

lemma u32_at_le32:
  assumes "n < 2 ^ 32" and "\<And>j. j < 4 \<Longrightarrow> mem ! (off + j) = le32 n ! j"
  shows "u32_at mem off = n"
proof -
  have "mem ! off = le32 n ! 0" "mem ! (off + 1) = le32 n ! 1"
    "mem ! (off + 2) = le32 n ! 2" "mem ! (off + 3) = le32 n ! 3"
    using assms(2) [of 0] assms(2) [of 1] assms(2) [of 2] assms(2) [of 3] by simp_all
  moreover have "n div 16777216 < 256" using assms(1) by (simp add: less_mult_imp_div_less)
  ultimately have "u32_at mem off = n mod 256 + n div 256 mod 256 * 256 + n div 65536 mod 256 * 65536
    + n div 16777216 * 16777216"
    by (simp add: u32_at_def le32_def unat_of_nat)
  with le32_value [of n] show ?thesis by simp
qed

lemma u32_at_cong: "(\<And>j. j < 4 \<Longrightarrow> mem ! (off + j) = mem' ! (off + j)) \<Longrightarrow> u32_at mem off = u32_at mem' off"
proof -
  assume a: "\<And>j. j < 4 \<Longrightarrow> mem ! (off + j) = mem' ! (off + j)"
  show ?thesis using a [of 0] a [of 1] a [of 2] a [of 3] by (simp add: u32_at_def)
qed

lemma take_drop_cong:
  "length mem' = length mem \<Longrightarrow> (\<And>j. j < l \<Longrightarrow> off + j < length mem \<Longrightarrow> mem ! (off + j) = mem' ! (off + j)) \<Longrightarrow>
    take l (drop off mem) = take l (drop off mem')"
  by (rule nth_equalityI) auto

section \<open>The invariant and the contents\<close>

definition bb_rd :: "block_buffer \<Rightarrow> nat" where
  "bb_rd b = (bb_readfrom b - bb_head b) div bb_item_size b"

definition bb_wr :: "block_buffer \<Rightarrow> nat" where
  "bb_wr b = (bb_writeto b - bb_head b) div bb_item_size b"

definition bb_oldest :: "block_buffer \<Rightarrow> nat" where
  "bb_oldest b = ring_next (bb_total_items b) (bb_rd b)"

definition bb_count :: "block_buffer \<Rightarrow> nat" where
  "bb_count b = ring_count (bb_total_items b) (bb_oldest b) (bb_wr b)"

text \<open>The item stored in slot \<open>k\<close>, and the waiting items, oldest first.\<close>

definition bb_item :: "block_buffer \<Rightarrow> nat \<Rightarrow> byte list" where
  "bb_item b k =
     take (u32_at (bb_mem b) (k * bb_item_size b)) (drop (k * bb_item_size b + 4) (bb_mem b))"

definition bb_view :: "block_buffer \<Rightarrow> byte list list" where
  "bb_view b = ring_view (map (bb_item b) [0..<bb_total_items b]) (bb_oldest b) (bb_count b)"

text \<open>The shape of the block: both pointers at the start of one of 2 to 256 slots.\<close>

definition bb_shape :: "block_buffer \<Rightarrow> bool" where
  "bb_shape b \<longleftrightarrow> 2 \<le> bb_total_items b \<and> bb_total_items b \<le> 256
     \<and> 4 \<le> bb_item_size b \<and> bb_item_size b < 2 ^ 32
     \<and> bb_tail b = bb_head b + bb_total_items b * bb_item_size b
     \<and> length (bb_mem b) = bb_total_items b * bb_item_size b + 1
     \<and> bb_readfrom b = bb_head b + bb_rd b * bb_item_size b \<and> bb_rd b < bb_total_items b
     \<and> bb_writeto b = bb_head b + bb_wr b * bb_item_size b \<and> bb_wr b < bb_total_items b"

text \<open>Every waiting slot holds a length that fits it, and \<open>items_waiting\<close> is their number.\<close>

definition bb_inv :: "block_buffer \<Rightarrow> bool" where
  "bb_inv b \<longleftrightarrow> bb_shape b \<and> bb_items_waiting b = of_nat (bb_count b)
     \<and> (\<forall>i < bb_count b. u32_at (bb_mem b)
          (((bb_oldest b + i) mod bb_total_items b) * bb_item_size b) \<le> bb_item_size b - 4)"

definition bb_conf :: "block_buffer \<Rightarrow> nat \<times> nat" where
  "bb_conf b = (bb_total_items b, bb_item_size b)"

lemma bb_shapeD:
  assumes "bb_shape b"
  shows "2 \<le> bb_total_items b" "bb_total_items b \<le> 256" "4 \<le> bb_item_size b"
    "bb_item_size b < 2 ^ 32" "bb_tail b = bb_head b + bb_total_items b * bb_item_size b"
    "length (bb_mem b) = bb_total_items b * bb_item_size b + 1"
    "bb_readfrom b = bb_head b + bb_rd b * bb_item_size b" "bb_rd b < bb_total_items b"
    "bb_writeto b = bb_head b + bb_wr b * bb_item_size b" "bb_wr b < bb_total_items b"
    "bb_oldest b < bb_total_items b" "bb_count b < bb_total_items b"
  using assms by (auto simp: bb_shape_def bb_oldest_def bb_count_def intro!: ring_count_less)

lemma bb_inv_shape: "bb_inv b \<Longrightarrow> bb_shape b"
  by (simp add: bb_inv_def)

lemma bb_view_length [simp]: "length (bb_view b) = bb_count b"
  by (simp add: bb_view_def)

lemma bb_step_slot:
  assumes "bb_shape b" and "k < bb_total_items b"
  shows "bb_step b (bb_head b + k * bb_item_size b)
    = bb_head b + ring_next (bb_total_items b) k * bb_item_size b"
proof -
  note d = bb_shapeD [OF assms(1)]
  have "bb_total_items b * bb_item_size b \<le> Suc k * bb_item_size b \<longleftrightarrow> bb_total_items b \<le> Suc k"
    using d(3) by (subst mult_le_cancel2) auto
  then show ?thesis by (simp add: bb_step_def ring_next_def d(5) ac_simps)
qed

lemma bb_ptr_scan_hit:
  "0 < isz \<Longrightarrow> i \<le> j \<Longrightarrow> j < i + left \<Longrightarrow> j \<le> 256 \<Longrightarrow>
    bb_ptr_scan isz (base + j * isz) (base + i * isz) i left = Some True"
proof (induction left arbitrary: i)
  case (Suc left)
  then have "bb_ptr_scan isz (base + j * isz) (base + Suc i * isz) (Suc i) left = Some True" if "j \<noteq> i"
    using that by (intro Suc.IH) auto
  with Suc.prems show ?case by (auto simp: ac_simps)
qed simp

text \<open>Beyond slot 256 the scan gives up.\<close>

lemma bb_ptr_scan_limit:
  "0 < isz \<Longrightarrow> i \<le> 256 \<Longrightarrow> 256 < j \<Longrightarrow> 256 < i + left \<Longrightarrow>
    bb_ptr_scan isz (base + j * isz) (base + i * isz) i left = None"
proof (induction left arbitrary: i)
  case (Suc left)
  have "bb_ptr_scan isz (base + j * isz) (base + Suc i * isz) (Suc i) left = None" if "i < 256"
    using that Suc.prems by (intro Suc.IH) auto
  moreover have "j \<noteq> i" using Suc.prems by simp
  ultimately show ?case using Suc.prems by (auto simp: ac_simps)
qed simp

lemma bb_ptr_valid:
  assumes "bb_shape b"
  shows "BlockBufferPtrIsValid b = 0"
proof -
  note d = bb_shapeD [OF assms]
  have scan: "bb_ptr_scan (bb_item_size b) (bb_head b + k * bb_item_size b) (bb_head b) 0
      (bb_total_items b) = Some True" if "k < bb_total_items b" for k
    using bb_ptr_scan_hit [of "bb_item_size b" 0 k "bb_total_items b" "bb_head b"] that d(2,3) by simp
  have "bb_rd b * bb_item_size b \<le> bb_total_items b * bb_item_size b"
    "bb_wr b * bb_item_size b \<le> bb_total_items b * bb_item_size b"
    using d(8,10) by simp_all
  then show ?thesis
    using scan [OF d(8)] scan [OF d(10)] d(3,5,8,10) by (simp add: BlockBufferPtrIsValid_def d(7,9))
qed

text \<open>Both counting loops find the number of slots up to the write pointer.\<close>

lemma bb_count_loop_eq:
  assumes "bb_shape b" and "r < bb_total_items b"
    and "c = ring_count (bb_total_items b) (ring_next (bb_total_items b) r) (bb_wr b)"
  shows "i + c \<le> 255 \<Longrightarrow> c < left \<Longrightarrow>
    bb_count_loop b (bb_head b + r * bb_item_size b) i left items = Some (items + c)"
    and "bb_count_forever b (bb_head b + r * bb_item_size b) items = Some (items + c)"
proof -
  let ?N = "bb_total_items b" and ?slot = "\<lambda>k. bb_head b + k * bb_item_size b"
  note d = bb_shapeD [OF assms(1)]
  have "(i + c \<le> 255 \<longrightarrow> c < left \<longrightarrow> bb_count_loop b (?slot r) i left items = Some (items + c))
    \<and> bb_count_forever b (?slot r) items = Some (items + c)"
    using assms(2,3)
  proof (induction c arbitrary: r i left items)
    case 0
    then have "ring_next ?N r = bb_wr b" using ring_count_0_iff [of "ring_next ?N r" ?N] d by simp
    with 0 show ?case
      by (cases left; subst bb_count_forever.simps)
        (simp_all add: bb_step_slot [OF assms(1)] d(9))
  next
    case (Suc c)
    let ?n = "ring_next ?N r"
    have ne: "?n \<noteq> bb_wr b" using Suc.prems by auto
    then have "c = ring_count ?N (ring_next ?N ?n) (bb_wr b)"
      using ring_count_get [of ?n ?N "bb_wr b"] Suc.prems d by simp
    moreover have "?n < ?N" using d(1) by simp
    ultimately have IH: "(i + c \<le> 255 \<longrightarrow> c < left \<longrightarrow> bb_count_loop b (?slot ?n) i left items = Some (items + c))
      \<and> bb_count_forever b (?slot ?n) items = Some (items + c)" for i left items
      by (intro Suc.IH)
    have "?slot ?n \<noteq> bb_writeto b"
      using ne d(3,9) by simp
    then show ?case
      using IH [of "i + 1" "left - 1" "items + 1"] Suc.prems(1)
      by (cases left; subst bb_count_forever.simps) (simp_all add: bb_step_slot [OF assms(1)])
  qed
  then show "i + c \<le> 255 \<Longrightarrow> c < left \<Longrightarrow>
      bb_count_loop b (?slot r) i left items = Some (items + c)"
    and "bb_count_forever b (?slot r) items = Some (items + c)" by simp_all
qed

lemma bb_waiting_eq:
  assumes "bb_shape b"
  shows "bb_waiting b = Some (bb_count b)" and "bb_items b = Some (bb_count b)"
proof -
  note d = bb_shapeD [OF assms]
  note loops = bb_count_loop_eq [OF assms d(8) refl, folded bb_oldest_def, folded bb_count_def d(7)]
  show "bb_waiting b = Some (bb_count b)"
    using loops(1) [of 0 "bb_total_items b" 0] d(1,2,12) by (simp add: bb_waiting_def bb_ptr_valid [OF assms])
  show "bb_items b = Some (bb_count b)"
    using loops(2) [of 0] d(1) by (simp add: bb_items_def)
qed

section \<open>The block buffer is a bounded queue\<close>

text \<open>A write touches one slot; the other slots keep their length and their item.\<close>

lemma slot_other:
  fixes isz :: nat
  assumes "length mem' = length mem" and "k \<noteq> w" and "4 \<le> isz"
    and same: "\<And>i. i < w * isz \<or> w * isz + isz \<le> i \<Longrightarrow> i < length mem \<Longrightarrow> mem' ! i = mem ! i"
    and "k * isz + isz \<le> length mem"
  shows "u32_at mem' (k * isz) = u32_at mem (k * isz)"
    and "l \<le> isz - 4 \<Longrightarrow> take l (drop (k * isz + 4) mem') = take l (drop (k * isz + 4) mem)"
proof -
  have "k * isz + isz \<le> w * isz \<or> w * isz + isz \<le> k * isz"
    using assms(2) mult_le_mono1 [of "Suc k" w isz] mult_le_mono1 [of "Suc w" k isz]
    by (cases "k < w") auto
  then have slot: "mem' ! (k * isz + j) = mem ! (k * isz + j)" if "j < isz" for j
    using that same [of "k * isz + j"] assms(5) by auto
  show "u32_at mem' (k * isz) = u32_at mem (k * isz)"
    using assms(3) by (intro u32_at_cong slot) simp
  show "take l (drop (k * isz + 4) mem') = take l (drop (k * isz + 4) mem)" if "l \<le> isz - 4"
    using that assms(1,3) slot [of "4 + _"] by (intro take_drop_cong) (simp_all add: ac_simps)
qed

lemma prvCopyQueueData_mem:
  assumes "bb_shape b" and "prvCopyQueueData b item = (b', n)"
  defines "off \<equiv> bb_wr b * bb_item_size b"
  shows "n = min (length item) (bb_item_size b - 4)"
    and "length (bb_mem b') = length (bb_mem b)"
    and "u32_at (bb_mem b') off = n" and "take n (drop (off + 4) (bb_mem b')) = take n item"
    and "i < off \<or> off + bb_item_size b \<le> i \<Longrightarrow> i < length (bb_mem b) \<Longrightarrow> bb_mem b' ! i = bb_mem b ! i"
    and "b' = b\<lparr>bb_mem := bb_mem b', bb_items_waiting := bb_items_waiting b + 1,
      bb_writeto := bb_head b + ring_next (bb_total_items b) (bb_wr b) * bb_item_size b\<rparr>"
proof -
  note d = bb_shapeD [OF assms(1)]
  have woff: "bb_writeto b - bb_head b = off" using d(9) by (simp add: off_def)
  show n: "n = min (length item) (bb_item_size b - 4)"
    using assms(2) by (auto simp: prvCopyQueueData_def Let_def)
  let ?mem = "mem_put (mem_put (bb_mem b) off (le32 n)) (off + 4) (take n item)"
  have mem: "bb_mem b' = ?mem"
    using assms(2) by (auto simp: prvCopyQueueData_def Let_def woff)
  show "b' = b\<lparr>bb_mem := bb_mem b', bb_items_waiting := bb_items_waiting b + 1,
      bb_writeto := bb_head b + ring_next (bb_total_items b) (bb_wr b) * bb_item_size b\<rparr>"
    using assms(2) bb_step_slot [OF assms(1) d(10)] d(9)
    by (auto simp: prvCopyQueueData_def Let_def)
  have "off + bb_item_size b \<le> length (bb_mem b)"
    using mult_le_mono1 [of "Suc (bb_wr b)" "bb_total_items b" "bb_item_size b"] d(6,10)
    by (simp add: off_def)
  then have fits: "off + 4 + n \<le> length (bb_mem b)" "n + 4 \<le> bb_item_size b" "n \<le> length item"
    using n d(3) by auto
  show len: "length (bb_mem b') = length (bb_mem b)" using fits by (simp add: mem)
  have nth: "bb_mem b' ! i = (if off \<le> i \<and> i < off + 4 then le32 n ! (i - off)
      else if off + 4 \<le> i \<and> i < off + 4 + n then item ! (i - off - 4) else bb_mem b ! i)"
    if "i < length (bb_mem b)" for i
    using that fits by (auto simp: mem mem_put_nth)
  show "u32_at (bb_mem b') off = n"
    using fits d(4) by (intro u32_at_le32) (auto simp: nth)
  show "take n (drop (off + 4) (bb_mem b')) = take n item"
    using fits by (intro nth_equalityI) (auto simp: nth len)
  show "i < off \<or> off + bb_item_size b \<le> i \<Longrightarrow> i < length (bb_mem b) \<Longrightarrow> bb_mem b' ! i = bb_mem b ! i"
    using fits by (auto simp: nth)
qed

lemma bb_upd_shape:
  fixes m
  assumes "bb_shape b" and "length mem = length (bb_mem b)" and "w < bb_total_items b" and "r < bb_total_items b"
  defines "b' \<equiv> b\<lparr>bb_mem := mem, bb_items_waiting := m,
      bb_writeto := bb_head b + w * bb_item_size b, bb_readfrom := bb_head b + r * bb_item_size b\<rparr>"
  shows "bb_shape b'" and "bb_wr b' = w" and "bb_rd b' = r"
proof -
  note d = bb_shapeD [OF assms(1)]
  show w: "bb_wr b' = w" and r: "bb_rd b' = r" using d(3) by (simp_all add: b'_def bb_wr_def bb_rd_def)
  show "bb_shape b'"
    unfolding bb_shape_def w r using assms(2-4) d by (simp add: b'_def)
qed

lemma bb_put_accepted:
  assumes inv: "bb_inv b" and room: "bb_count b < bb_total_items b - 1"
    and copy: "prvCopyQueueData b item = (b', n)"
  shows "bb_inv b'" and "bb_view b' = bb_view b @ [take (bb_item_size b - 4) item]"
    and "bb_conf b' = bb_conf b"
proof -
  let ?N = "bb_total_items b" and ?z = "bb_item_size b"
  note sh = bb_inv_shape [OF inv] and d = bb_shapeD [OF bb_inv_shape [OF inv]]
  note m = prvCopyQueueData_mem [OF sh copy]
  have b': "b' = b\<lparr>bb_mem := bb_mem b', bb_items_waiting := bb_items_waiting b + 1,
      bb_writeto := bb_head b + ring_next ?N (bb_wr b) * ?z,
      bb_readfrom := bb_head b + bb_rd b * ?z\<rparr>"
    by (subst m(6), rule block_buffer.equality) (simp_all add: d(7) [symmetric])
  have "ring_next ?N (bb_wr b) < ?N" using d(1) by simp
  note u = bb_upd_shape [OF sh m(2) this d(8), of "bb_items_waiting b + 1", folded b']
  have same: "bb_total_items b' = ?N" "bb_item_size b' = ?z" by (subst b', simp)+
  then have o: "bb_oldest b' = bb_oldest b" using u(3) by (simp add: bb_oldest_def)
  have cnt: "bb_count b' = Suc (bb_count b)"
    using ring_count_put [OF d(11,10)] ring_count_full_iff [OF d(11,10)] room u(2) o same
    by (simp add: bb_count_def)
  have wr: "(bb_oldest b + bb_count b) mod ?N = bb_wr b"
    using ring_count_wr [OF d(11,10)] by (simp add: bb_count_def)
  have other: "(bb_oldest b + i) mod ?N \<noteq> bb_wr b" if "i < bb_count b" for i
    using that d(11,12) wr by (auto simp: ring_offset split: if_splits)
  have fits: "k * ?z + ?z \<le> length (bb_mem b)" if "k < ?N" for k
    using mult_le_mono1 [of "Suc k" ?N ?z] that d(6) by simp
  have len: "u32_at (bb_mem b') ((bb_oldest b + i) mod ?N * ?z) = u32_at (bb_mem b) ((bb_oldest b + i) mod ?N * ?z)"
    if "i < bb_count b" for i
    using other [OF that] d(1,3) m(2,5) by (intro slot_other(1) fits) auto
  have item: "bb_item b' ((bb_oldest b + i) mod ?N) = bb_item b ((bb_oldest b + i) mod ?N)"
    if "i < bb_count b" for i
  proof -
    have "u32_at (bb_mem b) ((bb_oldest b + i) mod ?N * ?z) \<le> ?z - 4"
      using inv that by (simp add: bb_inv_def)
    then show ?thesis
      unfolding bb_item_def same len [OF that]
      using other [OF that] d(1,3) m(2,5) by (intro slot_other(2) fits) auto
  qed
  have new: "bb_item b' (bb_wr b) = take (?z - 4) item"
    using m(1,3,4) same by (simp add: bb_item_def min_def)
  have "bb_items_waiting b' = of_nat (bb_count b')"
    using inv cnt by (subst b') (simp add: bb_inv_def)
  moreover have "u32_at (bb_mem b') ((bb_oldest b + i) mod ?N * ?z) \<le> ?z - 4" if "i < Suc (bb_count b)" for i
    using that inv len m(1,3) wr by (cases "i = bb_count b") (auto simp: bb_inv_def)
  ultimately show "bb_inv b'"
    using u(1) by (simp add: bb_inv_def same o cnt)
  have "ring_view (map (bb_item b') [0..<?N]) (bb_oldest b) (bb_count b) = bb_view b"
    unfolding bb_view_def using item d(1) by (intro ring_view_cong) auto
  then show "bb_view b' = bb_view b @ [take (?z - 4) item]"
    using new wr d(10) by (simp add: bb_view_def same o cnt ring_view_snoc)
  show "bb_conf b' = bb_conf b" by (simp add: bb_conf_def same)
qed

lemma bb_get_delivers:
  assumes inv: "bb_inv b" and get: "bb_get b = Some (item, b')"
  shows "bb_inv b'" and "bb_view b = item # bb_view b'" and "bb_conf b' = bb_conf b"
proof -
  let ?N = "bb_total_items b" and ?z = "bb_item_size b"
  note sh = bb_inv_shape [OF inv] and d = bb_shapeD [OF bb_inv_shape [OF inv]]
  have rd: "bb_step b (bb_readfrom b) = bb_head b + bb_oldest b * ?z"
    using bb_step_slot [OF sh d(8)] d(7) by (simp add: bb_oldest_def)
  have ne: "bb_oldest b \<noteq> bb_wr b" and item: "item = bb_item b (bb_oldest b)" and
    b'0: "b' = b\<lparr>bb_readfrom := bb_head b + bb_oldest b * ?z, bb_items_waiting := bb_items_waiting b - 1\<rparr>"
    using get by (auto simp: bb_get_def bb_waiting_eq(1) [OF sh] rd Let_def bb_item_def bb_count_def
        split: if_splits)
  have b': "b' = b\<lparr>bb_mem := bb_mem b, bb_items_waiting := bb_items_waiting b - 1,
      bb_writeto := bb_head b + bb_wr b * ?z, bb_readfrom := bb_head b + bb_oldest b * ?z\<rparr>"
    using b'0 d(9) by simp
  note u = bb_upd_shape [OF sh refl d(10,11), of "bb_items_waiting b - 1", folded b']
  have same: "bb_total_items b' = ?N" "bb_item_size b' = ?z" "bb_mem b' = bb_mem b"
    by (subst b', simp)+
  then have o: "bb_oldest b' = ring_next ?N (bb_oldest b)" using u(3) by (simp add: bb_oldest_def)
  have cnt: "bb_count b = Suc (bb_count b')"
    using ring_count_get [OF d(11,10) ne] u(2) o same by (simp add: bb_count_def)
  have "bb_items_waiting b' = of_nat (bb_count b')"
    using inv cnt by (subst b') (simp add: bb_inv_def)
  moreover have "u32_at (bb_mem b) ((bb_oldest b' + i) mod ?N * ?z) \<le> ?z - 4" if "i < bb_count b'" for i
    using inv that cnt ring_next_mod [OF d(11)] o by (auto simp: bb_inv_def mod_simps)
  ultimately show "bb_inv b'" using u(1) by (simp add: bb_inv_def same)
  have items: "map (bb_item b') [0..<?N] = map (bb_item b) [0..<?N]" by (simp add: bb_item_def same)
  show "bb_view b = item # bb_view b'"
    using ring_view_Suc [of "bb_oldest b" "map (bb_item b) [0..<?N]" "bb_count b'"] d(11) item
    by (simp add: bb_view_def cnt items o same)
  show "bb_conf b' = bb_conf b" by (simp add: bb_conf_def same)
qed

text \<open>
  The block buffer meets the contract of a bounded queue: room for one item less than its
  slots, each item cut to the size given when the buffer was created.
\<close>

interpretation bbf: bounded_fifo bb_inv bb_view bb_conf "\<lambda>c. fst c - 1" "\<lambda>c. take (snd c - 4)"
  bb_put bb_get
proof unfold_locales
  fix s x s' y assume inv: "bb_inv s"
  note sh = bb_inv_shape [OF inv] and d = bb_shapeD [OF bb_inv_shape [OF inv]]
  show "length (bb_view s) \<le> fst (bb_conf s) - 1" using d(12) by (simp add: bb_conf_def)
  show "bb_put x s = None \<longleftrightarrow> length (bb_view s) = fst (bb_conf s) - 1"
    using d(1,12) by (auto simp: bb_put_def bb_waiting_eq(1) [OF sh] bb_conf_def)
  show "bb_inv s' \<and> bb_view s' = bb_view s @ [take (snd (bb_conf s) - 4) x] \<and> bb_conf s' = bb_conf s"
    if "bb_put x s = Some s'"
  proof -
    have "bb_count s < bb_total_items s - 1" "fst (prvCopyQueueData s x) = s'"
      using that d(1) by (auto simp: bb_put_def bb_waiting_eq(1) [OF sh] split: if_splits)
    with bb_put_accepted [OF inv, of x s' "snd (prvCopyQueueData s x)"] show ?thesis
      by (auto simp: bb_conf_def)
  qed
  show "bb_get s = None \<longleftrightarrow> bb_view s = []"
    by (simp add: bb_get_def bb_waiting_eq(1) [OF sh] Let_def flip: length_0_conv)
  show "bb_get s = Some (y, s') \<Longrightarrow> bb_inv s' \<and> bb_view s = y # bb_view s' \<and> bb_conf s' = bb_conf s"
    using bb_get_delivers [OF inv] by blast
qed

section \<open>The heap invariant\<close>

definition bh_inv :: "block_heap \<Rightarrow> bool" where
  "bh_inv h \<longleftrightarrow> id_wf (bh_ids h) \<and> (\<forall>p \<in> set (id_live (bh_ids h)). bb_inv (bh_bufs h p))"

lemma bh_upd_simps [simp]:
  "bh_ids (bh_upd h p b) = bh_ids h"
  "bh_bufs (bh_upd h p b) = (bh_bufs h)(p := b)"
  by (simp_all add: bh_upd_def)

lemma bh_valid_live: "bh_inv h \<Longrightarrow> BlockBufferIsValid h p \<longleftrightarrow> p \<in> set (id_live (bh_ids h))"
  by (auto simp: BlockBufferIsValid_def bh_inv_def id_is_valid_iff id_wf_def)

lemma bh_inv_valid: "bh_inv h \<Longrightarrow> BlockBufferIsValid h p \<Longrightarrow> bb_inv (bh_bufs h p)"
  using bh_valid_live by (auto simp: bh_inv_def)

lemma block_valid_upd [simp]: "BlockBufferIsValid (bh_upd h p b) q = BlockBufferIsValid h q"
  by (simp add: BlockBufferIsValid_def)

lemma bh_inv_upd [inv_intro]: "bh_inv h \<Longrightarrow> bb_inv b \<Longrightarrow> bh_inv (bh_upd h p b)"
  by (auto simp: bh_inv_def)

text \<open>A buffer just created or cleared: the read pointer one slot behind the write pointer.\<close>

lemma bb_reset_inv:
  assumes "2 \<le> bb_total_items b" "bb_total_items b \<le> 256" "4 \<le> bb_item_size b"
    "bb_item_size b < 2 ^ 32" "bb_tail b = bb_head b + bb_total_items b * bb_item_size b"
    "length (bb_mem b) = bb_total_items b * bb_item_size b + 1"
    "bb_writeto b = bb_head b" "bb_items_waiting b = 0"
    "bb_readfrom b = bb_head b + (bb_total_items b - 1) * bb_item_size b"
  shows "bb_inv b" and "bb_view b = []"
proof -
  have rw: "bb_rd b = bb_total_items b - 1" "bb_wr b = 0"
    using assms(3,7,9) by (simp_all add: bb_rd_def bb_wr_def)
  then have "bb_oldest b = 0" using assms(1) by (simp add: bb_oldest_def ring_next_def)
  then have c: "bb_count b = 0" using rw by (simp add: bb_count_def)
  then show "bb_view b = []" by (simp flip: length_0_conv)
  have "bb_shape b" unfolding bb_shape_def rw using assms(1-9) by simp
  with c assms(8) show "bb_inv b" by (simp add: bb_inv_def)
qed

lemma bb_new_words:
  fixes n isz :: "32 word"
  assumes "2 \<le> unat n" and fits: "unat n * (unat isz + 4) < 2 ^ 32"
  shows "unat (isz + 4) = unat isz + 4" and "unat isz + 4 < 2 ^ 32"
    and "unat (n * (isz + 4)) = unat n * (unat isz + 4)"
    and "unat ((n - 1) * (isz + 4)) = (unat n - 1) * (unat isz + 4)"
proof -
  have "unat isz + 4 \<le> unat n * (unat isz + 4)" using assms(1) by (cases "unat n") simp_all
  then show z4: "unat isz + 4 < 2 ^ 32" using fits by (rule le_less_trans)
  then show z: "unat (isz + 4) = unat isz + 4" by (subst unat_add_lem [THEN iffD1]) simp_all
  show "unat (n * (isz + 4)) = unat n * (unat isz + 4)"
    using fits by (subst unat_mult_lem [THEN iffD1]) (simp_all add: z)
  have n1: "unat (n - 1) = unat n - 1" using assms(1) by (subst unat_sub) (auto simp: word_le_nat_alt)
  have "(unat n - 1) * (unat isz + 4) < 2 ^ 32"
    by (rule le_less_trans [OF mult_le_mono1 fits]) simp
  then show "unat ((n - 1) * (isz + 4)) = (unat n - 1) * (unat isz + 4)"
    by (subst unat_mult_lem [THEN iffD1]) (simp_all add: z n1)
qed

lemma bb_new_inv:
  fixes n isz :: "32 word"
  assumes "2 \<le> unat n" and "unat n \<le> 256" and fits: "unat n * (unat isz + 4) < 2 ^ 32"
    and junk: "length (ba_junk a) = unat n * (unat isz + 4) + 1"
  shows "bb_inv (bb_new a n isz)" and "bb_view (bb_new a n isz) = []"
    and "bb_conf (bb_new a n isz) = (unat n, unat isz + 4)"
proof -
  note w = bb_new_words [OF assms(1) fits]
  show "bb_inv (bb_new a n isz)" "bb_view (bb_new a n isz) = []"
    by (rule bb_reset_inv; use assms w in \<open>simp add: bb_new_def\<close>)+
  show "bb_conf (bb_new a n isz) = (unat n, unat isz + 4)" by (simp add: bb_conf_def bb_new_def w)
qed

lemma bb_clear_inv:
  assumes "bb_inv b"
  defines "b' \<equiv> b\<lparr>bb_items_waiting := 0, bb_writeto := bb_head b,
    bb_readfrom := bb_head b + (bb_total_items b - 1) * bb_item_size b\<rparr>"
  shows "bb_inv b'" and "bb_view b' = []"
  by (rule bb_reset_inv; use bb_shapeD [OF bb_inv_shape [OF assms(1)]] in \<open>simp add: b'_def\<close>)+

lemma block_write_view:
  assumes "bh_inv h" and "BlockBufferIsValid h p"
    and "BlockBufferWrite h p (Some src) (length src) = (h', r)"
  defines "b \<equiv> bh_bufs h p"
  shows "bh_inv h'" and "BlockBufferIsValid h' p" and "h' = bh_upd h p (bh_bufs h' p)"
    and "bb_count b = bb_total_items b - 1 \<Longrightarrow> h' = h \<and> r = -1"
    and "bb_count b \<noteq> bb_total_items b - 1 \<Longrightarrow> r = int (min (length src) (bb_item_size b - 4))
      \<and> bb_view (bh_bufs h' p) = bb_view b @ [take (bb_item_size b - 4) src]"
    and "bb_conf (bh_bufs h' p) = bb_conf b"
proof -
  have inv: "bb_inv b" using bh_inv_valid [OF assms(1,2)] by (simp add: b_def)
  note d = bb_shapeD [OF bb_inv_shape [OF inv]] and w = bb_waiting_eq(1) [OF bb_inv_shape [OF inv]]
  obtain b' n where c: "prvCopyQueueData b src = (b', n)" by fastforce
  have eq: "(h', r) = (if bb_count b < bb_total_items b - 1 then (bh_upd h p b', int n) else (h, -1))"
    using assms(2,3) w d(1) c by (auto simp: BlockBufferWrite_def b_def Let_def)
  have upd: "bh_upd h p (bh_bufs h p) = h" by (simp add: bh_upd_def)
  show "bh_inv h'" "BlockBufferIsValid h' p" "h' = bh_upd h p (bh_bufs h' p)"
    "bb_conf (bh_bufs h' p) = bb_conf b"
    using eq assms(1,2) bb_put_accepted [OF inv _ c] upd
    by (auto split: if_splits intro!: bh_inv_upd simp: b_def)
  show "bb_count b = bb_total_items b - 1 \<Longrightarrow> h' = h \<and> r = -1" using eq by simp
  show "bb_count b \<noteq> bb_total_items b - 1 \<Longrightarrow> r = int (min (length src) (bb_item_size b - 4))
      \<and> bb_view (bh_bufs h' p) = bb_view b @ [take (bb_item_size b - 4) src]"
    using eq d(12) bb_put_accepted(2) [OF inv _ c] prvCopyQueueData_mem(1) [OF bb_inv_shape [OF inv] c]
    by (auto split: if_splits)
qed

lemma block_read_view:
  assumes "bh_inv h" and "BlockBufferIsValid h p" and "BlockBufferRead h p False n = (h', out, r)"
  defines "b \<equiv> bh_bufs h p"
  shows "bh_inv h'" and "BlockBufferIsValid h' p" and "h' = bh_upd h p (bh_bufs h' p)"
    and "bb_view b = [] \<Longrightarrow> h' = h \<and> out = [] \<and> r = -2"
    and "bb_view b = x # xs \<Longrightarrow> out = take n x \<and> r = int (length out) \<and> bb_view (bh_bufs h' p) = xs"
    and "bb_conf (bh_bufs h' p) = bb_conf b"
proof -
  have inv: "bb_inv b" using bh_inv_valid [OF assms(1,2)] by (simp add: b_def)
  note w = bb_waiting_eq(1) [OF bb_inv_shape [OF inv]]
  have upd: "bh_upd h p (bh_bufs h p) = h" by (simp add: bh_upd_def)
  have eq: "(h', out, r) = (case bb_get b of None \<Rightarrow> (h, [], -2)
      | Some (item, b') \<Rightarrow> (bh_upd h p b', take n item, int (length (take n item))))"
    using assms(2,3) w by (auto simp: BlockBufferRead_def b_def Let_def split: option.splits)
  have refused: "bb_get b = None \<longleftrightarrow> bb_view b = []" by (rule bbf.get_refused [OF inv])
  show "bh_inv h'" "BlockBufferIsValid h' p" "h' = bh_upd h p (bh_bufs h' p)"
    "bb_conf (bh_bufs h' p) = bb_conf b"
    using eq assms(1,2) bb_get_delivers [OF inv] upd
    by (auto split: option.splits intro!: bh_inv_upd simp: b_def)
  show "bb_view b = [] \<Longrightarrow> h' = h \<and> out = [] \<and> r = -2" using eq refused by simp
  show "bb_view b = x # xs \<Longrightarrow> out = take n x \<and> r = int (length out) \<and> bb_view (bh_bufs h' p) = xs"
    using eq refused bb_get_delivers(2) [OF inv] by (cases "bb_get b") auto
qed

section \<open>Reachable heaps\<close>

text \<open>
  One call of an operation; the buffers are created with at most 256 slots and a total
  size that fits the 32-bit products of the code.
\<close>

inductive bh_step :: "block_heap \<Rightarrow> block_heap \<Rightarrow> bool" where
  bstep_create: "\<lbrakk>ba_struct a \<notin> set (id_live (bh_ids h)); NUL \<notin> set s; 0 < n; n \<le> 256;
      unat (max 2 n) * (unat isz + 4) < 2 ^ 32;
      length (ba_junk a) = unat (max 2 n) * (unat isz + 4) + 1;
      BlockBufferCreate a h n isz (Some s) = (h', p)\<rbrakk> \<Longrightarrow> bh_step h h'"
| bstep_delete: "bh_step h (BlockBufferDelete h p)"
| bstep_clear: "bh_step h (BlockBufferClear h p)"
| bstep_write: "BlockBufferWrite h p (Some src) (length src) = (h', r) \<Longrightarrow> bh_step h h'"
| bstep_read: "BlockBufferRead h p dest_null n = (h', out, r) \<Longrightarrow> bh_step h h'"

inductive bh_reach :: "block_heap \<Rightarrow> bool" where
  breach_init: "bh_reach \<lparr>bh_ids = [id_head_init], bh_bufs = bufs\<rparr>"
| breach_step: "\<lbrakk>bh_reach h; bh_step h h'\<rbrakk> \<Longrightarrow> bh_reach h'"

lemma max_2_word:
  fixes n :: "32 word"
  assumes "0 < n"
  shows "max 2 n = (if n = 1 then 2 else n)"
proof (cases "n = 1")
  case False
  then have "unat n \<noteq> unat (1 :: 32 word)" by (simp only: word_unat_eq_iff not_False_eq_True)
  moreover have "0 < unat n" using assms by (simp add: word_less_nat_alt)
  ultimately have "2 \<le> n" by (simp add: word_le_nat_alt)
  with False show ?thesis by (simp add: max_absorb2)
qed simp

lemma block_create_cases:
  assumes "BlockBufferCreate a h n isz (Some s) = (h', p)" and "p \<noteq> NULL"
  shows "p = ba_struct a" and "0 < n" and "bh_bufs h' = (bh_bufs h)(p := bb_new a (max 2 n) isz)"
    and "id_save (-3) (ba_node a) (bh_ids h) p (Some s) = (bh_ids h', 0)"
proof -
  have "n > 0" using assms by (auto simp: BlockBufferCreate_def split: if_splits)
  then have n: "max 2 n = (if n = 1 then 2 else n)"
    by (rule max_2_word)
  show "p = ba_struct a" "0 < n" "bh_bufs h' = (bh_bufs h)(p := bb_new a (max 2 n) isz)"
    "id_save (-3) (ba_node a) (bh_ids h) p (Some s) = (bh_ids h', 0)"
    using assms unfolding n
    by (auto simp: BlockBufferCreate_def BlockBufferPointerSave_def Let_def split: prod.splits if_splits)
qed

lemma block_create_fail:
  assumes "BlockBufferCreate a h n isz (Some s) = (h', NULL)"
  shows "bh_ids h' = bh_ids h" and "q \<noteq> ba_struct a \<Longrightarrow> bh_bufs h' q = bh_bufs h q"
  using assms
  by (auto simp: BlockBufferCreate_def BlockBufferPointerSave_def Let_def dest: id_save_fail
      split: prod.splits if_splits)

lemma bh_inv_create:
  assumes h: "bh_inv h" and fresh: "ba_struct a \<notin> set (id_live (bh_ids h))" and s: "NUL \<notin> set s"
    and n: "0 < n" "n \<le> 256" and fits: "unat (max 2 n) * (unat isz + 4) < 2 ^ 32"
    and junk: "length (ba_junk a) = unat (max 2 n) * (unat isz + 4) + 1"
    and create: "BlockBufferCreate a h n isz (Some s) = (h', p)"
  shows "bh_inv h'"
proof (cases "p = NULL")
  case True
  then have "bh_ids h' = bh_ids h" and "\<And>q. q \<noteq> ba_struct a \<Longrightarrow> bh_bufs h' q = bh_bufs h q"
    using block_create_fail [of a h n isz s h'] create by simp_all
  moreover have "q \<noteq> ba_struct a" if "q \<in> set (id_live (bh_ids h))" for q
    using that fresh by auto
  ultimately show ?thesis using h by (simp add: bh_inv_def)
next
  case False
  note c = block_create_cases [OF create False]
  have wf: "id_wf (bh_ids h)" using h by (simp add: bh_inv_def)
  have "id_wf (bh_ids h')" "set (id_live (bh_ids h')) = insert p (set (id_live (bh_ids h)))"
    using id_save_wf [OF wf _ s c(4)] fresh c(1) by simp_all
  moreover have "2 \<le> max 2 n" "max 2 n \<le> 256" using n by simp_all
  then have "2 \<le> unat (max 2 n)" "unat (max 2 n) \<le> 256"
    by (simp_all add: word_le_nat_alt)
  then have "bb_inv (bb_new a (max 2 n) isz)" using bb_new_inv(1) [OF _ _ fits junk] by simp
  ultimately show ?thesis using h c(3) by (auto simp: bh_inv_def)
qed

lemma bh_inv_delete [inv_intro]: "bh_inv h \<Longrightarrow> bh_inv (BlockBufferDelete h p)"
  by (auto simp: BlockBufferDelete_def BlockBufferIdReset_def bh_inv_def id_reset_wf id_reset_live
      dest: notin_set_remove1)

lemma bh_inv_clear [inv_intro]: "bh_inv h \<Longrightarrow> bh_inv (BlockBufferClear h p)"
  by (simp add: BlockBufferClear_def Let_def bh_inv_upd bb_clear_inv bh_inv_valid del: One_nat_def)

lemma bh_inv_step: "bh_step h h' \<Longrightarrow> bh_inv h \<Longrightarrow> bh_inv h'"
proof (induction rule: bh_step.induct)
  case (bstep_create a h s n isz h' p)
  then show ?case by (blast intro: bh_inv_create)
next
  case (bstep_write h p src h' r)
  then show ?case
    using block_write_view(1) [of h p src h' r]
    by (cases "BlockBufferIsValid h p") (auto simp: BlockBufferWrite_def)
next
  case (bstep_read h p dest_null n h' out r)
  then show ?case
    using block_read_view(1) [of h p n h' out r]
    by (cases "BlockBufferIsValid h p \<and> \<not> dest_null") (auto simp: BlockBufferRead_def)
qed (simp_all add: inv_intro)

lemma bh_reach_inv: "bh_reach h \<Longrightarrow> bh_inv h"
proof (induction rule: bh_reach.induct)
  case (breach_init bufs)
  then show ?case by (simp add: bh_inv_def id_wf_init, simp add: id_head_init_def)
next
  case (breach_step h h')
  then show ?case by (blast intro: bh_inv_step)
qed

section \<open>Any sequence of writes and reads\<close>

datatype block_io = BWr "byte list" | BRd nat

text \<open>The items accepted (as stored) and the waiting items each read takes, in order.\<close>

fun block_io_run :: "block_heap \<Rightarrow> ptr \<Rightarrow> block_io list
    \<Rightarrow> byte list list \<times> (nat \<times> byte list) list \<times> block_heap" where
  "block_io_run h p [] = ([], [], h)"
| "block_io_run h p (BWr src # ios) =
     (let (h1, r) = BlockBufferWrite h p (Some src) (length src);
          (w, d, h2) = block_io_run h1 p ios
      in (if r \<ge> 0 then take (nat r) src # w else w, d, h2))"
| "block_io_run h p (BRd n # ios) =
     (let (h1, out, r) = BlockBufferRead h p False n;
          (w, d, h2) = block_io_run h1 p ios
      in (w, if r \<ge> 0 then (n, out) # d else d, h2))"

lemma block_io_run_lemma:
  "bh_inv h \<Longrightarrow> BlockBufferIsValid h p \<Longrightarrow> block_io_run h p ios = (w, d, h') \<Longrightarrow>
    \<exists>items. bb_view (bh_bufs h p) @ w = items @ bb_view (bh_bufs h' p)
      \<and> length items = length d \<and> map snd d = map2 take (map fst d) items"
proof (induction h p ios arbitrary: w d rule: block_io_run.induct)
  case (1 h p)
  then show ?case by simp
next
  case (2 h p src ios)
  obtain h1 r where h1: "BlockBufferWrite h p (Some src) (length src) = (h1, r)" by fastforce
  obtain w1 where w1: "block_io_run h1 p ios = (w1, d, h')"
      "w = (if r \<ge> 0 then take (nat r) src # w1 else w1)"
    using 2 h1 by (auto split: prod.splits)
  note v = block_write_view [OF 2(2,3) h1]
  have "bb_view (bh_bufs h p) @ w = bb_view (bh_bufs h1 p) @ w1"
    using v(4,5) w1(2)
    by (cases "bb_count (bh_bufs h p) = bb_total_items (bh_bufs h p) - 1") (auto simp: min_def)
  with 2(1) [OF h1 [symmetric] refl v(1,2) w1(1)] show ?case by simp
next
  case (3 h p n ios)
  obtain h1 out r where h1: "BlockBufferRead h p False n = (h1, out, r)" by (metis prod.collapse)
  obtain d1 where d1: "block_io_run h1 p ios = (w, d1, h')" "d = (if r \<ge> 0 then (n, out) # d1 else d1)"
    using 3 h1 by (auto split: prod.splits)
  note v = block_read_view [OF 3(2,3) h1]
  obtain items where items: "bb_view (bh_bufs h1 p) @ w = items @ bb_view (bh_bufs h' p)"
      "length items = length d1" "map snd d1 = map2 take (map fst d1) items"
    using 3(1) [OF h1 [symmetric] refl refl v(1,2) d1(1)] by blast
  show ?case
  proof (cases "bb_view (bh_bufs h p)")
    case Nil
    then show ?thesis using v(4) d1(2) items by auto
  next
    case (Cons x xs)
    then show ?thesis using v(5) [OF Cons] d1(2) items by (intro exI [of _ "x # items"]) auto
  qed
qed

section \<open>A concrete heap\<close>

text \<open>Three slots of two bytes; one item waits in the middle slot.\<close>

definition block_demo :: block_heap where
  "block_demo =
     \<lparr>bh_ids = [\<lparr>nd_name = ''CMD'' @ replicate 61 NUL, nd_ptr = 7, nd_used = 1\<rparr>],
      bh_bufs = (\<lambda>_. \<lparr>bb_head = 100, bb_tail = 118, bb_writeto = 112, bb_readfrom = 100,
        bb_items_waiting = 1, bb_total_items = 3, bb_item_size = 6,
        bb_mem = [0, 0, 0, 0, 0, 0, 2, 0, 0, 0, 65, 66, 0, 0, 0, 0, 0, 0, 0]\<rparr>)\<rparr>"

lemmas bb_view_code = bb_view_def bb_item_def ring_view_def bb_count_def bb_oldest_def bb_rd_def
  bb_wr_def ring_count_def ring_next_def u32_at_def upt_rec

lemma block_demo_inv: "bh_inv block_demo"
  by (simp add: block_demo_def bh_inv_def id_wf_def nd_wf_def bb_inv_def bb_shape_def bb_view_code)

lemma block_demo_valid: "BlockBufferIsValid block_demo 7"
  by (simp add: block_demo_def BlockBufferIsValid_def)

lemma block_demo_view: "bb_view (bh_bufs block_demo 7) = [[65, 66]]"
  "bb_conf (bh_bufs block_demo 7) = (3, 6)"
  by (simp_all add: block_demo_def bb_view_code bb_conf_def)

section \<open>Properties\<close>

text \<open>\<open>BlockBufferWrite\<close> never answers busy on a well-formed buffer: it appends the item,
  cut to the size of a slot, and returns the length stored, or answers \<open>errBUFFER_FULL\<close> and
  changes nothing when all slots but one are waiting.\<close>

lemma block_write_spec:
  assumes "bh_inv h" and "BlockBufferIsValid h p"
    and "BlockBufferWrite h p (Some src) (length src) = (h', r)"
    and "bb_conf (bh_bufs h p) = (total_items, item_size)"
  shows "if length (bb_view (bh_bufs h p)) = total_items - 1 then h' = h \<and> r = -1
    else r = int (min (length src) (item_size - 4))
      \<and> bb_view (bh_bufs h' p) = bb_view (bh_bufs h p) @ [take (item_size - 4) src]
      \<and> bb_conf (bh_bufs h' p) = (total_items, item_size)
      \<and> (\<forall>q. q \<noteq> p \<longrightarrow> bh_bufs h' q = bh_bufs h q) \<and> bh_ids h' = bh_ids h"
proof -
  note v = block_write_view [OF assms(1-3)]
  have "(\<forall>q. q \<noteq> p \<longrightarrow> bh_bufs h' q = bh_bufs h q) \<and> bh_ids h' = bh_ids h"
    by (subst (1 2) v(3)) simp
  with v(4-6) assms(4) show ?thesis by (simp add: bb_conf_def)
qed

text \<open>\<open>BlockBufferRead\<close> removes the oldest item and delivers its first bytes, as many as
  the caller has room for; the rest of the item is dropped. An empty buffer answers
  \<open>errBUFFER_EMPTY\<close> and is left as it is.\<close>

lemma block_read_spec:
  assumes "bh_inv h" and "BlockBufferIsValid h p" and "BlockBufferRead h p False n = (h', out, r)"
  shows "case bb_view (bh_bufs h p) of
      [] \<Rightarrow> h' = h \<and> out = [] \<and> r = -2
    | item # rest \<Rightarrow> out = take n item \<and> r = int (length out) \<and> bb_view (bh_bufs h' p) = rest
        \<and> (\<forall>q. q \<noteq> p \<longrightarrow> bh_bufs h' q = bh_bufs h q) \<and> bh_ids h' = bh_ids h"
proof -
  note v = block_read_view [OF assms]
  have "(\<forall>q. q \<noteq> p \<longrightarrow> bh_bufs h' q = bh_bufs h q) \<and> bh_ids h' = bh_ids h"
    by (subst (1 2) v(3)) simp
  with v(4,5) show ?thesis by (simp split: list.split)
qed

text \<open>C7: commands keep their order: through any sequence of writes and reads of a block
  buffer, what waited followed by what was accepted is what the reads consumed, one item per
  successful read, followed by what still waits; each read returns the front of its item.\<close>

theorem block_fifo_trace:
  assumes "bh_inv h" and "BlockBufferIsValid h p" and "block_io_run h p ios = (w, d, h')"
  shows "\<exists>items. bb_view (bh_bufs h p) @ w = items @ bb_view (bh_bufs h' p)
    \<and> length items = length d \<and> map snd d = map2 take (map fst d) items"
  using block_io_run_lemma [OF assms] .

theorem block_fifo_trace_witness:
  "\<exists>items. [[65, 66], [1, 2], [3 :: byte]] = items @ [[3]] \<and> map2 take [4, 1] items = [[65, 66], [1]]"
proof -
  let ?run = "block_io_run block_demo 7 [BWr [1, 2], BRd 4, BWr [3], BRd 1]"
  obtain w d h' where run: "?run = (w, d, h')" by (metis prod.collapse)
  have "fst ?run = [[1, 2], [3]]" and "fst (snd ?run) = [(4, [65, 66]), (1, [1])]"
    and "bb_view (bh_bufs (snd (snd ?run)) 7) = [[3]]"
    by code_simp+
  then have "w = [[1, 2], [3]]" "d = [(4, [65, 66]), (1, [1])]" "bb_view (bh_bufs h' 7) = [[3]]"
    using run by (simp_all del: block_io_run.simps)
  with block_fifo_trace [OF block_demo_inv block_demo_valid run] show ?thesis
    by (fastforce simp: block_demo_view)
qed

text \<open>In every reachable heap the enquiries return (their unbounded loops end) and are
  right, except that \<open>BlockBufferFull\<close> answers 0 for every buffer, full ones included; the
  counter \<open>items_waiting\<close>, which the operations maintain but do not use, is the number of
  waiting items.\<close>

lemma block_enquiries:
  assumes "bh_reach h" and "BlockBufferIsValid h p"
  defines "n \<equiv> length (bb_view (bh_bufs h p))"
  shows "BlockBufferCnt h p = Some (int n) \<and> BlockBufferEmpty h p = Some (if n = 0 then 1 else 0)
    \<and> BlockBufferFull h p = Some 0 \<and> n < bb_total_items (bh_bufs h p)
    \<and> unat (bb_items_waiting (bh_bufs h p)) = n"
proof -
  have inv: "bb_inv (bh_bufs h p)" using bh_reach_inv [OF assms(1)] assms(2) by (rule bh_inv_valid)
  note d = bb_shapeD [OF bb_inv_shape [OF inv]]
  have "unat (bb_items_waiting (bh_bufs h p)) = n"
    using inv d(2,12) by (simp add: bb_inv_def n_def unat_of_nat)
  with assms(2) bb_waiting_eq(2) [OF bb_inv_shape [OF inv]] d(12) show ?thesis
    by (simp add: BlockBufferCnt_def BlockBufferEmpty_def BlockBufferFull_def n_def)
qed

text \<open>C39: a block buffer created with more than 257 slots is unusable: the pointer check gives
  up before it reaches the last slot, where the read pointer starts, so every write answers
  \<open>errBUFFER_RW_BUSY\<close> and stores nothing.\<close>

theorem block_oversized_busy:
  fixes n item_size :: "32 word"
  assumes "257 < unat n" and "unat n * (unat item_size + 4) < 2 ^ 32"
    and "ba_struct a \<notin> set (id_live (bh_ids h))" and "id_wf (bh_ids h)" and "NUL \<notin> set name"
    and "BlockBufferCreate a h n item_size (Some name) = (h', p)" and "p \<noteq> NULL"
  shows "BlockBufferWrite h' p (Some src) len = (h', -4) \<and> BlockBufferRead h' p False len = (h', [], -4)"
proof -
  note c = block_create_cases [OF assms(6,7)]
  have "max 2 n = n" using assms(1) by (simp add: max_def word_le_nat_alt)
  with c(3) have buf: "bh_bufs h' p = bb_new a n item_size" by simp
  have valid: "BlockBufferIsValid h' p"
    using id_save_wf(2) [OF assms(4) _ assms(5) c(4)] assms(3,7) c(1)
    by (simp add: BlockBufferIsValid_def id_is_valid_iff)
  have "BlockBufferPtrIsValid (bb_new a n item_size) < 0" (is "BlockBufferPtrIsValid ?b < 0")
  proof -
    have "bb_readfrom ?b = bb_head ?b + (unat n - 1) * (unat item_size + 4)"
      and "bb_item_size ?b = unat item_size + 4" "bb_total_items ?b = unat n"
      using bb_new_words [OF _ assms(2)] assms(1) by (simp_all add: bb_new_def)
    moreover have "bb_ptr_scan (unat item_size + 4) (bb_head ?b + (unat n - 1) * (unat item_size + 4))
        (bb_head ?b) 0 (unat n) = None"
      using bb_ptr_scan_limit [of "unat item_size + 4" 0 "unat n - 1" "unat n" "bb_head ?b"] assms(1)
      by (simp del: One_nat_def)
    ultimately have "bb_ptr_scan (bb_item_size ?b) (bb_readfrom ?b) (bb_head ?b) 0 (bb_total_items ?b) = None"
      by (simp only:)
    then show ?thesis by (simp add: BlockBufferPtrIsValid_def)
  qed
  then have "bb_waiting (bh_bufs h' p) = None" by (simp add: bb_waiting_def buf)
  with valid show ?thesis by (simp add: BlockBufferWrite_def BlockBufferRead_def Let_def)
qed

theorem block_oversized_busy_witness:
  "\<exists>h'. BlockBufferCreate \<lparr>ba_struct = 9, ba_head = 100, ba_node = True, ba_junk = []\<rparr>
      block_demo 300 8 (Some ''BIG'') = (h', 9) \<and> BlockBufferWrite h' 9 (Some [1]) 1 = (h', -4)"
proof -
  let ?a = "\<lparr>ba_struct = 9, ba_head = 100, ba_node = True, ba_junk = []\<rparr>"
  obtain h' p where c: "BlockBufferCreate ?a block_demo 300 8 (Some ''BIG'') = (h', p)" by fastforce
  have "p = 9" using arg_cong [OF c, of snd]
    by (simp add: BlockBufferCreate_def BlockBufferPointerSave_def id_save_def Let_def block_demo_def
        c_str_def split: prod.splits)
  moreover have "id_wf (bh_ids block_demo)" using block_demo_inv by (simp add: bh_inv_def)
  ultimately have "BlockBufferWrite h' 9 (Some [1]) 1 = (h', -4)"
    using block_oversized_busy [OF _ _ _ _ _ c] by (simp add: block_demo_def)
  with c \<open>p = 9\<close> show ?thesis by blast
qed

end
