(* ===== verification/Net_Register.thy ===== *)
theory Net_Register
  imports Char_Buffer Block_Buffer
begin

text \<open>
  The network layer's routing of packages to the buffers of the application
  (\<open>network/zhw_buffer_init.cxx\<close>, \<open>network/zhw_middle_forward.cxx\<close>,
  \<open>network/zhw_apply_common_func.cxx\<close>): a list binds (list kind, package type, direction) to
  a buffer identifier, and the forwarding step takes one package out of a network buffer and
  puts it into the buffer bound to its type.
\<close>

section \<open>The register\<close>

text \<open>\<open>buffer_info_t\<close>; the list starts with the static head, whose fields are all 0.\<close>

record buffer_info =
  bi_common_type :: int
  bi_pkg_type :: int
  bi_buffer_type :: int
  bi_buffer_id :: int

definition buffer_info_head :: buffer_info where
  "buffer_info_head = \<lparr>bi_common_type = 0, bi_pkg_type = 0, bi_buffer_type = 0, bi_buffer_id = 0\<rparr>"

text \<open>
  The loop of \<open>ZhwBufferRegister\<close> looks for the identifier in every node that has a
  successor; the last node, where the loop stops, is not looked at.
\<close>

fun reg_walk :: "buffer_info list \<Rightarrow> int \<Rightarrow> bool" where
  "reg_walk [] buffer_id = False"
| "reg_walk [nd] buffer_id = False"
| "reg_walk (nd # nd' # nds) buffer_id =
     (if bi_buffer_id nd = buffer_id then True else reg_walk (nd' # nds) buffer_id)"

definition ZhwBufferRegister :: "bool \<Rightarrow> buffer_info list \<Rightarrow> int \<Rightarrow> int \<Rightarrow> int \<Rightarrow> int
    \<Rightarrow> buffer_info list \<times> int" where
  "ZhwBufferRegister malloc_ok nds common_type pkg_type buffer_type buffer_id =
     (if reg_walk nds buffer_id then (nds, -1)
      else if \<not> malloc_ok then (nds, -1)
      else (nds @ [\<lparr>bi_common_type = common_type, bi_pkg_type = pkg_type,
                    bi_buffer_type = buffer_type, bi_buffer_id = buffer_id\<rparr>], 0))"

fun ZhwBufferInq :: "buffer_info list \<Rightarrow> int \<Rightarrow> int \<Rightarrow> int \<Rightarrow> int" where
  "ZhwBufferInq [] common_type pkg_type buffer_type = -1"
| "ZhwBufferInq (nd # nds) common_type pkg_type buffer_type =
     (if common_type = bi_common_type nd \<and> pkg_type = bi_pkg_type nd \<and> buffer_type = bi_buffer_type nd
      then bi_buffer_id nd else ZhwBufferInq nds common_type pkg_type buffer_type)"

text \<open>The identifiers of \<open>bcu_state\<close> that \<open>RegisterCommonBufferRecvBuffer\<close> binds.\<close>

record common_ids =
  ppt_state_recv_buffer_id :: int
  bcu_cmu_car_type_buffer_id :: int
  udp_common_recv_dev_colueme :: int
  all_dev_state_buffer_id :: int
  software_version_buffer_id :: int
  bcu_cmu_ack_state_buffer_id :: int
  bcu_recv_tcms_cmu_state_buffer_id :: int

abbreviation (input) COMMON_PACKAGE_TYPE_PTT_STATE :: int where "COMMON_PACKAGE_TYPE_PTT_STATE \<equiv> 3"
abbreviation (input) COMMON_PACKAGE_TYPE_DEVICE_INFO :: int where "COMMON_PACKAGE_TYPE_DEVICE_INFO \<equiv> 4"
abbreviation (input) COMMON_PACKAGE_TYPE_MONITOR_SPEAKER_CONTROL :: int where
  "COMMON_PACKAGE_TYPE_MONITOR_SPEAKER_CONTROL \<equiv> 5"
abbreviation (input) COMMON_PACKAGE_TYPE_ALL_DEV_STATE :: int where "COMMON_PACKAGE_TYPE_ALL_DEV_STATE \<equiv> 8"
abbreviation (input) COMMON_PACKAGE_TYPE_SOFTWARE_VERSION :: int where "COMMON_PACKAGE_TYPE_SOFTWARE_VERSION \<equiv> 12"
abbreviation (input) COMMON_PACKAGE_TYPE_CMU_CAR_TYPE :: int where "COMMON_PACKAGE_TYPE_CMU_CAR_TYPE \<equiv> 13"
abbreviation (input) COMMON_PACKAGE_TYPE_ACK_STATE :: int where "COMMON_PACKAGE_TYPE_ACK_STATE \<equiv> 14"
abbreviation (input) COMMON_PACKAGE_TYPE_TCMS_CMU_STATE :: int where "COMMON_PACKAGE_TYPE_TCMS_CMU_STATE \<equiv> 15"

text \<open>The calls, in order, with whether each allocation succeeds; their results are ignored.\<close>

definition common_registrations :: "common_ids \<Rightarrow> (int \<times> int \<times> int \<times> int) list" where
  "common_registrations s =
     [(1, COMMON_PACKAGE_TYPE_PTT_STATE, 1, ppt_state_recv_buffer_id s),
      (1, COMMON_PACKAGE_TYPE_CMU_CAR_TYPE, 1, bcu_cmu_car_type_buffer_id s),
      (1, COMMON_PACKAGE_TYPE_DEVICE_INFO, 1, udp_common_recv_dev_colueme s),
      (1, COMMON_PACKAGE_TYPE_MONITOR_SPEAKER_CONTROL, 1, udp_common_recv_dev_colueme s),
      (2, COMMON_PACKAGE_TYPE_ALL_DEV_STATE, 1, all_dev_state_buffer_id s),
      (2, COMMON_PACKAGE_TYPE_SOFTWARE_VERSION, 1, software_version_buffer_id s),
      (1, COMMON_PACKAGE_TYPE_ACK_STATE, 1, bcu_cmu_ack_state_buffer_id s),
      (1, COMMON_PACKAGE_TYPE_TCMS_CMU_STATE, 1, bcu_recv_tcms_cmu_state_buffer_id s)]"

fun register_all :: "buffer_info list \<Rightarrow> (int \<times> int \<times> int \<times> int) list \<Rightarrow> buffer_info list" where
  "register_all nds [] = nds"
| "register_all nds ((ct, pt, bt, bid) # regs) =
     register_all (fst (ZhwBufferRegister True nds ct pt bt bid)) regs"

definition RegisterCommonBufferRecvBuffer :: "buffer_info list \<Rightarrow> common_ids \<Rightarrow> buffer_info list" where
  "RegisterCommonBufferRecvBuffer nds s = register_all nds (common_registrations s)"

section \<open>Creating the application buffers\<close>

definition ZhwApplyBufferCreate :: "bb_alloc \<Rightarrow> cb_alloc \<Rightarrow> block_heap \<Rightarrow> char_heap
    \<Rightarrow> int \<Rightarrow> 32 word \<Rightarrow> 32 word \<Rightarrow> string option \<Rightarrow> block_heap \<times> char_heap \<times> int" where
  "ZhwApplyBufferCreate ba ca bh ch buffer_type buffer_number buffer_size name =
     (if buffer_type = 1
      then (let (bh', r) = BlockBufferCreate ba bh buffer_number buffer_size name
            in (bh', ch, if r = 0 then -1 else r))
      else if buffer_type = 2
      then (let (ch', r) = CharBufferCreate ca ch (unat buffer_size) name
            in (bh, ch', if r = 0 then -1 else r))
      else (bh, ch, -2))"

section \<open>Forwarding\<close>

text \<open>
  A package is the byte image of its struct: its size, the offset of \<open>pkg_type\<close> in it, and
  the contents of the local variable before the read (a short read leaves its end as it was).
\<close>

record pkg_struct =
  ps_sizeof :: nat
  ps_type_offset :: nat
  ps_stack :: "byte list"

definition pkg_of_read :: "pkg_struct \<Rightarrow> byte list \<Rightarrow> byte list" where
  "pkg_of_read ps out = out @ drop (length out) (ps_stack ps)"

definition pkg_type_of :: "pkg_struct \<Rightarrow> byte list \<Rightarrow> int" where
  "pkg_type_of ps pkg = sint (of_nat (u32_at pkg (ps_type_offset ps)) :: 32 word)"

text \<open>Read one package from \<open>low\<close>; pass it on to the buffer that \<open>route\<close> chooses.\<close>

definition forward_package :: "pkg_struct \<Rightarrow> (byte list \<Rightarrow> ptr option) \<Rightarrow> block_heap \<Rightarrow> ptr
    \<Rightarrow> block_heap \<times> int" where
  "forward_package ps route h low =
     (let (h1, out, r) = BlockBufferRead h low False (ps_sizeof ps) in
      if r > 0
      then (let pkg = pkg_of_read ps out in
        case route pkg of
          None \<Rightarrow> (h1, -1)
        | Some dst \<Rightarrow>
            (let (h2, w) = BlockBufferWrite h1 dst (Some pkg) (ps_sizeof ps)
             in (h2, if w < 0 then -1 else 1)))
      else (h1, -1))"

definition ZhwNetworkRecvForward :: "pkg_struct \<Rightarrow> pkg_struct \<Rightarrow> buffer_info list \<Rightarrow> block_heap
    \<Rightarrow> ptr \<Rightarrow> int \<Rightarrow> block_heap \<times> int" where
  "ZhwNetworkRecvForward common big nds h recv_buffer_id buffer_type =
     (if buffer_type = 1 \<or> buffer_type = 2
      then (let ps = (if buffer_type = 1 then common else big) in
        forward_package ps
          (\<lambda>pkg. let dst = ZhwBufferInq nds buffer_type (pkg_type_of ps pkg) 1
                 in if dst < 0 then None else Some dst)
          h recv_buffer_id)
      else (h, -1))"

definition ZhwNetworkSendForward :: "pkg_struct \<Rightarrow> pkg_struct \<Rightarrow> block_heap \<Rightarrow> ptr \<Rightarrow> int
    \<Rightarrow> block_heap \<times> int" where
  "ZhwNetworkSendForward common big h send_buffer_id send_big_buffer_type =
     (if send_buffer_id < 0 then (h, -1)
      else if send_big_buffer_type = 1 \<or> send_big_buffer_type = 2
      then (let ps = (if send_big_buffer_type = 1 then common else big);
                low = BlockBufferOpen h (Some (if send_big_buffer_type = 1
                  then ''network-udp-common-send'' else ''network-udp-common-big-send''))
            in if low < 0 then (h, -1)
               else forward_package ps (\<lambda>_. Some low) h send_buffer_id)
      else (h, -1))"

section \<open>Lemmas\<close>

lemma reg_walk_iff: "reg_walk nds bid \<longleftrightarrow> bid \<in> bi_buffer_id ` set (butlast nds)"
  by (induction nds bid rule: reg_walk.induct) auto

lemma inq_append:
  "ZhwBufferInq (nds @ nds') ct pt bt =
     (if \<exists>nd \<in> set nds. bi_common_type nd = ct \<and> bi_pkg_type nd = pt \<and> bi_buffer_type nd = bt
      then ZhwBufferInq nds ct pt bt else ZhwBufferInq nds' ct pt bt)"
  by (induction nds) auto

text \<open>What forwarding does to the waiting packages of the two buffers.\<close>

lemma forward_package_spec:
  assumes inv: "bh_inv h" and low: "BlockBufferIsValid h low"
    and view: "bb_view (bh_bufs h low) = item # rest" and ne: "item \<noteq> []" and sz: "0 < ps_sizeof ps"
    and stack: "length (ps_stack ps) = ps_sizeof ps"
    and fwd: "forward_package ps route h low = (h', r)"
  defines "pkg \<equiv> pkg_of_read ps (take (ps_sizeof ps) item)"
  shows "route pkg = None \<Longrightarrow> r = -1 \<and> bb_view (bh_bufs h' low) = rest"
    and "\<lbrakk>route pkg = Some dst; dst \<noteq> low; BlockBufferIsValid h dst\<rbrakk> \<Longrightarrow>
      bb_view (bh_bufs h' low) = rest
      \<and> (if bb_count (bh_bufs h dst) = bb_total_items (bh_bufs h dst) - 1
         then r = -1 \<and> bb_view (bh_bufs h' dst) = bb_view (bh_bufs h dst)
         else r = 1 \<and> bb_view (bh_bufs h' dst) =
           bb_view (bh_bufs h dst) @ [take (bb_item_size (bh_bufs h dst) - 4) pkg])"
proof -
  obtain h1 out n where rd: "BlockBufferRead h low False (ps_sizeof ps) = (h1, out, n)"
    by (metis prod.collapse)
  note v = block_read_view [OF inv low rd]
  have out: "out = take (ps_sizeof ps) item" and n: "n > 0" and rest: "bb_view (bh_bufs h1 low) = rest"
    using v(5) [OF view] ne sz by auto
  have len: "length pkg = ps_sizeof ps" using stack by (simp add: pkg_def pkg_of_read_def)
  have other: "bh_bufs h1 q = bh_bufs h q" if "q \<noteq> low" for q using that by (subst v(3)) simp
  have valid: "BlockBufferIsValid h1 q = BlockBufferIsValid h q" for q by (subst v(3)) simp
  show "route pkg = None \<Longrightarrow> r = -1 \<and> bb_view (bh_bufs h' low) = rest"
    using fwd rd n out rest by (auto simp: forward_package_def pkg_def)
  assume dst: "route pkg = Some dst" "dst \<noteq> low" "BlockBufferIsValid h dst"
  obtain h2 w where wr: "BlockBufferWrite h1 dst (Some pkg) (length pkg) = (h2, w)" by fastforce
  have h': "h' = h2" "r = (if w < 0 then -1 else 1)"
    using fwd rd n out dst(1) wr len by (auto simp: forward_package_def pkg_def)
  have "BlockBufferIsValid h1 dst" using dst(3) valid by simp
  note u = block_write_view [OF v(1) this wr]
  have "bh_bufs h' low = bh_bufs h1 low" using dst(2) h'(1) by (subst h'(1), subst u(3)) simp
  with u(4,5) h' rest other [OF dst(2)]
  show "bb_view (bh_bufs h' low) = rest
      \<and> (if bb_count (bh_bufs h dst) = bb_total_items (bh_bufs h dst) - 1
         then r = -1 \<and> bb_view (bh_bufs h' dst) = bb_view (bh_bufs h dst)
         else r = 1 \<and> bb_view (bh_bufs h' dst) =
           bb_view (bh_bufs h dst) @ [take (bb_item_size (bh_bufs h dst) - 4) pkg])"
    by auto
qed

section \<open>Properties\<close>

text \<open>After start-up every package type is routed to its buffer. The volume buffer is
  registered twice, for device volumes and for the monitor speaker, and the second
  registration is accepted only because \<open>ZhwBufferRegister\<close> does not look at the last node.\<close>

lemma register_startup:
  assumes "distinct [ppt_state_recv_buffer_id s, bcu_cmu_car_type_buffer_id s,
      udp_common_recv_dev_colueme s, all_dev_state_buffer_id s, software_version_buffer_id s,
      bcu_cmu_ack_state_buffer_id s, bcu_recv_tcms_cmu_state_buffer_id s, 0]"
  defines "nds \<equiv> RegisterCommonBufferRecvBuffer [buffer_info_head] s"
  shows "\<forall>(ct, pt, bt, bid) \<in> set (common_registrations s). ZhwBufferInq nds ct pt bt = bid"
  using assms(1) unfolding nds_def
  by (auto simp: RegisterCommonBufferRecvBuffer_def common_registrations_def ZhwBufferRegister_def
      buffer_info_head_def)

text \<open>C10: a package that arrives is taken from the network buffer exactly once. It is appended
  to the buffer bound to its type, cut to its slot; it is lost, with the answer -1, when no
  buffer is bound to its type or that buffer is full.\<close>

theorem recv_forward_spec:
  assumes "bh_inv h" and "BlockBufferIsValid h low"
    and "bb_view (bh_bufs h low) = item # rest" and "item \<noteq> []"
    and "buffer_type = 1 \<or> buffer_type = 2"
    and "ps = (if buffer_type = 1 then common else big)"
    and "0 < ps_sizeof ps" and "length (ps_stack ps) = ps_sizeof ps"
    and "ZhwNetworkRecvForward common big nds h low buffer_type = (h', r)"
    and "dst = ZhwBufferInq nds buffer_type (pkg_type_of ps pkg) 1"
    and "pkg = pkg_of_read ps (take (ps_sizeof ps) item)"
    and "dst < 0 \<or> BlockBufferIsValid h dst \<and> dst \<noteq> low"
  shows "bb_view (bh_bufs h' low) = rest
    \<and> (if dst < 0 then r = -1
       else if length (bb_view (bh_bufs h dst)) = bb_total_items (bh_bufs h dst) - 1
       then r = -1 \<and> bb_view (bh_bufs h' dst) = bb_view (bh_bufs h dst)
       else r = 1 \<and> bb_view (bh_bufs h' dst) =
         bb_view (bh_bufs h dst) @ [take (bb_item_size (bh_bufs h dst) - 4) pkg])"
proof -
  let ?route = "\<lambda>pkg. let dst = ZhwBufferInq nds buffer_type (pkg_type_of ps pkg) 1
    in if dst < 0 then None else Some dst"
  have fwd: "forward_package ps ?route h low = (h', r)"
    using assms(5,6,9) by (auto simp: ZhwNetworkRecvForward_def Let_def)
  have route: "?route pkg = (if dst < 0 then None else Some dst)" by (simp add: assms(10))
  note f = forward_package_spec [OF assms(1-4,7,8) fwd, folded assms(11), unfolded route]
  show ?thesis using f(1) f(2) [of dst] assms(12) by auto
qed

definition fwd_demo :: block_heap where
  "fwd_demo =
     \<lparr>bh_ids = [\<lparr>nd_name = ''LOW'' @ replicate 61 NUL, nd_ptr = 7, nd_used = 1\<rparr>,
               \<lparr>nd_name = ''APP'' @ replicate 61 NUL, nd_ptr = 9, nd_used = 1\<rparr>],
      bh_bufs = (\<lambda>_. \<lparr>bb_head = 100, bb_tail = 116, bb_writeto = 100, bb_readfrom = 108,
        bb_items_waiting = 0, bb_total_items = 2, bb_item_size = 8, bb_mem = replicate 17 0\<rparr>)
       (7 := \<lparr>bb_head = 200, bb_tail = 220, bb_writeto = 200, bb_readfrom = 200,
        bb_items_waiting = 1, bb_total_items = 2, bb_item_size = 10,
        bb_mem = replicate 10 0 @ [5, 0, 0, 0, 3, 0, 0, 0, 99, 0, 0]\<rparr>)\<rparr>"

theorem recv_forward_spec_witness:
  "bb_view (bh_bufs (fst (ZhwNetworkRecvForward \<lparr>ps_sizeof = 5, ps_type_offset = 0, ps_stack = replicate 5 0\<rparr>
     \<lparr>ps_sizeof = 5, ps_type_offset = 0, ps_stack = replicate 5 0\<rparr>
     [\<lparr>bi_common_type = 1, bi_pkg_type = 3, bi_buffer_type = 1, bi_buffer_id = 9\<rparr>] fwd_demo 7 1)) 9)
   = [[3, 0, 0, 0]]"
proof -
  define ps where "ps = \<lparr>ps_sizeof = 5, ps_type_offset = 0, ps_stack = replicate 5 (0 :: byte)\<rparr>"
  define nds where "nds = [\<lparr>bi_common_type = 1, bi_pkg_type = 3, bi_buffer_type = 1, bi_buffer_id = 9\<rparr>]"
  obtain h' r where run: "ZhwNetworkRecvForward ps ps nds fwd_demo 7 1 = (h', r)" by fastforce
  have inv: "bh_inv fwd_demo"
    by (simp add: fwd_demo_def bh_inv_def id_wf_def nd_wf_def bb_inv_def bb_shape_def bb_view_code nth_append)
  have valid: "BlockBufferIsValid fwd_demo 7" "BlockBufferIsValid fwd_demo 9"
    by (simp_all add: fwd_demo_def BlockBufferIsValid_def)
  have views: "bb_view (bh_bufs fwd_demo 7) = [[3, 0, 0, 0, 99]]" "bb_view (bh_bufs fwd_demo 9) = []"
    "bb_total_items (bh_bufs fwd_demo 9) = 2" "bb_item_size (bh_bufs fwd_demo 9) = 8"
    by code_simp+
  have pkg: "[3, 0, 0, 0, 99] = pkg_of_read ps (take (ps_sizeof ps) [3, 0, 0, 0, 99])"
    and dst: "9 = ZhwBufferInq nds 1 (pkg_type_of ps [3, 0, 0, 0, 99]) 1"
    by (simp_all add: ps_def nds_def pkg_of_read_def pkg_type_of_def u32_at_def)
  have "bb_view (bh_bufs h' 9) = [[3, 0, 0, 0]]"
    using recv_forward_spec [OF inv valid(1) views(1) _ _ _ _ _ run dst pkg] valid(2) views
    by (simp add: ps_def del: bb_view_length)
  then show ?thesis using run by (simp add: ps_def nds_def)
qed

end
