(* ===== verification/Alarm_List.thy ===== *)
theory Alarm_List
  imports Id_Registry
begin

text \<open>
  The named alarms of \<open>alarm_list_fun.cxx\<close>, a layer over the alarms of the eCos kernel. The
  kernel is not part of the repository: what the code asks of it is recorded as the list of
  calls, and the current time is an argument. The call-back given to the kernel ends in
  \<open>AlarmTimeOutProcess\<close>, which is one of the operations here. A kernel alarm handle is
  identified with the address of the \<open>alarm_param_type_t\<close> that holds it.
\<close>

section \<open>State\<close>

record alarm_param =
  ap_handle_function :: int
  ap_abs_trigger_time :: "32 word"
  ap_interval :: "32 word"
  ap_timeout :: byte

text \<open>The calls of the kernel; a trigger time is a 64-bit tick count.\<close>

datatype cyg_call =
    CygCreate ptr int
  | CygInitialize ptr "64 word" "32 word"
  | CygEnable ptr
  | CygDisable ptr

record alarm_world =
  aw_ids :: id_list
  aw_params :: "ptr \<Rightarrow> alarm_param"
  aw_calls :: "cyg_call list"

definition aw_set :: "alarm_world \<Rightarrow> ptr \<Rightarrow> alarm_param \<Rightarrow> alarm_world" where
  "aw_set w p a = w\<lparr>aw_params := (aw_params w)(p := a)\<rparr>"

definition cyg :: "alarm_world \<Rightarrow> cyg_call list \<Rightarrow> alarm_world" where
  "cyg w cs = w\<lparr>aw_calls := aw_calls w @ cs\<rparr>"

section \<open>Operations\<close>

definition AlarmIdIsValid :: "alarm_world \<Rightarrow> ptr \<Rightarrow> bool" where
  "AlarmIdIsValid w p = (if p = NULL then False else id_is_valid (aw_ids w) p)"

definition AlarmPointerSave :: "bool \<Rightarrow> alarm_world \<Rightarrow> ptr \<Rightarrow> string option \<Rightarrow> alarm_world \<times> int" where
  "AlarmPointerSave node_ok w p name =
     (let (nds, r) = id_save (-1) node_ok (aw_ids w) p name in (w\<lparr>aw_ids := nds\<rparr>, r))"

text \<open>
  \<open>AlarmCreate\<close> at time \<open>now\<close>; \<open>p\<close> is the allocated struct (\<open>NULL\<close> when there is no
  memory) and \<open>junk\<close> the byte that the allocation leaves in \<open>timeout\<close>, which is not set.
\<close>

definition AlarmCreate :: "bool \<Rightarrow> 64 word \<Rightarrow> ptr \<Rightarrow> byte \<Rightarrow> alarm_world \<Rightarrow> string option
    \<Rightarrow> 32 word \<Rightarrow> 32 word \<Rightarrow> int \<Rightarrow> alarm_world \<times> ptr" where
  "AlarmCreate node_ok now p junk w name abs_trigger_time interval cb_func =
     (case name of
        None \<Rightarrow> (w, NULL)
      | Some s \<Rightarrow>
          if p \<noteq> NULL
          then (let w1 = cyg w [CygCreate p cb_func,
                      CygInitialize p (now + ucast abs_trigger_time) interval, CygDisable p];
                    w2 = aw_set w1 p \<lparr>ap_handle_function = cb_func,
                      ap_abs_trigger_time = abs_trigger_time, ap_interval = interval, ap_timeout = junk\<rparr>;
                    (w3, r) = AlarmPointerSave node_ok w2 p (Some s)
                in if r = 0 then (w3, p) else (w3, NULL))
          else (w, NULL))"

definition AlarmEnable :: "64 word \<Rightarrow> alarm_world \<Rightarrow> ptr \<Rightarrow> alarm_world \<times> int" where
  "AlarmEnable now w p =
     (if \<not> AlarmIdIsValid w p then (w, -1)
      else (let a = aw_params w p;
                w1 = cyg w [CygInitialize p (now + ucast (ap_abs_trigger_time a)) (ap_interval a), CygEnable p]
            in (aw_set w1 p (a\<lparr>ap_timeout := 0\<rparr>), 0)))"

definition AlarmEnableWithNewTrigger :: "64 word \<Rightarrow> alarm_world \<Rightarrow> ptr \<Rightarrow> 32 word \<Rightarrow> 32 word
    \<Rightarrow> alarm_world \<times> int" where
  "AlarmEnableWithNewTrigger now w p new_trigger_time new_interval =
     (if \<not> AlarmIdIsValid w p then (w, -1)
      else (let a = (aw_params w p)\<lparr>ap_abs_trigger_time := new_trigger_time, ap_interval := new_interval\<rparr>;
                w1 = cyg w [CygInitialize p (now + ucast (ap_abs_trigger_time a)) (ap_interval a), CygEnable p]
            in (aw_set w1 p (a\<lparr>ap_timeout := 0\<rparr>), 0)))"

definition AlarmDisable :: "alarm_world \<Rightarrow> ptr \<Rightarrow> alarm_world \<times> int" where
  "AlarmDisable w p =
     (if \<not> AlarmIdIsValid w p then (w, -1)
      else (aw_set (cyg w [CygDisable p]) p ((aw_params w p)\<lparr>ap_timeout := -1\<rparr>), 0))"

definition AlarmResetTimeOut :: "alarm_world \<Rightarrow> ptr \<Rightarrow> alarm_world \<times> int" where
  "AlarmResetTimeOut w p =
     (if \<not> AlarmIdIsValid w p then (w, -1)
      else (aw_set w p ((aw_params w p)\<lparr>ap_timeout := -1\<rparr>), 0))"

text \<open>\<open>timeout\<close> is a plain \<open>char\<close>, whose signedness is that of the target.\<close>

definition AlarmCheckTimeOut :: "bool \<Rightarrow> alarm_world \<Rightarrow> ptr \<Rightarrow> int" where
  "AlarmCheckTimeOut char_signed w p =
     (if \<not> AlarmIdIsValid w p then -1
      else if char_signed then sint (ap_timeout (aw_params w p)) else uint (ap_timeout (aw_params w p)))"

definition AlarmTimeOutProcess :: "alarm_world \<Rightarrow> ptr \<Rightarrow> alarm_world \<times> int" where
  "AlarmTimeOutProcess w p =
     (if \<not> AlarmIdIsValid w p then (w, -1)
      else (aw_set w p ((aw_params w p)\<lparr>ap_timeout := 1\<rparr>), 0))"

section \<open>What the kernel was told\<close>

text \<open>Whether the last enabling or disabling call for an alarm enabled it, and its schedule.\<close>

fun cyg_armed :: "cyg_call list \<Rightarrow> ptr \<Rightarrow> bool" where
  "cyg_armed [] p = False"
| "cyg_armed (c # cs) p =
     (if CygEnable p \<in> set cs \<or> CygDisable p \<in> set cs then cyg_armed cs p else c = CygEnable p)"

fun cyg_schedule :: "cyg_call list \<Rightarrow> ptr \<Rightarrow> (64 word \<times> 32 word) option" where
  "cyg_schedule [] p = None"
| "cyg_schedule (c # cs) p =
     (case cyg_schedule cs p of
        Some ti \<Rightarrow> Some ti
      | None \<Rightarrow> (case c of CygInitialize q t i \<Rightarrow> if q = p then Some (t, i) else None | _ \<Rightarrow> None))"

lemma cyg_armed_snoc:
  "cyg_armed (cs @ [c]) p = (if c = CygEnable p then True else if c = CygDisable p then False
     else cyg_armed cs p)"
  by (induction cs) auto

lemma cyg_armed_append:
  "cyg_armed (cs @ [c, d]) p = (if d = CygEnable p then True else if d = CygDisable p then False
     else cyg_armed (cs @ [c]) p)"
  "cyg_armed (cs @ [c, d, e]) p = (if e = CygEnable p then True else if e = CygDisable p then False
     else cyg_armed (cs @ [c, d]) p)"
  using cyg_armed_snoc [of "cs @ [c]" d] cyg_armed_snoc [of "cs @ [c, d]" e] by simp_all

lemma cyg_schedule_append:
  "cyg_schedule (cs @ ds) p = (case cyg_schedule ds p of Some ti \<Rightarrow> Some ti | None \<Rightarrow> cyg_schedule cs p)"
  by (induction cs) (auto split: option.splits)

lemmas cyg_simps = cyg_armed_append cyg_armed_snoc cyg_schedule_append cyg_def aw_set_def

section \<open>Histories\<close>

datatype alarm_op =
    Enable "64 word" ptr
  | EnableNew "64 word" ptr "32 word" "32 word"
  | Disable ptr
  | Reset ptr
  | Fire ptr

fun alarm_op_run :: "alarm_op \<Rightarrow> alarm_world \<Rightarrow> alarm_world" where
  "alarm_op_run (Enable now p) w = fst (AlarmEnable now w p)"
| "alarm_op_run (EnableNew now p t i) w = fst (AlarmEnableWithNewTrigger now w p t i)"
| "alarm_op_run (Disable p) w = fst (AlarmDisable w p)"
| "alarm_op_run (Reset p) w = fst (AlarmResetTimeOut w p)"
| "alarm_op_run (Fire p) w = fst (AlarmTimeOutProcess w p)"

definition alarm_run :: "alarm_op list \<Rightarrow> alarm_world \<Rightarrow> alarm_world" where
  "alarm_run ops w = fold alarm_op_run ops w"

text \<open>
  The abstract alarm: whether the kernel runs it, its flag, its trigger time and interval and
  the absolute time it was last scheduled for.
\<close>

record alarm_view =
  av_armed :: bool
  av_flag :: byte
  av_times :: "32 word \<times> 32 word"
  av_schedule :: "(64 word \<times> 32 word) option"

definition alarm_view_of :: "alarm_world \<Rightarrow> ptr \<Rightarrow> alarm_view" where
  "alarm_view_of w p =
     \<lparr>av_armed = cyg_armed (aw_calls w) p, av_flag = ap_timeout (aw_params w p),
      av_times = (ap_abs_trigger_time (aw_params w p), ap_interval (aw_params w p)),
      av_schedule = cyg_schedule (aw_calls w) p\<rparr>"

fun alarm_spec :: "ptr \<Rightarrow> alarm_op \<Rightarrow> alarm_view \<Rightarrow> alarm_view" where
  "alarm_spec p (Enable now q) v =
     (if p = q then v\<lparr>av_armed := True, av_flag := 0,
        av_schedule := Some (now + ucast (fst (av_times v)), snd (av_times v))\<rparr> else v)"
| "alarm_spec p (EnableNew now q t i) v =
     (if p = q then v\<lparr>av_armed := True, av_flag := 0, av_times := (t, i),
        av_schedule := Some (now + ucast t, i)\<rparr> else v)"
| "alarm_spec p (Disable q) v = (if p = q then v\<lparr>av_armed := False, av_flag := -1\<rparr> else v)"
| "alarm_spec p (Reset q) v = (if p = q then v\<lparr>av_flag := -1\<rparr> else v)"
| "alarm_spec p (Fire q) v = (if p = q then v\<lparr>av_flag := 1\<rparr> else v)"

lemma alarm_op_ids [simp]: "aw_ids (alarm_op_run op w) = aw_ids w"
  by (cases op) (simp_all add: AlarmEnable_def AlarmEnableWithNewTrigger_def AlarmDisable_def
      AlarmResetTimeOut_def AlarmTimeOutProcess_def Let_def cyg_def aw_set_def)

lemma alarm_op_valid [simp]: "AlarmIdIsValid (alarm_op_run op w) p = AlarmIdIsValid w p"
  by (simp add: AlarmIdIsValid_def)

lemma alarm_op_spec:
  "AlarmIdIsValid w p \<Longrightarrow> alarm_view_of (alarm_op_run op w) p = alarm_spec p op (alarm_view_of w p)"
  by (cases op) (auto simp: AlarmEnable_def AlarmEnableWithNewTrigger_def AlarmDisable_def
      AlarmResetTimeOut_def AlarmTimeOutProcess_def Let_def cyg_simps alarm_view_of_def)

lemma alarm_run_ids: "aw_ids (alarm_run ops w) = aw_ids w"
  by (induction ops arbitrary: w) (simp_all add: alarm_run_def)

lemma alarm_run_spec:
  "AlarmIdIsValid w p \<Longrightarrow> alarm_view_of (alarm_run ops w) p = fold (alarm_spec p) ops (alarm_view_of w p)"
  by (induction ops arbitrary: w) (simp_all add: alarm_run_def alarm_op_spec)

lemma alarm_spec_other: "p \<noteq> q \<Longrightarrow> op \<in> {Enable n q, EnableNew n q t i, Disable q, Reset q, Fire q} \<Longrightarrow>
    alarm_spec p op v = v"
  by auto

text \<open>Only \<open>Enable\<close> and \<open>Disable\<close> arm and disarm; a flag 0 means armed.\<close>

lemma alarm_spec_flag:
  "(av_flag v = 0 \<longrightarrow> av_armed v) \<Longrightarrow> av_flag (alarm_spec p op v) = 0 \<longrightarrow> av_armed (alarm_spec p op v)"
  by (cases op) auto

lemma alarm_fold_flag:
  "(av_flag v = 0 \<longrightarrow> av_armed v) \<Longrightarrow>
    av_flag (fold (alarm_spec p) ops v) = 0 \<longrightarrow> av_armed (fold (alarm_spec p) ops v)"
  by (induction ops arbitrary: v) (auto simp: alarm_spec_flag)

lemma alarm_create_ok:
  assumes "AlarmCreate ok now p junk w (Some s) t i f = (w', r)" and "r \<noteq> NULL"
  shows "r = p" and "id_save (-1) ok (aw_ids w) p (Some s) = (aw_ids w', 0)"
    and "alarm_view_of w' p = \<lparr>av_armed = False, av_flag = junk, av_times = (t, i),
      av_schedule = Some (now + ucast t, i)\<rparr>"
    and "q \<noteq> p \<Longrightarrow> alarm_view_of w' q = alarm_view_of w q"
  using assms
  by (auto simp: AlarmCreate_def AlarmPointerSave_def Let_def alarm_view_of_def cyg_simps
      split: prod.splits if_splits)

definition alarm_demo :: alarm_world where
  "alarm_demo =
     \<lparr>aw_ids = [\<lparr>nd_name = ''T'' @ replicate 63 NUL, nd_ptr = 5, nd_used = 1\<rparr>],
      aw_params = (\<lambda>_. \<lparr>ap_handle_function = 0, ap_abs_trigger_time = 300, ap_interval = 7, ap_timeout = -1\<rparr>),
      aw_calls = []\<rparr>"

section \<open>Properties\<close>

text \<open>C18: every history of operations and kernel call-backs acts on each registered alarm as
  on one abstract alarm, whatever happens to the others: enabling schedules it at the current
  time plus its (new) trigger time and clears the flag, disabling stops it, the call-back sets
  the flag to 1, and a reset sets it to -1 without telling the kernel.\<close>

theorem alarm_refines:
  assumes "AlarmIdIsValid w p"
  shows "alarm_view_of (alarm_run ops w) p = fold (alarm_spec p) ops (alarm_view_of w p)
    \<and> aw_ids (alarm_run ops w) = aw_ids w"
  using alarm_run_spec [OF assms] alarm_run_ids by blast

theorem alarm_refines_witness:
  "av_schedule (alarm_view_of (alarm_run [EnableNew 1000 5 20 3, Fire 5, Reset 5, Enable 2000 5] alarm_demo) 5)
    = Some (2020, 3)"
proof -
  have "AlarmIdIsValid alarm_demo 5" by (simp add: alarm_demo_def AlarmIdIsValid_def)
  from alarm_refines [OF this, of "[EnableNew 1000 5 20 3, Fire 5, Reset 5, Enable 2000 5]"]
  show ?thesis by simp
qed

text \<open>From a freshly created alarm whose flag byte is not 0 by accident, \<open>AlarmCheckTimeOut\<close>
  answers 0 (running) only while the kernel has the alarm enabled, in every history; but the
  answer -1 (stopped) does not mean that the kernel has stopped it: after a reset it runs on.\<close>

lemma alarm_running_is_armed:
  assumes "AlarmCreate ok now p junk w (Some s) t i f = (w', p)" and "p \<noteq> NULL" and "junk \<noteq> 0"
    and "id_wf (aw_ids w)" and "p \<notin> set (id_live (aw_ids w))" and "NUL \<notin> set s"
  shows "(AlarmCheckTimeOut char_signed (alarm_run ops w') p = 0 \<longrightarrow> cyg_armed (aw_calls (alarm_run ops w')) p)
    \<and> AlarmCheckTimeOut True (alarm_run (ops @ [Enable now2 p, Reset p]) w') p = -1
    \<and> cyg_armed (aw_calls (alarm_run (ops @ [Enable now2 p, Reset p]) w')) p"
proof -
  note c = alarm_create_ok [OF assms(1,2)]
  have valid: "AlarmIdIsValid w' p"
    using id_save_wf(2) [OF assms(4,5,6) c(2)] assms(2)
    by (simp add: AlarmIdIsValid_def id_is_valid_iff)
  then have run: "AlarmIdIsValid (alarm_run ops w') p" for ops
    using assms(2) by (simp add: AlarmIdIsValid_def alarm_run_ids)
  have "av_flag (alarm_view_of (alarm_run ops w') p) = 0 \<longrightarrow> av_armed (alarm_view_of (alarm_run ops w') p)"
    unfolding alarm_run_spec [OF valid] by (rule alarm_fold_flag) (simp add: c(3) assms(3))
  then have "AlarmCheckTimeOut char_signed (alarm_run ops w') p = 0 \<longrightarrow> cyg_armed (aw_calls (alarm_run ops w')) p"
    using run [of ops]
    by (auto simp: AlarmCheckTimeOut_def alarm_view_of_def signed_eq_0_iff unsigned_eq_0_iff)
  moreover have "av_flag (alarm_view_of (alarm_run (ops @ [Enable now2 p, Reset p]) w') p) = -1
    \<and> av_armed (alarm_view_of (alarm_run (ops @ [Enable now2 p, Reset p]) w') p)"
    unfolding alarm_run_spec [OF valid] by simp
  ultimately show ?thesis
    using run [of ops] run [of "ops @ [Enable now2 p, Reset p]"] by (simp add: AlarmCheckTimeOut_def alarm_view_of_def)
qed

end
