(* ===== verification/Bcu_Types.thy ===== *)
theory Bcu_Types
  imports Bcu_Prelude
begin

text \<open>
  The commands and states that the broadcast control unit (BCU) works on
  (\<open>include/struct_type.h\<close>, \<open>include/data_struct.h\<close>, \<open>state_machine.h\<close>): event numbers, the
  command \<open>send_infomation_t\<close> with its two unions kept as bytes, and the eleven states
  of its announcement machine and its intercom machine.
\<close>

section \<open>Events\<close>

abbreviation (input) OCC_EVENT :: nat where "OCC_EVENT \<equiv> 1"
abbreviation (input) LIVE_ANN_EVENT :: nat where "LIVE_ANN_EVENT \<equiv> 2"
abbreviation (input) EMERG_ANN_EVENT :: nat where "EMERG_ANN_EVENT \<equiv> 3"
abbreviation (input) MANUAL_ANN_EVENT :: nat where "MANUAL_ANN_EVENT \<equiv> 4"
abbreviation (input) TMS_MANUAL_ANN_EVENT :: nat where "TMS_MANUAL_ANN_EVENT \<equiv> 5"
abbreviation (input) TMS_AUTO_ANN_EVENT :: nat where "TMS_AUTO_ANN_EVENT \<equiv> 6"
abbreviation (input) D2D_INTERCOMM_EVENT :: nat where "D2D_INTERCOMM_EVENT \<equiv> 7"
abbreviation (input) D2P_INTERCOMM_EVENT :: nat where "D2P_INTERCOMM_EVENT \<equiv> 8"
abbreviation (input) D2D_HANGUP_D2P_EVENT :: nat where "D2D_HANGUP_D2P_EVENT \<equiv> 9"
abbreviation (input) D2P_INTERCOM_PENDING :: nat where "D2P_INTERCOM_PENDING \<equiv> 10"
abbreviation (input) LINE_NUMBER_CHANGE_EVENT :: nat where "LINE_NUMBER_CHANGE_EVENT \<equiv> 11"
abbreviation (input) MIC_3D5_OUTER_EVENT :: nat where "MIC_3D5_OUTER_EVENT \<equiv> 12"
abbreviation (input) ANN_IDLE :: nat where "ANN_IDLE \<equiv> 254"
abbreviation (input) INTERCOM_IDLE :: nat where "INTERCOM_IDLE \<equiv> 255"
abbreviation (input) MUL_DST_NO :: nat where "MUL_DST_NO \<equiv> 230"
abbreviation (input) LIVE_DST_NO :: nat where "LIVE_DST_NO \<equiv> 231"

text \<open>The owner of the microphone.\<close>

abbreviation (input) ANNOUNCE :: nat where "ANNOUNCE \<equiv> 0"
abbreviation (input) INTERCOM :: nat where "INTERCOM \<equiv> 1"
abbreviation (input) NONE :: nat where "NONE \<equiv> 2"
abbreviation (input) OCC_OR_3D5 :: nat where "OCC_OR_3D5 \<equiv> 3"

section \<open>Commands\<close>

text \<open>
  \<open>send_infomation_t\<close>. The members of a union share its bytes: every announcement struct
  starts with its \<open>active\<close> byte, so \<open>occ_active\<close>, \<open>live_active\<close> and the others are one
  byte; \<open>d2d_intercomm_response\<close> and \<open>d2p_intercomm_pending\<close> are one byte too. \<open>si_line_pkg_type\<close> and
  \<open>si_line_cmd_type\<close> are the two members of \<open>line_status\<close> that the code reads. \<open>si_rest\<close>
  stands for the fields that the state machines only copy.
\<close>

record send_info =
  si_src_name :: string
  si_src_no :: byte
  si_type_ann :: nat
  si_ann :: "byte list"
  si_type_intercom :: nat
  si_intercom :: "byte list"
  si_line_pkg_type :: int
  si_line_cmd_type :: int
  si_rest :: "byte list"

definition ann_active :: "send_info \<Rightarrow> byte" where
  "ann_active s = si_ann s ! 0"

definition ann_begin_or_over :: "send_info \<Rightarrow> byte" where
  "ann_begin_or_over s = si_ann s ! 1"

definition manual_begin_or_over :: "send_info \<Rightarrow> byte" where
  "manual_begin_or_over s = si_ann s ! 2"

definition intercomm_active :: "send_info \<Rightarrow> byte" where
  "intercomm_active s = si_intercom s ! 0"

definition intercomm_request_or_over :: "send_info \<Rightarrow> byte" where
  "intercomm_request_or_over s = si_intercom s ! 1"

definition d2d_intercomm_response :: "send_info \<Rightarrow> byte" where
  "d2d_intercomm_response s = si_intercom s ! 2"

definition d2p_intercomm_pcu_device_no :: "send_info \<Rightarrow> byte" where
  "d2p_intercomm_pcu_device_no s = si_intercom s ! 5"

definition set_ann :: "nat \<Rightarrow> byte \<Rightarrow> send_info \<Rightarrow> send_info" where
  "set_ann i x s = s\<lparr>si_ann := (si_ann s)[i := x]\<rparr>"

definition set_intercom :: "nat \<Rightarrow> byte \<Rightarrow> send_info \<Rightarrow> send_info" where
  "set_intercom i x s = s\<lparr>si_intercom := (si_intercom s)[i := x]\<rparr>"

lemma set_ann_simps [simp]:
  "si_src_name (set_ann i x s) = si_src_name s" "si_src_no (set_ann i x s) = si_src_no s"
  "si_type_ann (set_ann i x s) = si_type_ann s" "si_type_intercom (set_ann i x s) = si_type_intercom s"
  "si_intercom (set_ann i x s) = si_intercom s" "length (si_ann (set_ann i x s)) = length (si_ann s)"
  by (simp_all add: set_ann_def)

lemma set_intercom_simps [simp]:
  "si_src_name (set_intercom i x s) = si_src_name s" "si_src_no (set_intercom i x s) = si_src_no s"
  "si_type_ann (set_intercom i x s) = si_type_ann s"
  "si_type_intercom (set_intercom i x s) = si_type_intercom s"
  "si_ann (set_intercom i x s) = si_ann s"
  "length (si_intercom (set_intercom i x s)) = length (si_intercom s)"
  by (simp_all add: set_intercom_def)

text \<open>A zeroed command with no event.\<close>

definition send_info_zero :: send_info where
  "send_info_zero = \<lparr>si_src_name = '''', si_src_no = 0, si_type_ann = ANN_IDLE,
     si_ann = replicate 8 0, si_type_intercom = INTERCOM_IDLE, si_intercom = replicate 8 0,
     si_line_pkg_type = 0, si_line_cmd_type = 0, si_rest = []\<rparr>"

section \<open>States\<close>

text \<open>The \<open>state_process_t\<close> objects, and the \<open>state_id\<close> each is initialised with.\<close>

datatype sproc =
    AutoAnn | IdleAnn | LiveAnn | OccAnn | Outer3D5Ann | EmergAnn | ManualAnn
  | IdleIntercom | D2DIntercom | D2PIntercom | IntercomHangUp

fun state_id :: "sproc \<Rightarrow> nat" where
  "state_id AutoAnn = TMS_AUTO_ANN_EVENT"
| "state_id IdleAnn = ANN_IDLE"
| "state_id LiveAnn = LIVE_ANN_EVENT"
| "state_id OccAnn = OCC_EVENT"
| "state_id Outer3D5Ann = MIC_3D5_OUTER_EVENT"
| "state_id EmergAnn = EMERG_ANN_EVENT"
| "state_id ManualAnn = MANUAL_ANN_EVENT"
| "state_id IdleIntercom = INTERCOM_IDLE"
| "state_id D2DIntercom = D2D_INTERCOMM_EVENT"
| "state_id D2PIntercom = D2P_INTERCOMM_EVENT"
| "state_id IntercomHangUp = D2D_HANGUP_D2P_EVENT"

text \<open>\<open>bcu_all_states\<close>, in the order of the table.\<close>

definition bcu_all_states :: "sproc list" where
  "bcu_all_states = [AutoAnn, IdleAnn, LiveAnn, OccAnn, Outer3D5Ann, EmergAnn, ManualAnn,
     IdleIntercom, D2DIntercom, D2PIntercom, IntercomHangUp]"

lemma state_id_inj [simp]: "state_id p = state_id q \<longleftrightarrow> p = q"
  by (cases p; cases q) simp_all

lemma bcu_all_states_set: "p \<in> set bcu_all_states"
  by (cases p) (simp_all add: bcu_all_states_def)

instantiation sproc :: linorder
begin

definition less_eq_sproc :: "sproc \<Rightarrow> sproc \<Rightarrow> bool" where
  "less_eq_sproc p q \<longleftrightarrow> state_id p \<le> state_id q"

definition less_sproc :: "sproc \<Rightarrow> sproc \<Rightarrow> bool" where
  "less_sproc p q \<longleftrightarrow> state_id p < state_id q"

instance
  by standard (auto simp: less_eq_sproc_def less_sproc_def)

end

text \<open>The states of the two machines.\<close>

definition ann_states :: "sproc set" where
  "ann_states = {AutoAnn, IdleAnn, LiveAnn, OccAnn, Outer3D5Ann, EmergAnn, ManualAnn}"

definition intercom_states :: "sproc set" where
  "intercom_states = {IdleIntercom, D2DIntercom, D2PIntercom, IntercomHangUp}"

end
