(* ===== verification/Bcu_Control.thy ===== *)
theory Bcu_Control
  imports Bcu_Types
begin

text \<open>
  The part of \<open>bcu_state\<close> that the two state machines of the control unit work on, the
  sending of commands (\<open>SendCmd\<close> of \<open>bcu_function.cxx\<close>), and the \<open>enter\<close>, \<open>exit\<close> and
  \<open>process\<close> functions of the eleven states (\<open>bcu_ann.cxx\<close>, \<open>bcu_intercom.cxx\<close>).

  Calls that only reach hardware, the sound card, the touch screen or a byte buffer leave a
  record in \<open>bc_calls\<close>, in their order. The queue of commands to the network thread is the
  list view of its block buffer.
\<close>

section \<open>State\<close>

datatype bcu_call =
    CloseMonitorSpeaker | OpenMonitorSpeaker
  | SetAudioSampleTimeInterval nat
  | OpenAudioSampleTimer | DisableAudioSampleTimer
  | EnableLiveMonitorTimer | DisableLiveMonitorTimer
  | ClearAudioSendBuffer | ClearAudioRecvBuffer | ClearPendingBuffer | ClearLocalRecvBuffer
  | ClearAlarmBuffer
  | MicAdPcmWavheader | OpenSndCard | TalkPaChoose nat | AudioInCtrl nat | SpeakerVolume nat
  | AdjustVolumeAfterCODEC | ForceBUfferData | EndSaveAudioData | ShowCurrentTime
  | CmuFlag nat | Led nat bool | ScreenSwitch nat
  | SendPTTState string nat nat
  | RecordingToCCU nat nat nat nat
  | InitSyncTimer | DisableSyncTimer | ThreadDelay nat

text \<open>
  \<open>bc_drained\<close> is how many commands the network thread takes out of the full queue while a
  writer sleeps, \<open>bc_snd_mode\<close> what \<open>GetSndCurrentMode\<close> answers, \<open>bc_ptt_key\<close> what
  \<open>GetPTTState\<close> answers.
\<close>

record bcu =
  bcu_active_ann_state :: sproc
  bcu_active_intercom_state :: sproc
  mic_owner :: nat
  current_state_ann :: nat
  current_state_intercom :: nat
  devices_name :: string
  devices_no :: nat
  opposite_bcu_no :: nat
  live_button_state :: nat
  d2d_button_state :: nat
  other_bcu_ptt_state :: nat
  this_bcu_ptt_state :: nat
  other_bcu_intercomm_state :: nat
  this_bcu_request :: nat
  bcu_requset_ocs_connecting :: nat
  recept_pcu_no :: nat
  refuse_pcu_no :: nat
  hang_up_pcu_no :: nat
  request_number :: nat
  pcu_alarm_playing :: nat
  pcu_alarm_playing_again :: nat
  open_snd_playback :: nat
  bcu_mcu_connect_state :: nat
  bcu_have_the_initiative_of_cmu :: nat
  bcu_cmu_connect_car_type :: nat
  bcu_current_tcms_cmu_state :: nat
  tcmns_effective_flag :: nat
  d2d_volume :: nat
  audio_dst :: "string \<times> nat"
  whether_open_sample_timer :: bool
  whether_have_begin_broadcast_alarm_audio_data :: nat
  whether_eant_to_delay_finished_d2d :: nat
  begin_to_broadcast_d2d :: nat
  begin_to_broadcast_audio_data :: nat
  play_audio :: nat
  current_is_being_d2d :: nat
  bcu_test_for_ts :: nat
  recv_cmd_info_of_ann :: send_info
  recv_cmd_info_of_intercom :: send_info
  cmd_queue :: "(string \<times> nat \<times> send_info) list"
  cmd_capacity :: nat
  bc_drained :: nat
  bc_snd_mode :: nat
  bc_ptt_key :: nat
  bc_calls :: "bcu_call list"

definition call :: "bcu_call \<Rightarrow> bcu \<Rightarrow> bcu" where
  "call c b = b\<lparr>bc_calls := bc_calls b @ [c]\<rparr>"

text \<open>Statements run in order.\<close>

definition seq :: "('a \<Rightarrow> 'a) list \<Rightarrow> 'a \<Rightarrow> 'a" where
  "seq fs b = fold (\<lambda>f. f) fs b"

lemma seq_simps [simp]: "seq [] b = b" "seq (f # fs) b = seq fs (f b)"
  by (simp_all add: seq_def)

section \<open>Sending commands\<close>

text \<open>
  The retry loop of \<open>SendCmd\<close> with \<open>n\<close> attempts left: a write fails when the queue is full,
  and each failed write is followed by a delay.
\<close>

fun write_cmd :: "nat \<Rightarrow> string \<times> nat \<times> send_info \<Rightarrow> bcu \<Rightarrow> bcu" where
  "write_cmd 0 pkg b = b"
| "write_cmd (Suc n) pkg b =
     (if length (cmd_queue b) < cmd_capacity b then b\<lparr>cmd_queue := cmd_queue b @ [pkg]\<rparr>
      else write_cmd n pkg (b\<lparr>cmd_queue := drop (bc_drained b) (cmd_queue b)\<rparr>))"

text \<open>A single attempt, whose failure is ignored.\<close>

definition try_cmd :: "string \<times> nat \<times> send_info \<Rightarrow> bcu \<Rightarrow> bcu" where
  "try_cmd pkg b =
     (if length (cmd_queue b) < cmd_capacity b then b\<lparr>cmd_queue := cmd_queue b @ [pkg]\<rparr> else b)"

text \<open>\<open>SendCmd\<close>: the command it is given through its pointer is wiped once it is sent.\<close>

definition SendCmd :: "string \<Rightarrow> nat \<Rightarrow> bcu \<times> send_info \<Rightarrow> bcu \<times> send_info" where
  "SendCmd dst_name dst_no bs =
     (let (b, s) = bs in
      if si_src_no s = 0 \<and> si_src_name s = '''' then (b, s)
      else (let s1 = s\<lparr>si_src_no := of_nat (devices_no b), si_src_name := devices_name b\<rparr>
            in (write_cmd 2 (dst_name, dst_no, s1) b,
                s1\<lparr>si_src_no := 0, si_src_name := '''', si_type_ann := ANN_IDLE,
                   si_type_intercom := INTERCOM_IDLE,
                   si_ann := replicate (length (si_ann s)) 0,
                   si_intercom := replicate (length (si_intercom s)) 0\<rparr>)))"

text \<open>A command sent from a local copy, which is dropped afterwards.\<close>

definition SendCmd_copy :: "string \<Rightarrow> nat \<Rightarrow> send_info \<Rightarrow> bcu \<Rightarrow> bcu" where
  "SendCmd_copy dst_name dst_no s b = fst (SendCmd dst_name dst_no (b, s))"

section \<open>Audio helpers\<close>

definition SetAudioDataDestination :: "string \<Rightarrow> nat \<Rightarrow> bcu \<Rightarrow> bcu" where
  "SetAudioDataDestination name no b = b\<lparr>audio_dst := (name, no)\<rparr>"

definition ClearAudioDataDestination :: "bcu \<Rightarrow> bcu" where
  "ClearAudioDataDestination b = b\<lparr>audio_dst := ('''', 0)\<rparr>"

definition ClearAllAudioDataBuffer :: "bcu \<Rightarrow> bcu" where
  "ClearAllAudioDataBuffer b = seq [call ClearAudioSendBuffer, call ClearAudioRecvBuffer] b"

definition CloseAudioSampleTimer :: "bcu \<Rightarrow> bcu" where
  "CloseAudioSampleTimer b =
     (call DisableAudioSampleTimer b)\<lparr>whether_open_sample_timer := False\<rparr>"

text \<open>\<open>SAMPLE_AUDIO_FREQUENCE\<close> is the period used when no intercom is active.\<close>

abbreviation (input) SAMPLE_AUDIO_FREQUENCE :: nat where "SAMPLE_AUDIO_FREQUENCE \<equiv> 20"

definition StartAudioSampleTimer :: "bcu \<Rightarrow> bcu" where
  "StartAudioSampleTimer b =
     (let period = (if state_id (bcu_active_intercom_state b) = D2P_INTERCOMM_EVENT then 25 - 5
                    else if state_id (bcu_active_intercom_state b) = 7 then 10
                    else SAMPLE_AUDIO_FREQUENCE)
      in seq [call (SetAudioSampleTimeInterval period), call OpenAudioSampleTimer,
              (\<lambda>b. b\<lparr>whether_open_sample_timer := True\<rparr>)] b)"

definition BcuResetPlayAlarmAudioWhenD2pReq :: "bcu \<Rightarrow> bcu" where
  "BcuResetPlayAlarmAudioWhenD2pReq b =
     seq [(\<lambda>b. b\<lparr>open_snd_playback := 0, pcu_alarm_playing_again := 0\<rparr>),
          call DisableAudioSampleTimer, call ClearAlarmBuffer, call ClearPendingBuffer,
          (\<lambda>b. if pcu_alarm_playing b = 1 then b\<lparr>pcu_alarm_playing := 0\<rparr> else b),
          (\<lambda>b. if state_id (bcu_active_ann_state b) = LIVE_ANN_EVENT
               then call OpenAudioSampleTimer b else b),
          call (Led 2 False)] b"

definition BcuInitPlayAlarmAudioWhenD2pReq :: "bcu \<Rightarrow> bcu" where
  "BcuInitPlayAlarmAudioWhenD2pReq b =
     (if (open_snd_playback b = 0 \<and> bc_snd_mode b = 2) \<or> (pcu_alarm_playing b = 0 \<and> bc_snd_mode b = 1)
      then seq [call ClearAlarmBuffer, call ClearPendingBuffer,
                call (SetAudioSampleTimeInterval (20 + 2)), call OpenAudioSampleTimer,
                (\<lambda>b. b\<lparr>pcu_alarm_playing := 1, open_snd_playback := 1\<rparr>)] b
      else if pcu_alarm_playing b = 1 \<and> bc_snd_mode b = 1
      then (if request_number b = 0 then BcuResetPlayAlarmAudioWhenD2pReq b else b)
      else b)"

definition StartOrBrokeBroadcastPcuRequestAlarmAudioData :: "bcu \<Rightarrow> bcu" where
  "StartOrBrokeBroadcastPcuRequestAlarmAudioData b =
     (if state_id (bcu_active_intercom_state b) = INTERCOM_IDLE
         \<and> other_bcu_intercomm_state b \<noteq> D2P_INTERCOMM_EVENT
         \<and> state_id (bcu_active_ann_state b) \<in> {ANN_IDLE, EMERG_ANN_EVENT, MANUAL_ANN_EVENT,
             TMS_MANUAL_ANN_EVENT, TMS_AUTO_ANN_EVENT}
      then BcuInitPlayAlarmAudioWhenD2pReq b else b)"

definition SendToOverOtherBCUD2D :: "send_info \<Rightarrow> bcu \<Rightarrow> bcu" where
  "SendToOverOtherBCUD2D junk b =
     try_cmd (''BCU'', opposite_bcu_no b,
       set_intercom 0 0 (junk\<lparr>si_type_ann := ANN_IDLE, si_type_intercom := D2D_INTERCOMM_EVENT\<rparr>)) b"

definition SendEmergExitToCCU :: "bcu \<Rightarrow> bcu" where
  "SendEmergExitToCCU b =
     write_cmd 2 (''CCU'', MUL_DST_NO,
       \<lparr>si_src_name = devices_name b, si_src_no = of_nat (devices_no b),
        si_type_ann = EMERG_ANN_EVENT, si_ann = replicate (length (si_ann (recv_cmd_info_of_ann b))) 0,
        si_type_intercom = INTERCOM_IDLE,
        si_intercom = replicate (length (si_intercom (recv_cmd_info_of_ann b))) 0,
        si_line_pkg_type = 0, si_line_cmd_type = 0,
        si_rest = replicate (length (si_rest (recv_cmd_info_of_ann b))) 0\<rparr>) b"

definition RestartSYNCTimer :: "bcu \<Rightarrow> bcu" where
  "RestartSYNCTimer b = seq [call InitSyncTimer, call DisableSyncTimer] b"

text \<open>The announcement machine's current state plays live, OCC or outer 3.5 mm sound.\<close>

definition ann_owns_mic :: "bcu \<Rightarrow> bool" where
  "ann_owns_mic b \<longleftrightarrow> state_id (bcu_active_ann_state b) = LIVE_ANN_EVENT
     \<or> state_id (bcu_active_ann_state b) = OCC_EVENT
     \<or> state_id (bcu_active_ann_state b) = MIC_3D5_OUTER_EVENT"

definition SendPTTStateToBCU_Once :: "bcu \<Rightarrow> bcu" where
  "SendPTTStateToBCU_Once b =
     (let b1 = b\<lparr>this_bcu_ptt_state := bc_ptt_key b\<rparr>
      in call (SendPTTState ''BCU'' (opposite_bcu_no b) (if this_bcu_ptt_state b1 = 0 then 0 else 1)) b1)"

definition SendBCUPTTReleaseStateTOBCU :: "bcu \<Rightarrow> bcu" where
  "SendBCUPTTReleaseStateTOBCU b =
     call (SendPTTState ''BCU'' (opposite_bcu_no b) 0) (b\<lparr>this_bcu_ptt_state := 0\<rparr>)"

definition SendCurrentBCUPTTStateToPCU :: "bcu \<Rightarrow> bcu" where
  "SendCurrentBCUPTTStateToPCU b =
     (let b1 = b\<lparr>this_bcu_ptt_state := bc_ptt_key b\<rparr>
      in call (SendPTTState ''PCU'' (recept_pcu_no b) (this_bcu_ptt_state b1)) b1)"

section \<open>Announcement states\<close>

text \<open>An \<open>enter\<close> function works on the unit and on the command it is given.\<close>

definition on_bcu :: "(bcu \<Rightarrow> bcu) \<Rightarrow> bcu \<times> send_info \<Rightarrow> bcu \<times> send_info" where
  "on_bcu f bs = (f (fst bs), snd bs)"

lemma on_bcu_simps [simp]: "fst (on_bcu f bs) = f (fst bs)" "snd (on_bcu f bs) = snd bs"
  by (simp_all add: on_bcu_def)

definition IdleAnnEnter :: "bcu \<times> send_info \<Rightarrow> bcu \<times> send_info" where
  "IdleAnnEnter = seq [on_bcu StartOrBrokeBroadcastPcuRequestAlarmAudioData,
     on_bcu (\<lambda>b. b\<lparr>current_state_ann := ANN_IDLE\<rparr>),
     SendCmd ''EAMP'' MUL_DST_NO]"

definition AutoAnnEnter :: "bcu \<times> send_info \<Rightarrow> bcu \<times> send_info" where
  "AutoAnnEnter = SendCmd ''EAMP'' MUL_DST_NO"

definition LiveAnnEnter :: "bcu \<times> send_info \<Rightarrow> bcu \<times> send_info" where
  "LiveAnnEnter = seq [SendCmd ''EAMP'' MUL_DST_NO,
     on_bcu (seq [call CloseMonitorSpeaker,
       (\<lambda>b. b\<lparr>live_button_state := 1\<rparr>), CloseAudioSampleTimer,
       SetAudioDataDestination ''EAMP'' LIVE_DST_NO,
       (\<lambda>b. b\<lparr>mic_owner := ANNOUNCE\<rparr>), StartAudioSampleTimer, call EnableLiveMonitorTimer,
       (\<lambda>b. b\<lparr>current_state_ann := LIVE_ANN_EVENT\<rparr>),
       call ClearAudioSendBuffer, call ClearPendingBuffer, call ClearAudioRecvBuffer,
       call ClearLocalRecvBuffer, call MicAdPcmWavheader, call (TalkPaChoose 2),
       call ShowCurrentTime,
       (\<lambda>b. b\<lparr>bcu_have_the_initiative_of_cmu := 0\<rparr>),
       (\<lambda>b. if bcu_mcu_connect_state b = 0 \<and> bcu_cmu_connect_car_type b \<noteq> 3
            then call (CmuFlag 1) (b\<lparr>bcu_have_the_initiative_of_cmu := 1\<rparr>) else b),
       call (Led 1 True)])]"

definition LiveAnnExit :: "bcu \<Rightarrow> bcu" where
  "LiveAnnExit = seq [(\<lambda>b. b\<lparr>live_button_state := 0\<rparr>), call DisableLiveMonitorTimer,
     (\<lambda>b. b\<lparr>mic_owner := NONE\<rparr>), CloseAudioSampleTimer, ClearAllAudioDataBuffer,
     ClearAudioDataDestination, call (TalkPaChoose 0),
     (\<lambda>b. b\<lparr>whether_have_begin_broadcast_alarm_audio_data := 0\<rparr>),
     (\<lambda>b. if bcu_have_the_initiative_of_cmu b \<noteq> 0 \<and> bcu_cmu_connect_car_type b \<noteq> 3
          then call (CmuFlag 8) (b\<lparr>bcu_have_the_initiative_of_cmu := 0\<rparr>) else b),
     (\<lambda>b. b\<lparr>bcu_mcu_connect_state := 0\<rparr>), call OpenMonitorSpeaker, call (Led 1 False)]"

definition OCCEnter :: "bcu \<times> send_info \<Rightarrow> bcu \<times> send_info" where
  "OCCEnter = on_bcu (seq [(\<lambda>b. b\<lparr>current_state_ann := OCC_EVENT\<rparr>), call (ScreenSwitch 21)])"

definition OCCExit :: "bcu \<Rightarrow> bcu" where
  "OCCExit = seq [(\<lambda>b. b\<lparr>current_state_ann := ANN_IDLE\<rparr>), call (ScreenSwitch 22), call (ThreadDelay 100)]"

definition EmergAnnEnter :: "bcu \<times> send_info \<Rightarrow> bcu \<times> send_info" where
  "EmergAnnEnter = seq [(\<lambda>(b, s). (b\<lparr>recv_cmd_info_of_ann := s\<rparr>, s)),
     (\<lambda>(b, s). (b, set_ann 1 0 s)), on_bcu RestartSYNCTimer, SendCmd ''EAMP'' MUL_DST_NO]"

definition EmergAnnExit :: "bcu \<Rightarrow> bcu" where
  "EmergAnnExit = SendEmergExitToCCU"

definition ManualAnnEnter :: "bcu \<times> send_info \<Rightarrow> bcu \<times> send_info" where
  "ManualAnnEnter = seq [(\<lambda>(b, s). (b\<lparr>recv_cmd_info_of_ann := s\<rparr>, s)),
     (\<lambda>(b, s). (b, set_ann 2 0 s)), on_bcu RestartSYNCTimer, SendCmd ''EAMP'' MUL_DST_NO]"

definition Outer3D5AnnEnter :: "bcu \<times> send_info \<Rightarrow> bcu \<times> send_info" where
  "Outer3D5AnnEnter = seq [
     on_bcu (seq [CloseAudioSampleTimer, call (ScreenSwitch 19), call (AudioInCtrl 1),
       (\<lambda>b. b\<lparr>mic_owner := OCC_OR_3D5\<rparr>), SetAudioDataDestination ''EAMP'' LIVE_DST_NO,
       call MicAdPcmWavheader, call (TalkPaChoose 1), StartAudioSampleTimer,
       (\<lambda>b. b\<lparr>current_state_ann := MIC_3D5_OUTER_EVENT\<rparr>)]),
     SendCmd ''EAMP'' MUL_DST_NO]"

definition Outer3D5AnnExit :: "bcu \<Rightarrow> bcu" where
  "Outer3D5AnnExit = seq [(\<lambda>b. b\<lparr>mic_owner := NONE\<rparr>), CloseAudioSampleTimer,
     (\<lambda>b. b\<lparr>current_state_ann := ANN_IDLE\<rparr>), call (ScreenSwitch 20),
     (\<lambda>b. if tcmns_effective_flag b = 1 then call (ScreenSwitch 14) b else b),
     call (AudioInCtrl 0), call (TalkPaChoose 0), ClearAllAudioDataBuffer,
     (\<lambda>b. b\<lparr>whether_have_begin_broadcast_alarm_audio_data := 0\<rparr>), call (ThreadDelay 100)]"

text \<open>The \<open>process\<close> functions, which the main loop runs on the command last received.\<close>

definition EmergAnnProcess :: "bcu \<times> send_info \<Rightarrow> bcu \<times> send_info" where
  "EmergAnnProcess bs =
     (let s = snd bs in on_bcu (SendCmd_copy ''CCU'' MUL_DST_NO s) (SendCmd ''EAMP'' MUL_DST_NO bs))"

section \<open>Intercom states\<close>

definition IdleIntercomEnter :: "bcu \<times> send_info \<Rightarrow> bcu \<times> send_info" where
  "IdleIntercomEnter = seq [on_bcu StartOrBrokeBroadcastPcuRequestAlarmAudioData,
     (\<lambda>(b, s). if si_type_intercom s = D2P_INTERCOMM_EVENT
       then (let (b1, s1) = SendCmd ''PCU'' (refuse_pcu_no b) (b, s)
             in (SendCmd_copy ''CCU'' MUL_DST_NO s (SendCmd_copy ''BCU'' (opposite_bcu_no b1) s b1), s1))
       else (b, s)),
     (\<lambda>(b, s). if si_type_intercom s = D2D_INTERCOMM_EVENT
       then SendCmd ''BCU'' (opposite_bcu_no b) (b, s) else (b, s)),
     on_bcu ClearAllAudioDataBuffer]"

definition IdleIntercomExit :: "bcu \<Rightarrow> bcu" where
  "IdleIntercomExit = seq [SendPTTStateToBCU_Once, ClearAllAudioDataBuffer,
     (\<lambda>b. b\<lparr>whether_have_begin_broadcast_alarm_audio_data := 0\<rparr>)]"

definition IdleIntercomProcess :: "bcu \<times> send_info \<Rightarrow> bcu \<times> send_info" where
  "IdleIntercomProcess = seq [
     on_bcu (\<lambda>b. if pcu_alarm_playing_again b = 1 \<and> pcu_alarm_playing b = 1
       then call OpenAudioSampleTimer (b\<lparr>pcu_alarm_playing_again := 0\<rparr>) else b),
     on_bcu (\<lambda>b. if whether_have_begin_broadcast_alarm_audio_data b = 1 \<and> request_number b = 0
         \<and> \<not> ann_owns_mic b
       then seq [(\<lambda>b. b\<lparr>whether_have_begin_broadcast_alarm_audio_data := 0\<rparr>), CloseAudioSampleTimer,
              call ClearPendingBuffer, call ClearAlarmBuffer, call (SpeakerVolume 0)] b
       else b),
     (\<lambda>(b, s). if state_id (bcu_active_intercom_state b) \<noteq> D2P_INTERCOMM_EVENT
         \<and> si_type_intercom s = D2P_INTERCOMM_EVENT \<and> intercomm_active s = 0
       then SendCmd ''PCU'' (refuse_pcu_no b) (b, s) else (b, s))]"

definition D2DIntercomEnter :: "bcu \<times> send_info \<Rightarrow> bcu \<times> send_info" where
  "D2DIntercomEnter = seq [
     on_bcu (seq [(\<lambda>b. call (SpeakerVolume (d2d_volume b)) b),
       (\<lambda>b. b\<lparr>bcu_requset_ocs_connecting := 0, d2d_button_state := 1,
               bcu_have_the_initiative_of_cmu := 0\<rparr>),
       (\<lambda>b. if bcu_mcu_connect_state b = 0
            then call (CmuFlag 4) (b\<lparr>bcu_have_the_initiative_of_cmu := 1\<rparr>) else b),
       (\<lambda>b. b\<lparr>whether_eant_to_delay_finished_d2d := 0\<rparr>), call CloseMonitorSpeaker,
       call ForceBUfferData, (\<lambda>b. b\<lparr>bcu_test_for_ts := 0, mic_owner := INTERCOM\<rparr>),
       ClearAllAudioDataBuffer,
       (\<lambda>b. if this_bcu_request b = 1
            then call (RecordingToCCU 0 (devices_no b) (opposite_bcu_no b) 1) b else b),
       (\<lambda>b. b\<lparr>play_audio := 0, begin_to_broadcast_d2d := 1\<rparr>),
       SetAudioDataDestination ''CC'' 230, StartAudioSampleTimer,
       (\<lambda>b. b\<lparr>other_bcu_ptt_state := 0\<rparr>)]),
     (\<lambda>(b, s). SendCmd ''BCU'' (opposite_bcu_no b) (b, s)),
     on_bcu (seq [call (Led 2 True), call AdjustVolumeAfterCODEC,
       (\<lambda>b. if bcu_current_tcms_cmu_state b = 1 then b\<lparr>bcu_mcu_connect_state := 1\<rparr> else b),
       call ClearPendingBuffer, call ClearAudioRecvBuffer, call MicAdPcmWavheader])]"

text \<open>The end of the \<open>exit\<close> of D2D and D2P: an announcement that needs the microphone gets it back.\<close>

definition give_mic_back :: "bcu \<Rightarrow> bcu" where
  "give_mic_back b =
     (if ann_owns_mic b
      then seq [(\<lambda>b. b\<lparr>mic_owner := ANNOUNCE\<rparr>), SetAudioDataDestination ''EAMP'' LIVE_DST_NO,
             StartAudioSampleTimer] b
      else b)"

definition D2DIntercomExit :: "bcu \<Rightarrow> bcu" where
  "D2DIntercomExit = seq [
     (\<lambda>b. b\<lparr>d2d_button_state := 0, whether_eant_to_delay_finished_d2d := 0\<rparr>),
     call OpenMonitorSpeaker, (\<lambda>b. b\<lparr>bcu_test_for_ts := 0\<rparr>), call EndSaveAudioData,
     CloseAudioSampleTimer, (\<lambda>b. b\<lparr>begin_to_broadcast_d2d := 0\<rparr>), ClearAudioDataDestination,
     (\<lambda>b. b\<lparr>mic_owner := NONE\<rparr>), SendBCUPTTReleaseStateTOBCU,
     (\<lambda>b. b\<lparr>other_bcu_ptt_state := 0\<rparr>), ClearAllAudioDataBuffer, give_mic_back,
     (\<lambda>b. if this_bcu_request b = 1
          then call (RecordingToCCU 0 (devices_no b) (opposite_bcu_no b) 0) b else b),
     (\<lambda>b. b\<lparr>this_bcu_request := 0, bcu_have_the_initiative_of_cmu := 0\<rparr>), call (CmuFlag 32),
     (\<lambda>b. b\<lparr>bcu_mcu_connect_state := 0\<rparr>), call (Led 2 False)]"

definition D2PIntercomEnter :: "bcu \<times> send_info \<Rightarrow> bcu \<times> send_info" where
  "D2PIntercomEnter bs =
     (let (b, s) = on_bcu (seq [BcuResetPlayAlarmAudioWhenD2pReq,
             (\<lambda>b. call (SpeakerVolume (d2d_volume b)) b), (\<lambda>b. b\<lparr>play_audio := 0\<rparr>),
             call CloseMonitorSpeaker, (\<lambda>b. b\<lparr>begin_to_broadcast_d2d := 1\<rparr>),
             (\<lambda>b. SetAudioDataDestination ''PCU'' (recept_pcu_no b) b),
             (\<lambda>b. b\<lparr>mic_owner := INTERCOM\<rparr>), ClearAllAudioDataBuffer, call OpenSndCard,
             (\<lambda>b. call (RecordingToCCU 1 (devices_no b) (recept_pcu_no b) 1) b),
             call ClearPendingBuffer, call ClearAudioRecvBuffer, call MicAdPcmWavheader]) bs;
          (b1, s1) = SendCmd ''PCU'' (recept_pcu_no b) (b, s);
          b2 = seq [(\<lambda>b. b\<lparr>begin_to_broadcast_d2d := 1, begin_to_broadcast_audio_data := 1\<rparr>),
             StartAudioSampleTimer, SendCmd_copy ''PCU'' (recept_pcu_no b) s,
             call AdjustVolumeAfterCODEC, call (Led 2 True), SendCurrentBCUPTTStateToPCU,
             call (ScreenSwitch 3)] b1
      in (b2, s1))"

definition D2PIntercomExit :: "bcu \<Rightarrow> bcu" where
  "D2PIntercomExit = seq [(\<lambda>b. b\<lparr>begin_to_broadcast_audio_data := 0\<rparr>), call OpenMonitorSpeaker,
     ClearAudioDataDestination, (\<lambda>b. b\<lparr>mic_owner := NONE\<rparr>), CloseAudioSampleTimer,
     (\<lambda>b. call (RecordingToCCU 1 (devices_no b) (recept_pcu_no b) 0) b),
     ClearAllAudioDataBuffer, give_mic_back, call (Led 2 False), call (ScreenSwitch 3)]"

definition IntercomHangUpEnter :: "bcu \<times> send_info \<Rightarrow> bcu \<times> send_info" where
  "IntercomHangUpEnter bs =
     on_bcu (seq [call ClearAudioSendBuffer,
       (\<lambda>b. if recept_pcu_no b \<noteq> 0
            then SendCmd_copy ''PCU'' (recept_pcu_no b)
              (seq [set_intercom 0 1, set_intercom 2 1, set_intercom 4 (of_nat (devices_no b)),
                    set_intercom 5 (of_nat (recept_pcu_no b)), set_intercom 1 1, set_intercom 3 0]
                 ((snd bs)\<lparr>si_type_intercom := D2D_HANGUP_D2P_EVENT\<rparr>))
              (b\<lparr>hang_up_pcu_no := recept_pcu_no b\<rparr>)
            else b),
       (\<lambda>b. b\<lparr>play_audio := 0\<rparr>), (\<lambda>b. call (SpeakerVolume (d2d_volume b)) b),
       ClearAllAudioDataBuffer, (\<lambda>b. b\<lparr>d2d_button_state := 1, other_bcu_ptt_state := 0\<rparr>),
       (\<lambda>b. if this_bcu_request b = 1
            then call (RecordingToCCU 0 (devices_no b) (opposite_bcu_no b) 1) b else b),
       call ForceBUfferData, (\<lambda>b. b\<lparr>mic_owner := INTERCOM\<rparr>),
       SetAudioDataDestination ''CC'' 230, ClearAllAudioDataBuffer, (\<lambda>b. b\<lparr>play_audio := 0\<rparr>),
       call ClearPendingBuffer, call ClearAudioRecvBuffer, call ClearAudioSendBuffer,
       (\<lambda>b. b\<lparr>begin_to_broadcast_d2d := 1\<rparr>), call ClearAudioRecvBuffer, StartAudioSampleTimer,
       call (Led 3 True)]) bs"

text \<open>\<open>junk\<close> is the uninitialised package that \<open>SendToOverOtherBCUD2D\<close> fills in part.\<close>

definition IntercomHangUpExit :: "send_info \<Rightarrow> bcu \<Rightarrow> bcu" where
  "IntercomHangUpExit junk = seq [SendToOverOtherBCUD2D junk, (\<lambda>b. b\<lparr>begin_to_broadcast_d2d := 0\<rparr>),
     (\<lambda>b. b\<lparr>d2d_button_state := 0\<rparr>), call OpenMonitorSpeaker, CloseAudioSampleTimer,
     ClearAudioDataDestination,
     (\<lambda>b. if this_bcu_request b = 1
          then call (RecordingToCCU 0 (devices_no b) (opposite_bcu_no b) 0) b else b),
     (\<lambda>b. b\<lparr>mic_owner := NONE\<rparr>), call (Led 3 False), call (SpeakerVolume 0)]"

section \<open>The function tables\<close>

fun sp_enter :: "sproc \<Rightarrow> bcu \<times> send_info \<Rightarrow> bcu \<times> send_info" where
  "sp_enter IdleAnn = IdleAnnEnter"
| "sp_enter AutoAnn = AutoAnnEnter"
| "sp_enter LiveAnn = LiveAnnEnter"
| "sp_enter OccAnn = OCCEnter"
| "sp_enter Outer3D5Ann = Outer3D5AnnEnter"
| "sp_enter EmergAnn = EmergAnnEnter"
| "sp_enter ManualAnn = ManualAnnEnter"
| "sp_enter IdleIntercom = IdleIntercomEnter"
| "sp_enter D2DIntercom = D2DIntercomEnter"
| "sp_enter D2PIntercom = D2PIntercomEnter"
| "sp_enter IntercomHangUp = IntercomHangUpEnter"

fun sp_exit :: "send_info \<Rightarrow> sproc \<Rightarrow> bcu \<Rightarrow> bcu" where
  "sp_exit junk IdleAnn = (\<lambda>b. b)"
| "sp_exit junk AutoAnn = (\<lambda>b. b)"
| "sp_exit junk LiveAnn = LiveAnnExit"
| "sp_exit junk OccAnn = OCCExit"
| "sp_exit junk Outer3D5Ann = Outer3D5AnnExit"
| "sp_exit junk EmergAnn = EmergAnnExit"
| "sp_exit junk ManualAnn = (\<lambda>b. b)"
| "sp_exit junk IdleIntercom = IdleIntercomExit"
| "sp_exit junk D2DIntercom = D2DIntercomExit"
| "sp_exit junk D2PIntercom = D2PIntercomExit"
| "sp_exit junk IntercomHangUp = IntercomHangUpExit junk"

fun sp_process :: "sproc \<Rightarrow> bcu \<times> send_info \<Rightarrow> bcu \<times> send_info" where
  "sp_process EmergAnn = EmergAnnProcess"
| "sp_process OccAnn = (\<lambda>bs. bs)"
| "sp_process IdleIntercom = IdleIntercomProcess"
| "sp_process D2DIntercom = (\<lambda>(b, s). SendCmd ''BCU'' (opposite_bcu_no b) (b, s))"
| "sp_process IntercomHangUp = (\<lambda>(b, s). SendCmd ''BCU'' (opposite_bcu_no b) (b, s))"
| "sp_process D2PIntercom = (\<lambda>(b, s). SendCmd ''PCU'' (recept_pcu_no b) (b, s))"
| "sp_process _ = SendCmd ''EAMP'' MUL_DST_NO"

section \<open>The control view\<close>

text \<open>
  What the state functions decide: the two current states, who owns the microphone, the
  announcement state reported to the touch screen, the button lamps, the connected passenger
  unit and the audio destination. Everything else is output.
\<close>

record ctl =
  c_ann :: sproc
  c_intercom :: sproc
  c_mic :: nat
  c_shown_ann :: nat
  c_live :: nat
  c_d2d :: nat
  c_pcu :: nat
  c_dst :: "string \<times> nat"

definition ctl_of :: "bcu \<Rightarrow> ctl" where
  "ctl_of b = \<lparr>c_ann = bcu_active_ann_state b, c_intercom = bcu_active_intercom_state b,
     c_mic = mic_owner b, c_shown_ann = current_state_ann b, c_live = live_button_state b,
     c_d2d = d2d_button_state b, c_pcu = recept_pcu_no b, c_dst = audio_dst b\<rparr>"

definition c_ann_owns :: "ctl \<Rightarrow> bool" where
  "c_ann_owns c \<longleftrightarrow> c_ann c = LiveAnn \<or> c_ann c = OccAnn \<or> c_ann c = Outer3D5Ann"

definition c_no_dst :: "ctl \<Rightarrow> ctl" where
  "c_no_dst c = c\<lparr>c_mic := NONE, c_dst := ('''', 0)\<rparr>"

definition c_mic_back :: "ctl \<Rightarrow> ctl" where
  "c_mic_back c =
     (if c_ann_owns c then c\<lparr>c_mic := ANNOUNCE, c_dst := (''EAMP'', LIVE_DST_NO)\<rparr> else c)"

text \<open>The specification of the function tables on the control view.\<close>

fun ctl_enter :: "sproc \<Rightarrow> ctl \<Rightarrow> ctl" where
  "ctl_enter IdleAnn c = c\<lparr>c_shown_ann := ANN_IDLE\<rparr>"
| "ctl_enter LiveAnn c = c\<lparr>c_live := 1, c_mic := ANNOUNCE, c_shown_ann := LIVE_ANN_EVENT,
     c_dst := (''EAMP'', LIVE_DST_NO)\<rparr>"
| "ctl_enter OccAnn c = c\<lparr>c_shown_ann := OCC_EVENT\<rparr>"
| "ctl_enter Outer3D5Ann c = c\<lparr>c_mic := OCC_OR_3D5, c_shown_ann := MIC_3D5_OUTER_EVENT,
     c_dst := (''EAMP'', LIVE_DST_NO)\<rparr>"
| "ctl_enter AutoAnn c = c"
| "ctl_enter EmergAnn c = c"
| "ctl_enter ManualAnn c = c"
| "ctl_enter IdleIntercom c = c"
| "ctl_enter D2DIntercom c = c\<lparr>c_d2d := 1, c_mic := INTERCOM, c_dst := (''CC'', 230)\<rparr>"
| "ctl_enter D2PIntercom c = c\<lparr>c_mic := INTERCOM, c_dst := (''PCU'', c_pcu c)\<rparr>"
| "ctl_enter IntercomHangUp c = c\<lparr>c_d2d := 1, c_mic := INTERCOM, c_dst := (''CC'', 230)\<rparr>"

fun ctl_exit :: "sproc \<Rightarrow> ctl \<Rightarrow> ctl" where
  "ctl_exit IdleAnn c = c"
| "ctl_exit AutoAnn c = c"
| "ctl_exit LiveAnn c = c_no_dst (c\<lparr>c_live := 0\<rparr>)"
| "ctl_exit OccAnn c = c\<lparr>c_shown_ann := ANN_IDLE\<rparr>"
| "ctl_exit Outer3D5Ann c = c\<lparr>c_mic := NONE, c_shown_ann := ANN_IDLE\<rparr>"
| "ctl_exit EmergAnn c = c"
| "ctl_exit ManualAnn c = c"
| "ctl_exit IdleIntercom c = c"
| "ctl_exit D2DIntercom c = c_mic_back (c_no_dst (c\<lparr>c_d2d := 0\<rparr>))"
| "ctl_exit D2PIntercom c = c_mic_back (c_no_dst c)"
| "ctl_exit IntercomHangUp c = c_no_dst (c\<lparr>c_d2d := 0\<rparr>)"

text \<open>The fields of the control view, one by one.\<close>

lemma ctl_enter_fields [simp]:
  "c_ann (ctl_enter p c) = c_ann c" "c_intercom (ctl_enter p c) = c_intercom c"
  "c_live (ctl_enter p c) = (if p = LiveAnn then 1 else c_live c)"
  "c_d2d (ctl_enter p c) = (if p = D2DIntercom \<or> p = IntercomHangUp then 1 else c_d2d c)"
  "c_mic (ctl_enter p c) = (if p = LiveAnn then ANNOUNCE else if p = Outer3D5Ann then OCC_OR_3D5
     else if p = D2DIntercom \<or> p = D2PIntercom \<or> p = IntercomHangUp then INTERCOM else c_mic c)"
  by (cases p; simp)+

lemma ctl_exit_fields [simp]:
  "c_ann (ctl_exit p c) = c_ann c" "c_intercom (ctl_exit p c) = c_intercom c"
  "c_live (ctl_exit p c) = (if p = LiveAnn then 0 else c_live c)"
  "c_d2d (ctl_exit p c) = (if p = D2DIntercom \<or> p = IntercomHangUp then 0 else c_d2d c)"
  "c_mic (ctl_exit p c) = (if p = LiveAnn \<or> p = Outer3D5Ann \<or> p = IntercomHangUp then NONE
     else if p = D2DIntercom \<or> p = D2PIntercom then (if c_ann_owns c then ANNOUNCE else NONE) else c_mic c)"
  by (cases p; simp add: c_no_dst_def c_mic_back_def c_ann_owns_def)+

named_theorems ctl_simps \<open>what the statements of the state functions do to the control view\<close>

lemma write_cmd_queue: "\<exists>q. write_cmd n pkg b = b\<lparr>cmd_queue := q\<rparr>"
proof (induction n arbitrary: b)
  case 0
  have "write_cmd 0 pkg b = b\<lparr>cmd_queue := cmd_queue b\<rparr>" by simp
  then show ?case ..
next
  case (Suc n)
  show ?case
  proof (cases "length (cmd_queue b) < cmd_capacity b")
    case True
    then show ?thesis by auto
  next
    case False
    obtain q where "write_cmd n pkg (b\<lparr>cmd_queue := drop (bc_drained b) (cmd_queue b)\<rparr>)
        = b\<lparr>cmd_queue := q\<rparr>"
      using Suc [of "b\<lparr>cmd_queue := drop (bc_drained b) (cmd_queue b)\<rparr>"] by auto
    with False show ?thesis by auto
  qed
qed

lemma ctl_write [ctl_simps]: "ctl_of (write_cmd n pkg b) = ctl_of b"
  using write_cmd_queue [of n pkg b] by (auto simp: ctl_of_def)

lemma ctl_try [ctl_simps]: "ctl_of (try_cmd pkg b) = ctl_of b"
  by (simp add: try_cmd_def ctl_of_def)

lemma ctl_call [ctl_simps]: "ctl_of (call c b) = ctl_of b"
  by (simp add: call_def ctl_of_def)

lemma ctl_send [ctl_simps]:
  "ctl_of (fst (SendCmd d n bs)) = ctl_of (fst bs)"
  "ctl_of (SendCmd_copy d n s b) = ctl_of b"
  by (simp_all add: SendCmd_def SendCmd_copy_def Let_def ctl_write split: prod.split)

lemma ctl_upd [ctl_simps]:
  "ctl_of (b\<lparr>cmd_queue := q\<rparr>) = ctl_of b"
  "ctl_of (b\<lparr>recv_cmd_info_of_ann := s\<rparr>) = ctl_of b"
  "ctl_of (b\<lparr>whether_open_sample_timer := x1\<rparr>) = ctl_of b"
  "ctl_of (b\<lparr>whether_have_begin_broadcast_alarm_audio_data := n\<rparr>) = ctl_of b"
  "ctl_of (b\<lparr>whether_eant_to_delay_finished_d2d := n\<rparr>) = ctl_of b"
  "ctl_of (b\<lparr>begin_to_broadcast_d2d := n\<rparr>) = ctl_of b"
  "ctl_of (b\<lparr>begin_to_broadcast_audio_data := n\<rparr>) = ctl_of b"
  "ctl_of (b\<lparr>play_audio := n\<rparr>) = ctl_of b"
  "ctl_of (b\<lparr>bcu_test_for_ts := n\<rparr>) = ctl_of b"
  "ctl_of (b\<lparr>bcu_mcu_connect_state := n\<rparr>) = ctl_of b"
  "ctl_of (b\<lparr>bcu_have_the_initiative_of_cmu := n\<rparr>) = ctl_of b"
  "ctl_of (b\<lparr>bcu_requset_ocs_connecting := n\<rparr>) = ctl_of b"
  "ctl_of (b\<lparr>other_bcu_ptt_state := n\<rparr>) = ctl_of b"
  "ctl_of (b\<lparr>this_bcu_ptt_state := n\<rparr>) = ctl_of b"
  "ctl_of (b\<lparr>this_bcu_request := n\<rparr>) = ctl_of b"
  "ctl_of (b\<lparr>hang_up_pcu_no := n\<rparr>) = ctl_of b"
  "ctl_of (b\<lparr>open_snd_playback := n\<rparr>) = ctl_of b"
  "ctl_of (b\<lparr>pcu_alarm_playing := n\<rparr>) = ctl_of b"
  "ctl_of (b\<lparr>pcu_alarm_playing_again := n\<rparr>) = ctl_of b"
  "ctl_of (b\<lparr>current_is_being_d2d := n\<rparr>) = ctl_of b"
  "ctl_of (b\<lparr>mic_owner := n\<rparr>) = (ctl_of b)\<lparr>c_mic := n\<rparr>"
  "ctl_of (b\<lparr>current_state_ann := n\<rparr>) = (ctl_of b)\<lparr>c_shown_ann := n\<rparr>"
  "ctl_of (b\<lparr>live_button_state := n\<rparr>) = (ctl_of b)\<lparr>c_live := n\<rparr>"
  "ctl_of (b\<lparr>d2d_button_state := n\<rparr>) = (ctl_of b)\<lparr>c_d2d := n\<rparr>"
  "ctl_of (b\<lparr>recept_pcu_no := n\<rparr>) = (ctl_of b)\<lparr>c_pcu := n\<rparr>"
  "ctl_of (b\<lparr>bcu_active_ann_state := p\<rparr>) = (ctl_of b)\<lparr>c_ann := p\<rparr>"
  "ctl_of (b\<lparr>bcu_active_intercom_state := p\<rparr>) = (ctl_of b)\<lparr>c_intercom := p\<rparr>"
  by (simp_all add: ctl_of_def)

lemma ctl_dst [ctl_simps]:
  "ctl_of (SetAudioDataDestination d n b) = (ctl_of b)\<lparr>c_dst := (d, n)\<rparr>"
  "ctl_of (ClearAudioDataDestination b) = (ctl_of b)\<lparr>c_dst := ('''', 0)\<rparr>"
  by (simp_all add: SetAudioDataDestination_def ClearAudioDataDestination_def ctl_of_def)

lemma ctl_helpers [ctl_simps]:
  "ctl_of (ClearAllAudioDataBuffer b) = ctl_of b"
  "ctl_of (CloseAudioSampleTimer b) = ctl_of b"
  "ctl_of (StartAudioSampleTimer b) = ctl_of b"
  "ctl_of (RestartSYNCTimer b) = ctl_of b"
  "ctl_of (SendPTTStateToBCU_Once b) = ctl_of b"
  "ctl_of (SendBCUPTTReleaseStateTOBCU b) = ctl_of b"
  "ctl_of (SendCurrentBCUPTTStateToPCU b) = ctl_of b"
  "ctl_of (SendToOverOtherBCUD2D junk b) = ctl_of b"
  "ctl_of (SendEmergExitToCCU b) = ctl_of b"
  by (simp_all add: ctl_simps ClearAllAudioDataBuffer_def CloseAudioSampleTimer_def Let_def
      StartAudioSampleTimer_def RestartSYNCTimer_def SendPTTStateToBCU_Once_def
      SendBCUPTTReleaseStateTOBCU_def SendCurrentBCUPTTStateToPCU_def SendToOverOtherBCUD2D_def
      SendEmergExitToCCU_def)

lemma ctl_alarm_audio [ctl_simps]:
  "ctl_of (BcuResetPlayAlarmAudioWhenD2pReq b) = ctl_of b"
  "ctl_of (BcuInitPlayAlarmAudioWhenD2pReq b) = ctl_of b"
  "ctl_of (StartOrBrokeBroadcastPcuRequestAlarmAudioData b) = ctl_of b"
proof -
  show reset: "ctl_of (BcuResetPlayAlarmAudioWhenD2pReq b) = ctl_of b" for b
    by (simp add: BcuResetPlayAlarmAudioWhenD2pReq_def ctl_simps)
  show init: "ctl_of (BcuInitPlayAlarmAudioWhenD2pReq b) = ctl_of b" for b
    by (simp add: BcuInitPlayAlarmAudioWhenD2pReq_def ctl_simps reset)
  show "ctl_of (StartOrBrokeBroadcastPcuRequestAlarmAudioData b) = ctl_of b"
    by (simp add: StartOrBrokeBroadcastPcuRequestAlarmAudioData_def init)
qed

lemma ann_owns_mic_ctl: "ann_owns_mic b \<longleftrightarrow> c_ann_owns (ctl_of b)"
  by (cases "bcu_active_ann_state b") (simp_all add: ann_owns_mic_def c_ann_owns_def ctl_of_def)

lemma ctl_give_back [ctl_simps]: "ctl_of (give_mic_back b) = c_mic_back (ctl_of b)"
  by (simp add: give_mic_back_def c_mic_back_def ann_owns_mic_ctl ctl_simps)

lemma ctl_case [ctl_simps]:
  "ctl_of (fst (case bs of (b, s) \<Rightarrow> (f b s, g b s))) = ctl_of (f (fst bs) (snd bs))"
  by (simp add: case_prod_beta)

text \<open>The state functions implement their specification.\<close>

lemma sp_enter_ctl: "ctl_of (fst (sp_enter p bs)) = ctl_enter p (ctl_of (fst bs))"
proof (cases p)
  case D2PIntercom
  have "recept_pcu_no b = c_pcu (ctl_of b)" for b by (simp add: ctl_of_def)
  with D2PIntercom show ?thesis
    by (simp add: D2PIntercomEnter_def Let_def ctl_simps case_prod_beta on_bcu_def)
qed (simp_all add: IdleAnnEnter_def AutoAnnEnter_def LiveAnnEnter_def OCCEnter_def EmergAnnEnter_def
    ManualAnnEnter_def Outer3D5AnnEnter_def IdleIntercomEnter_def D2DIntercomEnter_def
    IntercomHangUpEnter_def Let_def ctl_simps case_prod_beta)

lemma sp_exit_ctl: "ctl_of (sp_exit junk p b) = ctl_exit p (ctl_of b)"
  by (cases p) (simp_all add: LiveAnnExit_def OCCExit_def EmergAnnExit_def Outer3D5AnnExit_def
      IdleIntercomExit_def D2DIntercomExit_def D2PIntercomExit_def IntercomHangUpExit_def
      ctl_simps c_no_dst_def c_mic_back_def c_ann_owns_def)

lemma sp_process_ctl: "ctl_of (fst (sp_process p bs)) = ctl_of (fst bs)"
  by (cases p) (simp_all add: EmergAnnProcess_def IdleIntercomProcess_def Let_def ctl_simps case_prod_beta)

text \<open>A unit at rest (number 1, opposite unit 2), on which the examples are evaluated.\<close>

definition bcu_rest :: bcu where
  "bcu_rest =
     \<lparr>bcu_active_ann_state = IdleAnn, bcu_active_intercom_state = IdleIntercom, mic_owner = NONE,
      current_state_ann = ANN_IDLE, current_state_intercom = INTERCOM_IDLE, devices_name = ''BCU'',
      devices_no = 1, opposite_bcu_no = 2, live_button_state = 0, d2d_button_state = 0,
      other_bcu_ptt_state = 0, this_bcu_ptt_state = 0, other_bcu_intercomm_state = 0,
      this_bcu_request = 0, bcu_requset_ocs_connecting = 0, recept_pcu_no = 0, refuse_pcu_no = 0,
      hang_up_pcu_no = 0, request_number = 0, pcu_alarm_playing = 0, pcu_alarm_playing_again = 0,
      open_snd_playback = 0, bcu_mcu_connect_state = 0, bcu_have_the_initiative_of_cmu = 0,
      bcu_cmu_connect_car_type = 0, bcu_current_tcms_cmu_state = 0, tcmns_effective_flag = 0,
      d2d_volume = 5, audio_dst = ('''', 0), whether_open_sample_timer = False,
      whether_have_begin_broadcast_alarm_audio_data = 0, whether_eant_to_delay_finished_d2d = 0,
      begin_to_broadcast_d2d = 0, begin_to_broadcast_audio_data = 0, play_audio = 0,
      current_is_being_d2d = 0, bcu_test_for_ts = 0,
      recv_cmd_info_of_ann = send_info_zero, recv_cmd_info_of_intercom = send_info_zero,
      cmd_queue = [], cmd_capacity = 49, bc_drained = 1, bc_snd_mode = 2, bc_ptt_key = 0, bc_calls = []\<rparr>"

text \<open>Commands from the touch screen: an announcement, an intercom request.\<close>

definition ann_cmd :: "nat \<Rightarrow> byte \<Rightarrow> send_info" where
  "ann_cmd event active = set_ann 0 active
     (send_info_zero\<lparr>si_src_name := ''BCU'', si_src_no := 1, si_type_ann := event\<rparr>)"

definition intercom_cmd :: "nat \<Rightarrow> byte list \<Rightarrow> send_info" where
  "intercom_cmd event bytes =
     send_info_zero\<lparr>si_src_name := ''BCU'', si_src_no := 1, si_type_intercom := event, si_intercom := bytes\<rparr>"

end
