(* ===== verification/Ann_Priority.thy ===== *)
theory Ann_Priority
  imports Bcu_Control "HOL-Library.Multiset"
begin

text \<open>
  The announcement machine of \<open>bcu_state_machine.cxx\<close>: the table of event names, the list of
  priorities that is built from the table of the CCU's database (or from the default table),
  and the exchange of the current announcement state under those priorities.

  Numbers of type \<open>unsigned int\<close> are \<open>nat\<close> where the code only compares them; the sort,
  whose loop bounds subtract, keeps them as 32-bit words. The head of the linked list is the
  static idle node; the model keeps the list of the nodes behind it.
\<close>

section \<open>Tables\<close>

type_synonym prio_table = "(string \<times> nat) list"

text \<open>\<open>bcu_ann_option_table\<close>, as compiled with \<open>WITH_DB\<close> (\<open>struct_type.h\<close> defines it) or without.\<close>

definition bcu_ann_option_table :: "bool \<Rightarrow> (string \<times> nat) list" where
  "bcu_ann_option_table with_db =
     [(''OCC'', OCC_EVENT), (if with_db then ''Outer3D5'' else ''MIC_3D5'', MIC_3D5_OUTER_EVENT),
      (''LIVE'', LIVE_ANN_EVENT), (''EMERG'', EMERG_ANN_EVENT), (''MANUAL'', MANUAL_ANN_EVENT),
      (''TMS-MANUAL'', TMS_MANUAL_ANN_EVENT), (''TMS-AUTO'', TMS_AUTO_ANN_EVENT),
      (''ANN-IDLE'', ANN_IDLE), (''D2D'', D2D_INTERCOMM_EVENT), (''D2P'', D2P_INTERCOMM_EVENT),
      (''D2DXD2P'', D2D_HANGUP_D2P_EVENT), (''D2PPEND'', D2P_INTERCOM_PENDING),
      (''INTERCOM-IDLE'', INTERCOM_IDLE), (''LINENO'', LINE_NUMBER_CHANGE_EVENT)]"

definition bcu_ann_priority_default_table :: prio_table where
  "bcu_ann_priority_default_table =
     [(''OCC'', 1), (''MIC_3D5'', 2), (''EMERG'', 4), (''LIVE'', 3), (''TMS-AUTO'', 6),
      (''MANUAL'', 5), (''TMS-MANUAL'', 7)]"

abbreviation (input) NO_ID :: nat where "NO_ID \<equiv> 0xFFFFFFFF"

record prio_node =
  unique_id :: nat
  priority :: nat
  this_state_process :: "sproc option"

definition bcu_ann_priority_list_node_idle :: prio_node where
  "bcu_ann_priority_list_node_idle =
     \<lparr>unique_id = ANN_IDLE, priority = 0xFFFFFFFF, this_state_process = Some IdleAnn\<rparr>"

text \<open>\<open>BcuTestSelectNextEvent\<close> on the value of its static counter.\<close>

definition BcuTestSelectNextEvent :: "bool \<Rightarrow> nat \<Rightarrow> nat \<times> int" where
  "BcuTestSelectNextEvent with_db cnt =
     (if length (bcu_ann_option_table with_db) \<le> cnt then (0, -1)
      else (Suc cnt, int (snd (bcu_ann_option_table with_db ! cnt))))"

section \<open>Sorting a table\<close>

text \<open>
  The inner loop with \<open>k\<close> rounds left at index \<open>i\<close>; \<open>None\<close> is an access beyond the array.
\<close>

fun sort_pass :: "nat \<Rightarrow> nat \<Rightarrow> prio_table \<Rightarrow> prio_table option" where
  "sort_pass 0 i t = Some t"
| "sort_pass (Suc k) i t =
     (if Suc i < length t
      then sort_pass k (Suc i)
        (if snd (t ! i) > snd (t ! Suc i) then t[i := t ! Suc i, Suc i := t ! i] else t)
      else None)"

fun sort_passes :: "nat \<Rightarrow> nat \<Rightarrow> 32 word \<Rightarrow> prio_table \<Rightarrow> prio_table option" where
  "sort_passes 0 j n t = Some t"
| "sort_passes (Suc k) j n t =
     (case sort_pass (unat (n - of_nat j - 1)) 0 t of
        None \<Rightarrow> None
      | Some t' \<Rightarrow> sort_passes k (Suc j) n t')"

text \<open>The loop bounds \<open>table_items-1\<close> and \<open>table_items-j-1\<close> are unsigned.\<close>

definition BcuDynamicStateSort :: "prio_table option \<Rightarrow> 32 word \<Rightarrow> (prio_table option \<times> int) option" where
  "BcuDynamicStateSort tbl table_items =
     (case tbl of
        None \<Rightarrow> Some (None, -1)
      | Some t \<Rightarrow> (case sort_passes (unat (table_items - 1)) 0 table_items t of
           None \<Rightarrow> None
         | Some t' \<Rightarrow> Some (Some t', 0)))"

section \<open>Building the list\<close>

text \<open>\<open>strncmp\<close> on the length of the shorter of the two names.\<close>

definition name_matches :: "string \<Rightarrow> string \<Rightarrow> bool" where
  "name_matches s1 s2 =
     (let min_len = (if c_strlen s1 \<ge> c_strlen s2 then c_strlen s2 else c_strlen s1)
      in c_strncmp_eq s1 s2 min_len)"

fun option_id :: "(string \<times> nat) list \<Rightarrow> string \<Rightarrow> nat" where
  "option_id [] name = NO_ID"
| "option_id ((s, i) # opts) name = (if name_matches s name then i else option_id opts name)"

definition state_of_id :: "nat \<Rightarrow> sproc option" where
  "state_of_id i = find (\<lambda>p. i = state_id p) bcu_all_states"

definition prio_node_of :: "bool \<Rightarrow> string \<times> nat \<Rightarrow> prio_node" where
  "prio_node_of with_db item =
     (let i = option_id (bcu_ann_option_table with_db) (fst item)
      in \<lparr>unique_id = i, priority = snd item, this_state_process = state_of_id i\<rparr>)"

text \<open>\<open>ok\<close> tells whether the allocation of the node succeeds.\<close>

definition BcuAnnStateAddNewNode :: "bool \<Rightarrow> bool \<Rightarrow> (string \<times> nat) option \<Rightarrow> prio_node option" where
  "BcuAnnStateAddNewNode with_db ok item =
     (case item of None \<Rightarrow> None | Some it \<Rightarrow> if ok then Some (prio_node_of with_db it) else None)"

definition BcuAnnStateCreatePriorityNode :: "bool \<Rightarrow> bool \<Rightarrow> (string \<times> nat) option \<Rightarrow> prio_node list
    \<Rightarrow> prio_node list \<times> int" where
  "BcuAnnStateCreatePriorityNode with_db ok item l =
     (case item of
        None \<Rightarrow> (l, -1)
      | Some it \<Rightarrow> (case BcuAnnStateAddNewNode with_db ok (Some it) of
           None \<Rightarrow> (l, -1)
         | Some nd \<Rightarrow> (l @ [nd], 0)))"

text \<open>
  The loop of \<open>BcuAnnStateCreatePriorityList\<close> from \<open>i\<close> down, with the nodes linked so far;
  \<open>ok i\<close> tells whether the allocation of that round succeeds.
\<close>

fun create_loop :: "bool \<Rightarrow> (nat \<Rightarrow> bool) \<Rightarrow> prio_table \<Rightarrow> nat \<Rightarrow> prio_node list \<Rightarrow> prio_node list \<times> int" where
  "create_loop with_db ok t 0 acc = (acc, 0)"
| "create_loop with_db ok t (Suc i) acc =
     (if ok (Suc i) then create_loop with_db ok t i (acc @ [prio_node_of with_db (t ! i)])
      else (acc, -1))"

text \<open>The first node linked replaces whatever was behind the idle node.\<close>

definition BcuAnnStateCreatePriorityList :: "bool \<Rightarrow> (nat \<Rightarrow> bool) \<Rightarrow> prio_table option \<Rightarrow> nat
    \<Rightarrow> prio_node list \<Rightarrow> prio_node list \<times> int" where
  "BcuAnnStateCreatePriorityList with_db ok tbl table_items l =
     (case tbl of
        None \<Rightarrow> (l, -1)
      | Some t \<Rightarrow> (let (acc, ret) = create_loop with_db ok t table_items []
                   in (if acc = [] then l else acc, ret)))"

definition BcuAnnStateListUpdate :: "bool \<Rightarrow> (nat \<Rightarrow> bool) \<Rightarrow> prio_table option \<Rightarrow> nat
    \<Rightarrow> prio_node list \<Rightarrow> prio_node list \<times> int" where
  "BcuAnnStateListUpdate with_db ok tbl table_items l =
     (let (l', ret) = (case tbl of
          None \<Rightarrow> BcuAnnStateCreatePriorityList with_db ok (Some bcu_ann_priority_default_table)
            (length bcu_ann_priority_default_table) l
        | Some t \<Rightarrow> BcuAnnStateCreatePriorityList with_db ok (Some t) table_items l)
      in (l', if ret = 0 then 0 else -1))"

definition BcuAnnStateNodeUpdate :: "bool \<Rightarrow> bool \<Rightarrow> (string \<times> nat) option \<Rightarrow> prio_node list
    \<Rightarrow> prio_node list \<times> int" where
  "BcuAnnStateNodeUpdate with_db ok item l =
     (if item = None
      then (let (l', ret) = BcuAnnStateCreatePriorityNode with_db ok item l
            in (l', if ret = 0 then 0 else -1))
      else (l, -1))"

definition BcuSimulateStateInit :: "bool \<Rightarrow> (nat \<Rightarrow> bool) \<Rightarrow> prio_node list \<Rightarrow> prio_node list \<times> int" where
  "BcuSimulateStateInit with_db ok l = BcuAnnStateListUpdate with_db ok None 0 l"

text \<open>
  \<open>BcuUpdatePriorArray\<close> (\<open>bcu_update_table_from_ccu.cxx\<close>): one row of the CCU's priority table.
\<close>

definition BcuUpdatePriorArray :: "bool \<Rightarrow> bool \<Rightarrow> (string \<times> nat) option \<Rightarrow> prio_node list
    \<Rightarrow> prio_node list \<times> int" where
  "BcuUpdatePriorArray with_db ok row l =
     (case row of
        None \<Rightarrow> (l, -1)
      | Some (event_type, priority_id) \<Rightarrow>
          (let (l', ret) = BcuAnnStateCreatePriorityNode with_db ok (Some (event_type, priority_id)) l
           in (l', if ret = 0 then 0 else -1)))"

section \<open>Searching the list\<close>

definition BcuAnnStatePriorityListSearch :: "prio_node list \<Rightarrow> nat \<Rightarrow> prio_node option" where
  "BcuAnnStatePriorityListSearch l event_id =
     find (\<lambda>nd. event_id = unique_id nd) (bcu_ann_priority_list_node_idle # l)"

text \<open>\<open>None\<close>: the code reads through the null pointer that the search returned.\<close>

definition BcuGetAnnStatePriority :: "prio_node list \<Rightarrow> nat \<Rightarrow> nat option" where
  "BcuGetAnnStatePriority l event_id =
     (case BcuAnnStatePriorityListSearch l event_id of None \<Rightarrow> None | Some nd \<Rightarrow> Some (priority nd))"

definition BcuStateEventIdJudge :: "nat \<Rightarrow> int" where
  "BcuStateEventIdJudge event_id =
     (if event_id \<in> {OCC_EVENT, LIVE_ANN_EVENT, MIC_3D5_OUTER_EVENT, EMERG_ANN_EVENT,
          MANUAL_ANN_EVENT, TMS_MANUAL_ANN_EVENT, TMS_AUTO_ANN_EVENT, ANN_IDLE} then 0
      else if event_id \<in> {D2D_INTERCOMM_EVENT, D2P_INTERCOMM_EVENT, D2D_HANGUP_D2P_EVENT,
          D2P_INTERCOM_PENDING, INTERCOM_IDLE} then 1
      else if event_id = LINE_NUMBER_CHANGE_EVENT then 2
      else -1)"

definition WhetherOverPackage :: "send_info \<Rightarrow> int" where
  "WhetherOverPackage s =
     (if si_type_intercom s = INTERCOM_IDLE
      then (if si_type_ann s \<in> {OCC_EVENT, MIC_3D5_OUTER_EVENT, LIVE_ANN_EVENT, EMERG_ANN_EVENT,
                MANUAL_ANN_EVENT, TMS_MANUAL_ANN_EVENT, TMS_AUTO_ANN_EVENT}
            then (if ann_active s = 0 then 1 else 0) else 0)
      else 0)"

section \<open>Exchanging the state\<close>

text \<open>
  The statements that change the state: \<open>exit\<close> of the old one, the pointer, \<open>enter\<close> of the
  new one with the command. \<open>junk\<close> is uninitialised memory of an \<open>exit\<close>.
\<close>

definition ann_change :: "send_info \<Rightarrow> sproc \<Rightarrow> bcu \<times> send_info \<Rightarrow> bcu \<times> send_info" where
  "ann_change junk p bs =
     (let b1 = sp_exit junk (bcu_active_ann_state (fst bs)) (fst bs)
      in sp_enter p (b1\<lparr>bcu_active_ann_state := p\<rparr>, snd bs))"

definition BcuDynamicStateExchange :: "send_info \<Rightarrow> prio_node list \<Rightarrow> bcu \<times> send_info
    \<Rightarrow> (bcu \<times> send_info) \<times> int" where
  "BcuDynamicStateExchange junk l bs =
     (let s = snd bs; current = bcu_active_ann_state (fst bs) in
      if si_type_intercom s = INTERCOM_IDLE \<and> si_type_ann s \<noteq> ANN_IDLE
      then
        (if BcuStateEventIdJudge (state_id current) = 0
         then
           (case (BcuAnnStatePriorityListSearch l (si_type_ann s),
                  BcuAnnStatePriorityListSearch l (state_id current)) of
              (Some new_state_node, Some current_state_node) \<Rightarrow>
                if priority new_state_node \<le> priority current_state_node
                then
                  (let nd = (if WhetherOverPackage s \<noteq> 0
                             then (if unique_id new_state_node = unique_id current_state_node
                                   then bcu_ann_priority_list_node_idle else new_state_node)
                             else new_state_node)
                   in case this_state_process nd of
                        Some p \<Rightarrow> (ann_change junk p bs, 0)
                      | None \<Rightarrow> (bs, 0))
                else (bs, 0)
            | _ \<Rightarrow> (bs, 0))
         else (bs, 0))
      else if si_type_ann s = ANN_IDLE \<and> si_type_intercom s \<noteq> INTERCOM_IDLE then (bs, 0)
      else (bs, -1))"

section \<open>The sort is stable and correct\<close>

text \<open>One pass carries the largest entry to the end.\<close>

fun bub :: "prio_table \<Rightarrow> prio_table" where
  "bub [] = []"
| "bub [x] = [x]"
| "bub (x # y # zs) = (if snd x > snd y then y # bub (x # zs) else x # bub (y # zs))"

lemma bub_mset: "mset (bub t) = mset t"
  by (induction t rule: bub.induct) auto

lemma bub_stable: "filter (\<lambda>e. snd e = p) (bub t) = filter (\<lambda>e. snd e = p) t"
  by (induction t rule: bub.induct) auto

lemma bub_Nil: "bub t = [] \<longleftrightarrow> t = []"
  by (metis bub_mset mset_zero_iff)

lemma bub_last: "t \<noteq> [] \<Longrightarrow> e \<in> set t \<Longrightarrow> snd e \<le> snd (last (bub t))"
proof (induction t arbitrary: e rule: bub.induct)
  case (3 x y zs)
  show ?case
  proof (cases "snd x > snd y")
    case True
    then have le: "snd e' \<le> snd (last (bub (x # zs)))" if "e' \<in> set (x # zs)" for e'
      using "3.IH"(1) that by simp
    show ?thesis using True "3.prems" le [of x] le [of e] by (auto simp: bub_Nil)
  next
    case False
    then have le: "snd e' \<le> snd (last (bub (y # zs)))" if "e' \<in> set (y # zs)" for e'
      using "3.IH"(2) that by simp
    show ?thesis using False "3.prems" le [of y] le [of e] by (auto simp: bub_Nil)
  qed
qed auto

lemma sort_pass_bub:
  "sort_pass (length ys) (length xs) (xs @ x # ys @ zs) = Some (xs @ bub (x # ys) @ zs)"
proof (induction ys arbitrary: xs x)
  case (Cons y ys)
  show ?case
    using Cons [of "xs @ [y]" x] Cons [of "xs @ [x]" y]
    by (simp add: nth_append list_update_append)
qed simp

lemma sort_key_eqI:
  assumes "mset xs = mset ys"
    and "\<And>p. filter (\<lambda>e. f e = p) xs = filter (\<lambda>e. f e = p) ys"
  shows "sort_key f xs = sort_key f ys"
proof (rule properties_for_sort_key)
  fix k
  have "filter (\<lambda>x. f k = f x) zs = filter (\<lambda>x. f x = f k) zs" for zs
    by (rule filter_cong) auto
  then show "filter (\<lambda>x. f k = f x) (sort_key f ys) = filter (\<lambda>x. f k = f x) xs"
    by (simp add: sort_key_stable assms(2))
qed (simp_all add: assms(1))

lemma sort_passes_key:
  fixes n :: "32 word"
  assumes "length A + length B < 2 ^ 32" and "n = of_nat (length A + length B)"
    and "k = length A - 1" and "sorted (map snd B)" and "\<forall>a\<in>set A. \<forall>b\<in>set B. snd a \<le> snd b"
  shows "sort_passes k (length B) n (A @ B @ R) = Some (sort_key snd (A @ B) @ R)"
  using assms
proof (induction k arbitrary: A B)
  case 0
  then have "length A \<le> 1" by simp
  then have "sorted (map snd (A @ B))" using 0 by (cases A) (auto simp: sorted_append)
  then show ?case by (simp add: sort_key_id_if_sorted)
next
  case (Suc k)
  obtain x ys where A: "A = x # ys" using Suc.prems(3) by (cases A) auto
  have "n - of_nat (length B) - 1 = of_nat (length ys)"
    using A Suc.prems(2) by simp
  moreover have "length ys < 2 ^ 32" using A Suc.prems(1) by simp
  ultimately have "unat (n - of_nat (length B) - 1) = length ys"
    by (simp add: unsigned_of_nat take_bit_nat_eq_self)
  then have pass: "sort_pass (unat (n - of_nat (length B) - 1)) 0 (A @ B @ R) = Some (bub A @ B @ R)"
    using sort_pass_bub [of ys "[]" x "B @ R"] A by simp
  define A' m where "A' = butlast (bub A)" and "m = last (bub A)"
  have bub: "bub A = A' @ [m]" using A by (simp add: A'_def m_def bub_Nil)
  have len: "length A = Suc (length A')" using bub_mset [of A] bub by (metis size_mset length_append_singleton)
  have set: "set (bub A) = set A" using bub_mset [of A] by (metis set_mset_mset)
  have m: "snd a \<le> snd m" if "a \<in> set A" for a using that bub_last [of A a] A by (simp add: m_def)
  have "sort_passes k (length (m # B)) n (A' @ (m # B) @ R) = Some (sort_key snd (A' @ (m # B)) @ R)"
  proof (rule Suc.IH)
    show "length A' + length (m # B) < 2 ^ 32" "n = of_nat (length A' + length (m # B))" "k = length A' - 1"
      using len bub Suc.prems by auto
    show "sorted (map snd (m # B))" using Suc.prems(4,5) bub set by auto
    have sub: "set A' \<subseteq> set A" using bub set by auto
    show "\<forall>a\<in>set A'. \<forall>b\<in>set (m # B). snd a \<le> snd b"
      using Suc.prems(5) sub m by (auto simp del: split_paired_All split_paired_all)
  qed
  moreover have "sort_key snd (bub A @ B) = sort_key snd (A @ B)"
    by (rule sort_key_eqI) (simp_all add: bub_mset bub_stable)
  ultimately show ?case using pass bub by simp
qed

lemma sort_pass_None: "0 < k \<Longrightarrow> length t \<le> i + k \<Longrightarrow> sort_pass k i t = None"
proof (induction k arbitrary: i t)
  case (Suc k)
  show ?case
  proof (cases "Suc i < length t")
    case True
    with Suc.prems have "0 < k" by simp
    with True Suc show ?thesis by simp
  qed simp
qed simp

section \<open>The list that is built\<close>

lemma create_loop_eq:
  "create_loop with_db ok t n acc =
     (acc @ map (\<lambda>i. prio_node_of with_db (t ! i)) (takeWhile (\<lambda>i. ok (Suc i)) (rev [0..<n])),
      if \<forall>i<n. ok (Suc i) then 0 else -1)"
  by (induction n arbitrary: acc) (auto simp: less_Suc_eq)

definition prio_wf :: "prio_node list \<Rightarrow> bool" where
  "prio_wf l \<longleftrightarrow> (\<forall>nd\<in>set l. this_state_process nd = state_of_id (unique_id nd))"

lemma prio_wf_simps [simp]:
  "prio_wf []" "prio_wf (l @ l') \<longleftrightarrow> prio_wf l \<and> prio_wf l'"
  "prio_wf (map (prio_node_of with_db) rows)" "prio_wf (rev l) \<longleftrightarrow> prio_wf l"
  by (auto simp: prio_wf_def prio_node_of_def Let_def)

lemma state_of_id_id [simp]: "state_of_id (state_id p) = Some p"
  by (cases p) (simp_all add: state_of_id_def bcu_all_states_def)

lemma state_of_id_Some: "state_of_id i = Some p \<longleftrightarrow> i = state_id p"
  by (auto simp: state_of_id_def find_Some_iff) (metis state_of_id_id state_of_id_def find_Some_iff)

lemma search_Cons: "BcuAnnStatePriorityListSearch (l @ l') i =
    (case BcuAnnStatePriorityListSearch l i of Some nd \<Rightarrow> Some nd | None \<Rightarrow> find (\<lambda>nd. i = unique_id nd) l')"
proof -
  have "find P (xs @ ys) = (case find P xs of Some x \<Rightarrow> Some x | None \<Rightarrow> find P ys)"
    for P :: "prio_node \<Rightarrow> bool" and xs ys by (induction xs) auto
  then show ?thesis by (simp add: BcuAnnStatePriorityListSearch_def)
qed

lemma search_Some:
  "BcuAnnStatePriorityListSearch l i = Some nd \<Longrightarrow> prio_wf l \<Longrightarrow>
    unique_id nd = i \<and> this_state_process nd = state_of_id i"
  using state_of_id_id [of IdleAnn]
  by (auto simp: BcuAnnStatePriorityListSearch_def find_Some_iff prio_wf_def nth_Cons'
      bcu_ann_priority_list_node_idle_def split: if_splits)

section \<open>The rule of arbitration\<close>

text \<open>
  The state that a command moves the machine to: a smaller priority number wins, a command of
  the current state with active byte 0 moves to idle, and a state that is not in the list can
  neither be entered nor, once current, be left.
\<close>

definition ann_target :: "prio_node list \<Rightarrow> sproc \<Rightarrow> send_info \<Rightarrow> sproc option" where
  "ann_target l cur s =
     (if si_type_intercom s = INTERCOM_IDLE \<and> si_type_ann s \<noteq> ANN_IDLE \<and> cur \<in> ann_states
      then (case (state_of_id (si_type_ann s), BcuGetAnnStatePriority l (si_type_ann s),
                  BcuGetAnnStatePriority l (state_id cur)) of
              (Some new, Some pn, Some pc) \<Rightarrow>
                if pn \<le> pc then Some (if new = cur \<and> ann_active s = 0 then IdleAnn else new) else None
            | _ \<Rightarrow> None)
      else None)"

lemma judge_ann_states: "BcuStateEventIdJudge (state_id p) = 0 \<longleftrightarrow> p \<in> ann_states"
  by (cases p) (simp_all add: BcuStateEventIdJudge_def ann_states_def)

lemma over_package_cur:
  "p \<in> ann_states \<Longrightarrow> p \<noteq> IdleAnn \<Longrightarrow> si_type_ann s = state_id p \<Longrightarrow> si_type_intercom s = INTERCOM_IDLE
    \<Longrightarrow> WhetherOverPackage s = (if ann_active s = 0 then 1 else 0)"
  by (cases p) (simp_all add: WhetherOverPackage_def ann_states_def)

lemma ann_change_ctl:
  "ctl_of (fst (ann_change junk p (b, s))) =
     ctl_enter p ((ctl_exit (bcu_active_ann_state b) (ctl_of b))\<lparr>c_ann := p\<rparr>)"
  by (simp add: ann_change_def Let_def sp_enter_ctl sp_exit_ctl ctl_simps)

definition update_rows :: "bool \<Rightarrow> (string \<times> nat) list \<Rightarrow> prio_node list \<Rightarrow> prio_node list" where
  "update_rows with_db rows l = fold (\<lambda>row l. fst (BcuUpdatePriorArray with_db True (Some row) l)) rows l"

text \<open>The list of the default table.\<close>

definition default_list :: "bool \<Rightarrow> prio_node list" where
  "default_list with_db = fst (BcuSimulateStateInit with_db (\<lambda>_. True) [])"

definition ann_run :: "send_info \<Rightarrow> prio_node list \<Rightarrow> send_info list \<Rightarrow> bcu \<Rightarrow> bcu" where
  "ann_run junk l cmds b = fold (\<lambda>s b. fst (fst (BcuDynamicStateExchange junk l (b, s)))) cmds b"

lemma exchange_ctl:
  assumes "prio_wf l"
  shows "BcuDynamicStateExchange junk l (b, s) =
    ((case ann_target l (bcu_active_ann_state b) s of
        Some p \<Rightarrow> ann_change junk p (b, s) | None \<Rightarrow> (b, s)),
     if (si_type_ann s = ANN_IDLE) = (si_type_intercom s = INTERCOM_IDLE) then -1 else 0)"
proof (cases "si_type_intercom s = INTERCOM_IDLE \<and> si_type_ann s \<noteq> ANN_IDLE
    \<and> bcu_active_ann_state b \<in> ann_states")
  case True
  let ?cur = "bcu_active_ann_state b"
  show ?thesis
  proof (cases "BcuAnnStatePriorityListSearch l (si_type_ann s)
      = None \<or> BcuAnnStatePriorityListSearch l (state_id ?cur) = None")
    case True
    with \<open>_ \<and> _ \<and> _\<close> show ?thesis
      by (auto simp: BcuDynamicStateExchange_def ann_target_def BcuGetAnnStatePriority_def judge_ann_states
          split: option.splits)
  next
    case False
    then obtain nn cn where f: "BcuAnnStatePriorityListSearch l (si_type_ann s) = Some nn"
        "BcuAnnStatePriorityListSearch l (state_id ?cur) = Some cn" by auto
    note nn = search_Some [OF f(1) assms]
    note cn = search_Some [OF f(2) assms]
    show ?thesis
    proof (cases "state_of_id (si_type_ann s)")
      case None
      then have "si_type_ann s \<noteq> state_id ?cur" by auto
      with None True f nn cn show ?thesis
        by (simp add: BcuDynamicStateExchange_def ann_target_def BcuGetAnnStatePriority_def judge_ann_states)
    next
      case (Some p)
      then have p: "si_type_ann s = state_id p" by (simp add: state_of_id_Some)
      with True have "p = ?cur \<Longrightarrow> WhetherOverPackage s = (if ann_active s = 0 then 1 else 0)"
        by (intro over_package_cur) auto
      with Some p True f nn cn show ?thesis
        by (auto simp: BcuDynamicStateExchange_def ann_target_def BcuGetAnnStatePriority_def judge_ann_states
            bcu_ann_priority_list_node_idle_def)
    qed
  qed
qed (auto simp: BcuDynamicStateExchange_def ann_target_def judge_ann_states)

definition prio_ann :: "prio_node list \<Rightarrow> bool" where
  "prio_ann l \<longleftrightarrow> (\<forall>nd\<in>set l. \<forall>p\<in>{IdleIntercom, D2DIntercom, D2PIntercom, IntercomHangUp}. unique_id nd \<noteq> state_id p)"

text \<open>The invariant of the announcement machine on its own.\<close>

definition ann_inv :: "ctl \<Rightarrow> bool" where
  "ann_inv c \<longleftrightarrow> c_ann c \<in> ann_states \<and> c_live c = (if c_ann c = LiveAnn then 1 else 0)
     \<and> (c_mic c = ANNOUNCE \<longrightarrow> c_ann c = LiveAnn)"

text \<open>A step that stays, goes idle, or obeys the ranks.\<close>

definition ann_step_ok :: "prio_node list \<Rightarrow> bcu \<Rightarrow> bcu \<Rightarrow> bool" where
  "ann_step_ok l b b' \<longleftrightarrow>
     bcu_active_ann_state b' = IdleAnn \<or> b' = b
     \<or> (case (BcuGetAnnStatePriority l (state_id (bcu_active_ann_state b')),
              BcuGetAnnStatePriority l (state_id (bcu_active_ann_state b))) of
          (Some p', Some p) \<Rightarrow> p' \<le> p
        | _ \<Rightarrow> False)"

lemma ann_target_Some:
  "ann_target l cur s = Some p \<Longrightarrow> p \<noteq> IdleAnn \<Longrightarrow>
    \<exists>pn pc. BcuGetAnnStatePriority l (state_id p) = Some pn
      \<and> BcuGetAnnStatePriority l (state_id cur) = Some pc \<and> pn \<le> pc"
  by (auto simp: ann_target_def state_of_id_Some split: if_splits option.splits)

lemma ann_target_states:
  assumes "ann_target l cur s = Some p" and "prio_ann l"
  shows "p \<in> ann_states"
proof (cases "p = IdleAnn")
  case False
  obtain pn where "BcuGetAnnStatePriority l (state_id p) = Some pn"
    using ann_target_Some [OF assms(1) False] by blast
  then have "\<exists>nd\<in>set (bcu_ann_priority_list_node_idle # l). unique_id nd = state_id p"
    by (auto simp: BcuGetAnnStatePriority_def BcuAnnStatePriorityListSearch_def find_Some_iff
        split: option.splits if_splits)
  with assms(2) show ?thesis
    by (cases p) (auto simp: prio_ann_def ann_states_def bcu_ann_priority_list_node_idle_def)
qed (simp add: ann_states_def)

lemma ann_change_active:
  "bcu_active_ann_state (fst (ann_change junk p (b, s))) = p"
proof -
  have "c_ann (ctl_enter p c) = c_ann c" for c by (cases p) simp_all
  then have "c_ann (ctl_of (fst (ann_change junk p (b, s)))) = p" by (simp add: ann_change_ctl)
  then show ?thesis by (simp add: ctl_of_def)
qed

lemma ann_inv_change:
  assumes "ann_inv (ctl_of b)" and "p \<in> ann_states"
  shows "ann_inv (ctl_of (fst (ann_change junk p (b, s))))"
    and "c_intercom (ctl_of (fst (ann_change junk p (b, s)))) = c_intercom (ctl_of b)"
    and "c_d2d (ctl_of (fst (ann_change junk p (b, s)))) = c_d2d (ctl_of b)"
proof -
  have exit: "c_intercom (ctl_exit q c) = c_intercom c" "q \<in> ann_states \<Longrightarrow> c_d2d (ctl_exit q c) = c_d2d c"
    "q \<in> ann_states \<Longrightarrow> c_ann c = q \<Longrightarrow> ann_inv c \<Longrightarrow> c_live (ctl_exit q c) = 0 \<and> c_mic (ctl_exit q c) \<noteq> ANNOUNCE"
    for q c
    by (cases q; simp add: c_no_dst_def c_mic_back_def ann_states_def ann_inv_def)+
  have cur: "bcu_active_ann_state b = c_ann (ctl_of b)" "c_ann (ctl_of b) \<in> ann_states"
    using assms(1) by (simp_all add: ctl_of_def ann_inv_def)
  show "ann_inv (ctl_of (fst (ann_change junk p (b, s))))"
    using assms(2) exit(3) [OF cur(2) refl assms(1)] unfolding ann_change_ctl cur(1)
    by (cases p) (simp_all add: ann_inv_def ann_states_def)
  show "c_intercom (ctl_of (fst (ann_change junk p (b, s)))) = c_intercom (ctl_of b)"
    unfolding ann_change_ctl cur(1) by (cases p) (simp_all add: exit(1))
  show "c_d2d (ctl_of (fst (ann_change junk p (b, s)))) = c_d2d (ctl_of b)"
    using assms(2) exit(2) [OF cur(2)] unfolding ann_change_ctl cur(1)
    by (cases p) (simp_all add: ann_states_def)
qed

lemma ann_run_ctl:
  assumes "prio_wf l" and "prio_ann l"
  shows "ann_inv (ctl_of b) \<Longrightarrow> ann_inv (ctl_of (ann_run junk l cmds b))
    \<and> c_intercom (ctl_of (ann_run junk l cmds b)) = c_intercom (ctl_of b)
    \<and> c_d2d (ctl_of (ann_run junk l cmds b)) = c_d2d (ctl_of b)"
proof (induction cmds arbitrary: b)
  case (Cons s cmds)
  let ?b = "fst (fst (BcuDynamicStateExchange junk l (b, s)))"
  have "ann_inv (ctl_of ?b) \<and> c_intercom (ctl_of ?b) = c_intercom (ctl_of b) \<and> c_d2d (ctl_of ?b) = c_d2d (ctl_of b)"
    using Cons.prems ann_inv_change [OF Cons.prems]
    by (cases "ann_target l (bcu_active_ann_state b) s")
      (auto simp: exchange_ctl [OF assms(1)] dest: ann_target_states [OF _ assms(2)])
  with Cons.IH [of ?b] show ?case by (simp add: ann_run_def)
qed (simp add: ann_run_def)

lemma ann_step_rank:
  assumes "prio_wf l"
  shows "ann_step_ok l b (fst (fst (BcuDynamicStateExchange junk l (b, s))))"
proof (cases "ann_target l (bcu_active_ann_state b) s")
  case (Some p)
  then show ?thesis
    using ann_target_Some [OF Some]
    by (cases "p = IdleAnn") (auto simp: ann_step_ok_def exchange_ctl [OF assms] ann_change_active)
qed (simp add: ann_step_ok_def exchange_ctl [OF assms])

section \<open>Properties\<close>


text \<open>C20: \<open>BcuDynamicStateSort\<close> on the first \<open>n\<close> rows is the stable sort of those rows by
  priority number and leaves the other rows alone, for every table with at least one row; with
  no row its unsigned bound \<open>table_items-1\<close> wraps and it runs out of the array.\<close>

theorem ann_sort_spec:
  assumes "0 < n" and "n \<le> length t" and "length t < 2 ^ 32"
  shows "BcuDynamicStateSort (Some t) (of_nat n) = Some (Some (sort_key snd (take n t) @ drop n t), 0)
    \<and> BcuDynamicStateSort (Some t) 0 = None"
proof
  have n: "unat (of_nat n - 1 :: 32 word) = n - 1"
  proof -
    obtain m where m: "n = Suc m" using assms(1) by (cases n) auto
    then have "m < 2 ^ 32" using assms by simp
    with m show ?thesis by (simp add: unsigned_of_nat take_bit_nat_eq_self)
  qed
  have "sort_passes (n - 1) (length ([] :: prio_table)) (of_nat n) (take n t @ [] @ drop n t)
      = Some (sort_key snd (take n t @ []) @ drop n t)"
    using assms by (intro sort_passes_key) simp_all
  then show "BcuDynamicStateSort (Some t) (of_nat n) = Some (Some (sort_key snd (take n t) @ drop n t), 0)"
    by (simp add: BcuDynamicStateSort_def n)
  have big: "unat (- 1 :: 32 word) = 2 ^ 32 - 1"
    by (simp add: unsigned_minus_1_eq_mask mask_eq_exp_minus_1)
  then have "sort_pass (unat (- 1 :: 32 word)) 0 t = None"
    using assms by (intro sort_pass_None) simp_all
  moreover have "unat (- 1 :: 32 word) = Suc (2 ^ 32 - 2)" using big by simp
  ultimately show "BcuDynamicStateSort (Some t) 0 = None"
    by (simp only: BcuDynamicStateSort_def option.case diff_0 sort_passes.simps of_nat_0) simp
qed

theorem ann_sort_spec_witness:
  "BcuDynamicStateSort (Some bcu_ann_priority_default_table) 7
    = Some (Some [(''OCC'', 1), (''MIC_3D5'', 2), (''LIVE'', 3), (''EMERG'', 4), (''MANUAL'', 5),
        (''TMS-AUTO'', 6), (''TMS-MANUAL'', 7)], 0)"
  using ann_sort_spec [of 7 bcu_ann_priority_default_table]
  by (simp add: bcu_ann_priority_default_table_def)

text \<open>\<open>BcuAnnStateCreatePriorityList\<close> replaces the list behind the idle node by the rows in
  reverse order, each with the identifier its name resolves to; when an allocation fails it
  answers -1 and what is left of the old list is lost, unless no node could be allocated at all.\<close>

lemma ann_list_built:
  assumes "BcuAnnStateListUpdate with_db ok (Some t) (length t) l = (l', r)"
  shows "(r = 0 \<longleftrightarrow> (\<forall>i<length t. ok (Suc i)))
    \<and> (r = 0 \<longrightarrow> l' = (if t = [] then l else map (prio_node_of with_db) (rev t)))
    \<and> (r \<noteq> 0 \<longrightarrow> r = -1 \<and> l' = (if ok (length t)
         then map (\<lambda>i. prio_node_of with_db (t ! i)) (takeWhile (\<lambda>i. ok (Suc i)) (rev [0..<length t])) else l))
    \<and> (prio_wf l \<longrightarrow> prio_wf l')"
proof -
  let ?tw = "takeWhile (\<lambda>i. ok (Suc i)) (rev [0..<length t])"
  have all: "?tw = rev [0..<length t]" if "\<forall>i<length t. ok (Suc i)" using that by (simp add: takeWhile_eq_all_conv)
  have rev: "map (\<lambda>i. f (t ! i)) (rev [0..<length t]) = map f (rev t)" for f :: "string \<times> nat \<Rightarrow> prio_node"
    by (simp add: map_nth flip: rev_map map_map [unfolded comp_def])
  have empty: "?tw = [] \<longleftrightarrow> t = [] \<or> \<not> ok (length t)" by (cases t rule: rev_cases) auto
  have "prio_wf (map (\<lambda>i. prio_node_of with_db (t ! i)) ?tw)"
    using prio_wf_simps(3) [of with_db "map ((!) t) ?tw"] by (simp add: comp_def)
  then have wf: "prio_wf l \<Longrightarrow> prio_wf l'"
    using assms by (auto simp: BcuAnnStateListUpdate_def BcuAnnStateCreatePriorityList_def create_loop_eq
        split: if_splits)
  show ?thesis
  proof (cases "\<forall>i<length t. ok (Suc i)")
    case True
    then have "l' = (if t = [] then l else map (prio_node_of with_db) (rev t)) \<and> r = 0"
      using assms all [OF True] rev [of "prio_node_of with_db"]
      by (auto simp: BcuAnnStateListUpdate_def BcuAnnStateCreatePriorityList_def create_loop_eq)
    with True wf show ?thesis by simp
  next
    case False
    then have t: "t \<noteq> []" by auto
    have "r = -1 \<and> l' = (if ok (length t) then map (\<lambda>i. prio_node_of with_db (t ! i)) ?tw else l)"
      using assms False empty t
      by (auto simp: BcuAnnStateListUpdate_def BcuAnnStateCreatePriorityList_def create_loop_eq)
    with False wf show ?thesis by auto
  qed
qed

text \<open>Reading the priority rows of the CCU one by one appends a node each; the first row
  that names an event decides its priority, so rows read again later (a second synchronisation)
  never change a priority, and idle stays the weakest.\<close>

lemma ann_rows_first_wins:
  "update_rows with_db rows l = l @ map (prio_node_of with_db) rows
    \<and> BcuGetAnnStatePriority (update_rows with_db rows l) i =
       (case BcuGetAnnStatePriority l i of
          Some p \<Rightarrow> Some p
        | None \<Rightarrow> map_option snd (find (\<lambda>row. i = option_id (bcu_ann_option_table with_db) (fst row)) rows))
    \<and> BcuGetAnnStatePriority (update_rows with_db rows l) ANN_IDLE = Some 0xFFFFFFFF"
proof -
  have app: "update_rows with_db rows l = l @ map (prio_node_of with_db) rows" for rows l
    unfolding update_rows_def
    by (induction rows arbitrary: l)
      (auto simp: BcuUpdatePriorArray_def BcuAnnStateCreatePriorityNode_def BcuAnnStateAddNewNode_def)
  have "map_option priority (find (\<lambda>nd. i = unique_id nd) (map (prio_node_of with_db) rows))
      = map_option snd (find (\<lambda>row. i = option_id (bcu_ann_option_table with_db) (fst row)) rows)"
    by (induction rows) (auto simp: prio_node_of_def Let_def)
  then have "BcuGetAnnStatePriority (update_rows with_db rows l) i =
       (case BcuGetAnnStatePriority l i of
          Some p \<Rightarrow> Some p
        | None \<Rightarrow> map_option snd (find (\<lambda>row. i = option_id (bcu_ann_option_table with_db) (fst row)) rows))"
    by (cases "BcuAnnStatePriorityListSearch l i")
      (auto simp: app BcuGetAnnStatePriority_def search_Cons option.case_eq_if map_option_case)
  moreover have "BcuGetAnnStatePriority (update_rows with_db rows l) ANN_IDLE = Some 0xFFFFFFFF"
    by (simp add: BcuGetAnnStatePriority_def BcuAnnStatePriorityListSearch_def bcu_ann_priority_list_node_idle_def)
  ultimately show ?thesis using app by blast
qed

text \<open>C9: \<open>BcuDynamicStateExchange\<close> is the rule of arbitration: it moves to the state that the
  rule names, by running the old state's \<open>exit\<close>, setting the pointer and running the new
  state's \<open>enter\<close>, and otherwise changes nothing; its answer is -1 exactly when the command
  is for both machines or for none. The effect on the control view is the composition of the
  two specifications.\<close>

theorem ann_exchange_spec:
  assumes "prio_wf l" and "BcuDynamicStateExchange junk l (b, s) = ((b', s'), r)"
  shows "(r = (if (si_type_ann s = ANN_IDLE) = (si_type_intercom s = INTERCOM_IDLE) then -1 else 0))
    \<and> (case ann_target l (bcu_active_ann_state b) s of
         None \<Rightarrow> b' = b \<and> s' = s
       | Some p \<Rightarrow> ctl_of b' = ctl_enter p ((ctl_exit (bcu_active_ann_state b) (ctl_of b))\<lparr>c_ann := p\<rparr>))"
proof (cases "ann_target l (bcu_active_ann_state b) s")
  case None
  with assms(2) show ?thesis by (auto simp: exchange_ctl [OF assms(1)])
next
  case (Some p)
  with assms(2) have e: "ann_change junk p (b, s) = (b', s')"
    by (auto simp: exchange_ctl [OF assms(1)])
  with Some assms(2) show ?thesis
    using arg_cong [OF e, of fst] ann_change_ctl [of junk p b s]
    by (auto simp: exchange_ctl [OF assms(1)])
qed

theorem ann_exchange_spec_witness:
  "\<exists>b' s' r. BcuDynamicStateExchange send_info_zero (default_list True) (bcu_rest, ann_cmd LIVE_ANN_EVENT 1)
      = ((b', s'), r) \<and> c_ann (ctl_of b') = LiveAnn \<and> c_mic (ctl_of b') = ANNOUNCE"
proof -
  obtain b' s' r where e: "BcuDynamicStateExchange send_info_zero (default_list True)
      (bcu_rest, ann_cmd LIVE_ANN_EVENT 1) = ((b', s'), r)" by (metis prod.exhaust)
  have wf: "prio_wf (default_list True)" by code_simp
  have t: "ann_target (default_list True) (bcu_active_ann_state bcu_rest) (ann_cmd LIVE_ANN_EVENT 1) = Some LiveAnn"
    by code_simp
  show ?thesis using ann_exchange_spec [OF wf e] e t by auto
qed

text \<open>The default table ranks OCC, live, emergency, manual, automatic announcements in this
  order before idle. Compiled with \<open>WITH_DB\<close> it ranks no outer 3.5 mm announcement, because the
  default table and the option table spell its name differently: no command for it is ever
  obeyed. Without \<open>WITH_DB\<close> it comes second.\<close>

lemma ann_default_ranks:
  "map (BcuGetAnnStatePriority (default_list True) \<circ> state_id)
      [OccAnn, LiveAnn, EmergAnn, ManualAnn, AutoAnn, IdleAnn, Outer3D5Ann]
      = [Some 1, Some 3, Some 4, Some 5, Some 6, Some 0xFFFFFFFF, None]
    \<and> BcuGetAnnStatePriority (default_list False) (state_id Outer3D5Ann) = Some 2
    \<and> fst (BcuDynamicStateExchange junk (default_list True) (b, s\<lparr>si_type_ann := MIC_3D5_OUTER_EVENT\<rparr>))
      = (b, s\<lparr>si_type_ann := MIC_3D5_OUTER_EVENT\<rparr>)"
proof -
  have wf: "prio_wf (default_list True)" by code_simp
  have ranks: "map (BcuGetAnnStatePriority (default_list True) \<circ> state_id)
      [OccAnn, LiveAnn, EmergAnn, ManualAnn, AutoAnn, IdleAnn, Outer3D5Ann]
      = [Some 1, Some 3, Some 4, Some 5, Some 6, Some 0xFFFFFFFF, None]" by code_simp
  moreover have "BcuGetAnnStatePriority (default_list False) (state_id Outer3D5Ann) = Some 2" by code_simp
  moreover have "ann_target (default_list True) cur (s\<lparr>si_type_ann := MIC_3D5_OUTER_EVENT\<rparr>) = None" for cur
    using ranks by (simp add: ann_target_def split: option.splits)
  ultimately show ?thesis by (simp add: exchange_ctl [OF wf])
qed

text \<open>C16: whatever commands arrive, the announcement machine stays in announcement states (when
  the table names no intercom event), the live lamp is lit exactly in the live state, the
  microphone is announced to nobody else, the intercom machine and its lamp are not touched,
  and a step either moves to idle or to a state that ranks at least as high as the one it leaves.\<close>

theorem ann_run_inv:
  assumes "prio_wf l" and "prio_ann l" and "ann_inv (ctl_of b)"
  shows "ann_inv (ctl_of (ann_run junk l cmds b))
    \<and> c_intercom (ctl_of (ann_run junk l cmds b)) = c_intercom (ctl_of b)
    \<and> c_d2d (ctl_of (ann_run junk l cmds b)) = c_d2d (ctl_of b)
    \<and> ann_step_ok l (ann_run junk l cmds b) (ann_run junk l (cmds @ [s]) b)"
proof -
  note run = ann_run_ctl [OF assms(1,2), of _ junk]
  have "ann_step_ok l b' (fst (fst (BcuDynamicStateExchange junk l (b', s))))" for b'
    using ann_step_rank [OF assms(1)] by simp
  then show ?thesis using run [of b cmds] assms(3) by (simp add: ann_run_def)
qed

theorem ann_run_inv_witness:
  "bcu_active_ann_state (ann_run send_info_zero (default_list True)
      [ann_cmd LIVE_ANN_EVENT 1, ann_cmd MANUAL_ANN_EVENT 1] bcu_rest) = LiveAnn
    \<and> live_button_state (ann_run send_info_zero (default_list True)
      [ann_cmd LIVE_ANN_EVENT 1, ann_cmd MANUAL_ANN_EVENT 1] bcu_rest) = 1"
proof -
  have "prio_wf (default_list True)" "prio_ann (default_list True)" by code_simp+
  moreover have "ann_inv (ctl_of bcu_rest)" by (simp add: ann_inv_def ctl_of_def bcu_rest_def ann_states_def)
  moreover have "bcu_active_ann_state (ann_run send_info_zero (default_list True)
      [ann_cmd LIVE_ANN_EVENT 1, ann_cmd MANUAL_ANN_EVENT 1] bcu_rest) = LiveAnn" by code_simp
  ultimately show ?thesis
    using ann_run_inv [of "default_list True" bcu_rest send_info_zero
        "[ann_cmd LIVE_ANN_EVENT 1, ann_cmd MANUAL_ANN_EVENT 1]"]
    by (simp add: ann_inv_def ctl_of_def)
qed

end
