(* ===== verification/Intercom_Rules.thy ===== *)
theory Intercom_Rules
  imports Bcu_Control
begin

text \<open>
  The rule table of the intercom machine (\<open>bcu_function.cxx\<close>, \<open>state_machine.h\<close>): adding,
  removing, disabling and enabling rules, the table the control unit starts with, and the
  exchange of the intercom state by \<open>StateMachineExchange\<close>.

  A pointer to a state is null, wild (bytes written by a \<open>memset\<close> with the character 0) or a
  state. An operation that reads through a null or wild pointer has no result (\<open>None\<close>).
\<close>

section \<open>Triggers\<close>

text \<open>\<open>enum event_trigger\<close> counts from \<open>EVENT_LIVE_BUTTON_PRESS = 0\<close>.\<close>

abbreviation (input) EVENT_LIVE_BUTTON_PRESS :: int where "EVENT_LIVE_BUTTON_PRESS \<equiv> 0"
abbreviation (input) EVENT_TRANSFER_TO_MANUAL :: int where "EVENT_TRANSFER_TO_MANUAL \<equiv> 1"
abbreviation (input) EVENT_OCC_COMMAND :: int where "EVENT_OCC_COMMAND \<equiv> 3"
abbreviation (input) EVENT_OCC_RELEASE :: int where "EVENT_OCC_RELEASE \<equiv> 4"
abbreviation (input) EVENT_EMERGENCY_BUTTON_PRESS :: int where "EVENT_EMERGENCY_BUTTON_PRESS \<equiv> 5"
abbreviation (input) EVENT_MANUAL_MODE :: int where "EVENT_MANUAL_MODE \<equiv> 7"
abbreviation (input) EVENT_RETURN_BUTTON_PRESS :: int where "EVENT_RETURN_BUTTON_PRESS \<equiv> 8"
abbreviation (input) EVENT_TMS_SIGNAL :: int where "EVENT_TMS_SIGNAL \<equiv> 9"
abbreviation (input) EVENT_TMS_SIGNAL_OVER :: int where "EVENT_TMS_SIGNAL_OVER \<equiv> 10"
abbreviation (input) EVENT_PTT_OR_DRIVER_CALL :: int where "EVENT_PTT_OR_DRIVER_CALL \<equiv> 12"
abbreviation (input) EVENT_PTT_RELEASE_AND_DRIVER_RELEASE :: int where
  "EVENT_PTT_RELEASE_AND_DRIVER_RELEASE \<equiv> 13"
abbreviation (input) EVENT_CONFIRM_PCU_CALL :: int where "EVENT_CONFIRM_PCU_CALL \<equiv> 14"
abbreviation (input) EVENT_CONFIRM_RELEASE_PCU :: int where "EVENT_CONFIRM_RELEASE_PCU \<equiv> 15"
abbreviation (input) EVENT_TIME_OUT :: int where "EVENT_TIME_OUT \<equiv> 16"
abbreviation (input) EVENT_TRANSFER_TO_D2D_OR_DRIVER_CALL :: int where
  "EVENT_TRANSFER_TO_D2D_OR_DRIVER_CALL \<equiv> 17"
abbreviation (input) EVENT_CONFIRM_TRANSFER_TO_D2P :: int where "EVENT_CONFIRM_TRANSFER_TO_D2P \<equiv> 18"
abbreviation (input) EVENT_MAX :: int where "EVENT_MAX \<equiv> 19"

section \<open>Rules\<close>

datatype sp_ptr = NullPtr | WildPtr | At sproc

record state_machine_rule =
  psrc_state :: sp_ptr
  dest_state :: sp_ptr
  trigger_event :: int
  is_empty :: int

record rule_slot =
  xrule :: state_machine_rule
  rule_enable :: bool

type_synonym rule_table = "rule_slot list"

abbreviation (input) RECORD_OF_RULES :: nat where "RECORD_OF_RULES \<equiv> 50"

definition BCURuleInit :: rule_table where
  "BCURuleInit = replicate RECORD_OF_RULES
     \<lparr>xrule = \<lparr>psrc_state = NullPtr, dest_state = NullPtr, trigger_event = 0, is_empty = 1\<rparr>,
      rule_enable = False\<rparr>"

text \<open>The rule goes to the first slot marked empty; without one nothing happens.\<close>

fun BCUAddRule :: "state_machine_rule \<Rightarrow> rule_table \<Rightarrow> rule_table" where
  "BCUAddRule r [] = []"
| "BCUAddRule r (s # ss) =
     (if is_empty (xrule s) = 1 then \<lparr>xrule = r\<lparr>is_empty := 0\<rparr>, rule_enable = True\<rparr> # ss
      else s # BCUAddRule r ss)"

text \<open>
  The scan that removing, disabling and enabling share: \<open>f\<close> is applied to the first slot in
  use whose rule agrees with \<open>r\<close> in both states and the trigger.
\<close>

fun on_rule :: "(rule_slot \<Rightarrow> rule_slot) \<Rightarrow> state_machine_rule \<Rightarrow> rule_table \<Rightarrow> rule_table option" where
  "on_rule f r [] = Some []"
| "on_rule f r (s # ss) =
     (if is_empty (xrule s) = 0
      then (case (psrc_state (xrule s), psrc_state r) of
              (At p, At p') \<Rightarrow>
                if state_id p = state_id p'
                then (case (dest_state (xrule s), dest_state r) of
                        (At q, At q') \<Rightarrow>
                          if state_id q = state_id q' \<and> trigger_event (xrule s) = trigger_event r
                          then Some (f s # ss)
                          else map_option ((#) s) (on_rule f r ss)
                      | _ \<Rightarrow> None)
                else map_option ((#) s) (on_rule f r ss)
            | _ \<Rightarrow> None)
      else map_option ((#) s) (on_rule f r ss))"

text \<open>\<open>memset(&xrule, '0', sizeof(xrule))\<close> and then \<open>is_empty = 0\<close>.\<close>

definition wiped_rule :: state_machine_rule where
  "wiped_rule = \<lparr>psrc_state = WildPtr, dest_state = WildPtr, trigger_event = 0x30303030, is_empty = 0\<rparr>"

definition BCURemoveRule :: "state_machine_rule \<Rightarrow> rule_table \<Rightarrow> rule_table option" where
  "BCURemoveRule = on_rule (\<lambda>s. \<lparr>xrule = wiped_rule, rule_enable = False\<rparr>)"

definition BCUDisableRule :: "state_machine_rule \<Rightarrow> rule_table \<Rightarrow> rule_table option" where
  "BCUDisableRule = on_rule (\<lambda>s. s\<lparr>rule_enable := False\<rparr>)"

definition BCUEnableRule :: "state_machine_rule \<Rightarrow> rule_table \<Rightarrow> rule_table option" where
  "BCUEnableRule = on_rule (\<lambda>s. s\<lparr>rule_enable := True\<rparr>)"

text \<open>\<open>RuleSet\<close> leaves \<open>is_empty\<close> unset; adding the rule sets it.\<close>

definition RuleSet :: "int \<Rightarrow> sproc \<Rightarrow> sproc \<Rightarrow> int \<Rightarrow> state_machine_rule" where
  "RuleSet junk src_state dst_state trigger =
     \<lparr>psrc_state = At src_state, dest_state = At dst_state, trigger_event = trigger, is_empty = junk\<rparr>"

definition BCURuleTableInit :: "int \<Rightarrow> rule_table" where
  "BCURuleTableInit junk = seq
     [BCUAddRule (RuleSet junk IdleIntercom D2DIntercom EVENT_PTT_OR_DRIVER_CALL),
      BCUAddRule (RuleSet junk IdleIntercom D2PIntercom EVENT_CONFIRM_PCU_CALL),
      BCUAddRule (RuleSet junk D2DIntercom IdleIntercom EVENT_PTT_RELEASE_AND_DRIVER_RELEASE),
      BCUAddRule (RuleSet junk D2PIntercom IdleIntercom EVENT_CONFIRM_RELEASE_PCU),
      BCUAddRule (RuleSet junk D2PIntercom IntercomHangUp EVENT_TRANSFER_TO_D2D_OR_DRIVER_CALL),
      BCUAddRule (RuleSet junk IntercomHangUp D2DIntercom EVENT_TIME_OUT),
      BCUAddRule (RuleSet junk IntercomHangUp D2PIntercom EVENT_CONFIRM_TRANSFER_TO_D2P)]
     BCURuleInit"

section \<open>Exchanging the state\<close>

text \<open>The first enabled rule for the current state and the trigger, if any.\<close>

fun find_rule :: "rule_table \<Rightarrow> nat \<Rightarrow> int \<Rightarrow> sproc option option" where
  "find_rule [] i t = Some None"
| "find_rule (s # ss) i t =
     (if rule_enable s
      then (case psrc_state (xrule s) of
              At p \<Rightarrow> if i = state_id p \<and> t = trigger_event (xrule s)
                then (case dest_state (xrule s) of At q \<Rightarrow> Some (Some q) | _ \<Rightarrow> None)
                else find_rule ss i t
            | _ \<Rightarrow> None)
      else find_rule ss i t)"

text \<open>The statements that change the state; \<open>junk\<close> is uninitialised memory of an \<open>exit\<close>.\<close>

definition intercom_change :: "send_info \<Rightarrow> sproc \<Rightarrow> bcu \<times> send_info \<Rightarrow> bcu \<times> send_info" where
  "intercom_change junk q bs =
     (let b1 = sp_exit junk (bcu_active_intercom_state (fst bs)) (fst bs);
          b2 = call (ThreadDelay 10) (b1\<lparr>bcu_active_intercom_state := q\<rparr>)
      in sp_enter q (b2, snd bs))"

definition StateMachineExchange :: "send_info \<Rightarrow> rule_table \<Rightarrow> int \<Rightarrow> bcu \<times> send_info
    \<Rightarrow> (bcu \<times> send_info) option" where
  "StateMachineExchange junk rules trigger_signal bs =
     (case find_rule rules (state_id (bcu_active_intercom_state (fst bs))) trigger_signal of
        None \<Rightarrow> None
      | Some None \<Rightarrow> Some bs
      | Some (Some q) \<Rightarrow> Some (intercom_change junk q bs))"

section \<open>What the table of the unit does\<close>

fun intercom_delta :: "sproc \<Rightarrow> int \<Rightarrow> sproc option" where
  "intercom_delta IdleIntercom t = (if t = EVENT_PTT_OR_DRIVER_CALL then Some D2DIntercom
     else if t = EVENT_CONFIRM_PCU_CALL then Some D2PIntercom else None)"
| "intercom_delta D2DIntercom t =
     (if t = EVENT_PTT_RELEASE_AND_DRIVER_RELEASE then Some IdleIntercom else None)"
| "intercom_delta D2PIntercom t = (if t = EVENT_CONFIRM_RELEASE_PCU then Some IdleIntercom
     else if t = EVENT_TRANSFER_TO_D2D_OR_DRIVER_CALL then Some IntercomHangUp else None)"
| "intercom_delta IntercomHangUp t = (if t = EVENT_TIME_OUT then Some D2DIntercom
     else if t = EVENT_CONFIRM_TRANSFER_TO_D2P then Some D2PIntercom else None)"
| "intercom_delta _ t = None"

lemma find_rule_disabled: "\<forall>s\<in>set ss. \<not> rule_enable s \<Longrightarrow> find_rule ss i t = Some None"
  by (induction ss) auto

lemma find_rule_skip: "\<forall>s\<in>set ss. \<not> rule_enable s \<Longrightarrow> find_rule (ss @ ts) i t = find_rule ts i t"
  by (induction ss) auto

lemma init_table:
  "BCURuleTableInit junk =
     map (\<lambda>(p, q, t). \<lparr>xrule = \<lparr>psrc_state = At p, dest_state = At q, trigger_event = t, is_empty = 0\<rparr>,
        rule_enable = True\<rparr>)
      [(IdleIntercom, D2DIntercom, 12), (IdleIntercom, D2PIntercom, 14), (D2DIntercom, IdleIntercom, 13),
       (D2PIntercom, IdleIntercom, 15), (D2PIntercom, IntercomHangUp, 17),
       (IntercomHangUp, D2DIntercom, 16), (IntercomHangUp, D2PIntercom, 18)]
     @ drop 7 BCURuleInit"
proof -
  let ?e = "\<lparr>xrule = \<lparr>psrc_state = NullPtr, dest_state = NullPtr, trigger_event = 0, is_empty = 1\<rparr>,
    rule_enable = False\<rparr>"
  define ss where "ss = drop 7 BCURuleInit"
  have "ss = replicate 43 ?e" by (simp add: BCURuleInit_def ss_def)
  moreover have "BCURuleInit = replicate 7 ?e @ replicate 43 ?e"
    by (simp add: BCURuleInit_def flip: replicate_add)
  ultimately have "BCURuleInit = replicate 7 ?e @ ss" by metis
  then have e: "BCURuleInit = ?e # ?e # ?e # ?e # ?e # ?e # ?e # ss" by (simp add: numeral_eq_Suc)
  show ?thesis
    unfolding BCURuleTableInit_def RuleSet_def ss_def [symmetric] by (simp add: e)
qed

lemma find_rule_init: "find_rule (BCURuleTableInit junk) (state_id p) t = Some (intercom_delta p t)"
proof -
  have "\<forall>s\<in>set (drop 7 BCURuleInit). \<not> rule_enable s"
    by (auto simp: BCURuleInit_def dest!: in_set_dropD)
  then have "find_rule (drop 7 BCURuleInit) i t = Some None" for i t by (rule find_rule_disabled)
  then show ?thesis unfolding init_table by (cases p) auto
qed

lemma intercom_change_ctl:
  "ctl_of (fst (intercom_change junk q (b, s))) =
     ctl_enter q ((ctl_exit (bcu_active_intercom_state b) (ctl_of b))\<lparr>c_intercom := q\<rparr>)"
  by (simp add: intercom_change_def Let_def sp_enter_ctl sp_exit_ctl ctl_simps)

lemma on_rule_app:
  assumes "\<forall>s\<in>set ss. is_empty (xrule s) = 0 \<longrightarrow> (\<exists>p q. psrc_state (xrule s) = At p \<and> dest_state (xrule s) = At q
      \<and> (p, q, trigger_event (xrule s)) \<noteq> (p0, q0, t))"
    and "psrc_state r = At p0" and "dest_state r = At q0" and "trigger_event r = t"
  shows "on_rule f r (ss @ ts) = map_option ((@) ss) (on_rule f r ts)"
  using assms(1)
proof (induction ss)
  case Nil
  then show ?case by (simp add: option.map_ident)
next
  case (Cons s ss)
  then have IH: "on_rule f r (ss @ ts) = map_option ((@) ss) (on_rule f r ts)" by simp
  have map: "map_option ((#) s) (map_option ((@) ss) x) = map_option ((@) (s # ss)) x" for x :: "rule_table option"
    by (cases x) auto
  show ?case
  proof (cases "is_empty (xrule s) = 0")
    case True
    then obtain p q where "psrc_state (xrule s) = At p" "dest_state (xrule s) = At q"
        "(p, q, trigger_event (xrule s)) \<noteq> (p0, q0, t)" using Cons.prems by auto
    with True have "on_rule f r ((s # ss) @ ts) = map_option ((#) s) (on_rule f r (ss @ ts))"
      using assms(2,3,4) by auto
    then show ?thesis by (simp only: IH map)
  next
    case False
    then have "on_rule f r ((s # ss) @ ts) = map_option ((#) s) (on_rule f r (ss @ ts))" by simp
    then show ?thesis by (simp only: IH map)
  qed
qed

text \<open>A table whose slots in use hold valid and pairwise different rules, as the initial one.\<close>

definition rule_key :: "rule_slot \<Rightarrow> sp_ptr \<times> sp_ptr \<times> int" where
  "rule_key s = (psrc_state (xrule s), dest_state (xrule s), trigger_event (xrule s))"

definition rules_wf :: "rule_table \<Rightarrow> bool" where
  "rules_wf ss \<longleftrightarrow> (\<forall>s\<in>set ss. (is_empty (xrule s) = 0 \<longrightarrow> (\<exists>p q t. rule_key s = (At p, At q, t)))
       \<and> (rule_enable s \<longrightarrow> is_empty (xrule s) = 0))
     \<and> distinct (map rule_key (filter (\<lambda>s. is_empty (xrule s) = 0) ss))"

lemma rules_wf_Cons:
  "rules_wf (s # ss) \<longleftrightarrow> (is_empty (xrule s) = 0 \<longrightarrow> (\<exists>p q t. rule_key s = (At p, At q, t)))
     \<and> (rule_enable s \<longrightarrow> is_empty (xrule s) = 0)
     \<and> (is_empty (xrule s) = 0 \<longrightarrow> (\<forall>s'\<in>set ss. is_empty (xrule s') = 0 \<longrightarrow> rule_key s' \<noteq> rule_key s))
     \<and> rules_wf ss"
  by (auto simp: rules_wf_def image_iff)

text \<open>The operation reaches the slot of the rule, or does nothing when the rule is not there.\<close>

lemma on_rule_wf:
  assumes "rules_wf ss" and "rule_key \<lparr>xrule = r, rule_enable = e\<rparr> = (At p, At q, t)"
  shows "on_rule f r ss =
    Some (map (\<lambda>s. if is_empty (xrule s) = 0 \<and> rule_key s = (At p, At q, t) then f s else s) ss)"
  using assms(1)
proof (induction ss)
  case (Cons s ss)
  then have IH: "on_rule f r ss =
      Some (map (\<lambda>s. if is_empty (xrule s) = 0 \<and> rule_key s = (At p, At q, t) then f s else s) ss)"
    by (simp add: rules_wf_Cons)
  have r: "psrc_state r = At p" "dest_state r = At q" "trigger_event r = t"
    using assms(2) by (simp_all add: rule_key_def)
  show ?case
  proof (cases "is_empty (xrule s) = 0 \<and> rule_key s = (At p, At q, t)")
    case True
    then have "\<forall>s'\<in>set ss. \<not> (is_empty (xrule s') = 0 \<and> rule_key s' = (At p, At q, t))"
      using Cons.prems by (simp add: rules_wf_Cons)
    then have "map (\<lambda>s. if is_empty (xrule s) = 0 \<and> rule_key s = (At p, At q, t) then f s else s) ss = ss"
      by (intro map_idI) auto
    with True show ?thesis by (simp add: r rule_key_def)
  next
    case False
    then show ?thesis
      using Cons.prems IH by (auto simp: r rule_key_def rules_wf_Cons)
  qed
qed simp

lemma rules_wf_init: "rules_wf (BCURuleTableInit junk)"
proof -
  have "filter (\<lambda>s. is_empty (xrule s) = 0) (drop 7 BCURuleInit) = []"
    by (auto simp: filter_empty_conv BCURuleInit_def dest!: in_set_dropD)
  moreover have "\<forall>s\<in>set (drop 7 BCURuleInit). is_empty (xrule s) = 1 \<and> \<not> rule_enable s"
    by (auto simp: BCURuleInit_def dest!: in_set_dropD)
  ultimately show ?thesis
    unfolding init_table rules_wf_def by (auto simp: rule_key_def)
qed

section \<open>Properties\<close>

text \<open>C8: the table that the unit installs moves the intercom machine exactly by the seven
  transitions of \<open>intercom_delta\<close>: for every state and trigger \<open>StateMachineExchange\<close> runs
  \<open>exit\<close>, the change and \<open>enter\<close> of the one rule that fits, and otherwise nothing; it never
  reads a bad pointer, and an announcement state has no rule at all.\<close>

theorem intercom_table_spec:
  "StateMachineExchange junk (BCURuleTableInit z) t (b, s) =
     Some (case intercom_delta (bcu_active_intercom_state b) t of
             None \<Rightarrow> (b, s)
           | Some q \<Rightarrow> intercom_change junk q (b, s))
   \<and> (intercom_delta (bcu_active_intercom_state b) t = Some q \<longrightarrow>
        ctl_of (fst (the (StateMachineExchange junk (BCURuleTableInit z) t (b, s)))) =
          ctl_enter q ((ctl_exit (bcu_active_intercom_state b) (ctl_of b))\<lparr>c_intercom := q\<rparr>))"
  by (simp add: StateMachineExchange_def find_rule_init intercom_change_ctl split: option.split)

theorem intercom_table_spec_witness:
  "c_intercom (ctl_of (fst (the (StateMachineExchange send_info_zero (BCURuleTableInit 7)
     EVENT_PTT_OR_DRIVER_CALL (bcu_rest, intercom_cmd D2D_INTERCOMM_EVENT [1, 0, 0, 0, 0, 0]))))) = D2DIntercom"
proof -
  have idle: "bcu_active_intercom_state bcu_rest = IdleIntercom" by (simp add: bcu_rest_def)
  show ?thesis
    using intercom_table_spec [of send_info_zero 7 12 bcu_rest
        "intercom_cmd D2D_INTERCOMM_EVENT [1, 0, 0, 0, 0, 0]" D2DIntercom, THEN conjunct2]
    by (simp add: idle)
qed

text \<open>Disabling a rule of a well-formed table switches off just that transition, and
  enabling it again restores the table; a rule that is not there changes nothing.\<close>

lemma rule_disable_enable:
  assumes "rules_wf ss"
  shows "\<exists>ss'. BCUDisableRule (RuleSet z p q t) ss = Some ss' \<and> rules_wf ss'
    \<and> (\<forall>s\<in>set ss'. rule_enable s \<longrightarrow> rule_key s \<noteq> (At p, At q, t))
    \<and> map rule_key ss' = map rule_key ss
    \<and> ((\<forall>s\<in>set ss. rule_key s = (At p, At q, t) \<longrightarrow> rule_enable s) \<longrightarrow>
        BCUEnableRule (RuleSet z p q t) ss' = Some ss)"
proof -
  define dis where "dis = (\<lambda>s. if is_empty (xrule s) = 0 \<and> rule_key s = (At p, At q, t)
    then s\<lparr>rule_enable := False\<rparr> else s)"
  define en where "en = (\<lambda>s. if is_empty (xrule s) = 0 \<and> rule_key s = (At p, At q, t)
    then s\<lparr>rule_enable := True\<rparr> else s)"
  have key: "rule_key (dis s) = rule_key s" "is_empty (xrule (dis s)) = is_empty (xrule s)"
    "rule_enable (dis s) \<longleftrightarrow> rule_enable s \<and> \<not> (is_empty (xrule s) = 0 \<and> rule_key s = (At p, At q, t))"
    for s by (simp_all add: rule_key_def dis_def)
  have r: "rule_key \<lparr>xrule = RuleSet z p q t, rule_enable = True\<rparr> = (At p, At q, t)"
    by (simp add: rule_key_def RuleSet_def)
  have d: "BCUDisableRule (RuleSet z p q t) ss = Some (map dis ss)"
    using on_rule_wf [OF assms r] by (simp add: BCUDisableRule_def dis_def)
  have wf: "rules_wf (map dis ss)"
    using assms by (auto simp: rules_wf_def filter_map comp_def key)
  have "BCUEnableRule (RuleSet z p q t) (map dis ss) = Some (map en (map dis ss))"
    using on_rule_wf [OF wf r] by (simp only: BCUEnableRule_def en_def)
  moreover have "map en (map dis ss) = ss" if "\<forall>s\<in>set ss. rule_key s = (At p, At q, t) \<longrightarrow> rule_enable s"
    using that by (simp, intro map_idI) (auto simp: rule_key_def en_def dis_def)
  moreover have "\<forall>s\<in>set (map dis ss). rule_enable s \<longrightarrow> rule_key s \<noteq> (At p, At q, t)"
    using assms by (auto simp: rules_wf_def key)
  moreover have "map rule_key (map dis ss) = map rule_key ss" by (simp add: key)
  ultimately show ?thesis using d wf by auto
qed

text \<open>Removing a rule leaves its slot marked as in use with wild pointers: the slot is never
  used again for a new rule, and the next removing, disabling or enabling of a rule that stands
  behind it (or nowhere) reads through a wild pointer.\<close>

lemma rule_remove_breaks:
  assumes "rules_wf (ss @ s # ts)" and "is_empty (xrule s) = 0" and "rule_key s = (At p, At q, t)"
    and "(At p', At q', t') \<notin> rule_key ` set (filter (\<lambda>s. is_empty (xrule s) = 0) ss)"
  shows "\<exists>tbl. BCURemoveRule (RuleSet z p q t) (ss @ s # ts) = Some tbl
    \<and> length (filter (\<lambda>s. is_empty (xrule s) = 1) tbl) = length (filter (\<lambda>s. is_empty (xrule s) = 1) (ss @ s # ts))
    \<and> BCURemoveRule (RuleSet z p' q' t') tbl = None \<and> BCUDisableRule (RuleSet z p' q' t') tbl = None
    \<and> BCUEnableRule (RuleSet z p' q' t') tbl = None"
proof -
  let ?w = "\<lparr>xrule = wiped_rule, rule_enable = False\<rparr>"
  have other: "\<forall>s'\<in>set (ss @ ts). \<not> (is_empty (xrule s') = 0 \<and> rule_key s' = (At p, At q, t))"
  proof -
    have "(At p, At q, t) \<notin> rule_key ` set (filter (\<lambda>s. is_empty (xrule s) = 0) (ss @ ts))"
      using assms(1,2,3) by (simp add: rules_wf_def image_Un)
    then show ?thesis by (metis (mono_tags, lifting) filter_set image_eqI mem_Collect_eq set_filter)
  qed
  let ?wipe = "\<lambda>s'. if is_empty (xrule s') = 0 \<and> rule_key s' = (At p, At q, t) then ?w else s'"
  have ids: "map ?wipe ss = ss" "map ?wipe ts = ts" using other by (auto intro!: map_idI)
  have "BCURemoveRule (RuleSet z p q t) (ss @ s # ts) = Some (map ?wipe (ss @ s # ts))"
    using on_rule_wf [OF assms(1), of "RuleSet z p q t" True p q t "\<lambda>_. ?w"]
    by (simp add: BCURemoveRule_def rule_key_def RuleSet_def)
  then have rem: "BCURemoveRule (RuleSet z p q t) (ss @ s # ts) = Some (ss @ ?w # ts)"
    using assms(2,3) ids by simp
  have skip: "on_rule f (RuleSet z p' q' t') (ss @ ?w # ts) = map_option ((@) ss) (on_rule f (RuleSet z p' q' t') (?w # ts))"
    for f
  proof (rule on_rule_app)
    show "\<forall>s\<in>set ss. is_empty (xrule s) = 0 \<longrightarrow> (\<exists>p q. psrc_state (xrule s) = At p \<and> dest_state (xrule s) = At q
        \<and> (p, q, trigger_event (xrule s)) \<noteq> (p', q', t'))"
    proof (intro ballI impI)
      fix s' assume s': "s' \<in> set ss" "is_empty (xrule s') = 0"
      then obtain p1 q1 t1 where k: "rule_key s' = (At p1, At q1, t1)"
        using assms(1) by (auto simp: rules_wf_def)
      moreover have "rule_key s' \<in> rule_key ` set (filter (\<lambda>s. is_empty (xrule s) = 0) ss)" using s' by simp
      ultimately have "(p1, q1, t1) \<noteq> (p', q', t')" using assms(4) by auto
      with k show "\<exists>p q. psrc_state (xrule s') = At p \<and> dest_state (xrule s') = At q
          \<and> (p, q, trigger_event (xrule s')) \<noteq> (p', q', t')"
        by (simp add: rule_key_def)
    qed
  qed (simp_all add: RuleSet_def)
  have "on_rule f (RuleSet z p' q' t') (?w # ts) = None" for f
    by (simp add: wiped_rule_def)
  with skip rem assms(2) show ?thesis
    by (simp add: BCURemoveRule_def BCUDisableRule_def BCUEnableRule_def wiped_rule_def)
qed

end
