(* ===== verification/Ext_Button.thy ===== *)
theory Ext_Button
  imports Bcu_Prelude
begin

text \<open>
  The external buttons of \<open>bcu_extern_button.cxx\<close>: one scan of the pins counts, for every
  button, in how many scans in a row it was read as pressed (up to 100), and the enquiries turn
  a count of at least 2 into one event per press. The pins are read through the board's
  library, whose answers are the arguments of a scan; \<open>read_cc_key\<close> has no return statement,
  so its answer is an arbitrary argument as well.
\<close>

section \<open>State and scan\<close>

record buttons =
  ppt_state_flag :: byte
  pa_state_flag :: byte
  pc_state_flag :: byte
  cc_state_flag :: byte
  mr_state_flag :: byte
  out_3d5_state_flag :: byte
  whether_live_button_is_pressed :: byte
  whether_monitor_button_is_pressed :: byte
  whether_d2p_button_is_pressed :: byte
  whether_d2d_button_is_pressed :: byte

record readings =
  rd_ptt :: int
  rd_key_1 :: int
  rd_key_2 :: int
  rd_cc :: int
  rd_key_4 :: int
  rd_hd :: int

definition press_count :: "bool \<Rightarrow> byte \<Rightarrow> byte" where
  "press_count pressed c = (if pressed then (if c \<ge> 100 then 100 else c + 1) else 0)"

definition GetPAAllOuterButtonState :: "readings \<Rightarrow> buttons \<Rightarrow> buttons" where
  "GetPAAllOuterButtonState r b =
     b\<lparr>pa_state_flag := press_count (rd_key_1 r = 0) (pa_state_flag b),
       pc_state_flag := press_count (rd_key_2 r = 0) (pc_state_flag b),
       cc_state_flag := press_count (rd_cc r = 0) (cc_state_flag b),
       mr_state_flag := press_count (rd_key_4 r = 0) (mr_state_flag b),
       out_3d5_state_flag := press_count (rd_hd r = 1) (out_3d5_state_flag b)\<rparr>"

text \<open>The audio thread's scan reads the push-to-talk pin too.\<close>

definition GetPAAllOuterButtonState2 :: "readings \<Rightarrow> buttons \<Rightarrow> buttons" where
  "GetPAAllOuterButtonState2 r b =
     (b\<lparr>ppt_state_flag := press_count (rd_ptt r = 0) (ppt_state_flag b),
        pa_state_flag := press_count (rd_key_1 r = 0) (pa_state_flag b),
        pc_state_flag := press_count (rd_key_2 r = 0) (pc_state_flag b),
        cc_state_flag := press_count (rd_cc r = 0) (cc_state_flag b),
        mr_state_flag := press_count (rd_key_4 r = 0) (mr_state_flag b),
        out_3d5_state_flag := press_count (rd_hd r = 1) (out_3d5_state_flag b)\<rparr>)"

section \<open>Enquiries\<close>

definition GetLiveExternButtonState :: "buttons \<Rightarrow> int \<times> buttons" where
  "GetLiveExternButtonState b =
     (if pa_state_flag b \<ge> 2 \<and> whether_live_button_is_pressed b = 0
      then (1, b\<lparr>whether_live_button_is_pressed := 1\<rparr>)
      else if pa_state_flag b < 2 \<and> whether_live_button_is_pressed b = 1
      then (0, b\<lparr>whether_live_button_is_pressed := 0\<rparr>)
      else (3, b))"

definition GetMRExternButtonState :: "buttons \<Rightarrow> int \<times> buttons" where
  "GetMRExternButtonState b =
     (if mr_state_flag b \<ge> 2 \<and> whether_monitor_button_is_pressed b = 0
      then (1, b\<lparr>whether_monitor_button_is_pressed := 1\<rparr>)
      else if mr_state_flag b < 2 \<and> whether_monitor_button_is_pressed b = 1
      then (0, b\<lparr>whether_monitor_button_is_pressed := 0\<rparr>)
      else (0, b))"

definition GetD2PExternButtonState :: "buttons \<Rightarrow> int \<times> buttons" where
  "GetD2PExternButtonState b =
     (if pc_state_flag b \<ge> 2 \<and> whether_d2p_button_is_pressed b = 0
      then (1, b\<lparr>whether_d2p_button_is_pressed := 1\<rparr>)
      else if pc_state_flag b < 2 \<and> whether_d2p_button_is_pressed b = 1
      then (0, b\<lparr>whether_d2p_button_is_pressed := 0\<rparr>)
      else (0, b))"

definition GetD2DExternButtonState :: "buttons \<Rightarrow> int \<times> buttons" where
  "GetD2DExternButtonState b =
     (if cc_state_flag b \<ge> 2 \<and> whether_d2d_button_is_pressed b = 0
      then (1, b\<lparr>whether_d2d_button_is_pressed := 1\<rparr>)
      else if cc_state_flag b < 2 \<and> whether_d2d_button_is_pressed b = 1
      then (0, b\<lparr>whether_d2d_button_is_pressed := 0\<rparr>)
      else (0, b))"

definition GetPTTState :: "buttons \<Rightarrow> int" where
  "GetPTTState b = (if ppt_state_flag b \<ge> 2 then 1 else 0)"

section \<open>Histories\<close>

text \<open>What the threads do to the buttons: scans of either thread, and the enquiries.\<close>

datatype button_op = Scan readings | Scan2 readings | PollLive | PollMR | PollD2P | PollD2D

text \<open>A step answers the operation's result, \<open>None\<close> for a scan.\<close>

fun button_step :: "button_op \<Rightarrow> buttons \<Rightarrow> int option \<times> buttons" where
  "button_step (Scan r) b = (None, GetPAAllOuterButtonState r b)"
| "button_step (Scan2 r) b = (None, GetPAAllOuterButtonState2 r b)"
| "button_step PollLive b = map_prod Some id (GetLiveExternButtonState b)"
| "button_step PollMR b = map_prod Some id (GetMRExternButtonState b)"
| "button_step PollD2P b = map_prod Some id (GetD2PExternButtonState b)"
| "button_step PollD2D b = map_prod Some id (GetD2DExternButtonState b)"

definition button_run :: "button_op list \<Rightarrow> buttons \<Rightarrow> buttons" where
  "button_run ops b = fold (\<lambda>op b. snd (button_step op b)) ops b"

text \<open>The events that the live enquiry reports along a history.\<close>

fun live_events :: "button_op list \<Rightarrow> buttons \<Rightarrow> int list" where
  "live_events [] b = []"
| "live_events (op # ops) b =
     (case button_step op b of
        (Some r, b') \<Rightarrow> if op = PollLive \<and> r \<noteq> 3 then r # live_events ops b' else live_events ops b'
      | (None, b') \<Rightarrow> live_events ops b')"

text \<open>Alternating events, the next one being \<open>x\<close>.\<close>

fun alternates :: "int \<Rightarrow> int list \<Rightarrow> bool" where
  "alternates x [] = True"
| "alternates x (y # ys) = (y = x \<and> alternates (1 - x) ys)"

text \<open>How many scans in a row have just read the button behind a key as pressed.\<close>

fun presses :: "(readings \<Rightarrow> bool) \<Rightarrow> button_op list \<Rightarrow> nat" where
  "presses f [] = 0"
| "presses f (Scan r # ops) = (if f r then Suc (presses f ops) else 0)"
| "presses f (Scan2 r # ops) = (if f r then Suc (presses f ops) else 0)"
| "presses f (op # ops) = presses f ops"

definition buttons_zero :: buttons where
  "buttons_zero = \<lparr>ppt_state_flag = 0, pa_state_flag = 0, pc_state_flag = 0, cc_state_flag = 0,
     mr_state_flag = 0, out_3d5_state_flag = 0, whether_live_button_is_pressed = 0,
     whether_monitor_button_is_pressed = 0, whether_d2p_button_is_pressed = 0,
     whether_d2d_button_is_pressed = 0\<rparr>"

lemmas poll_defs = GetLiveExternButtonState_def GetMRExternButtonState_def
  GetD2PExternButtonState_def GetD2DExternButtonState_def

lemmas scan_defs = GetPAAllOuterButtonState_def GetPAAllOuterButtonState2_def

lemma button_run_snoc: "button_run (ops @ [op]) b = snd (button_step op (button_run ops b))"
  by (simp add: button_run_def)

text \<open>The counter of a button is the number of presses in a row, up to 100.\<close>

lemma press_count_min:
  "c = word_of_nat (min 100 n) \<Longrightarrow> press_count p c = word_of_nat (min 100 (if p then Suc n else 0))"
proof (cases "n < 100")
  case True
  assume c: "c = word_of_nat (min 100 n)"
  have "(100 :: byte) \<le> word_of_nat n \<longleftrightarrow> False"
    using True by (simp add: word_le_nat_alt unsigned_of_nat take_bit_nat_eq_self)
  with True c show ?thesis by (simp add: press_count_def)
qed (simp add: press_count_def)

lemma counters_spec:
  "pa_state_flag (button_run ops buttons_zero) = word_of_nat (min 100 (presses (\<lambda>r. rd_key_1 r = 0) (rev ops)))"
  "pc_state_flag (button_run ops buttons_zero) = word_of_nat (min 100 (presses (\<lambda>r. rd_key_2 r = 0) (rev ops)))"
proof (induction ops rule: rev_induct)
  case Nil
  { case 1 show ?case by (simp add: button_run_def buttons_zero_def) }
  { case 2 show ?case by (simp add: button_run_def buttons_zero_def) }
next
  case (snoc op ops)
  { case 1 show ?case
      using snoc press_count_min [OF snoc(1)]
      by (cases op) (auto simp: button_run_snoc scan_defs poll_defs) }
  { case 2 show ?case
      using snoc press_count_min [OF snoc(2)]
      by (cases op) (auto simp: button_run_snoc scan_defs poll_defs) }
qed

lemma counter_ge_2: "2 \<le> (word_of_nat (min 100 n) :: byte) \<longleftrightarrow> 2 \<le> n"
  by (simp add: word_le_nat_alt unsigned_of_nat take_bit_nat_eq_self)

section \<open>Properties\<close>

text \<open>C19: along every history of scans and enquiries the live enquiry reports presses and
  releases strictly in turn, beginning with a press when the button counts as released.\<close>

theorem live_button_alternates:
  assumes "whether_live_button_is_pressed b \<in> {0, 1}"
  shows "alternates (1 - uint (whether_live_button_is_pressed b)) (live_events ops b)"
  using assms
proof (induction ops arbitrary: b)
  case (Cons op ops)
  have "alternates (1 - uint (whether_live_button_is_pressed (snd (button_step op b))))
      (live_events ops (snd (button_step op b)))"
    using Cons.prems
    by (intro Cons.IH) (cases op; auto simp: scan_defs poll_defs)
  then show ?case
    using Cons.prems by (cases op) (auto simp: scan_defs poll_defs)
qed simp

text \<open>The enquiries are debounced: in every history from power-up a press of the live or the
  passenger button is reported only after at least two scans in a row have read it as pressed,
  and as soon as an enquiry follows two such scans while the button counts as released.\<close>

lemma button_debounce:
  shows "(fst (GetLiveExternButtonState (button_run ops buttons_zero)) = 1 \<longleftrightarrow>
      2 \<le> presses (\<lambda>r. rd_key_1 r = 0) (rev ops)
      \<and> whether_live_button_is_pressed (button_run ops buttons_zero) = 0)
    \<and> (fst (GetD2PExternButtonState (button_run ops buttons_zero)) = 1 \<longleftrightarrow>
      2 \<le> presses (\<lambda>r. rd_key_2 r = 0) (rev ops)
      \<and> whether_d2p_button_is_pressed (button_run ops buttons_zero) = 0)
    \<and> fst (GetD2PExternButtonState (snd (GetD2PExternButtonState (button_run ops buttons_zero)))) = 0"
  using counter_ge_2 [of "presses (\<lambda>r. rd_key_1 r = 0) (rev ops)"]
    counter_ge_2 [of "presses (\<lambda>r. rd_key_2 r = 0) (rev ops)"]
  by (auto simp: poll_defs counters_spec)

theorem live_button_alternates_witness:
  "alternates 1 (live_events [Scan \<lparr>rd_ptt = 1, rd_key_1 = 0, rd_key_2 = 1, rd_cc = 1, rd_key_4 = 1, rd_hd = 0\<rparr>,
      PollLive] buttons_zero)"
  using live_button_alternates [of buttons_zero "[Scan \<lparr>rd_ptt = 1, rd_key_1 = 0, rd_key_2 = 1,
      rd_cc = 1, rd_key_4 = 1, rd_hd = 0\<rparr>, PollLive]"]
  by (simp add: buttons_zero_def)

end
