(* ===== verification/Pcu_Requests.thy ===== *)
theory Pcu_Requests
  imports Bcu_Prelude
begin

text \<open>
  The table of pending passenger requests that the main loop keeps
  (\<open>pcu_request_info_without_ts\<close> and \<open>request_number\<close>, \<open>bcu_main.cxx\<close>): for each of the 12
  passenger units the position of its request, 0 for none. Both are bytes. Accesses outside
  the array have no result.
\<close>

section \<open>Operations\<close>

abbreviation (input) PCU_SLOTS :: nat where "PCU_SLOTS \<equiv> 12"

text \<open>A request from unit \<open>src\<close>: it gets the next position.\<close>

definition pcu_request :: "nat \<Rightarrow> byte \<times> byte list \<Rightarrow> (byte \<times> byte list) option" where
  "pcu_request src nt =
     (let (n, t) = nt in
      if 1 \<le> src \<and> src - 1 < length t then Some (n + 1, t[src - 1 := n + 1]) else None)"

text \<open>The end of a request: every position counts down.\<close>

definition pcu_count_down :: "byte list \<Rightarrow> byte list" where
  "pcu_count_down t = map (\<lambda>x. if x \<noteq> 0 then x - 1 else x) t"

definition pcu_release :: "nat \<Rightarrow> string \<Rightarrow> byte \<times> byte list \<Rightarrow> ((byte \<times> byte list) \<times> bool) option" where
  "pcu_release src name nt =
     (let (n, t) = nt in
      if n > 0
      then (if 1 \<le> src \<and> src - 1 < length t
            then (if t ! (src - 1) \<noteq> 0 \<and> name \<noteq> ''BCU''
                  then Some ((n - 1, pcu_count_down t), True) else Some ((n, t), False))
            else None)
      else Some ((n, t), False))"

text \<open>The search of \<open>PCHandle\<close> for the unit whose position is 1; 0 when there is none.\<close>

fun pcu_find_first :: "nat \<Rightarrow> byte list \<Rightarrow> nat" where
  "pcu_find_first i [] = 0"
| "pcu_find_first i (x # xs) = (if x = 1 then i + 1 else pcu_find_first (i + 1) xs)"

definition pcu_first :: "byte list \<Rightarrow> nat" where
  "pcu_first t = pcu_find_first 0 t"

section \<open>The queue it should be\<close>

fun pos :: "nat list \<Rightarrow> nat \<Rightarrow> nat" where
  "pos [] p = 0"
| "pos (x # xs) p = (if x = p then 1 else if pos xs p = 0 then 0 else Suc (pos xs p))"

definition represents :: "byte \<times> byte list \<Rightarrow> nat list \<Rightarrow> bool" where
  "represents nt q \<longleftrightarrow> distinct q \<and> set q \<subseteq> {1..PCU_SLOTS} \<and> fst nt = word_of_nat (length q)
     \<and> snd nt = map (\<lambda>i. word_of_nat (pos q (Suc i))) [0..<PCU_SLOTS]"

lemma pos_0: "pos q p = 0 \<longleftrightarrow> p \<notin> set q"
  by (induction q) auto

lemma pos_le: "pos q p \<le> length q"
  by (induction q) auto

lemma pos_snoc: "p \<notin> set q \<Longrightarrow> pos (q @ [p]) r = (if r = p then Suc (length q) else pos q r)"
  by (induction q) (auto simp: pos_0)

lemma pos_tl: "distinct (x # q) \<Longrightarrow> pos q r = (if pos (x # q) r = 0 then 0 else pos (x # q) r - 1)"
  by (auto simp: pos_0)

lemma queue_length: "distinct q \<Longrightarrow> set q \<subseteq> {1..n} \<Longrightarrow> length q \<le> n"
  using card_mono [of "{1..n}" "set q"] by (simp add: distinct_card)

lemma slot_nth: "z \<in> {1..n} \<Longrightarrow> map (\<lambda>i. f (Suc i)) [0..<n] ! (z - 1) = f z"
  by (cases z) (simp_all add: nth_map_upt)

lemma small_byte [simp]: "m < 256 \<Longrightarrow> n < 256 \<Longrightarrow> (word_of_nat m = (word_of_nat n :: byte)) \<longleftrightarrow> m = n"
  by (auto simp: word_of_nat_eq_iff take_bit_nat_eq_self)

lemma small_byte_0: "m < 256 \<Longrightarrow> (word_of_nat m = (0 :: byte)) \<longleftrightarrow> m = 0"
  using small_byte [of m 0] by simp

lemma represents_add:
  assumes "represents (n, t) q" and "p \<in> {1..PCU_SLOTS}" and "p \<notin> set q"
  shows "\<exists>nt'. pcu_request p (n, t) = Some nt' \<and> represents nt' (q @ [p])"
proof -
  have t: "t = map (\<lambda>i. word_of_nat (pos q (Suc i))) [0..<PCU_SLOTS]" and n: "n = word_of_nat (length q)"
    and q: "distinct q" "set q \<subseteq> {1..PCU_SLOTS}"
    using assms(1) by (simp_all add: represents_def)
  have "t[p - 1 := n + 1] = map (\<lambda>i. word_of_nat (pos (q @ [p]) (Suc i))) [0..<PCU_SLOTS]"
  proof (rule nth_equalityI)
    fix i assume "i < length (t[p - 1 := n + 1])"
    then have i: "i < PCU_SLOTS" by (simp add: t)
    then show "t[p - 1 := n + 1] ! i = map (\<lambda>i. word_of_nat (pos (q @ [p]) (Suc i))) [0..<PCU_SLOTS] ! i"
      using assms(2) n by (cases "i = p - 1") (auto simp: t pos_snoc [OF assms(3)] nth_list_update)
  qed (simp add: t)
  moreover have "length t = PCU_SLOTS" by (simp add: t)
  ultimately show ?thesis
    using assms(2,3) q n by (auto simp: pcu_request_def represents_def)
qed

lemma represents_tl:
  assumes "represents (n, t) (x # q)"
  shows "represents (n - 1, pcu_count_down t) q"
proof -
  have t: "t = map (\<lambda>i. word_of_nat (pos (x # q) (Suc i))) [0..<PCU_SLOTS]"
    and n: "n = word_of_nat (length (x # q))"
    and q: "distinct (x # q)" "set (x # q) \<subseteq> {1..PCU_SLOTS}"
    using assms by (auto simp: represents_def)
  have small: "pos (x # q) r < 256" for r
    using pos_le [of "x # q" r] queue_length [OF q] by simp
  have step: "(if w = 0 then w else w - 1) = word_of_nat (pos q r)"
    if "w = (word_of_nat (pos (x # q) r) :: byte)" for w r
  proof (cases "pos (x # q) r")
    case (Suc m)
    then have "w \<noteq> 0" "w = word_of_nat m + 1" "pos q r = m"
      using that small_byte_0 [OF small [of r]] pos_tl [OF q(1), of r] by (simp_all del: pos.simps)
    then show ?thesis by simp
  qed (use that pos_tl [OF q(1), of r] in \<open>simp del: pos.simps\<close>)
  then have "pcu_count_down t = map (\<lambda>i. word_of_nat (pos q (Suc i))) [0..<PCU_SLOTS]"
  proof (intro nth_equalityI)
    fix i assume "i < length (pcu_count_down t)"
    then have "i < PCU_SLOTS" by (simp add: t pcu_count_down_def)
    then show "pcu_count_down t ! i = map (\<lambda>i. word_of_nat (pos q (Suc i))) [0..<PCU_SLOTS] ! i"
      using step [of _ "Suc i", OF refl] by (auto simp: t pcu_count_down_def simp del: pos.simps)
  qed (simp add: t pcu_count_down_def)
  then show ?thesis using n q by (simp add: represents_def)
qed

lemma find_first:
  assumes "\<forall>i<length xs. xs ! i = 1 \<longleftrightarrow> i = k" and "k < length xs"
  shows "pcu_find_first j xs = j + k + 1"
  using assms
proof (induction xs arbitrary: j k)
  case (Cons x xs)
  show ?case
  proof (cases k)
    case 0
    then have "x = 1" using Cons.prems(1) by auto
    with 0 show ?thesis by simp
  next
    case (Suc k')
    then have "x \<noteq> 1" using Cons.prems(1) by fastforce
    moreover have "\<forall>i<length xs. xs ! i = 1 \<longleftrightarrow> i = k'"
    proof (intro allI impI)
      fix i assume "i < length xs"
      then show "xs ! i = 1 \<longleftrightarrow> i = k'" using Cons.prems(1)[rule_format, of "Suc i"] Suc by simp
    qed
    ultimately show ?thesis using Cons.IH [of k' "Suc j"] Cons.prems(2) Suc by simp
  qed
qed simp

lemma pcu_first_hd:
  assumes "represents (n, t) (x # q)"
  shows "pcu_first t = x"
proof -
  have t: "t = map (\<lambda>i. word_of_nat (pos (x # q) (Suc i))) [0..<PCU_SLOTS]"
    and q: "distinct (x # q)" "set (x # q) \<subseteq> {1..PCU_SLOTS}"
    using assms by (auto simp: represents_def)
  have small: "pos (x # q) r < 256" for r
    using pos_le [of "x # q" r] queue_length [OF q] by simp
  have "\<forall>i<length t. t ! i = 1 \<longleftrightarrow> i = x - 1"
  proof (intro allI impI)
    fix i assume "i < length t"
    then have "t ! i = word_of_nat (pos (x # q) (Suc i))" by (simp add: t del: pos.simps)
    then have "t ! i = 1 \<longleftrightarrow> pos (x # q) (Suc i) = 1"
      using small_byte [OF small, of 1 "Suc i"] by simp
    also have "\<dots> \<longleftrightarrow> i = x - 1" using q by (auto simp: pos_0)
    finally show "t ! i = 1 \<longleftrightarrow> i = x - 1" .
  qed
  then have "pcu_find_first 0 t = 0 + (x - 1) + 1" using q by (intro find_first) (auto simp: t)
  then show ?thesis using q by (simp add: pcu_first_def)
qed

lemma represents_release:
  assumes "represents (n, t) (x # q)" and "y \<in> set (x # q)" and "name \<noteq> ''BCU''"
  shows "\<exists>nt'. pcu_release y name (n, t) = Some (nt', True) \<and> represents nt' q"
proof -
  have t: "t = map (\<lambda>i. word_of_nat (pos (x # q) (Suc i))) [0..<PCU_SLOTS]"
    and n: "n = word_of_nat (length (x # q))"
    and q: "distinct (x # q)" "set (x # q) \<subseteq> {1..PCU_SLOTS}"
    using assms by (auto simp: represents_def)
  have small: "pos (x # q) r < 256" "length (x # q) < 256" for r
    using pos_le [of "x # q" r] queue_length [OF q] by simp_all
  have y: "1 \<le> y" "y \<le> PCU_SLOTS" using q(2) assms(2) by auto
  then have "t ! (y - 1) = word_of_nat (pos (x # q) y)"
    using slot_nth [of y PCU_SLOTS "\<lambda>z. word_of_nat (pos (x # q) z)"] by (simp add: t del: pos.simps)
  then have "t ! (y - 1) \<noteq> 0" using small_byte_0 [OF small(1)] pos_0 assms(2) by metis
  moreover have "n > 0" using small_byte_0 [OF small(2)] n by (simp add: word_gt_0)
  moreover have "length t = PCU_SLOTS" by (simp add: t)
  ultimately show ?thesis
    using y assms(3) represents_tl [OF assms(1)] by (auto simp: pcu_release_def)
qed

section \<open>Properties\<close>

text \<open>C17: while the table represents a queue, a new request joins its end, the unit with
  position 1 is its head, and a release by the head removes the head.\<close>

theorem pcu_queue_fifo:
  assumes "represents (n, t) q"
  shows "(p \<in> {1..PCU_SLOTS} \<and> p \<notin> set q \<longrightarrow>
      (\<exists>nt'. pcu_request p (n, t) = Some nt' \<and> represents nt' (q @ [p])))
    \<and> (q \<noteq> [] \<longrightarrow> pcu_first t = hd q)
    \<and> (q \<noteq> [] \<and> name \<noteq> ''BCU'' \<longrightarrow>
      (\<exists>nt'. pcu_release (hd q) name (n, t) = Some (nt', True) \<and> represents nt' (tl q)))"
  using represents_add [OF assms, of p] assms pcu_first_hd [of n t "hd q" "tl q"]
    represents_release [of n t "hd q" "tl q" "hd q" name]
  by (cases q) auto

theorem pcu_queue_fifo_witness:
  "\<exists>nt'. pcu_request 3 (0, replicate 12 0) = Some nt' \<and> represents nt' [3]"
proof -
  have "represents (0, replicate 12 0) []" by code_simp
  from pcu_queue_fifo [OF this, of 3] show ?thesis by simp
qed

text \<open>A release by any other pending unit removes the head too: the oldest request is
  forgotten, and the unit that was released stays pending.\<close>

lemma pcu_release_drops_oldest:
  assumes "represents (n, t) (x # q)" and "y \<in> set q" and "name \<noteq> ''BCU''"
  shows "\<exists>n' t'. pcu_release y name (n, t) = Some ((n', t'), True) \<and> represents (n', t') q
    \<and> t ! (x - 1) = 1 \<and> t' ! (x - 1) = 0 \<and> t' ! (y - 1) \<noteq> 0"
proof -
  obtain n' t' where r: "pcu_release y name (n, t) = Some ((n', t'), True)" "represents (n', t') q"
    using represents_release [OF assms(1), of y name] assms(2,3) by auto
  have q: "distinct (x # q)" "set (x # q) \<subseteq> {1..PCU_SLOTS}" using assms(1) by (auto simp: represents_def)
  have t': "t' ! (z - 1) = word_of_nat (pos q z)" if "z \<in> {1..PCU_SLOTS}" for z
    using r(2) slot_nth [OF that, of "\<lambda>z. word_of_nat (pos q z)"] by (simp add: represents_def)
  have t: "t ! (x - 1) = word_of_nat (pos (x # q) x)"
    using assms(1) q slot_nth [of x PCU_SLOTS "\<lambda>z. word_of_nat (pos (x # q) z)"] by (simp add: represents_def)
  have "pos q y < 256" using pos_le [of q y] queue_length [OF q] by simp
  then have "t' ! (y - 1) \<noteq> 0" using t' [of y] q assms(2) small_byte_0 pos_0 by auto
  moreover have "t' ! (x - 1) = 0" using t' [of x] q pos_0 [of q x] by simp
  ultimately show ?thesis using r t by simp
qed

end
