(* ===== verification/Control_Unit.thy ===== *)
theory Control_Unit
  imports Ann_Priority Intercom_Rules Ext_Button Pcu_Requests
begin

text \<open>
  The control thread of the broadcast control unit: the handlers through which buttons, the
  network, the touch screen, the coupled train (CMU) and timers move the two state machines
  (\<open>bcu_function.cxx\<close>), and the body of the main loop of \<open>SystemControl\<close> (\<open>bcu_main.cxx\<close>).

  \<open>junk\<close> is the content of the uninitialised structs on a handler's stack; every theorem
  holds for each value of it. A handler has no result (\<open>None\<close>) when it reads a bad pointer of
  the rule table. \<open>UpdataGlobalDeviceInfo\<close> runs \<open>UpdateGlobalInfo\<close>, which is empty.
\<close>

section \<open>State\<close>

record cunit =
  u_bcu :: bcu
  u_rules :: rule_table
  u_prio :: "prio_node list"
  u_btn :: buttons
  this_bcu_is_active :: nat
  tcms_live_ann_state :: nat
  this_bcu_outer_3d5_button_state :: nat
  d2p_button_state :: nat
  mr_button_state :: nat
  whether_d2d_hangup_d2p_timeout :: nat
  pcu_request_info_without_ts :: "byte list"
  pcu_is_connecting_without_ts :: nat
  touch_queue :: "send_info list"
  touch_capacity :: nat

definition on_unit :: "(bcu \<Rightarrow> bcu) \<Rightarrow> cunit \<Rightarrow> cunit" where
  "on_unit f u = u\<lparr>u_bcu := f (u_bcu u)\<rparr>"

abbreviation (input) ann_id :: "cunit \<Rightarrow> nat" where
  "ann_id u \<equiv> state_id (bcu_active_ann_state (u_bcu u))"

abbreviation (input) intercom_id :: "cunit \<Rightarrow> nat" where
  "intercom_id u \<equiv> state_id (bcu_active_intercom_state (u_bcu u))"

text \<open>\<open>StateMachineExchange\<close> with a package of the caller's stack.\<close>

definition exchange :: "send_info \<Rightarrow> int \<Rightarrow> send_info \<Rightarrow> cunit \<Rightarrow> cunit option" where
  "exchange junk t s u =
     (case StateMachineExchange junk (u_rules u) t (u_bcu u, s) of
        None \<Rightarrow> None
      | Some (b, _) \<Rightarrow> Some (u\<lparr>u_bcu := b\<rparr>))"

text \<open>A command written to the control thread's own queue.\<close>

definition to_touch :: "send_info \<Rightarrow> cunit \<Rightarrow> cunit" where
  "to_touch s u =
     (if length (touch_queue u) < touch_capacity u then u\<lparr>touch_queue := touch_queue u @ [s]\<rparr> else u)"

text \<open>\<open>BCUStateInit\<close>.\<close>

definition BCUStateInit :: "bcu \<Rightarrow> bcu" where
  "BCUStateInit b =
     b\<lparr>current_state_ann := ANN_IDLE, current_state_intercom := INTERCOM_IDLE,
       bcu_active_ann_state := IdleAnn, bcu_active_intercom_state := IdleIntercom,
       mic_owner := NONE, other_bcu_ptt_state := 0\<rparr>"

section \<open>Leaving an intercom\<close>

definition set_types :: "nat \<Rightarrow> nat \<Rightarrow> send_info \<Rightarrow> send_info" where
  "set_types ann intercom s = s\<lparr>si_type_ann := ann, si_type_intercom := intercom\<rparr>"

definition set_src :: "bcu \<Rightarrow> send_info \<Rightarrow> send_info" where
  "set_src b s = s\<lparr>si_src_no := of_nat (devices_no b), si_src_name := devices_name b\<rparr>"

definition d2d_over_package :: "send_info \<Rightarrow> bcu \<Rightarrow> send_info" where
  "d2d_over_package junk b = seq
     [set_src b, set_types ANN_IDLE D2D_INTERCOMM_EVENT, set_intercom 0 0, set_intercom 1 0,
      set_intercom 4 0, set_intercom 3 (of_nat (opposite_bcu_no b))] junk"

definition d2d_bk_d2p_package :: "bcu \<Rightarrow> send_info" where
  "d2d_bk_d2p_package b = seq
     [set_types ANN_IDLE D2P_INTERCOMM_EVENT, set_intercom 0 1, set_intercom 2 0,
      set_intercom 4 (of_nat (devices_no b)), set_intercom 5 (of_nat (recept_pcu_no b)),
      set_intercom 1 1, set_intercom 3 0, set_src b]
     (send_info_zero\<lparr>si_type_ann := 0, si_type_intercom := 0\<rparr>)"

text \<open>Back to the passenger intercom that the driver's intercom had interrupted.\<close>

definition back_to_d2p :: "send_info \<Rightarrow> cunit \<Rightarrow> cunit option" where
  "back_to_d2p junk u =
     map_option (on_unit (\<lambda>b. call (ScreenSwitch 31) (b\<lparr>current_is_being_d2d := 0\<rparr>)))
       (exchange junk EVENT_CONFIRM_TRANSFER_TO_D2P (d2d_bk_d2p_package (u_bcu u)) u)"

text \<open>The branches that end an intercom by state, common to the handlers below.\<close>

definition finish_d2d :: "send_info \<Rightarrow> cunit \<Rightarrow> cunit option" where
  "finish_d2d junk u =
     (if intercom_id u = D2D_HANGUP_D2P_EVENT then back_to_d2p junk u
      else if intercom_id u = D2D_INTERCOMM_EVENT
      then exchange junk EVENT_PTT_RELEASE_AND_DRIVER_RELEASE (d2d_over_package junk (u_bcu u)) u
      else Some u)"

definition JudgeWhetherD2DHaveFinished :: "send_info \<Rightarrow> cunit \<Rightarrow> cunit option" where
  "JudgeWhetherD2DHaveFinished junk u =
     (if intercom_id u = D2D_INTERCOMM_EVENT \<or> intercom_id u = D2D_HANGUP_D2P_EVENT
      then (let (r, btn) = GetD2PExternButtonState (u_btn u); u1 = u\<lparr>u_btn := btn\<rparr>
            in if r = 1 \<and> d2d_button_state (u_bcu u1) = 1 then finish_d2d junk u1 else Some u1)
      else Some u)"

definition ExitD2DAccordingToCMU :: "send_info \<Rightarrow> cunit \<Rightarrow> cunit option" where
  "ExitD2DAccordingToCMU junk u =
     (if intercom_id u = D2D_INTERCOMM_EVENT \<or> intercom_id u = D2D_HANGUP_D2P_EVENT
      then (if d2d_button_state (u_bcu u) = 1 \<and> bcu_mcu_connect_state (u_bcu u) = 1
            then finish_d2d junk u else Some u)
      else Some u)"

definition judgeWheteherExitD2DEnterD2P :: "send_info \<Rightarrow> cunit \<Rightarrow> cunit option" where
  "judgeWheteherExitD2DEnterD2P junk u =
     (if intercom_id u = D2D_HANGUP_D2P_EVENT then back_to_d2p junk u else Some u)"

definition NetFinishD2D :: "send_info \<Rightarrow> cunit \<Rightarrow> cunit option" where
  "NetFinishD2D junk u =
     (if intercom_id u = D2D_INTERCOMM_EVENT \<or> intercom_id u = D2D_HANGUP_D2P_EVENT
      then (if d2d_button_state (u_bcu u) \<noteq> 1 then Some u else finish_d2d junk u)
      else Some u)"

definition ForceBreakD2DToD2P :: "send_info \<Rightarrow> cunit \<Rightarrow> cunit option" where
  "ForceBreakD2DToD2P junk u =
     (if intercom_id u = D2D_HANGUP_D2P_EVENT
      then map_option (on_unit (\<lambda>b. b\<lparr>current_is_being_d2d := 0\<rparr>))
        (exchange junk EVENT_CONFIRM_TRANSFER_TO_D2P (d2d_bk_d2p_package (u_bcu u)) u)
      else if intercom_id u = D2D_INTERCOMM_EVENT
      then exchange junk EVENT_PTT_RELEASE_AND_DRIVER_RELEASE (d2d_over_package junk (u_bcu u)) u
      else Some u)"

text \<open>\<open>SetD2POverCMD\<close> is compiled out: the package stays uninitialised.\<close>

definition D2DHangUpD2PTimeOutHandle :: "send_info \<Rightarrow> cunit \<Rightarrow> cunit option" where
  "D2DHangUpD2PTimeOutHandle junk u =
     (if whether_d2d_hangup_d2p_timeout u = 1
      then exchange junk EVENT_TIME_OUT junk (u\<lparr>whether_d2d_hangup_d2p_timeout := 0\<rparr>)
      else Some u)"

section \<open>Entering an intercom\<close>

definition d2d_request_package :: "send_info \<Rightarrow> bcu \<Rightarrow> send_info" where
  "d2d_request_package junk b = seq
     [set_types ANN_IDLE D2D_INTERCOMM_EVENT, set_intercom 0 1, set_intercom 1 0, set_intercom 2 0,
      set_intercom 3 (of_nat (opposite_bcu_no b)), set_intercom 4 1]
     (junk\<lparr>si_src_name := ''BCU'', si_src_no := of_nat (devices_no b)\<rparr>)"

definition JudegWhetherRequestD2D :: "send_info \<Rightarrow> cunit \<Rightarrow> cunit" where
  "JudegWhetherRequestD2D junk u =
     (if intercom_id u = INTERCOM_IDLE
      then (let (r, btn) = GetD2PExternButtonState (u_btn u); u1 = u\<lparr>u_btn := btn\<rparr>
            in if r = 1 \<and> mic_owner (u_bcu u1) = NONE \<and> d2d_button_state (u_bcu u1) = 0
               then on_unit (\<lambda>b. SendCmd_copy ''BCU'' 2 (d2d_request_package junk b)
                      (b\<lparr>this_bcu_request := 1, bcu_requset_ocs_connecting := 1\<rparr>)) u1
               else u1)
      else u)"

definition SendD2DAccordingToCMU :: "send_info \<Rightarrow> cunit \<Rightarrow> cunit option" where
  "SendD2DAccordingToCMU junk u =
     (let u1 = on_unit (\<lambda>b. b\<lparr>this_bcu_request := 1\<rparr>) u
      in exchange junk EVENT_PTT_OR_DRIVER_CALL (d2d_request_package junk (u_bcu u)) u1)"

definition D2DReqAndResponseHandle :: "send_info \<Rightarrow> cunit \<Rightarrow> cunit option" where
  "D2DReqAndResponseHandle junk u =
     map_option (JudegWhetherRequestD2D junk) (JudgeWhetherD2DHaveFinished junk u)"

section \<open>Live announcements\<close>

definition live_package :: "byte \<Rightarrow> byte \<Rightarrow> send_info \<Rightarrow> bcu \<Rightarrow> send_info" where
  "live_package active begin_or_over junk b = seq
     [set_types 2 255, set_ann 0 active, set_ann 1 begin_or_over, set_ann 2 0]
     (junk\<lparr>si_src_name := ''BCU'', si_src_no := of_nat (devices_no b)\<rparr>)"

definition ExchangeToLiveWithoutTS :: "send_info \<Rightarrow> cunit \<Rightarrow> cunit" where
  "ExchangeToLiveWithoutTS junk =
     on_unit (\<lambda>b. fst (ann_change junk LiveAnn (b, live_package 1 1 junk b)))"

definition ExitFromLiveWithoutTS :: "send_info \<Rightarrow> cunit \<Rightarrow> cunit" where
  "ExitFromLiveWithoutTS junk =
     on_unit (\<lambda>b. fst (ann_change junk IdleAnn (b, live_package 0 0 junk b)))"

text \<open>The pins of the lamp are output.\<close>

definition PAHandle :: "send_info \<Rightarrow> cunit \<Rightarrow> cunit" where
  "PAHandle junk u =
     (if intercom_id u \<noteq> 255 then u
      else (let (pa, btn) = GetLiveExternButtonState (u_btn u); u1 = u\<lparr>u_btn := btn\<rparr> in
        if pa = 1
        then (let u2 = u1\<lparr>tcms_live_ann_state := 0\<rparr>
              in if live_button_state (u_bcu u2) = 0 then ExchangeToLiveWithoutTS junk u2 else u2)
        else if pa = 0
        then (let u2 = u1\<lparr>tcms_live_ann_state := 0\<rparr>
              in if live_button_state (u_bcu u2) = 1 then ExitFromLiveWithoutTS junk u2 else u2)
        else u1))"

definition ClosePA :: "send_info \<Rightarrow> cunit \<Rightarrow> cunit" where
  "ClosePA junk u = (if ann_id u \<noteq> 2 then u else ExitFromLiveWithoutTS junk u)"

definition MRHandle :: "cunit \<Rightarrow> cunit" where
  "MRHandle u =
     (let (r, btn) = GetMRExternButtonState (u_btn u); u1 = u\<lparr>u_btn := btn\<rparr> in
      if r = 1
      then (if mr_button_state u1 = 0
            then on_unit (call OpenMonitorSpeaker) (u1\<lparr>mr_button_state := 1\<rparr>)
            else on_unit (call CloseMonitorSpeaker) (u1\<lparr>mr_button_state := 0\<rparr>))
      else u1)"

section \<open>Outer 3.5 mm input and OCC\<close>

definition outer_3d5_package :: "byte \<Rightarrow> send_info \<Rightarrow> bcu \<Rightarrow> send_info" where
  "outer_3d5_package active junk b = seq
     [set_src b, set_types MIC_3D5_OUTER_EVENT INTERCOM_IDLE, set_ann 0 active, set_ann 1 0,
      set_ann 2 0] junk"

definition JudgeWhetherHaveOuter3D5Triger :: "send_info \<Rightarrow> cunit \<Rightarrow> cunit" where
  "JudgeWhetherHaveOuter3D5Triger junk u =
     (if ann_id u = OCC_EVENT then u
      else seq
        [(\<lambda>u. u\<lparr>this_bcu_outer_3d5_button_state := (if out_3d5_state_flag (u_btn u) \<ge> 2 then 1 else 0)\<rparr>),
         (\<lambda>u. if this_bcu_outer_3d5_button_state u = 1 \<and> ann_id u \<noteq> MIC_3D5_OUTER_EVENT
               \<and> mic_owner (u_bcu u) \<noteq> INTERCOM
             then to_touch (outer_3d5_package 1 junk (u_bcu u)) u else u),
         (\<lambda>u. if ann_id u = MIC_3D5_OUTER_EVENT \<and> this_bcu_outer_3d5_button_state u = 0
             then to_touch (outer_3d5_package 0 junk (u_bcu u)) u else u)] u)"

definition JudgeWhetherOCCTriger :: "send_info \<Rightarrow> send_info \<Rightarrow> cunit \<Rightarrow> cunit" where
  "JudgeWhetherOCCTriger junk s u =
     (if si_src_name s \<noteq> ''CCU'' then u
      else if si_type_ann s = OCC_EVENT
      then (let occ = seq [set_src (u_bcu u), set_types OCC_EVENT INTERCOM_IDLE,
                  set_ann 0 (if ann_active s = 1 then 1 else 0), set_ann 1 0, set_ann 2 0] junk;
                u1 = (if ann_active s = 1 then u
                      else if (ann_id u = MIC_3D5_OUTER_EVENT \<or> ann_id u = LIVE_ANN_EVENT)
                        \<and> intercom_id u = INTERCOM_IDLE
                      then on_unit (seq [CloseAudioSampleTimer, ClearAllAudioDataBuffer]) u
                      else u)
            in to_touch occ u1)
      else u)"

section \<open>Commands\<close>

text \<open>
  \<open>WhetherWantToExchangeState\<close>: an announcement command wants a change when it starts another
  state or ends the current one.
\<close>

definition want_ann :: "nat \<Rightarrow> cunit \<Rightarrow> send_info \<Rightarrow> int" where
  "want_ann event u s =
     (if ann_id u \<noteq> event then (if ann_active s = 0 then 0 else 1)
      else if ann_active s = 0 then 1 else 0)"

definition WhetherWantToExchangeState :: "cunit \<Rightarrow> send_info \<Rightarrow> int" where
  "WhetherWantToExchangeState u s =
     (let current_event = (if si_type_ann s \<noteq> ANN_IDLE then si_type_ann s
                           else if si_type_intercom s \<noteq> INTERCOM_IDLE then si_type_intercom s else 0) in
      if current_event \<in> {OCC_EVENT, LIVE_ANN_EVENT, MIC_3D5_OUTER_EVENT, EMERG_ANN_EVENT,
           MANUAL_ANN_EVENT, TMS_AUTO_ANN_EVENT}
      then want_ann current_event u s
      else if current_event = D2D_INTERCOMM_EVENT
      then (if intercom_id u \<noteq> D2D_INTERCOMM_EVENT \<and> intercom_id u \<noteq> D2D_HANGUP_D2P_EVENT then 1
            else if intercomm_active s = 0 then 1 else 0)
      else if current_event = D2P_INTERCOMM_EVENT
      then (let ret = (if intercom_id u \<noteq> D2P_INTERCOMM_EVENT then 1
                       else if intercomm_active s = 0 then 1 else 0)
            in if intercom_id u \<noteq> D2P_INTERCOMM_EVENT \<and> si_type_intercom s = D2P_INTERCOMM_EVENT
                 \<and> intercomm_active s = 0 then 0 else ret)
      else 0)"

text \<open>\<open>GetEventType\<close>: the announcement part, which may return at once (\<open>Inl\<close>) or set the signal.\<close>

definition ann_event_type :: "sproc \<Rightarrow> send_info \<Rightarrow> int + int" where
  "ann_event_type p s =
     (let event = si_type_ann s; active = (ann_active s = 1) in
      if event = ANN_IDLE then Inr 0
      else if event = OCC_EVENT then Inr (if active then EVENT_OCC_COMMAND else EVENT_OCC_RELEASE)
      else if event = LIVE_ANN_EVENT
      then Inl (if active then EVENT_LIVE_BUTTON_PRESS else EVENT_RETURN_BUTTON_PRESS)
      else if event = EMERG_ANN_EVENT
      then Inl (if active then EVENT_EMERGENCY_BUTTON_PRESS else EVENT_RETURN_BUTTON_PRESS)
      else if event = MANUAL_ANN_EVENT
      then Inr (if state_id p = ANN_IDLE
                then (if active then EVENT_MANUAL_MODE else EVENT_RETURN_BUTTON_PRESS)
                else if state_id p = TMS_AUTO_ANN_EVENT
                then (if manual_begin_or_over s = 0 then EVENT_TRANSFER_TO_MANUAL else EVENT_RETURN_BUTTON_PRESS)
                else if state_id p = MANUAL_ANN_EVENT
                then (if active then EVENT_MANUAL_MODE else EVENT_RETURN_BUTTON_PRESS)
                else 0)
      else if event = TMS_MANUAL_ANN_EVENT then Inr 100
      else if event = TMS_AUTO_ANN_EVENT then Inr (if active then EVENT_TMS_SIGNAL else EVENT_TMS_SIGNAL_OVER)
      else Inr EVENT_MAX)"

definition GetEventType :: "sproc \<Rightarrow> send_info \<Rightarrow> int" where
  "GetEventType p s =
     (case ann_event_type p s of
        Inl sig \<Rightarrow> sig
      | Inr sig \<Rightarrow>
          if si_type_intercom s \<noteq> INTERCOM_IDLE
          then (if si_type_intercom s = D2D_INTERCOMM_EVENT
                then (if state_id p = D2P_INTERCOMM_EVENT
                      then (if intercomm_active s = 1 then EVENT_TRANSFER_TO_D2D_OR_DRIVER_CALL
                            else EVENT_CONFIRM_TRANSFER_TO_D2P)
                      else (if intercomm_active s = 1 then EVENT_PTT_OR_DRIVER_CALL
                            else EVENT_CONFIRM_TRANSFER_TO_D2P))
                else if si_type_intercom s = D2P_INTERCOMM_EVENT
                then (if intercomm_active s = 1 then EVENT_CONFIRM_PCU_CALL else EVENT_CONFIRM_RELEASE_PCU)
                else EVENT_MAX)
          else sig)"

text \<open>The handlers of a command for either machine: the unit and the command as they leave it.\<close>

definition ANNStateHangle :: "send_info \<Rightarrow> cunit \<times> send_info \<Rightarrow> cunit \<times> send_info" where
  "ANNStateHangle junk us =
     (let (u, s) = us in
      if si_type_ann s \<noteq> ANN_IDLE
      then (if WhetherWantToExchangeState u s \<noteq> 0
            then (if si_type_ann s = LIVE_ANN_EVENT \<and> mic_owner (u_bcu u) \<noteq> NONE \<and> ann_active s = 1
                  then (u, s\<lparr>si_src_no := 0, si_src_name := ''''\<rparr>)
                  else (let ((b, s1), _) = BcuDynamicStateExchange junk (u_prio u) (u_bcu u, s)
                        in (u\<lparr>u_bcu := b\<rparr>, s1)))
            else (on_unit (\<lambda>b. b\<lparr>recv_cmd_info_of_ann := s\<rparr>) u, s))
      else (u, s))"

definition IntercomStateHangle :: "send_info \<Rightarrow> cunit \<times> send_info \<Rightarrow> (cunit \<times> send_info) option" where
  "IntercomStateHangle junk us =
     (let (u, s) = us in
      if si_type_intercom s \<noteq> INTERCOM_IDLE
      then (let u1 = (if si_type_intercom s = D2P_INTERCOMM_EVENT \<and> intercomm_active s = 1
                        \<and> intercomm_request_or_over s = 0
                      then on_unit (\<lambda>b. b\<lparr>recept_pcu_no := unat (d2p_intercomm_pcu_device_no s)\<rparr>) u
                      else u) in
        if ann_id u1 \<noteq> OCC_EVENT
        then (if WhetherWantToExchangeState u1 s \<noteq> 0
              then map_option (\<lambda>(b, s1). (u1\<lparr>u_bcu := b\<rparr>, s1))
                (StateMachineExchange junk (u_rules u1)
                  (GetEventType (bcu_active_intercom_state (u_bcu u1)) s) (u_bcu u1, s))
              else Some (on_unit (\<lambda>b. b\<lparr>recv_cmd_info_of_intercom := s\<rparr>) u1, s))
        else Some (on_unit (\<lambda>b. b\<lparr>recv_cmd_info_of_intercom :=
               (recv_cmd_info_of_intercom b)\<lparr>si_src_no := 0, si_src_name := ''''\<rparr>\<rparr>) u1, s))
      else Some (u, s))"

section \<open>Commands from the network\<close>

text \<open>
  \<open>JudgeWhetherHaveD2DRequest\<close>. Where it keeps the command it calls \<open>strcpy\<close> on the struct,
  which copies the bytes of its first member, a function pointer of the sender, up to the first
  zero byte: no modelled field changes.
\<close>

definition leave_live_for_d2d :: "send_info \<Rightarrow> cunit \<Rightarrow> cunit" where
  "leave_live_for_d2d junk u =
     (if (ann_id u = LIVE_ANN_EVENT \<or> ann_id u = MIC_3D5_OUTER_EVENT \<or> ann_id u = OCC_EVENT)
         \<and> intercom_id u \<noteq> D2P_INTERCOMM_EVENT
      then (if ann_id u = LIVE_ANN_EVENT
            then on_unit (\<lambda>b. fst (ann_change junk IdleAnn (b, live_package 0 0 junk b))) u else u)
      else u)"

definition JudgeWhetherHaveD2DRequest :: "send_info \<Rightarrow> send_info \<Rightarrow> cunit \<Rightarrow> cunit option" where
  "JudgeWhetherHaveD2DRequest junk s u =
     (if si_type_intercom s = D2D_INTERCOMM_EVENT \<and> intercomm_active s = 1
         \<and> intercomm_request_or_over s = 0 \<and> d2d_intercomm_response s = 0
      then (let u1 = leave_live_for_d2d junk u in
            if intercom_id u1 = D2P_INTERCOMM_EVENT
            then (if WhetherWantToExchangeState u1 s \<noteq> 0
                  then exchange junk EVENT_TRANSFER_TO_D2D_OR_DRIVER_CALL (set_intercom 2 1 s) u1
                  else Some u1)
            else (if WhetherWantToExchangeState u1 s \<noteq> 0
                  then exchange junk EVENT_PTT_OR_DRIVER_CALL (set_intercom 2 1 s) u1
                  else Some u1))
      else if si_type_intercom s = D2D_INTERCOMM_EVENT \<and> intercomm_active s = 0
      then (if intercom_id u = D2D_INTERCOMM_EVENT
            then NetFinishD2D junk (on_unit (\<lambda>b. b\<lparr>other_bcu_ptt_state := 0\<rparr>) u)
            else if intercom_id u = D2D_HANGUP_D2P_EVENT
            then judgeWheteherExitD2DEnterD2P junk (on_unit (\<lambda>b. b\<lparr>other_bcu_ptt_state := 0\<rparr>) u)
            else Some u)
      else Some u)"

text \<open>The reply to the coupled train: the command itself, from this unit, as a package of type 2.\<close>

definition cmu_reply :: "bcu \<Rightarrow> send_info \<Rightarrow> send_info" where
  "cmu_reply b s = s\<lparr>si_src_name := ''BCU'', si_src_no := of_nat (devices_no b), si_line_pkg_type := 2\<rparr>"

definition cmu_start_live :: "send_info \<Rightarrow> send_info \<Rightarrow> cunit \<Rightarrow> cunit" where
  "cmu_start_live junk s u =
     (if intercom_id u \<noteq> 255
      then on_unit (seq [(\<lambda>b. b\<lparr>bcu_mcu_connect_state := 0\<rparr>),
             try_cmd (si_src_name s, unat (si_src_no s), (cmu_reply (u_bcu u) s)\<lparr>si_line_cmd_type := 7\<rparr>)]) u
      else seq [on_unit (seq [(\<lambda>b. b\<lparr>bcu_mcu_connect_state := 1, bcu_have_the_initiative_of_cmu := 0\<rparr>),
                  SetAudioDataDestination ''CMU'' 232]),
             ExchangeToLiveWithoutTS junk,
             on_unit (try_cmd (si_src_name s, unat (si_src_no s), cmu_reply (u_bcu u) s))] u)"

definition BCUCMUCommunication :: "send_info \<Rightarrow> send_info \<Rightarrow> cunit \<Rightarrow> cunit option" where
  "BCUCMUCommunication junk s u =
     (let pkg = si_line_pkg_type s; cmd = si_line_cmd_type s;
        live_off = (\<lambda>u. bcu_mcu_connect_state (u_bcu u) = 1 \<and> ann_id u = LIVE_ANN_EVENT);
        u1 = (if this_bcu_is_active u \<noteq> 0 \<or> bcu_current_tcms_cmu_state (u_bcu u) = 1
              then (if pkg = 1 \<and> cmd = 1 then cmu_start_live junk s u
                    else if pkg = 0 \<and> cmd = 4
                    then (if live_off u
                          then ExitFromLiveWithoutTS junk
                            (on_unit (\<lambda>b. b\<lparr>bcu_mcu_connect_state := 0, bcu_have_the_initiative_of_cmu := 0\<rparr>) u)
                          else u)
                    else u)
              else u);
        u2 = (if pkg = 1 \<and> cmd = 3
              then (let v = (if live_off u1 then ExitFromLiveWithoutTS junk u1 else u1);
                        w = on_unit (try_cmd (si_src_name s, unat (si_src_no s), cmu_reply (u_bcu v) s)) v
                    in map_option (on_unit (seq [(\<lambda>b. b\<lparr>bcu_mcu_connect_state := 1,
                             bcu_have_the_initiative_of_cmu := 0\<rparr>), SetAudioDataDestination ''CMU'' 232]))
                         (SendD2DAccordingToCMU junk w))
              else Some u1)
      in case u2 of
           None \<Rightarrow> None
         | Some u3 \<Rightarrow>
             if pkg = 0 \<and> cmd = 6
             then map_option (on_unit (\<lambda>b. b\<lparr>bcu_mcu_connect_state := 0, bcu_have_the_initiative_of_cmu := 0\<rparr>))
               (ExitD2DAccordingToCMU junk u3)
             else Some u3)"

section \<open>The passenger button\<close>

text \<open>\<open>PCHandle\<close>: the button of the passenger intercom takes the oldest request, or ends it.\<close>

definition d2p_package :: "byte \<Rightarrow> byte \<Rightarrow> nat \<Rightarrow> send_info \<Rightarrow> bcu \<Rightarrow> send_info" where
  "d2p_package active request dst junk b = seq
     [set_types 254 D2P_INTERCOMM_EVENT, set_intercom 0 active, set_intercom 4 (of_nat (devices_no b)),
      set_intercom 5 (of_nat dst), set_intercom 1 request]
     (junk\<lparr>si_src_name := ''BCU'', si_src_no := of_nat (devices_no b)\<rparr>)"

text \<open>The statements that change the intercom state without the rule table.\<close>

definition intercom_jump :: "send_info \<Rightarrow> sproc \<Rightarrow> send_info \<Rightarrow> bcu \<Rightarrow> bcu" where
  "intercom_jump junk q s b =
     fst (sp_enter q ((sp_exit junk (bcu_active_intercom_state b) b)\<lparr>bcu_active_intercom_state := q\<rparr>, s))"

definition PCHandle :: "send_info \<Rightarrow> cunit \<Rightarrow> cunit" where
  "PCHandle junk u =
     (let dst_no = pcu_first (pcu_request_info_without_ts u) in
      if request_number (u_bcu u) = 0 then u
      else if dst_no = 0 \<or> dst_no > 12 then u
      else (let (r, btn) = GetD2PExternButtonState (u_btn u); u1 = u\<lparr>u_btn := btn\<rparr> in
        if r = 1
        then (if d2p_button_state u1 = 0
              then (if ann_id u1 = 2 \<and> intercom_id u1 = 255 \<or> ann_id u1 = 254 \<and> intercom_id u1 = 255
                    then (let u2 = (if ann_id u1 = 2 then ExitFromLiveWithoutTS junk u1 else u1)
                          in (on_unit (\<lambda>b. intercom_jump junk D2PIntercom
                                (d2p_package 1 0 dst_no junk b) (b\<lparr>recept_pcu_no := dst_no\<rparr>)) u2)
                             \<lparr>d2p_button_state := 1\<rparr>)
                    else u1)
              else if d2p_button_state u1 = 1
              then (on_unit (\<lambda>b. intercom_jump junk IdleIntercom
                      (d2p_package 0 1 dst_no junk b) (b\<lparr>recept_pcu_no := dst_no, refuse_pcu_no := dst_no\<rparr>)) u1)
                   \<lparr>d2p_button_state := 0\<rparr>
              else u1)
        else u1))"

section \<open>The main loop\<close>

text \<open>\<open>ReadOtherBCUPttState\<close> with the \<open>src_ptt\<close> of the package read, if there was one.\<close>

definition ReadOtherBCUPttState :: "nat option \<Rightarrow> cunit \<Rightarrow> cunit" where
  "ReadOtherBCUPttState pkg u =
     (case pkg of None \<Rightarrow> u | Some p \<Rightarrow> on_unit (\<lambda>b. b\<lparr>other_bcu_ptt_state := p\<rparr>) u)"

definition ClearProcessPackage :: "send_info \<Rightarrow> send_info" where
  "ClearProcessPackage s =
     (if si_src_no s = 0 \<and> si_src_name s = '''' then s
      else s\<lparr>si_src_no := 0, si_src_name := '''', si_type_ann := ANN_IDLE,
        si_type_intercom := INTERCOM_IDLE, si_ann := replicate (length (si_ann s)) 0,
        si_intercom := replicate (length (si_intercom s)) 0\<rparr>)"

definition SendNoPCUToCCU :: "send_info \<Rightarrow> bcu \<Rightarrow> bcu" where
  "SendNoPCUToCCU junk b =
     write_cmd 2 (''CCU'', MUL_DST_NO,
       set_types ANN_IDLE 57 (junk\<lparr>si_src_name := ''BCU'', si_src_no := of_nat (devices_no b)\<rparr>)) b"

text \<open>
  The bookkeeping of the passenger requests for one command (\<open>bcu_main.cxx\<close>); the tests of
  the command are those of the source, the accesses those of \<open>Pcu_Requests\<close>.
\<close>

definition pcu_bookkeeping :: "send_info \<Rightarrow> cunit \<Rightarrow> cunit option" where
  "pcu_bookkeeping s u =
     (let nt = (of_nat (request_number (u_bcu u)), pcu_request_info_without_ts u);
          store = (\<lambda>(n, t). (on_unit (\<lambda>b. b\<lparr>request_number := unat n\<rparr>) u)\<lparr>pcu_request_info_without_ts := t\<rparr>);
          src = unat (si_src_no s) in
      if si_type_intercom s \<noteq> D2P_INTERCOMM_EVENT then Some u
      else if intercomm_active s = 1 \<and> intercomm_request_or_over s = 1 \<and> si_intercom s ! 3 = 0
      then map_option store (pcu_request src nt)
      else if intercomm_active s = 1 \<and> intercomm_request_or_over s = 0 \<and> si_intercom s ! 3 = 1
        \<and> si_intercom s ! 4 \<noteq> of_nat (devices_no (u_bcu u))
      then Some ((on_unit BcuResetPlayAlarmAudioWhenD2pReq u)\<lparr>pcu_is_connecting_without_ts := 1\<rparr>)
      else if intercomm_active s = 0
      then map_option (\<lambda>(nt', released).
             if released then (store nt')\<lparr>pcu_is_connecting_without_ts := 0\<rparr> else u)
           (pcu_release src (si_src_name s) nt)
      else Some u)"

text \<open>What follows the bookkeeping when the number of requests was \<open>old\<close> before.\<close>

definition pcu_after :: "send_info \<Rightarrow> nat \<Rightarrow> bcu \<Rightarrow> bcu" where
  "pcu_after junk old b = seq
     [(\<lambda>b. if request_number b = 0 \<and> old > 0
          then seq [BcuResetPlayAlarmAudioWhenD2pReq, SendNoPCUToCCU junk] b else b),
      (\<lambda>b. if old \<noteq> request_number b then StartOrBrokeBroadcastPcuRequestAlarmAudioData b else b)] b"

text \<open>The key that makes this end of the train the active one; \<open>devices_no\<close> is 1 or 2.\<close>

definition pa_key :: "send_info \<Rightarrow> cunit \<Rightarrow> cunit" where
  "pa_key s u =
     (if si_type_ann s = 51 \<and> si_ann s ! 0 = 0
      then u\<lparr>this_bcu_is_active := unat (si_ann s ! (devices_no (u_bcu u) + 2))\<rparr> else u)"

text \<open>The live command of the train's own network only leaves a flag.\<close>

definition tms_live :: "send_info \<Rightarrow> cunit \<Rightarrow> cunit" where
  "tms_live s u =
     (if si_type_ann s = LIVE_ANN_EVENT
      then (if ann_active s = 1 \<and> ann_begin_or_over s = 1 then u\<lparr>tcms_live_ann_state := 2\<rparr>
            else if ann_active s = 1 \<and> ann_begin_or_over s = 0 then u\<lparr>tcms_live_ann_state := 1\<rparr>
            else u)
      else u)"

text \<open>
  One command from the network. A command from a passenger unit is overwritten with zeros
  before anything reads it, and one from a source number above 12 is dropped.
\<close>

definition zeroed :: "send_info \<Rightarrow> send_info" where
  "zeroed s = s\<lparr>si_src_name := '''', si_src_no := 0, si_type_ann := 0, si_type_intercom := 0,
     si_ann := replicate (length (si_ann s)) 0, si_intercom := replicate (length (si_intercom s)) 0,
     si_line_pkg_type := 0, si_line_cmd_type := 0, si_rest := replicate (length (si_rest s)) 0\<rparr>"

definition network_command :: "send_info \<Rightarrow> send_info \<Rightarrow> cunit \<Rightarrow> cunit option" where
  "network_command junk pkg u =
     (if unat (si_src_no pkg) > 12 then Some u
      else (let s = (if si_src_name pkg = ''PCU'' then zeroed pkg else pkg) in
        case (if take 3 (si_src_name s) = ''CMU'' then BCUCMUCommunication junk s u else Some u) of
          None \<Rightarrow> None
        | Some u1 \<Rightarrow>
            (case (if si_type_intercom s = D2D_INTERCOMM_EVENT
                   then JudgeWhetherHaveD2DRequest junk s u1 else Some u1) of
               None \<Rightarrow> None
             | Some u2 \<Rightarrow>
                 (let u3 = pa_key s u2; old = request_number (u_bcu u3) in
                  map_option (\<lambda>u4. on_unit (pcu_after junk old) (tms_live s u4))
                    (pcu_bookkeeping s u3)))))"

text \<open>The \<open>process\<close> functions of the current states on the last commands, which are then cleared.\<close>

definition run_processes :: "bcu \<Rightarrow> bcu" where
  "run_processes b =
     (let (b1, s1) = sp_process (bcu_active_ann_state b) (b, recv_cmd_info_of_ann b);
          b2 = b1\<lparr>recv_cmd_info_of_ann := ClearProcessPackage s1\<rparr>;
          (b3, s3) = sp_process (bcu_active_intercom_state b2) (b2, recv_cmd_info_of_intercom b2)
      in b3\<lparr>recv_cmd_info_of_intercom := ClearProcessPackage s3\<rparr>)"

text \<open>What one round of the loop finds: the pins, the packages waiting, the CMU's state.\<close>

record round_input =
  ri_pins :: readings
  ri_ptt :: "nat option"
  ri_cmu_state :: "nat option"
  ri_cmd :: "send_info option"
  ri_junk :: send_info

definition SystemControl_round :: "round_input \<Rightarrow> cunit \<Rightarrow> cunit option" where
  "SystemControl_round i u =
     (let junk = ri_junk i;
          u1 = u\<lparr>u_btn := GetPAAllOuterButtonState (ri_pins i) (u_btn u), this_bcu_is_active := 1\<rparr>;
          u2 = ReadOtherBCUPttState (ri_ptt i) (PAHandle junk u1) in
      case D2DHangUpD2PTimeOutHandle junk u2 of
        None \<Rightarrow> None
      | Some u3 \<Rightarrow>
          (case D2DReqAndResponseHandle junk u3 of
             None \<Rightarrow> None
           | Some u4 \<Rightarrow>
               (let u5 = (case ri_cmu_state i of None \<Rightarrow> u4
                          | Some c \<Rightarrow> on_unit (\<lambda>b. b\<lparr>bcu_current_tcms_cmu_state := c\<rparr>) u4) in
                map_option (on_unit run_processes)
                  (case ri_cmd i of None \<Rightarrow> Some u5 | Some s \<Rightarrow> network_command junk s u5))))"

definition SystemControl :: "round_input list \<Rightarrow> cunit \<Rightarrow> cunit option" where
  "SystemControl inputs u = fold (\<lambda>i r. Option.bind r (SystemControl_round i)) inputs (Some u)"

end
