(* ===== verification/Control_Safety.thy ===== *)
theory Control_Safety
  imports Control_Unit
begin

text \<open>
  The abstract machine of the control thread on the control view, the proof that the handlers
  and the main loop follow it, and the invariants of that machine: which states the unit can
  be in, and who owns the lamps and the microphone in them.
\<close>

section \<open>The abstract machine\<close>

definition ctl_ann :: "sproc \<Rightarrow> ctl \<Rightarrow> ctl" where
  "ctl_ann p c = ctl_enter p ((ctl_exit (c_ann c) c)\<lparr>c_ann := p\<rparr>)"

definition ctl_intercom :: "sproc \<Rightarrow> ctl \<Rightarrow> ctl" where
  "ctl_intercom q c = ctl_enter q ((ctl_exit (c_intercom c) c)\<lparr>c_intercom := q\<rparr>)"

text \<open>The moves of the main loop. The passenger call (trigger 14) is not among them.\<close>

inductive loop_step :: "ctl \<Rightarrow> ctl \<Rightarrow> bool" where
  live_on: "c_intercom c = IdleIntercom \<Longrightarrow> loop_step c (ctl_ann LiveAnn c)"
| live_off: "c_ann c = LiveAnn \<or> c_live c = 1 \<Longrightarrow> loop_step c (ctl_ann IdleAnn c)"
| rule: "intercom_delta (c_intercom c) t = Some q \<Longrightarrow> t \<in> {12, 13, 16, 17, 18} \<Longrightarrow> loop_step c (ctl_intercom q c)"
| audio: "loop_step c (c\<lparr>c_dst := d\<rparr>)"

text \<open>The moves that any handler can make, whatever its guards.\<close>

inductive unit_step :: "ctl \<Rightarrow> ctl \<Rightarrow> bool" where
  ann: "p \<in> ann_states \<Longrightarrow> unit_step c (ctl_ann p c)"
| intercom: "q \<in> intercom_states \<Longrightarrow> unit_step c (ctl_intercom q c)"
| other: "unit_step c (c\<lparr>c_dst := d, c_pcu := n\<rparr>)"

section \<open>Following the machine\<close>

text \<open>A handler's result \<open>r\<close> from \<open>u\<close> exists, is \<open>ok\<close>, and follows moves of \<open>step\<close>.\<close>

definition follows :: "('u \<Rightarrow> bool) \<Rightarrow> ('u \<Rightarrow> 'c) \<Rightarrow> ('c \<Rightarrow> 'c \<Rightarrow> bool) \<Rightarrow> 'u \<Rightarrow> 'u option \<Rightarrow> bool" where
  "follows ok view step u r \<longleftrightarrow> (\<exists>u'. r = Some u' \<and> ok u' \<and> step\<^sup>*\<^sup>* (view u) (view u'))"

locale machine =
  fixes ok :: "'u \<Rightarrow> bool" and view :: "'u \<Rightarrow> 'c" and step :: "'c \<Rightarrow> 'c \<Rightarrow> bool" and inv :: "'c \<Rightarrow> bool"
  assumes step_inv: "step c c' \<Longrightarrow> inv c \<Longrightarrow> inv c'"
begin

lemma stay: "ok u' \<Longrightarrow> view u' = view u \<Longrightarrow> follows ok view step u (Some u')"
  by (simp add: follows_def)

lemma one: "ok u' \<Longrightarrow> step (view u) (view u') \<Longrightarrow> follows ok view step u (Some u')"
  by (auto simp: follows_def)

lemma trans: "follows ok view step u (Some v) \<Longrightarrow> follows ok view step v r \<Longrightarrow> follows ok view step u r"
  by (auto simp: follows_def)

lemma bind: "follows ok view step u r \<Longrightarrow> (\<And>v. ok v \<Longrightarrow> follows ok view step v (f v)) \<Longrightarrow>
    follows ok view step u (case r of None \<Rightarrow> None | Some v \<Rightarrow> f v)"
  by (fastforce simp: follows_def)

lemma map: "follows ok view step u r \<Longrightarrow> (\<And>v. ok v \<Longrightarrow> follows ok view step v (Some (f v))) \<Longrightarrow>
    follows ok view step u (map_option f r)"
  by (fastforce simp: follows_def)

lemma steps_inv: "step\<^sup>*\<^sup>* c c' \<Longrightarrow> inv c \<Longrightarrow> inv c'"
  by (induction rule: rtranclp_induct) (auto intro: step_inv)

lemma keeps: "follows ok view step u r \<Longrightarrow> inv (view u) \<Longrightarrow> \<exists>u'. r = Some u' \<and> ok u' \<and> inv (view u')"
  by (auto simp: follows_def intro: steps_inv)

end

text \<open>The view, and what the handlers rely on: the initial rule table, twelve request slots.\<close>

definition uctl :: "cunit \<Rightarrow> ctl" where
  "uctl u = ctl_of (u_bcu u)"

definition unit_ok :: "cunit \<Rightarrow> bool" where
  "unit_ok u \<longleftrightarrow> (\<exists>z. u_rules u = BCURuleTableInit z) \<and> length (pcu_request_info_without_ts u) = PCU_SLOTS"

section \<open>Invariants\<close>

definition unit_inv :: "ctl \<Rightarrow> bool" where
  "unit_inv c \<longleftrightarrow> c_ann c \<in> ann_states \<and> c_intercom c \<in> intercom_states
     \<and> c_live c = (if c_ann c = LiveAnn then 1 else 0)
     \<and> c_d2d c = (if c_intercom c = D2DIntercom \<or> c_intercom c = IntercomHangUp then 1 else 0)"

definition loop_inv :: "ctl \<Rightarrow> bool" where
  "loop_inv c \<longleftrightarrow> unit_inv c \<and> c_ann c \<in> {IdleAnn, LiveAnn} \<and> c_intercom c \<in> {IdleIntercom, D2DIntercom}
     \<and> (c_intercom c = IdleIntercom \<longrightarrow> c_mic c = (if c_ann c = LiveAnn then ANNOUNCE else NONE))
     \<and> (c_intercom c = D2DIntercom \<longrightarrow> c_mic c \<in> {INTERCOM, NONE} \<and> (c_ann c = LiveAnn \<longrightarrow> c_mic c = INTERCOM))"

lemma in_ann_states [simp]: "LiveAnn \<in> ann_states" "IdleAnn \<in> ann_states"
  by (simp_all add: ann_states_def)

lemma ctl_ann_fields [simp]:
  "c_ann (ctl_ann p c) = p" "c_intercom (ctl_ann p c) = c_intercom c"
  by (simp_all add: ctl_ann_def)

lemma ctl_intercom_fields [simp]:
  "c_intercom (ctl_intercom p c) = p" "c_ann (ctl_intercom p c) = c_ann c"
  by (simp_all add: ctl_intercom_def)

lemma ann_not_intercom: "p \<in> ann_states \<Longrightarrow> p \<noteq> IdleIntercom \<and> p \<noteq> D2DIntercom \<and> p \<noteq> D2PIntercom \<and> p \<noteq> IntercomHangUp"
  by (auto simp: ann_states_def)

lemma intercom_not_ann: "p \<in> intercom_states \<Longrightarrow> p \<noteq> LiveAnn \<and> p \<noteq> Outer3D5Ann"
  by (auto simp: intercom_states_def)

lemma unit_inv_ann: "p \<in> ann_states \<Longrightarrow> unit_inv c \<Longrightarrow> unit_inv (ctl_ann p c)"
  using ann_not_intercom [of p] ann_not_intercom [of "c_ann c"]
  by (simp add: unit_inv_def ctl_ann_def)

lemma unit_inv_intercom: "q \<in> intercom_states \<Longrightarrow> unit_inv c \<Longrightarrow> unit_inv (ctl_intercom q c)"
  using intercom_not_ann [of q] intercom_not_ann [of "c_intercom c"]
  by (simp add: unit_inv_def ctl_intercom_def)

interpretation um: machine unit_ok uctl unit_step unit_inv
proof
  show "unit_inv c'" if "unit_step c c'" and "unit_inv c" for c c'
    using that
  proof cases
    case other
    then show ?thesis using that(2) by (simp add: unit_inv_def)
  qed (auto intro: unit_inv_ann unit_inv_intercom)
qed

lemma intercom_delta_states: "intercom_delta p t = Some q \<Longrightarrow> q \<in> intercom_states"
  by (cases p) (auto simp: intercom_states_def split: if_splits)

interpretation lm: machine unit_ok uctl loop_step loop_inv
proof
  show "loop_inv c'" if "loop_step c c'" and "loop_inv c" for c c'
    using that
  proof cases
    case live_on
    then show ?thesis
      using that(2) unit_inv_ann [of LiveAnn c] by (simp add: loop_inv_def) (simp add: ctl_ann_def)
  next
    case live_off
    then show ?thesis
      using that(2) unit_inv_ann [of IdleAnn c] by (auto simp: loop_inv_def unit_inv_def) (auto simp: ctl_ann_def c_no_dst_def)
  next
    case (rule t q)
    have q: "q \<in> {IdleIntercom, D2DIntercom} \<and> q \<noteq> c_intercom c"
      using rule(2,3) that(2) by (auto simp: loop_inv_def split: if_splits)
    with that(2) rule(1) show ?thesis
      using unit_inv_intercom [OF intercom_delta_states [OF rule(2)], of c]
      by (auto simp: loop_inv_def) (auto simp: ctl_intercom_def c_ann_owns_def c_no_dst_def c_mic_back_def)
  next
    case (audio d)
    then show ?thesis using that(2) by (simp add: loop_inv_def unit_inv_def)
  qed
qed

section \<open>The statements follow the machine\<close>

named_theorems uctl_simps \<open>the view of an updated unit\<close>
named_theorems unit_oks \<open>updates that keep what the handlers rely on\<close>

lemma uctl_on_unit [uctl_simps]: "uctl (on_unit f u) = ctl_of (f (u_bcu u))"
  by (simp add: uctl_def on_unit_def)

lemma uctl_upd [uctl_simps]:
  "uctl (u\<lparr>u_btn := b\<rparr>) = uctl u" "uctl (u\<lparr>tcms_live_ann_state := n\<rparr>) = uctl u"
  "uctl (u\<lparr>this_bcu_is_active := n\<rparr>) = uctl u" "uctl (u\<lparr>mr_button_state := n\<rparr>) = uctl u"
  "uctl (u\<lparr>d2p_button_state := n\<rparr>) = uctl u" "uctl (u\<lparr>whether_d2d_hangup_d2p_timeout := n\<rparr>) = uctl u"
  "uctl (u\<lparr>pcu_is_connecting_without_ts := n\<rparr>) = uctl u"
  "uctl (u\<lparr>pcu_request_info_without_ts := t\<rparr>) = uctl u"
  "uctl (u\<lparr>this_bcu_outer_3d5_button_state := n\<rparr>) = uctl u"
  "uctl (u\<lparr>touch_queue := q\<rparr>) = uctl u" "uctl (to_touch s u) = uctl u"
  "uctl (u\<lparr>u_bcu := b'\<rparr>) = ctl_of b'"
  by (simp_all add: uctl_def to_touch_def)

lemma unit_ok_upd [unit_oks]:
  "unit_ok (on_unit f u) = unit_ok u"
  "unit_ok (u\<lparr>u_btn := b\<rparr>) = unit_ok u" "unit_ok (u\<lparr>tcms_live_ann_state := n\<rparr>) = unit_ok u"
  "unit_ok (u\<lparr>this_bcu_is_active := n\<rparr>) = unit_ok u" "unit_ok (u\<lparr>mr_button_state := n\<rparr>) = unit_ok u"
  "unit_ok (u\<lparr>d2p_button_state := n\<rparr>) = unit_ok u"
  "unit_ok (u\<lparr>whether_d2d_hangup_d2p_timeout := n\<rparr>) = unit_ok u"
  "unit_ok (u\<lparr>pcu_is_connecting_without_ts := n\<rparr>) = unit_ok u"
  "unit_ok (u\<lparr>this_bcu_outer_3d5_button_state := n\<rparr>) = unit_ok u"
  "unit_ok (u\<lparr>touch_queue := q\<rparr>) = unit_ok u" "unit_ok (to_touch s u) = unit_ok u"
  "unit_ok (u\<lparr>u_bcu := b'\<rparr>) = unit_ok u"
  "unit_ok u \<Longrightarrow> length t = PCU_SLOTS \<Longrightarrow> unit_ok (u\<lparr>pcu_request_info_without_ts := t\<rparr>)"
  by (simp_all add: unit_ok_def on_unit_def to_touch_def)

lemma ctl_ann_change [ctl_simps]: "ctl_of (fst (ann_change junk p (b, s))) = ctl_ann p (ctl_of b)"
  by (simp add: ann_change_ctl ctl_ann_def) (simp add: ctl_of_def)

lemma ctl_intercom_change [ctl_simps]:
  "ctl_of (fst (intercom_change junk q (b, s))) = ctl_intercom q (ctl_of b)"
  by (simp add: intercom_change_ctl ctl_intercom_def) (simp add: ctl_of_def)

lemma ctl_jump [ctl_simps]: "ctl_of (intercom_jump junk q s b) = ctl_intercom q (ctl_of b)"
  by (simp add: intercom_jump_def sp_enter_ctl sp_exit_ctl ctl_simps ctl_intercom_def) (simp add: ctl_of_def)

lemma uctl_ids: "state_id (bcu_active_ann_state (u_bcu u)) = state_id (c_ann (uctl u))"
  "state_id (bcu_active_intercom_state (u_bcu u)) = state_id (c_intercom (uctl u))"
  "live_button_state (u_bcu u) = c_live (uctl u)" "d2d_button_state (u_bcu u) = c_d2d (uctl u)"
  "mic_owner (u_bcu u) = c_mic (uctl u)"
  by (simp_all add: uctl_def ctl_of_def)

lemma exchange_cases:
  assumes "unit_ok u"
  obtains b where "exchange junk t s u = Some (u\<lparr>u_bcu := b\<rparr>)"
    and "ctl_of b = (case intercom_delta (c_intercom (uctl u)) t of
           None \<Rightarrow> uctl u | Some q \<Rightarrow> ctl_intercom q (uctl u))"
proof -
  obtain z where z: "u_rules u = BCURuleTableInit z" using assms by (auto simp: unit_ok_def)
  have "bcu_active_intercom_state (u_bcu u) = c_intercom (uctl u)" by (simp add: uctl_def ctl_of_def)
  then show thesis
    by (cases "intercom_delta (c_intercom (uctl u)) t";
        intro that [of "case intercom_delta (c_intercom (uctl u)) t of
            None \<Rightarrow> u_bcu u | Some q \<Rightarrow> fst (intercom_change junk q (u_bcu u, s))"])
      (auto simp: exchange_def StateMachineExchange_def z find_rule_init uctl_def ctl_simps
        split: prod.split)
qed

lemma exchange_loop:
  assumes "unit_ok u" and "t \<in> {12, 13, 16, 17, 18}"
  shows "follows unit_ok uctl loop_step u (exchange junk t s u)"
proof -
  obtain b where e: "exchange junk t s u = Some (u\<lparr>u_bcu := b\<rparr>)"
      and b: "ctl_of b = (case intercom_delta (c_intercom (uctl u)) t of
           None \<Rightarrow> uctl u | Some q \<Rightarrow> ctl_intercom q (uctl u))"
    using exchange_cases [OF assms(1)] by blast
  show ?thesis
  proof (cases "intercom_delta (c_intercom (uctl u)) t")
    case None
    then show ?thesis using e b assms(1) by (simp add: lm.stay uctl_simps unit_oks)
  next
    case (Some q)
    then show ?thesis using e b assms loop_step.rule [OF Some assms(2)]
      by (simp add: lm.one uctl_simps unit_oks)
  qed
qed

section \<open>The handlers follow the machine\<close>

named_theorems loop_follows \<open>handlers of the main loop\<close>

abbreviation (input) loop_follows_from :: "cunit \<Rightarrow> cunit option \<Rightarrow> bool" where
  "loop_follows_from \<equiv> follows unit_ok uctl loop_step"

lemma loop_after:
  "follows unit_ok uctl loop_step u r \<Longrightarrow> (\<And>v. uctl (f v) = uctl v) \<Longrightarrow> (\<And>v. unit_ok (f v) = unit_ok v) \<Longrightarrow>
    follows unit_ok uctl loop_step u (map_option f r)"
  by (rule lm.map) (auto intro: lm.stay)

lemma loop_from: "follows unit_ok uctl loop_step v r \<Longrightarrow> uctl v = uctl u \<Longrightarrow> follows unit_ok uctl loop_step u r"
  by (simp add: follows_def)

lemma back_loop [loop_follows]: "unit_ok u \<Longrightarrow> loop_follows_from u (back_to_d2p junk u)"
  unfolding back_to_d2p_def
  by (rule loop_after, rule exchange_loop) (simp_all add: uctl_simps unit_oks ctl_simps, simp add: uctl_def)

lemma finish_loop [loop_follows]: "unit_ok u \<Longrightarrow> loop_follows_from u (finish_d2d junk u)"
  by (simp add: finish_d2d_def back_loop exchange_loop lm.stay)

lemma d2d_finished_loop [loop_follows]: "unit_ok u \<Longrightarrow> loop_follows_from u (JudgeWhetherD2DHaveFinished junk u)"
  by (auto simp: JudgeWhetherD2DHaveFinished_def Let_def uctl_simps unit_oks split: prod.split
      intro: lm.stay loop_from [OF finish_loop])

lemma cmu_exit_loop [loop_follows]: "unit_ok u \<Longrightarrow> loop_follows_from u (ExitD2DAccordingToCMU junk u)"
  by (simp add: ExitD2DAccordingToCMU_def finish_loop lm.stay)

lemma net_finish_loop [loop_follows]: "unit_ok u \<Longrightarrow> loop_follows_from u (NetFinishD2D junk u)"
  by (simp add: NetFinishD2D_def finish_loop lm.stay)

lemma judge_exit_loop [loop_follows]: "unit_ok u \<Longrightarrow> loop_follows_from u (judgeWheteherExitD2DEnterD2P junk u)"
  by (simp add: judgeWheteherExitD2DEnterD2P_def back_loop lm.stay)

lemma timeout_loop [loop_follows]: "unit_ok u \<Longrightarrow> loop_follows_from u (D2DHangUpD2PTimeOutHandle junk u)"
  by (auto simp: D2DHangUpD2PTimeOutHandle_def uctl_simps unit_oks intro: lm.stay loop_from [OF exchange_loop])

lemma request_loop: "uctl (JudegWhetherRequestD2D junk u) = uctl u" "unit_ok (JudegWhetherRequestD2D junk u) = unit_ok u"
  by (auto simp: JudegWhetherRequestD2D_def Let_def uctl_simps unit_oks ctl_simps split: prod.split)
    (auto simp: uctl_def)

lemma cmu_request_loop [loop_follows]: "unit_ok u \<Longrightarrow> loop_follows_from u (SendD2DAccordingToCMU junk u)"
  unfolding SendD2DAccordingToCMU_def Let_def
  by (rule loop_from [OF exchange_loop]) (auto simp: uctl_simps unit_oks ctl_simps, simp add: uctl_def)

lemma d2d_handle_loop [loop_follows]: "unit_ok u \<Longrightarrow> loop_follows_from u (D2DReqAndResponseHandle junk u)"
  unfolding D2DReqAndResponseHandle_def by (rule loop_after) (simp_all add: d2d_finished_loop request_loop)

text \<open>Live announcements, the network, the main loop.\<close>

lemma uctl_live: "uctl (ExchangeToLiveWithoutTS junk u) = ctl_ann LiveAnn (uctl u)"
  "uctl (ExitFromLiveWithoutTS junk u) = ctl_ann IdleAnn (uctl u)"
  "unit_ok (ExchangeToLiveWithoutTS junk u) = unit_ok u" "unit_ok (ExitFromLiveWithoutTS junk u) = unit_ok u"
  by (simp_all add: ExchangeToLiveWithoutTS_def ExitFromLiveWithoutTS_def uctl_simps unit_oks ctl_simps)
    (simp_all add: uctl_def)

lemma live_loop: "unit_ok u \<Longrightarrow> c_intercom (uctl u) = IdleIntercom \<Longrightarrow>
    loop_follows_from u (Some (ExchangeToLiveWithoutTS junk u))"
  "unit_ok u \<Longrightarrow> c_ann (uctl u) = LiveAnn \<or> c_live (uctl u) = 1 \<Longrightarrow>
    loop_follows_from u (Some (ExitFromLiveWithoutTS junk u))"
  by (simp_all add: lm.one uctl_live loop_step.live_on loop_step.live_off)

lemma id_conv: "state_id p = 255 \<longleftrightarrow> p = IdleIntercom" "state_id p = 2 \<longleftrightarrow> p = LiveAnn"
  "state_id p = 7 \<longleftrightarrow> p = D2DIntercom" "state_id p = 8 \<longleftrightarrow> p = D2PIntercom" "state_id p = 9 \<longleftrightarrow> p = IntercomHangUp"
  by (cases p; simp)+

lemma pa_loop [loop_follows]: "unit_ok u \<Longrightarrow> loop_follows_from u (Some (PAHandle junk u))"
  by (auto simp: PAHandle_def Let_def uctl_ids id_conv unit_oks uctl_simps split: prod.split
      intro: lm.stay loop_from [OF live_loop(1)] loop_from [OF live_loop(2)])

lemma ptt_loop: "uctl (ReadOtherBCUPttState p u) = uctl u" "unit_ok (ReadOtherBCUPttState p u) = unit_ok u"
  by (simp_all add: ReadOtherBCUPttState_def uctl_simps unit_oks ctl_simps split: option.split)
    (simp add: uctl_def)

lemma leave_live_loop [loop_follows]: "unit_ok u \<Longrightarrow> loop_follows_from u (Some (leave_live_for_d2d junk u))"
  using live_loop(2) [of u junk]
  by (auto simp: leave_live_for_d2d_def uctl_ids id_conv ExitFromLiveWithoutTS_def intro: lm.stay)

lemma d2d_net_loop [loop_follows]: "unit_ok u \<Longrightarrow> loop_follows_from u (JudgeWhetherHaveD2DRequest junk s u)"
proof -
  assume u: "unit_ok u"
  have ok: "unit_ok (leave_live_for_d2d junk u)"
    using leave_live_loop [OF u, of junk] by (simp add: follows_def)
  have ptt: "uctl (on_unit (\<lambda>b. b\<lparr>other_bcu_ptt_state := 0\<rparr>) u) = uctl u"
    by (simp add: uctl_simps ctl_simps) (simp add: uctl_def)
  note leave = leave_live_loop [OF u, of junk]
  have req: "loop_follows_from u (exchange junk t x (leave_live_for_d2d junk u))"
    if "t \<in> {12, 13, 16, 17, 18}" for t x
    by (rule lm.trans [OF leave exchange_loop [OF ok that]])
  show ?thesis
    using u ptt
    by (auto simp: JudgeWhetherHaveD2DRequest_def Let_def unit_oks leave req
        intro: lm.stay loop_from [OF net_finish_loop] loop_from [OF judge_exit_loop])
qed

lemma cmu_start_loop [loop_follows]: "unit_ok u \<Longrightarrow> loop_follows_from u (Some (cmu_start_live junk s u))"
proof -
  assume u: "unit_ok u"
  show ?thesis
  proof (cases "c_intercom (uctl u) = IdleIntercom")
    case True
    let ?v = "on_unit (seq [(\<lambda>b. b\<lparr>bcu_mcu_connect_state := 1, bcu_have_the_initiative_of_cmu := 0\<rparr>),
                  SetAudioDataDestination ''CMU'' 232]) u"
    have v: "uctl ?v = (uctl u)\<lparr>c_dst := (''CMU'', 232)\<rparr>"
      by (simp add: uctl_simps ctl_simps) (simp add: uctl_def)
    have "loop_follows_from u (Some ?v)" using u v by (simp add: lm.one unit_oks loop_step.audio)
    moreover have "loop_follows_from ?v (Some (ExchangeToLiveWithoutTS junk ?v))"
      using u v True by (intro live_loop) (simp_all add: unit_oks)
    ultimately have "loop_follows_from u (Some (ExchangeToLiveWithoutTS junk ?v))" by (rule lm.trans)
    then have "loop_follows_from u (map_option (on_unit (try_cmd (si_src_name s, unat (si_src_no s), cmu_reply (u_bcu u) s)))
        (Some (ExchangeToLiveWithoutTS junk ?v)))"
      by (rule loop_after) (simp_all add: uctl_simps unit_oks ctl_simps, simp add: uctl_def)
    then show ?thesis using True by (simp add: cmu_start_live_def uctl_ids)
  next
    case False
    have "uctl (on_unit (seq [(\<lambda>b. b\<lparr>bcu_mcu_connect_state := 0\<rparr>), try_cmd pkg]) u) = uctl u" for pkg
      by (simp add: uctl_simps ctl_simps) (simp add: uctl_def)
    with False u show ?thesis by (simp add: cmu_start_live_def uctl_ids id_conv lm.stay unit_oks)
  qed
qed

lemma mcu_frame: "uctl (on_unit (\<lambda>b. b\<lparr>bcu_mcu_connect_state := m, bcu_have_the_initiative_of_cmu := n\<rparr>) u) = uctl u"
  "unit_ok (on_unit f u) = unit_ok u"
  by (simp_all add: uctl_simps ctl_simps unit_oks) (simp add: uctl_def)

lemma cmu_off_loop: "unit_ok u \<Longrightarrow> c_ann (uctl u) = LiveAnn \<Longrightarrow> loop_follows_from u (Some (ExitFromLiveWithoutTS junk
    (on_unit (\<lambda>b. b\<lparr>bcu_mcu_connect_state := 0, bcu_have_the_initiative_of_cmu := 0\<rparr>) u)))"
  by (rule loop_from [OF live_loop(2)]) (simp_all add: mcu_frame)

lemma cmu_call_loop:
  assumes "unit_ok u"
  shows "loop_follows_from u (map_option (on_unit (seq [(\<lambda>b. b\<lparr>bcu_mcu_connect_state := 1,
      bcu_have_the_initiative_of_cmu := 0\<rparr>), SetAudioDataDestination ''CMU'' 232]))
    (SendD2DAccordingToCMU junk (on_unit (try_cmd pkg) u)))"
proof (rule lm.map)
  show "loop_follows_from u (SendD2DAccordingToCMU junk (on_unit (try_cmd pkg) u))"
    using assms by (intro loop_from [OF cmu_request_loop]) (simp_all add: unit_oks uctl_simps ctl_simps, simp add: uctl_def)
next
  fix v assume "unit_ok v"
  moreover have "uctl (on_unit (seq [(\<lambda>b. b\<lparr>bcu_mcu_connect_state := 1, bcu_have_the_initiative_of_cmu := 0\<rparr>),
      SetAudioDataDestination ''CMU'' 232]) v) = (uctl v)\<lparr>c_dst := (''CMU'', 232)\<rparr>"
    by (simp add: uctl_simps ctl_simps) (simp add: uctl_def)
  ultimately show "loop_follows_from v (Some (on_unit (seq [(\<lambda>b. b\<lparr>bcu_mcu_connect_state := 1,
      bcu_have_the_initiative_of_cmu := 0\<rparr>), SetAudioDataDestination ''CMU'' 232]) v))"
    by (simp add: lm.one unit_oks loop_step.audio)
qed

lemma cmu_loop [loop_follows]: "unit_ok u \<Longrightarrow> loop_follows_from u (BCUCMUCommunication junk s u)"
proof -
  assume u: "unit_ok u"
  let ?v = "if bcu_mcu_connect_state (u_bcu u) = 1 \<and> ann_id u = LIVE_ANN_EVENT
    then ExitFromLiveWithoutTS junk u else u"
  have v: "loop_follows_from u (Some ?v)" using u by (auto simp: uctl_ids id_conv intro: lm.stay live_loop)
  then have okv: "unit_ok ?v" by (simp add: follows_def)
  have callf: "loop_follows_from u (map_option (on_unit (seq [(\<lambda>b. b\<lparr>bcu_mcu_connect_state := 1,
      bcu_have_the_initiative_of_cmu := 0\<rparr>), SetAudioDataDestination ''CMU'' 232]))
    (SendD2DAccordingToCMU junk (on_unit (try_cmd pkg) ?v)))" for pkg
    by (rule lm.trans [OF v cmu_call_loop [OF okv]])
  have cmd6: "loop_follows_from u (map_option (on_unit (\<lambda>b. b\<lparr>bcu_mcu_connect_state := 0,
      bcu_have_the_initiative_of_cmu := 0\<rparr>)) (ExitD2DAccordingToCMU junk u))"
    using u by (intro loop_after [OF cmu_exit_loop]) (simp_all add: mcu_frame)
  consider (live) "si_line_pkg_type s = 1" "si_line_cmd_type s = 1"
    | (call) "si_line_pkg_type s = 1" "si_line_cmd_type s = 3"
    | (end4) "si_line_pkg_type s = 0" "si_line_cmd_type s = 4"
    | (end6) "si_line_pkg_type s = 0" "si_line_cmd_type s = 6"
    | (none) "\<not> (si_line_pkg_type s = 1 \<and> si_line_cmd_type s \<in> {1, 3})" "\<not> (si_line_pkg_type s = 0 \<and> si_line_cmd_type s \<in> {4, 6})"
    by auto
  then show ?thesis
  proof cases
    case live
    then show ?thesis using u by (simp add: BCUCMUCommunication_def Let_def cmu_start_loop lm.stay)
  next
    case call
    have "BCUCMUCommunication junk s u = map_option (on_unit (seq [(\<lambda>b. b\<lparr>bcu_mcu_connect_state := 1,
        bcu_have_the_initiative_of_cmu := 0\<rparr>), SetAudioDataDestination ''CMU'' 232]))
      (SendD2DAccordingToCMU junk (on_unit (try_cmd (si_src_name s, unat (si_src_no s), cmu_reply (u_bcu ?v) s)) ?v))"
      using call by (auto simp: BCUCMUCommunication_def Let_def split: option.split)
    then show ?thesis using callf by simp
  next
    case end4
    then show ?thesis using u
      by (auto simp: BCUCMUCommunication_def Let_def uctl_ids id_conv lm.stay cmu_off_loop)
  next
    case end6
    then show ?thesis using cmd6 by (simp add: BCUCMUCommunication_def Let_def)
  next
    case none
    then have "BCUCMUCommunication junk s u = Some u"
      by (auto simp: BCUCMUCommunication_def Let_def)
    then show ?thesis using u by (simp add: lm.stay)
  qed
qed

text \<open>Commands whose source number addresses a slot of the request table.\<close>

definition addressed :: "send_info \<Rightarrow> bool" where
  "addressed s \<longleftrightarrow> (si_type_intercom s = D2P_INTERCOMM_EVENT \<and> si_src_name s \<noteq> ''PCU'' \<longrightarrow> si_src_no s \<noteq> 0)"

lemma pcu_release_length: "pcu_release p name (n, t) = Some ((n', t'), x) \<Longrightarrow> length t' = length t"
  by (auto simp: pcu_release_def pcu_count_down_def split: if_splits)

lemma pcu_request_length: "pcu_request p (n, t) = Some (n', t') \<Longrightarrow> length t' = length t"
  by (auto simp: pcu_request_def split: if_splits)

lemma bookkeeping_loop [loop_follows]:
  assumes "unit_ok u" and "addressed s \<or> si_type_intercom s \<noteq> D2P_INTERCOMM_EVENT" and "si_src_name s \<noteq> ''PCU''"
    and "unat (si_src_no s) \<le> 12"
  shows "loop_follows_from u (pcu_bookkeeping s u)"
proof -
  let ?nt = "(of_nat (request_number (u_bcu u)), pcu_request_info_without_ts u)"
  let ?store = "\<lambda>(n, t). (on_unit (\<lambda>b. b\<lparr>request_number := unat n\<rparr>) u)\<lparr>pcu_request_info_without_ts := t\<rparr>"
  have store: "loop_follows_from u (Some (?store (n, t)))" if "length t = PCU_SLOTS" for n t
    using assms(1) that
    by (intro lm.stay) (simp_all add: unit_oks uctl_simps, simp add: uctl_def ctl_of_def)
  have len: "length (pcu_request_info_without_ts u) = PCU_SLOTS" using assms(1) by (simp add: unit_ok_def)
  show ?thesis
  proof (cases "si_type_intercom s = D2P_INTERCOMM_EVENT")
    case True
    then have src: "1 \<le> unat (si_src_no s)" "unat (si_src_no s) - 1 < PCU_SLOTS"
      using assms(2,3,4) by (auto simp: addressed_def unat_gt_0 Suc_le_eq)
    then obtain nt1 where req: "pcu_request (unat (si_src_no s)) ?nt = Some nt1"
      using len by (auto simp: pcu_request_def)
    have "pcu_release (unat (si_src_no s)) (si_src_name s) ?nt \<noteq> None"
      using src len by (auto simp: pcu_release_def)
    then obtain nt2 x where rel: "pcu_release (unat (si_src_no s)) (si_src_name s) ?nt = Some (nt2, x)"
      by fastforce
    have reset: "loop_follows_from u (Some ((on_unit BcuResetPlayAlarmAudioWhenD2pReq u)\<lparr>pcu_is_connecting_without_ts := 1\<rparr>))"
      using assms(1) by (intro lm.stay) (simp_all add: unit_oks uctl_simps ctl_simps, simp add: uctl_def)
    have "loop_follows_from u (Some ((?store nt2)\<lparr>pcu_is_connecting_without_ts := 0\<rparr>))"
      using store [of "snd nt2" "fst nt2"] pcu_release_length [of _ _ _ _ "fst nt2" "snd nt2" x] rel len
      by (simp add: follows_def uctl_simps unit_oks case_prod_beta)
    moreover have "loop_follows_from u (Some (?store nt1))"
      using store [of "snd nt1" "fst nt1"] pcu_request_length [of _ _ _ "fst nt1" "snd nt1"] req len by simp
    ultimately show ?thesis
      using True req rel reset assms(1)
      by (simp add: pcu_bookkeeping_def Let_def lm.stay split: if_split)
  next
    case False
    then show ?thesis using assms(1) by (simp add: pcu_bookkeeping_def Let_def lm.stay)
  qed
qed

lemma zeroed_simps [simp]: "si_src_name (zeroed s) = ''''" "si_type_intercom (zeroed s) = 0"
  "si_src_no (zeroed s) = 0"
  by (simp_all add: zeroed_def)

lemma pa_key_frame: "uctl (pa_key s u) = uctl u" "unit_ok (pa_key s u) = unit_ok u"
  by (simp_all add: pa_key_def uctl_simps unit_oks)

lemma tms_live_frame: "uctl (tms_live s u) = uctl u" "unit_ok (tms_live s u) = unit_ok u"
  by (simp_all add: tms_live_def uctl_simps unit_oks)

lemma ctl_no_pcu [ctl_simps]: "ctl_of (SendNoPCUToCCU junk b) = ctl_of b"
  by (simp add: SendNoPCUToCCU_def ctl_simps)

lemma ctl_pcu_after [ctl_simps]: "ctl_of (pcu_after junk old b) = ctl_of b"
  by (simp add: pcu_after_def ctl_simps)

lemma ctl_processes [ctl_simps]: "ctl_of (run_processes b) = ctl_of b"
proof -
  obtain b1 s1 where p: "sp_process (bcu_active_ann_state b) (b, recv_cmd_info_of_ann b) = (b1, s1)" by fastforce
  let ?b2 = "b1\<lparr>recv_cmd_info_of_ann := ClearProcessPackage s1\<rparr>"
  obtain b3 s3 where q: "sp_process (bcu_active_intercom_state b1) (?b2, recv_cmd_info_of_intercom b1) = (b3, s3)"
    by fastforce
  have "ctl_of b3 = ctl_of b" using sp_process_ctl [of _ "(?b2, _)"] sp_process_ctl [of _ "(b, _)"] p q
    by (metis ctl_upd(2) fst_conv)
  moreover have "ctl_of (b3\<lparr>recv_cmd_info_of_intercom := x\<rparr>) = ctl_of b3" for x by (simp add: ctl_of_def)
  ultimately show ?thesis using p q by (simp add: run_processes_def)
qed

lemma network_loop [loop_follows]:
  assumes "unit_ok u" and "addressed s"
  shows "loop_follows_from u (network_command junk s u)"
proof (cases "unat (si_src_no s) > 12")
  case True
  then show ?thesis using assms(1) by (simp add: network_command_def lm.stay)
next
  case False
  define s' where "s' = (if si_src_name s = ''PCU'' then zeroed s else s)"
  have s': "addressed s'" "si_src_name s' \<noteq> ''PCU''" "unat (si_src_no s') \<le> 12"
    using assms(2) False by (auto simp: s'_def addressed_def)
  let ?cmu = "\<lambda>u. if take 3 (si_src_name s') = ''CMU'' then BCUCMUCommunication junk s' u else Some u"
  let ?d2d = "\<lambda>u. if si_type_intercom s' = D2D_INTERCOMM_EVENT then JudgeWhetherHaveD2DRequest junk s' u else Some u"
  let ?rest = "\<lambda>u. map_option (\<lambda>u4. on_unit (pcu_after junk (request_number (u_bcu (pa_key s' u)))) (tms_live s' u4))
      (pcu_bookkeeping s' (pa_key s' u))"
  have rest: "loop_follows_from u (?rest u)" if "unit_ok u" for u
    using that s'
    by (intro loop_after [OF loop_from [OF bookkeeping_loop]])
      (simp_all add: pa_key_frame tms_live_frame uctl_simps unit_oks ctl_simps,
        simp_all add: tms_live_frame flip: uctl_def)
  have "loop_follows_from u (case ?cmu u of None \<Rightarrow> None | Some u1 \<Rightarrow>
      (case ?d2d u1 of None \<Rightarrow> None | Some u2 \<Rightarrow> ?rest u2))"
    using assms(1) by (intro lm.bind rest) (simp_all add: cmu_loop d2d_net_loop lm.stay)
  then show ?thesis
    unfolding network_command_def Let_def s'_def [symmetric] if_not_P [OF False] .
qed

lemma round_loop:
  assumes "unit_ok u" and "\<And>s. ri_cmd i = Some s \<Longrightarrow> addressed s"
  shows "loop_follows_from u (SystemControl_round i u)"
proof -
  let ?u1 = "u\<lparr>u_btn := GetPAAllOuterButtonState (ri_pins i) (u_btn u), this_bcu_is_active := 1\<rparr>"
  let ?u2 = "ReadOtherBCUPttState (ri_ptt i) (PAHandle (ri_junk i) ?u1)"
  let ?u5 = "\<lambda>u. case ri_cmu_state i of None \<Rightarrow> u
      | Some c \<Rightarrow> on_unit (\<lambda>b. b\<lparr>bcu_current_tcms_cmu_state := c\<rparr>) u"
  have u1: "unit_ok ?u1" "uctl ?u1 = uctl u" using assms(1) by (simp_all add: unit_oks uctl_simps)
  have u2: "loop_follows_from u (Some ?u2)"
    using loop_from [OF pa_loop [OF u1(1)] u1(2), of "ri_junk i"] by (simp add: follows_def ptt_loop)
  have u5: "uctl (?u5 u) = uctl u" "unit_ok (?u5 u) = unit_ok u" for u
    by (simp_all add: uctl_simps unit_oks split: option.split) (simp add: uctl_def ctl_of_def)
  have cmd: "loop_follows_from u (map_option (on_unit run_processes)
      (case ri_cmd i of None \<Rightarrow> Some (?u5 u) | Some s \<Rightarrow> network_command (ri_junk i) s (?u5 u)))"
    if "unit_ok u" for u
  proof (rule loop_after)
    show "loop_follows_from u (case ri_cmd i of None \<Rightarrow> Some (?u5 u) | Some s \<Rightarrow> network_command (ri_junk i) s (?u5 u))"
      using that assms(2) u5 [of u]
      by (cases "ri_cmd i") (auto intro: lm.stay loop_from [OF network_loop])
  qed (simp_all add: uctl_simps unit_oks ctl_simps, simp add: uctl_def)
  have ok2: "unit_ok ?u2" using u2 by (simp add: follows_def)
  have "loop_follows_from ?u2 (case D2DHangUpD2PTimeOutHandle (ri_junk i) ?u2 of None \<Rightarrow> None
      | Some u3 \<Rightarrow> (case D2DReqAndResponseHandle (ri_junk i) u3 of None \<Rightarrow> None
      | Some u4 \<Rightarrow> map_option (on_unit run_processes)
          (case ri_cmd i of None \<Rightarrow> Some (?u5 u4) | Some s \<Rightarrow> network_command (ri_junk i) s (?u5 u4))))"
    using ok2 by (intro lm.bind timeout_loop d2d_handle_loop cmd)
  from lm.trans [OF u2 this] show ?thesis unfolding SystemControl_round_def Let_def .
qed

lemma SystemControl_snoc:
  "SystemControl (is @ [i]) u = Option.bind (SystemControl is u) (SystemControl_round i)"
  by (simp add: SystemControl_def)

text \<open>Rounds whose commands all address a slot.\<close>

definition all_addressed :: "round_input list \<Rightarrow> bool" where
  "all_addressed is \<longleftrightarrow> list_all (\<lambda>i. case ri_cmd i of None \<Rightarrow> True | Some s \<Rightarrow> addressed s) is"

lemma all_addressed_simps [simp]:
  "all_addressed []"
  "all_addressed (i # is) \<longleftrightarrow> (\<forall>s. ri_cmd i = Some s \<longrightarrow> addressed s) \<and> all_addressed is"
  "all_addressed (is @ js) \<longleftrightarrow> all_addressed is \<and> all_addressed js"
  by (auto simp: all_addressed_def split: option.splits)

lemma loop_loop:
  assumes "unit_ok u" and "all_addressed is"
  shows "loop_follows_from u (SystemControl is u)"
  using assms(2)
proof (induction "is" rule: rev_induct)
  case Nil
  then show ?case using assms(1) by (simp add: SystemControl_def lm.stay)
next
  case (snoc i "is")
  then obtain v where v: "SystemControl is u = Some v" "unit_ok v" "loop_follows_from u (Some v)"
    by (auto simp: follows_def)
  moreover have "loop_follows_from v (SystemControl_round i v)"
    using v(2) snoc.prems by (intro round_loop) auto
  ultimately show ?case using lm.trans [OF v(3)] by (simp add: SystemControl_snoc)
qed

end
