(* ===== verification/Control_Props.thy ===== *)
theory Control_Props
  imports Control_Safety
begin

text \<open>
  The properties of the main loop: that it follows the machine of \<open>Control_Safety\<close>, the states
  it can be in, and what a held live button does.
\<close>

section \<open>Runs\<close>

text \<open>The unit after its initialisation, on static storage that is zero.\<close>

definition unit_start :: cunit where
  "unit_start =
     \<lparr>u_bcu = BCUStateInit bcu_rest, u_rules = BCURuleTableInit 0, u_prio = [], u_btn = buttons_zero,
      this_bcu_is_active = 15, tcms_live_ann_state = 0, this_bcu_outer_3d5_button_state = 0,
      d2p_button_state = 0, mr_button_state = 0, whether_d2d_hangup_d2p_timeout = 0,
      pcu_request_info_without_ts = replicate 12 0, pcu_is_connecting_without_ts = 0,
      touch_queue = [], touch_capacity = 49\<rparr>"

lemma unit_start_ok: "unit_ok unit_start" "loop_inv (uctl unit_start)" "unit_inv (uctl unit_start)"
  by (auto simp: unit_start_def unit_ok_def uctl_def BCUStateInit_def bcu_rest_def ctl_of_def loop_inv_def
      unit_inv_def ann_states_def intercom_states_def)

text \<open>A round with the live and the passenger button, and perhaps a command.\<close>

definition round_of :: "bool \<Rightarrow> bool \<Rightarrow> send_info option \<Rightarrow> round_input" where
  "round_of pa pc cmd =
     \<lparr>ri_pins = \<lparr>rd_ptt = 1, rd_key_1 = (if pa then 0 else 1), rd_key_2 = (if pc then 0 else 1),
        rd_cc = 1, rd_key_4 = 1, rd_hd = 0\<rparr>,
      ri_ptt = None, ri_cmu_state = None, ri_cmd = cmd, ri_junk = send_info_zero\<rparr>"

definition cmu_cmd :: "int \<Rightarrow> int \<Rightarrow> send_info" where
  "cmu_cmd pkg cmd = send_info_zero\<lparr>si_src_name := ''CMU'', si_src_no := 1,
     si_line_pkg_type := pkg, si_line_cmd_type := cmd\<rparr>"

lemma rounds_addressed: "(ri_cmd (round_of pa pc cmd) = Some s) = (cmd = Some s)" "addressed (cmu_cmd pkg n)"
  by (simp_all add: round_of_def cmu_cmd_def addressed_def send_info_zero_def)

text \<open>A round without a command while no intercom is active.\<close>

lemma quiet_pa:
  assumes "unit_ok u" and "c_intercom (uctl u) = IdleIntercom"
  shows "unit_ok (PAHandle junk u)" "c_intercom (uctl (PAHandle junk u)) = IdleIntercom"
proof -
  show "unit_ok (PAHandle junk u)" using pa_loop [OF assms(1), of junk] by (simp add: follows_def)
  show "c_intercom (uctl (PAHandle junk u)) = IdleIntercom"
    using assms(2) by (simp add: PAHandle_def Let_def uctl_simps uctl_live split: prod.split)
qed

lemma quiet_timeout:
  assumes "unit_ok w" and "c_intercom (uctl w) = IdleIntercom"
  obtains x where "D2DHangUpD2PTimeOutHandle junk w = Some x" "unit_ok x" "uctl x = uctl w" "u_btn x = u_btn w"
proof (cases "whether_d2d_hangup_d2p_timeout w = 1")
  case True
  let ?w = "w\<lparr>whether_d2d_hangup_d2p_timeout := 0\<rparr>"
  have w': "unit_ok ?w" "uctl ?w = uctl w" using assms(1) by (simp_all add: unit_oks uctl_simps)
  obtain b where e: "exchange junk 16 junk ?w = Some (?w\<lparr>u_bcu := b\<rparr>)"
      and b: "ctl_of b = (case intercom_delta (c_intercom (uctl ?w)) 16 of
           None \<Rightarrow> uctl ?w | Some q \<Rightarrow> ctl_intercom q (uctl ?w))"
    using exchange_cases [OF w'(1)] by blast
  have "ctl_of b = uctl w" using b w'(2) assms(2) by simp
  then show thesis using True w'(1) e
    by (intro that [of "?w\<lparr>u_bcu := b\<rparr>"]) (simp_all add: D2DHangUpD2PTimeOutHandle_def unit_oks uctl_simps)
next
  case False
  then show thesis using assms by (intro that [of w]) (simp_all add: D2DHangUpD2PTimeOutHandle_def)
qed

lemma d2p_poll_frame: "GetD2PExternButtonState b = (r, b') \<Longrightarrow> pa_state_flag b' = pa_state_flag b \<and>
    whether_live_button_is_pressed b' = whether_live_button_is_pressed b"
  by (auto simp: GetD2PExternButtonState_def split: if_splits)

lemma on_unit_btn [simp]: "u_btn (on_unit f u) = u_btn u"
  by (simp add: on_unit_def)

lemma quiet_request:
  "pa_state_flag (u_btn (JudegWhetherRequestD2D junk x)) = pa_state_flag (u_btn x)"
  "whether_live_button_is_pressed (u_btn (JudegWhetherRequestD2D junk x)) = whether_live_button_is_pressed (u_btn x)"
proof -
  obtain r b where g: "GetD2PExternButtonState (u_btn x) = (r, b)" by fastforce
  note f = d2p_poll_frame [OF g]
  show "pa_state_flag (u_btn (JudegWhetherRequestD2D junk x)) = pa_state_flag (u_btn x)"
    unfolding JudegWhetherRequestD2D_def g Let_def prod.case using f by (simp only: if_distrib on_unit_btn) simp
  show "whether_live_button_is_pressed (u_btn (JudegWhetherRequestD2D junk x)) = whether_live_button_is_pressed (u_btn x)"
    unfolding JudegWhetherRequestD2D_def g Let_def prod.case using f by (simp only: if_distrib on_unit_btn) simp
qed

lemma quiet_d2d:
  assumes "c_intercom (uctl x) = IdleIntercom"
  shows "D2DReqAndResponseHandle junk x = Some (JudegWhetherRequestD2D junk x)"
  using assms by (simp add: D2DReqAndResponseHandle_def JudgeWhetherD2DHaveFinished_def uctl_def ctl_of_def)

lemma round_quiet:
  assumes "unit_ok u" and "ri_cmd i = None" and "c_intercom (uctl u) = IdleIntercom"
  defines "v \<equiv> PAHandle (ri_junk i) (u\<lparr>u_btn := GetPAAllOuterButtonState (ri_pins i) (u_btn u), this_bcu_is_active := 1\<rparr>)"
  obtains u' where "SystemControl_round i u = Some u'" "unit_ok u'" "uctl u' = uctl v"
    "pa_state_flag (u_btn u') = pa_state_flag (u_btn v)"
    "whether_live_button_is_pressed (u_btn u') = whether_live_button_is_pressed (u_btn v)"
proof -
  let ?j = "ri_junk i" and ?u1 = "u\<lparr>u_btn := GetPAAllOuterButtonState (ri_pins i) (u_btn u), this_bcu_is_active := 1\<rparr>"
  have u1: "unit_ok ?u1" "c_intercom (uctl ?u1) = IdleIntercom" using assms(1,3) by (simp_all add: unit_oks uctl_simps)
  have v: "unit_ok v" "c_intercom (uctl v) = IdleIntercom" unfolding v_def by (rule quiet_pa [OF u1])+
  define w where "w = ReadOtherBCUPttState (ri_ptt i) v"
  have w: "unit_ok w" "uctl w = uctl v" "u_btn w = u_btn v"
    using v(1) by (simp_all add: w_def ptt_loop) (simp add: ReadOtherBCUPttState_def split: option.split)
  obtain x where x: "D2DHangUpD2PTimeOutHandle ?j w = Some x" "unit_ok x" "uctl x = uctl w" "u_btn x = u_btn w"
    using quiet_timeout [OF w(1)] w(2) v(2) by metis
  define y where "y = JudegWhetherRequestD2D ?j x"
  have y: "unit_ok y" "uctl y = uctl x" using x(2) by (simp_all add: y_def request_loop)
  have d: "D2DReqAndResponseHandle ?j x = Some y" unfolding y_def by (rule quiet_d2d) (simp add: x(3) w(2) v(2))
  define z where "z = (case ri_cmu_state i of None \<Rightarrow> y | Some c \<Rightarrow> on_unit (\<lambda>b. b\<lparr>bcu_current_tcms_cmu_state := c\<rparr>) y)"
  have z: "unit_ok z" "uctl z = uctl y" "u_btn z = u_btn y"
    using y by (simp_all add: z_def unit_oks uctl_simps split: option.split) (simp add: uctl_def ctl_of_def)
  have r: "SystemControl_round i u = Some (on_unit run_processes z)"
    unfolding SystemControl_round_def Let_def v_def [symmetric] w_def [symmetric] x(1) option.case d
      z_def [symmetric] assms(2) by simp
  have "uctl (on_unit run_processes z) = uctl z" by (simp add: uctl_simps ctl_simps) (simp add: uctl_def)
  then have "uctl (on_unit run_processes z) = uctl v" by (simp add: z(2) y(2) x(3) w(2))
  then show thesis
    using that [OF r] z x(4) w(3) by (simp add: unit_oks y_def quiet_request)
qed

lemma pa_scan [simp]:
  "pa_state_flag (GetPAAllOuterButtonState r b) = press_count (rd_key_1 r = 0) (pa_state_flag b)"
  "whether_live_button_is_pressed (GetPAAllOuterButtonState r b) = whether_live_button_is_pressed b"
  by (simp_all add: GetPAAllOuterButtonState_def)

text \<open>The first round with a pressed button changes nothing but the count.\<close>

lemma held_first:
  assumes "pa_state_flag (u_btn u) = 1" and "whether_live_button_is_pressed (u_btn u) = 0"
  shows "PAHandle junk u = u"
proof -
  have "GetLiveExternButtonState (u_btn u) = (3, u_btn u)" using assms by (simp add: GetLiveExternButtonState_def word_le_nat_alt)
  then show ?thesis by (simp add: PAHandle_def)
qed

text \<open>The second one switches live on.\<close>

lemma held_second:
  assumes "pa_state_flag (u_btn u) = 2" and "whether_live_button_is_pressed (u_btn u) = 0"
    and "c_intercom (uctl u) = IdleIntercom" and "c_live (uctl u) = 0"
  shows "uctl (PAHandle junk u) = ctl_ann LiveAnn (uctl u)"
proof -
  have "GetLiveExternButtonState (u_btn u) = (1, (u_btn u)\<lparr>whether_live_button_is_pressed := 1\<rparr>)"
    using assms(1,2) by (simp add: GetLiveExternButtonState_def)
  moreover have "intercom_id u = 255" using assms(3) by (simp add: uctl_def ctl_of_def)
  moreover have "live_button_state (u_bcu u) = 0" using assms(4) by (simp add: uctl_def ctl_of_def)
  ultimately show ?thesis by (simp add: PAHandle_def uctl_live uctl_simps)
qed

lemma uctl_fields: "bcu_active_ann_state (u_bcu u) = c_ann (uctl u)"
  "bcu_active_intercom_state (u_bcu u) = c_intercom (uctl u)"
  "mic_owner (u_bcu u) = c_mic (uctl u)" "audio_dst (u_bcu u) = c_dst (uctl u)"
  "live_button_state (u_bcu u) = c_live (uctl u)"
  by (simp_all add: uctl_def ctl_of_def)

lemma held_rounds:
  assumes "unit_ok u" and "c_intercom (uctl u) = IdleIntercom" and "c_live (uctl u) = 0"
    and "whether_live_button_is_pressed (u_btn u) = 0" and "pa_state_flag (u_btn u) = 0"
    and "ri_cmd i = None" "ri_cmd j = None" "rd_key_1 (ri_pins i) = 0" "rd_key_1 (ri_pins j) = 0"
  obtains u' where "SystemControl [i, j] u = Some u'" "unit_ok u'" "uctl u' = ctl_ann LiveAnn (uctl u)"
proof -
  let ?scan = "\<lambda>i u. u\<lparr>u_btn := GetPAAllOuterButtonState (ri_pins i) (u_btn u), this_bcu_is_active := 1\<rparr>"
  have pa1: "PAHandle (ri_junk i) (?scan i u) = ?scan i u"
    by (rule held_first) (use assms(4,5,8) in \<open>simp_all add: press_count_def\<close>)
  obtain v where v: "SystemControl_round i u = Some v" "unit_ok v" "uctl v = uctl u"
      "pa_state_flag (u_btn v) = 1" "whether_live_button_is_pressed (u_btn v) = 0"
    by (rule round_quiet [OF assms(1,6,2)]) (use assms(4,5,8) in \<open>simp add: pa1 uctl_simps press_count_def del: One_nat_def\<close>)
  have idle: "c_intercom (uctl v) = IdleIntercom" using v(3) assms(2) by simp
  have pa2: "uctl (PAHandle (ri_junk j) (?scan j v)) = ctl_ann LiveAnn (uctl (?scan j v))"
    by (rule held_second) (use v(3,4,5) assms(2,3,9) in \<open>simp_all add: press_count_def uctl_simps word_le_nat_alt\<close>)
  obtain u' where u': "SystemControl_round j v = Some u'" "unit_ok u'" "uctl u' = ctl_ann LiveAnn (uctl v)"
    by (rule round_quiet [OF v(2) assms(7) idle]) (simp add: pa2 uctl_simps del: One_nat_def)
  have "SystemControl [i, j] u = Some u'" using v(1) u'(1) by (simp add: SystemControl_def)
  then show thesis using that u' v(3) by simp
qed

section \<open>Properties\<close>



text \<open>So in every state that the loop reaches, the announcement machine is idle or live, the
  intercom machine is idle or between drivers (a passenger intercom is never entered), the live
  lamp is lit exactly in the live state and the intercom lamp exactly in the driver intercom,
  and while no intercom is active the microphone belongs to the announcement if it is live and
  to nobody otherwise.\<close>

lemma control_loop_safe:
  assumes "unit_ok u" and "loop_inv (uctl u)" and "all_addressed is"
    and "SystemControl is u = Some u'"
  shows "bcu_active_ann_state (u_bcu u') \<in> {IdleAnn, LiveAnn}
    \<and> bcu_active_intercom_state (u_bcu u') \<in> {IdleIntercom, D2DIntercom}
    \<and> live_button_state (u_bcu u') = (if bcu_active_ann_state (u_bcu u') = LiveAnn then 1 else 0)
    \<and> d2d_button_state (u_bcu u') = (if bcu_active_intercom_state (u_bcu u') = D2DIntercom then 1 else 0)
    \<and> (bcu_active_intercom_state (u_bcu u') = IdleIntercom \<longrightarrow>
        mic_owner (u_bcu u') = (if bcu_active_ann_state (u_bcu u') = LiveAnn then ANNOUNCE else NONE))"
proof -
  have "loop_inv (uctl u')"
    using lm.keeps [OF loop_loop [OF assms(1,3)] assms(2)] assms(4) by auto
  then show ?thesis by (auto simp: loop_inv_def unit_inv_def uctl_def ctl_of_def)
qed

text \<open>C4: the live button works: from every state without intercom whose live lamp is dark, two
  rounds with the button held and without a command enter the live state, light the lamp, and
  direct the microphone of the announcement to the amplifiers.\<close>

theorem live_button_works:
  assumes "unit_ok u" and "bcu_active_intercom_state (u_bcu u) = IdleIntercom"
    and "live_button_state (u_bcu u) = 0" and "whether_live_button_is_pressed (u_btn u) = 0"
    and "pa_state_flag (u_btn u) = 0"
    and "ri_cmd i = None" and "ri_cmd j = None" and "rd_key_1 (ri_pins i) = 0" and "rd_key_1 (ri_pins j) = 0"
  shows "\<exists>u'. SystemControl [i, j] u = Some u' \<and> bcu_active_ann_state (u_bcu u') = LiveAnn
    \<and> live_button_state (u_bcu u') = 1 \<and> mic_owner (u_bcu u') = ANNOUNCE
    \<and> audio_dst (u_bcu u') = (''EAMP'', LIVE_DST_NO)"
proof -
  obtain u' where "SystemControl [i, j] u = Some u'" "uctl u' = ctl_ann LiveAnn (uctl u)"
    using held_rounds [OF assms(1) _ _ assms(4-9)] assms(2,3) unfolding uctl_fields by metis
  then show ?thesis unfolding uctl_fields by (simp add: ctl_ann_def)
qed

theorem live_button_works_witness:
  "\<exists>u'. SystemControl [round_of True False None, round_of True False None] unit_start = Some u'
    \<and> bcu_active_ann_state (u_bcu u') = LiveAnn"
proof -
  have *: "bcu_active_intercom_state (u_bcu unit_start) = IdleIntercom" "live_button_state (u_bcu unit_start) = 0"
    "whether_live_button_is_pressed (u_btn unit_start) = 0" "pa_state_flag (u_btn unit_start) = 0"
    by code_simp+
  have r: "ri_cmd (round_of True False None) = None" "rd_key_1 (ri_pins (round_of True False None)) = 0"
    by (simp_all add: round_of_def)
  from live_button_works [OF unit_start_ok(1) * r(1) r(1) r(2) r(2)]
  show ?thesis by blast
qed

lemma network_cmu:
  assumes "take 3 (si_src_name s) = ''CMU''" and "unat (si_src_no s) \<le> 12"
    and "si_type_intercom s \<notin> {D2D_INTERCOMM_EVENT, D2P_INTERCOMM_EVENT}" and "si_type_ann s \<notin> {51, LIVE_ANN_EVENT}"
  shows "network_command junk s u = BCUCMUCommunication junk s u"
proof -
  have name: "si_src_name s \<noteq> ''PCU''" using assms(1) by auto
  have "on_unit (pcu_after junk (request_number (u_bcu v))) v = v" for v
    by (auto simp: on_unit_def pcu_after_def)
  then show ?thesis using assms(2-4) name
    by (simp add: network_command_def assms(1) pa_key_def tms_live_def pcu_bookkeeping_def option.map_ident
        split: option.split)
qed

lemma cmu_cmd_simps [simp]: "si_src_name (cmu_cmd p c) = ''CMU''" "si_src_no (cmu_cmd p c) = 1"
  "si_type_intercom (cmu_cmd p c) = INTERCOM_IDLE" "si_type_ann (cmu_cmd p c) = ANN_IDLE"
  "si_line_pkg_type (cmu_cmd p c) = p" "si_line_cmd_type (cmu_cmd p c) = c"
  by (simp_all add: cmu_cmd_def send_info_zero_def)

text \<open>C40: the microphone can be lost in a driver intercom. When the coupled train calls the driver
  while live is on and then ends its own announcement, the unit is left in the driver intercom
  with the microphone owned by nobody and no destination for the audio.\<close>

theorem mic_lost_in_d2d:
  assumes "unit_ok u" and "bcu_active_ann_state (u_bcu u) = LiveAnn"
    and "bcu_active_intercom_state (u_bcu u) = IdleIntercom"
    and "bcu_mcu_connect_state (u_bcu u) = 0" and "this_bcu_is_active u \<noteq> 0"
  shows "\<exists>u1 u2. network_command junk (cmu_cmd 1 3) u = Some u1 \<and> network_command junk (cmu_cmd 0 4) u1 = Some u2
    \<and> bcu_active_intercom_state (u_bcu u2) = D2DIntercom \<and> mic_owner (u_bcu u2) = NONE
    \<and> audio_dst (u_bcu u2) = ('''', 0)"
proof -
  let ?s = "cmu_cmd 1 3" and ?e = "cmu_cmd 0 4"
  let ?w = "on_unit (try_cmd (''CMU'', 1, cmu_reply (u_bcu u) ?s)) u"
  let ?v = "on_unit (\<lambda>b. b\<lparr>this_bcu_request := 1\<rparr>) ?w"
  have v: "unit_ok ?v" "uctl ?v = uctl u"
    using assms(1) by (simp_all add: unit_oks uctl_simps ctl_simps) (simp add: uctl_def on_unit_def ctl_simps)
  obtain b where e: "exchange junk 12 (d2d_request_package junk (u_bcu ?w)) ?v = Some (?v\<lparr>u_bcu := b\<rparr>)"
    and b: "ctl_of b = (case intercom_delta (c_intercom (uctl ?v)) 12 of
           None \<Rightarrow> uctl ?v | Some q \<Rightarrow> ctl_intercom q (uctl ?v))"
    using exchange_cases [OF v(1)] by blast
  have b': "ctl_of b = ctl_intercom D2DIntercom (uctl u)" using b v(2) assms(3) by (simp add: uctl_fields)
  let ?u1 = "on_unit (seq [(\<lambda>b. b\<lparr>bcu_mcu_connect_state := 1, bcu_have_the_initiative_of_cmu := 0\<rparr>),
      SetAudioDataDestination ''CMU'' 232]) (?v\<lparr>u_bcu := b\<rparr>)"
  have n1: "network_command junk ?s u = Some ?u1"
    using assms(4) e by (simp add: network_cmu BCUCMUCommunication_def Let_def SendD2DAccordingToCMU_def)
  have c1: "uctl ?u1 = (ctl_intercom D2DIntercom (uctl u))\<lparr>c_dst := (''CMU'', 232)\<rparr>"
    using b' by (simp add: uctl_simps ctl_simps)
  have f1: "bcu_mcu_connect_state (u_bcu ?u1) = 1" "this_bcu_is_active ?u1 \<noteq> 0"
    using assms(5) by (simp_all add: on_unit_def SetAudioDataDestination_def)
  have live: "ann_id ?u1 = LIVE_ANN_EVENT" using c1 assms(2) unfolding uctl_ids by (simp add: uctl_fields)
  let ?u2 = "ExitFromLiveWithoutTS junk (on_unit (\<lambda>b. b\<lparr>bcu_mcu_connect_state := 0, bcu_have_the_initiative_of_cmu := 0\<rparr>) ?u1)"
  have n2: "network_command junk ?e ?u1 = Some ?u2"
    using f1 live by (simp add: network_cmu BCUCMUCommunication_def Let_def)
  have "uctl ?u2 = ctl_ann IdleAnn (uctl ?u1)" by (simp add: uctl_live mcu_frame)
  with c1 have "c_intercom (uctl ?u2) = D2DIntercom" "c_mic (uctl ?u2) = NONE" "c_dst (uctl ?u2) = ('''', 0)"
    using assms(2) by (simp_all add: ctl_ann_def c_no_dst_def uctl_fields)
  with n1 n2 show ?thesis unfolding uctl_fields by blast
qed

theorem mic_lost_in_d2d_witness:
  "\<exists>u u1 u2. unit_ok u \<and> network_command send_info_zero (cmu_cmd 1 3) u = Some u1
    \<and> network_command send_info_zero (cmu_cmd 0 4) u1 = Some u2 \<and> mic_owner (u_bcu u2) = NONE
    \<and> bcu_active_intercom_state (u_bcu u2) = D2DIntercom"
proof -
  let ?u = "(on_unit (\<lambda>b. b\<lparr>bcu_active_ann_state := LiveAnn, bcu_mcu_connect_state := 0\<rparr>) unit_start)"
  have "unit_ok ?u" "this_bcu_is_active ?u \<noteq> 0" using unit_start_ok(1) by (simp_all add: unit_oks) (simp add: on_unit_def unit_start_def)
  moreover have "bcu_active_ann_state (u_bcu ?u) = LiveAnn" "bcu_active_intercom_state (u_bcu ?u) = IdleIntercom"
    "bcu_mcu_connect_state (u_bcu ?u) = 0"
    by (simp_all add: on_unit_def unit_start_def BCUStateInit_def)
  ultimately show ?thesis using mic_lost_in_d2d [of ?u send_info_zero] by blast
qed

end
