(* ===== verification/Handler_Safety.thy ===== *)
theory Handler_Safety
  imports Control_Props
begin

text \<open>
  Every handler of the control thread, the ones that the main loop does not call included, and
  every interleaving of them with rounds of the loop: the unit stays in a legal state.
\<close>

section \<open>What a handler leaves alone\<close>

named_theorems prio_frame \<open>statements that keep the priority list\<close>

lemma prio_upd [prio_frame]:
  "u_prio (on_unit f u) = u_prio u" "u_prio (to_touch s u) = u_prio u"
  by (simp_all add: on_unit_def to_touch_def)

lemma prio_exchange [prio_frame]: "exchange junk t s u = Some u' \<Longrightarrow> u_prio u' = u_prio u"
  by (auto simp: exchange_def split: option.splits prod.splits)

lemma prio_back [prio_frame]: "back_to_d2p junk u = Some u' \<Longrightarrow> u_prio u' = u_prio u"
  by (auto simp: back_to_d2p_def prio_frame)

lemma prio_finish [prio_frame]: "finish_d2d junk u = Some u' \<Longrightarrow> u_prio u' = u_prio u"
  by (auto simp: finish_d2d_def prio_frame split: if_splits)

lemma prio_handlers [prio_frame]:
  "JudgeWhetherD2DHaveFinished junk u = Some u' \<Longrightarrow> u_prio u' = u_prio u"
  "ExitD2DAccordingToCMU junk u = Some u' \<Longrightarrow> u_prio u' = u_prio u"
  "NetFinishD2D junk u = Some u' \<Longrightarrow> u_prio u' = u_prio u"
  "judgeWheteherExitD2DEnterD2P junk u = Some u' \<Longrightarrow> u_prio u' = u_prio u"
  "ForceBreakD2DToD2P junk u = Some u' \<Longrightarrow> u_prio u' = u_prio u"
  by (auto simp: JudgeWhetherD2DHaveFinished_def Let_def ExitD2DAccordingToCMU_def NetFinishD2D_def
      judgeWheteherExitD2DEnterD2P_def ForceBreakD2DToD2P_def prio_frame
      dest: prio_finish prio_exchange prio_back split: if_splits prod.splits)

lemma prio_timeout [prio_frame]: "D2DHangUpD2PTimeOutHandle junk u = Some u' \<Longrightarrow> u_prio u' = u_prio u"
  by (auto simp: D2DHangUpD2PTimeOutHandle_def dest: prio_exchange split: if_splits)

lemma prio_request [prio_frame]: "u_prio (JudegWhetherRequestD2D junk u) = u_prio u"
  by (simp add: JudegWhetherRequestD2D_def Let_def prio_frame split: prod.split)

lemma prio_live [prio_frame]:
  "u_prio (ExchangeToLiveWithoutTS junk u) = u_prio u" "u_prio (ExitFromLiveWithoutTS junk u) = u_prio u"
  "u_prio (leave_live_for_d2d junk u) = u_prio u" "u_prio (cmu_start_live junk s u) = u_prio u"
  by (simp_all add: ExchangeToLiveWithoutTS_def ExitFromLiveWithoutTS_def leave_live_for_d2d_def
      cmu_start_live_def prio_frame)

lemma prio_pa [prio_frame]: "u_prio (PAHandle junk u) = u_prio u"
  by (simp add: PAHandle_def Let_def prio_frame split: prod.split)

lemma prio_ptt [prio_frame]: "u_prio (ReadOtherBCUPttState p u) = u_prio u"
  by (simp add: ReadOtherBCUPttState_def prio_frame split: option.split)

lemma prio_d2d_net [prio_frame]: "JudgeWhetherHaveD2DRequest junk s u = Some u' \<Longrightarrow> u_prio u' = u_prio u"
  by (auto simp: JudgeWhetherHaveD2DRequest_def Let_def prio_frame
      dest!: prio_exchange prio_handlers(3,4) split: if_splits)

lemma prio_cmu_call: "SendD2DAccordingToCMU junk u = Some u' \<Longrightarrow> u_prio u' = u_prio u"
  by (auto simp: SendD2DAccordingToCMU_def Let_def prio_frame dest!: prio_exchange)

lemma prio_cmu [prio_frame]: "BCUCMUCommunication junk s u = Some u' \<Longrightarrow> u_prio u' = u_prio u"
  by (auto simp: BCUCMUCommunication_def Let_def prio_frame dest!: prio_cmu_call prio_handlers(2)
      split: if_splits option.splits)

lemma prio_bookkeeping [prio_frame]: "pcu_bookkeeping s u = Some u' \<Longrightarrow> u_prio u' = u_prio u"
  by (auto simp: pcu_bookkeeping_def Let_def prio_frame split: if_splits prod.splits)

lemma prio_flags [prio_frame]: "u_prio (pa_key s u) = u_prio u" "u_prio (tms_live s u) = u_prio u"
  by (simp_all add: pa_key_def tms_live_def)

lemma prio_network [prio_frame]: "network_command junk s u = Some u' \<Longrightarrow> u_prio u' = u_prio u"
  by (auto simp: network_command_def Let_def prio_frame dest!: prio_cmu prio_d2d_net prio_bookkeeping
      split: if_splits option.splits)

lemma prio_round [prio_frame]: "SystemControl_round i u = Some u' \<Longrightarrow> u_prio u' = u_prio u"
  by (auto simp: SystemControl_round_def Let_def D2DReqAndResponseHandle_def prio_frame
      dest!: prio_timeout prio_handlers(1) prio_network split: option.splits)

section \<open>The handlers follow the machine\<close>

abbreviation (input) unit_follows :: "cunit \<Rightarrow> cunit option \<Rightarrow> bool" where
  "unit_follows \<equiv> follows unit_ok uctl unit_step"

lemma exchange_unit: "unit_ok u \<Longrightarrow> unit_follows u (exchange junk t s u)"
proof -
  assume u: "unit_ok u"
  obtain b where e: "exchange junk t s u = Some (u\<lparr>u_bcu := b\<rparr>)"
      and b: "ctl_of b = (case intercom_delta (c_intercom (uctl u)) t of
           None \<Rightarrow> uctl u | Some q \<Rightarrow> ctl_intercom q (uctl u))"
    using exchange_cases [OF u] by blast
  show ?thesis
  proof (cases "intercom_delta (c_intercom (uctl u)) t")
    case None
    then show ?thesis using e b u by (simp add: um.stay uctl_simps unit_oks)
  next
    case (Some q)
    then show ?thesis using e b u unit_step.intercom [OF intercom_delta_states [OF Some]]
      by (simp add: um.one uctl_simps unit_oks)
  qed
qed

lemma unit_from: "unit_follows v r \<Longrightarrow> uctl v = uctl u \<Longrightarrow> unit_follows u r"
  by (simp add: follows_def)

lemma unit_after: "unit_follows u r \<Longrightarrow> (\<And>v. uctl (f v) = uctl v) \<Longrightarrow> (\<And>v. unit_ok (f v) = unit_ok v) \<Longrightarrow>
    unit_follows u (map_option f r)"
  by (rule um.map) (auto intro: um.stay)

lemma loop_step_unit: "loop_step c c' \<Longrightarrow> unit_step c c'"
proof (induction rule: loop_step.cases)
  case (audio c d)
  then show ?case using unit_step.other [where c = c and d = d and n = "c_pcu c"] by simp
qed (auto intro: unit_step.intros intercom_delta_states)

lemma loop_unit: "loop_follows_from u r \<Longrightarrow> unit_follows u r"
  using rtranclp_mono [of loop_step unit_step] loop_step_unit by (auto simp: follows_def le_fun_def)

lemma force_unit: "unit_ok u \<Longrightarrow> unit_follows u (ForceBreakD2DToD2P junk u)"
  by (auto simp: ForceBreakD2DToD2P_def exchange_unit um.stay unit_oks
      intro!: unit_after) (simp add: uctl_def ctl_of_def on_unit_def)

lemma live_exit_unit: "unit_ok u \<Longrightarrow> unit_follows u (Some (ExitFromLiveWithoutTS junk u))"
  by (simp add: um.one uctl_live unit_step.ann)

lemma close_unit: "unit_ok u \<Longrightarrow> unit_follows u (Some (ClosePA junk u))"
  by (simp add: ClosePA_def live_exit_unit um.stay)

lemma outer_unit: "unit_ok u \<Longrightarrow> unit_follows u (Some (JudgeWhetherHaveOuter3D5Triger junk u))"
  by (rule um.stay) (simp_all add: JudgeWhetherHaveOuter3D5Triger_def uctl_simps unit_oks)

lemma occ_unit: "unit_ok u \<Longrightarrow> unit_follows u (Some (JudgeWhetherOCCTriger junk s u))"
  by (rule um.stay) (simp_all add: JudgeWhetherOCCTriger_def Let_def uctl_simps unit_oks ctl_simps,
      simp add: uctl_def)

lemma pcu_unit: "unit_ok u \<Longrightarrow> unit_follows u (Some (on_unit (\<lambda>b. b\<lparr>recept_pcu_no := n\<rparr>) u))"
proof -
  assume u: "unit_ok u"
  have "uctl (on_unit (\<lambda>b. b\<lparr>recept_pcu_no := n\<rparr>) u) = (uctl u)\<lparr>c_pcu := n\<rparr>"
    by (simp add: uctl_def ctl_of_def on_unit_def)
  then show ?thesis
    using u unit_step.other [where c = "uctl u" and d = "c_dst (uctl u)" and n = n]
    by (simp add: um.one unit_oks)
qed

lemma intercom_unit: "unit_ok u \<Longrightarrow> unit_follows u (map_option fst (IntercomStateHangle junk (u, s)))"
proof -
  assume u: "unit_ok u"
  let ?u1 = "if si_type_intercom s = D2P_INTERCOMM_EVENT \<and> intercomm_active s = 1 \<and> intercomm_request_or_over s = 0
    then on_unit (\<lambda>b. b\<lparr>recept_pcu_no := unat (d2p_intercomm_pcu_device_no s)\<rparr>) u else u"
  have u1: "unit_follows u (Some ?u1)" "unit_ok ?u1"
    using u by (simp_all add: pcu_unit um.stay unit_oks)
  have fst: "map_option fst (map_option (\<lambda>(b, s1). (v\<lparr>u_bcu := b\<rparr>, s1)) (StateMachineExchange junk (u_rules v) t (u_bcu v, s)))
      = exchange junk t s v" for v t
    by (simp add: exchange_def option.map_comp comp_def case_prod_beta split: option.split)
  have keep: "unit_follows u (Some (on_unit (\<lambda>b. b\<lparr>recv_cmd_info_of_intercom := f b\<rparr>) ?u1))" for f
    by (rule um.trans [OF u1(1)], rule um.stay)
      (use u1(2) in \<open>simp_all only: unit_oks uctl_on_unit\<close>, simp_all add: uctl_def ctl_of_def)
  show ?thesis
  proof (cases "si_type_intercom s = INTERCOM_IDLE")
    case True
    then show ?thesis using u by (simp add: IntercomStateHangle_def um.stay)
  next
    case False
    then show ?thesis
      using um.trans [OF u1(1) exchange_unit [OF u1(2), of junk "GetEventType (bcu_active_intercom_state (u_bcu ?u1)) s" s]]
        keep [of "\<lambda>_. s"] keep [of "\<lambda>b. (recv_cmd_info_of_intercom b)\<lparr>si_src_no := 0, si_src_name := ''''\<rparr>"]
      unfolding IntercomStateHangle_def Let_def prod.case by (simp only: if_distrib [of "map_option fst"] fst option.map prod.sel if_split) simp
  qed
qed

lemma ann_unit:
  assumes "unit_ok u" and "prio_wf (u_prio u)" and "prio_ann (u_prio u)"
  shows "unit_follows u (Some (fst (ANNStateHangle junk (u, s))))"
proof -
  let ?r = "fst (fst (BcuDynamicStateExchange junk (u_prio u) (u_bcu u, s)))"
  have x: "unit_follows u (Some (u\<lparr>u_bcu := ?r\<rparr>))"
  proof (cases "ann_target (u_prio u) (bcu_active_ann_state (u_bcu u)) s")
    case None
    then have "?r = u_bcu u" by (simp add: exchange_ctl [OF assms(2)])
    then show ?thesis using assms(1) by (simp add: um.stay)
  next
    case (Some p)
    then have "ctl_of ?r = ctl_ann p (uctl u)"
      by (simp add: exchange_ctl [OF assms(2)] ctl_simps) (simp add: uctl_def)
    moreover have "p \<in> ann_states" by (rule ann_target_states [OF Some assms(3)])
    ultimately show ?thesis using assms(1) by (simp add: um.one unit_oks uctl_simps unit_step.ann)
  qed
  have "uctl (on_unit (\<lambda>b. b\<lparr>recv_cmd_info_of_ann := s\<rparr>) u) = uctl u"
    by (simp add: uctl_def ctl_of_def on_unit_def)
  then show ?thesis
    using x assms(1)
    by (auto simp: ANNStateHangle_def Let_def case_prod_beta unit_oks intro: um.stay)
qed

text \<open>The statements that jump to an intercom state.\<close>

lemma jump_unit:
  assumes "unit_ok u" and "q \<in> intercom_states" and "\<And>b. ctl_of (f b) = (ctl_of b)\<lparr>c_pcu := n\<rparr>"
  shows "unit_follows u (Some (on_unit (\<lambda>b. intercom_jump junk q (g b) (f b)) u))"
proof (rule um.trans)
  show "unit_follows u (Some (on_unit (\<lambda>b. b\<lparr>recept_pcu_no := n\<rparr>) u))" by (rule pcu_unit [OF assms(1)])
  have "uctl (on_unit (\<lambda>b. intercom_jump junk q (g b) (f b)) u) = ctl_intercom q ((uctl u)\<lparr>c_pcu := n\<rparr>)"
    by (simp add: uctl_simps ctl_simps assms(3)) (simp add: uctl_def)
  moreover have "uctl (on_unit (\<lambda>b. b\<lparr>recept_pcu_no := n\<rparr>) u) = (uctl u)\<lparr>c_pcu := n\<rparr>"
    by (simp add: uctl_def ctl_of_def on_unit_def)
  ultimately show "unit_follows (on_unit (\<lambda>b. b\<lparr>recept_pcu_no := n\<rparr>) u)
      (Some (on_unit (\<lambda>b. intercom_jump junk q (g b) (f b)) u))"
    using assms(1,2) by (simp add: um.one unit_oks unit_step.intercom)
qed

lemma unit_button: "unit_follows u (Some v) \<Longrightarrow> unit_follows u (Some (v\<lparr>d2p_button_state := n\<rparr>))"
  by (simp add: follows_def uctl_simps unit_oks)

lemma unit_if: "unit_follows u (Some v) \<Longrightarrow> unit_follows u (Some w) \<Longrightarrow> unit_follows u (Some (if P then v else w))"
  by simp

lemma pc_unit:
  assumes "unit_ok u"
  shows "unit_follows u (Some (PCHandle junk u))"
proof -
  obtain r btn where g: "GetD2PExternButtonState (u_btn u) = (r, btn)" by fastforce
  define dst where "dst = pcu_first (pcu_request_info_without_ts u)"
  let ?u1 = "u\<lparr>u_btn := btn\<rparr>"
  let ?u2 = "if ann_id ?u1 = 2 then ExitFromLiveWithoutTS junk ?u1 else ?u1"
  let ?on = "on_unit (\<lambda>b. intercom_jump junk D2PIntercom (d2p_package 1 0 dst junk b) (b\<lparr>recept_pcu_no := dst\<rparr>)) ?u2"
  let ?off = "on_unit (\<lambda>b. intercom_jump junk IdleIntercom (d2p_package 0 1 dst junk b)
      (b\<lparr>recept_pcu_no := dst, refuse_pcu_no := dst\<rparr>)) ?u1"
  have u1: "unit_ok ?u1" "uctl ?u1 = uctl u" using assms by (simp_all add: unit_oks uctl_simps)
  have u2: "unit_follows ?u1 (Some ?u2)" "unit_ok ?u2"
    using u1(1) live_exit_unit [OF u1(1)] by (auto intro: um.stay simp: uctl_live(4))
  have on: "unit_follows u (Some ?on)"
    by (rule unit_from [OF um.trans [OF u2(1) jump_unit [OF u2(2)]] u1(2)])
      (simp_all add: intercom_states_def ctl_of_def)
  have off: "unit_follows u (Some ?off)"
    by (rule unit_from [OF jump_unit [OF u1(1)] u1(2)]) (simp_all add: intercom_states_def ctl_of_def)
  have stay: "unit_follows u (Some ?u1)" "unit_follows u (Some u)"
    by (rule um.stay [OF u1], rule um.stay [OF assms refl])
  show ?thesis
    unfolding PCHandle_def Let_def g prod.case dst_def [symmetric]
    by (intro unit_if unit_button [OF on] unit_button [OF off] stay)
qed

lemma prio_uncalled [prio_frame]:
  "u_prio (fst (ANNStateHangle junk (u, s))) = u_prio u"
  "u_prio (ClosePA junk u) = u_prio u" "u_prio (JudgeWhetherHaveOuter3D5Triger junk u) = u_prio u"
  "u_prio (JudgeWhetherOCCTriger junk s u) = u_prio u"
  by (simp_all add: ANNStateHangle_def ClosePA_def JudgeWhetherHaveOuter3D5Triger_def
      JudgeWhetherOCCTriger_def Let_def case_prod_beta prio_frame)

lemma prio_pc [prio_frame]: "u_prio (PCHandle junk u) = u_prio u"
proof -
  obtain r btn where g: "GetD2PExternButtonState (u_btn u) = (r, btn)" by fastforce
  show ?thesis unfolding PCHandle_def Let_def g prod.case by (simp add: prio_frame)
qed

lemma prio_intercom [prio_frame]: "IntercomStateHangle junk (u, s) = Some (u', s') \<Longrightarrow> u_prio u' = u_prio u"
  by (auto simp: IntercomStateHangle_def Let_def prio_frame split: if_splits)

section \<open>Interleavings\<close>

datatype handler =
    Round round_input
  | AnnCommand send_info send_info
  | IntercomCommand send_info send_info
  | PassengerButton send_info
  | ForceBreak send_info
  | CloseLive send_info
  | Outer3D5 send_info
  | OccCommand send_info send_info

fun handle :: "handler \<Rightarrow> cunit \<Rightarrow> cunit option" where
  "handle (Round i) u = SystemControl_round i u"
| "handle (AnnCommand junk s) u = Some (fst (ANNStateHangle junk (u, s)))"
| "handle (IntercomCommand junk s) u = map_option fst (IntercomStateHangle junk (u, s))"
| "handle (PassengerButton junk) u = Some (PCHandle junk u)"
| "handle (ForceBreak junk) u = ForceBreakD2DToD2P junk u"
| "handle (CloseLive junk) u = Some (ClosePA junk u)"
| "handle (Outer3D5 junk) u = Some (JudgeWhetherHaveOuter3D5Triger junk u)"
| "handle (OccCommand junk s) u = Some (JudgeWhetherOCCTriger junk s u)"

fun handle_all :: "handler list \<Rightarrow> cunit \<Rightarrow> cunit option" where
  "handle_all [] u = Some u"
| "handle_all (h # hs) u = (case handle h u of None \<Rightarrow> None | Some v \<Rightarrow> handle_all hs v)"

fun handler_addressed :: "handler \<Rightarrow> bool" where
  "handler_addressed (Round i) = all_addressed [i]"
| "handler_addressed _ = True"

lemma prio_handle: "handle h u = Some u' \<Longrightarrow> u_prio u' = u_prio u"
  by (cases h) (auto simp: prio_frame)

lemma handle_unit:
  assumes "unit_ok u" and "prio_wf (u_prio u)" and "prio_ann (u_prio u)" and "handler_addressed h"
  shows "unit_follows u (handle h u)"
  using assms
  by (cases h) (simp_all add: loop_unit round_loop ann_unit intercom_unit pc_unit force_unit close_unit outer_unit occ_unit)

lemma handle_all_unit:
  assumes "unit_ok u" and "prio_wf (u_prio u)" and "prio_ann (u_prio u)" and "list_all handler_addressed hs"
  shows "unit_follows u (handle_all hs u)"
  using assms
proof (induction hs arbitrary: u)
  case (Cons h hs)
  obtain v where v: "handle h u = Some v" "unit_ok v" and f: "unit_follows u (Some v)"
    using handle_unit [of u h] Cons.prems by (auto simp: follows_def)
  then have "unit_follows v (handle_all hs v)" using Cons.prems prio_handle [OF v(1)] by (intro Cons.IH) auto
  then show ?case using um.trans [OF f] v(1) by simp
qed (simp add: um.stay)

lemma state_id_occ: "state_id p = 1 \<longleftrightarrow> p = OccAnn"
  by (cases p) simp_all

section \<open>Properties\<close>

text \<open>No interleaving of rounds of the main loop with the handlers that it does not call
  (commands for either machine, the passenger button, the forced break, the 3.5 mm input, the
  control centre) makes the unit read a bad pointer or leaves it in an illegal state: the
  announcement machine is in an announcement state, the intercom machine in an intercom state,
  the live lamp is lit exactly in the live state, and the intercom lamp exactly while the driver
  intercom is active or interrupts a passenger.\<close>

lemma handlers_keep_inv:
  assumes "unit_ok u" and "unit_inv (uctl u)" and "prio_wf (u_prio u)" and "prio_ann (u_prio u)"
    and "list_all handler_addressed hs"
  shows "\<exists>u'. handle_all hs u = Some u'
    \<and> bcu_active_ann_state (u_bcu u') \<in> ann_states
    \<and> bcu_active_intercom_state (u_bcu u') \<in> intercom_states
    \<and> live_button_state (u_bcu u') = (if bcu_active_ann_state (u_bcu u') = LiveAnn then 1 else 0)
    \<and> d2d_button_state (u_bcu u') = (if bcu_active_intercom_state (u_bcu u') \<in> {D2DIntercom, IntercomHangUp} then 1 else 0)"
  using um.keeps [OF handle_all_unit [OF assms(1,3,4,5)] assms(2)]
  by (auto simp: unit_inv_def uctl_def ctl_of_def)

text \<open>A live command is refused while the microphone is owned by anybody: it is overwritten, and
  the unit does not change.\<close>

lemma live_refused:
  assumes "si_type_ann s = LIVE_ANN_EVENT" and "ann_active s = 1" and "mic_owner (u_bcu u) \<noteq> NONE"
    and "bcu_active_ann_state (u_bcu u) \<noteq> LiveAnn"
  shows "ANNStateHangle junk (u, s) = (u, s\<lparr>si_src_no := 0, si_src_name := ''''\<rparr>)"
  using assms by (simp add: ANNStateHangle_def WhetherWantToExchangeState_def want_ann_def id_conv)

text \<open>The end of a driver intercom has no effect on the intercom machine when it comes through
  \<open>IntercomStateHangle\<close>: the trigger that \<open>GetEventType\<close> gives has no rule in that state. In the
  state in which the intercom interrupts a passenger the same command goes back to the passenger.\<close>

lemma intercom_command_gap:
  assumes "unit_ok u" and "si_type_ann s = ANN_IDLE" and "si_type_intercom s = D2D_INTERCOMM_EVENT"
    and "intercomm_active s = 0" and "bcu_active_ann_state (u_bcu u) \<noteq> OccAnn"
  shows "(bcu_active_intercom_state (u_bcu u) = D2DIntercom \<longrightarrow>
      map_option (\<lambda>(u', _). uctl u') (IntercomStateHangle junk (u, s)) = Some (uctl u))
    \<and> (bcu_active_intercom_state (u_bcu u) = IntercomHangUp \<longrightarrow>
      map_option (\<lambda>(u', _). uctl u') (IntercomStateHangle junk (u, s)) = Some (ctl_intercom D2PIntercom (uctl u)))"
proof -
  have t: "GetEventType p s = EVENT_CONFIRM_TRANSFER_TO_D2P" for p
    using assms(2-4) by (simp add: GetEventType_def ann_event_type_def Let_def)
  have w: "WhetherWantToExchangeState u s \<noteq> 0"
    using assms(2-4) by (simp add: WhetherWantToExchangeState_def Let_def)
  have e: "map_option (\<lambda>(u', _). uctl u') (IntercomStateHangle junk (u, s))
      = map_option uctl (exchange junk EVENT_CONFIRM_TRANSFER_TO_D2P s u)"
    using assms(3,5) t w
    by (simp add: IntercomStateHangle_def exchange_def option.map_comp comp_def case_prod_beta id_conv state_id_occ del: One_nat_def
        split: option.split)
  obtain b where "exchange junk 18 s u = Some (u\<lparr>u_bcu := b\<rparr>)"
      and "ctl_of b = (case intercom_delta (c_intercom (uctl u)) 18 of
           None \<Rightarrow> uctl u | Some q \<Rightarrow> ctl_intercom q (uctl u))"
    using exchange_cases [OF assms(1)] by blast
  then show ?thesis unfolding e by (simp add: uctl_simps uctl_fields)
qed

end
