(* ===== verification/Audio_Loops.thy ===== *)
theory Audio_Loops
  imports Handler_Safety Char_Buffer Block_Buffer
begin

text \<open>
  The audio thread: playing from the byte buffers to the codec (\<open>PlayAudioTwice\<close> and its
  variants of \<open>audio_sample.cxx\<close> and \<open>bcu_main.cxx\<close>), taking the microphone into the buffers
  that the network thread sends, and one round of the thread itself
  (\<open>BcuMicSampleAndPlayEntry\<close> of \<open>bcu_main.cxx\<close>) on the control unit and the heap of byte
  buffers. The headers of the sound files and the sound card's mode are from
  \<open>sound_driver.cxx\<close>.

  The codec is an input of a round: what \<open>cyg_io_bread\<close> answers and stores, and the number of
  bytes that \<open>cyg_io_bwrite\<close> leaves in its \<open>len\<close> argument. The other threads may act on the
  heap where the code allows for it, at its three tests of the clear flag.
\<close>

section \<open>The sound card\<close>

text \<open>
  \<open>BCU_SND_MODE_PLAYBACK\<close> is 0 and \<open>BCU_SND_MODE_CODEC\<close> is 1. \<open>ok\<close> is whether the driver
  accepts the request. The mode is remembered before the driver is asked.
\<close>

definition OpenSndCard :: "bool \<Rightarrow> string \<Rightarrow> int \<Rightarrow> int \<times> int" where
  "OpenSndCard ok snd_mode current_sounder_mode =
     (if snd_mode = ''playback'' then (0, if ok then 0 else -1)
      else if snd_mode = ''codec'' then (1, if ok then 0 else -1)
      else (current_sounder_mode, -1))"

text \<open>\<open>state\<close> is the driver's answer; the mode is not changed.\<close>

definition CloseSndCard :: "int \<Rightarrow> string \<Rightarrow> string \<Rightarrow> int" where
  "CloseSndCard state snd_mode close_type =
     (if snd_mode \<noteq> ''playback'' \<and> snd_mode \<noteq> ''codec'' then -1
      else if close_type \<noteq> ''finish'' \<and> close_type \<noteq> ''cancel'' then -1
      else state)"

definition GetSndCurrentMode :: "int \<Rightarrow> int" where
  "GetSndCurrentMode current_sounder_mode =
     (if current_sounder_mode = 0 then 1 else if current_sounder_mode = 1 then 2 else -1)"

text \<open>The header of a G.711 sound file, and the volume register that \<open>AdjustBCUSNDVolume\<close> sets.\<close>

definition RIFFHeader711 :: "byte list" where
  "RIFFHeader711 =
     [0x52, 0x49, 0x46, 0x46, 0xff, 0xff, 0xff, 0xff, 0x57, 0x41, 0x56, 0x45, 0x66, 0x6d, 0x74, 0x20,
      0x12, 0x00, 0x00, 0x00, 0x07, 0x00, 0x01, 0x00, 0x40, 0x1f, 0x00, 0x00, 0xd7, 0x0f, 0x00, 0x00,
      0x01, 0x00, 0x08, 0x00, 0x00, 0x00, 0x66, 0x61, 0x63, 0x74, 0x04, 0x00, 0x00, 0x00, 0x00, 0x53,
      0x07, 0x00, 0x64, 0x61, 0x74, 0x61, 0xff, 0xff, 0xff, 0xff]"

definition write_wavheader :: "char_heap \<Rightarrow> ptr \<Rightarrow> char_heap" where
  "write_wavheader h p = fst (CharBufferWrite h p (Some (take 58 RIFFHeader711)) 58)"

definition write_zeros :: "char_heap \<Rightarrow> ptr \<Rightarrow> char_heap" where
  "write_zeros h p = fst (CharBufferWrite h p (Some (replicate 2048 0)) 2048)"

definition AdjustBCUSNDVolume :: "byte \<Rightarrow> nat" where
  "AdjustBCUSNDVolume current_volume = unat current_volume * 2 ^ 8 + unat current_volume"

section \<open>Playing\<close>

text \<open>What the other threads do to the heap before each of the three tests of the clear flag.\<close>

record others =
  oth_1 :: "char_heap \<Rightarrow> char_heap"
  oth_2 :: "char_heap \<Rightarrow> char_heap"
  oth_3 :: "char_heap \<Rightarrow> char_heap"

text \<open>The first out parameter of \<open>CharBufferCurrentReadPointer_temp\<close>; a bad identifier leaves
  the variable as it was.\<close>

definition read_total :: "nat \<Rightarrow> char_heap \<Rightarrow> ptr \<Rightarrow> nat" where
  "read_total old h p =
     (case CharBufferCurrentReadPointer h p of None \<Rightarrow> old | Some (_, tot, _) \<Rightarrow> tot)"

text \<open>The flag is kept in an \<open>unsigned char\<close> and compared with the \<open>int\<close> that is read again.\<close>

definition clear_flag :: "char_heap \<Rightarrow> ptr \<Rightarrow> int" where
  "clear_flag h p = CharBufferCheckClearFlag h p mod 2 ^ 8"

definition was_cleared :: "int \<Rightarrow> char_heap \<Rightarrow> ptr \<Rightarrow> bool" where
  "was_cleared flag h p \<longleftrightarrow> flag \<noteq> CharBufferCheckClearFlag h p"

text \<open>
  \<open>tmp_buff\<close> of \<open>room\<close> bytes is filled from the pending buffer and then from the main one;
  \<open>None\<close> is the return of -6 after an error of the first read.
\<close>

definition fill_tmp :: "nat \<Rightarrow> ptr \<Rightarrow> ptr \<Rightarrow> char_heap \<Rightarrow> char_heap \<times> byte list option" where
  "fill_tmp room src pend h =
     (let (h1, out1, r1) = CharBufferRead h pend False room
      in if r1 > 0
         then (if r1 < int room
               then (let (h2, out2, r2) = CharBufferRead h1 src False (room - nat r1)
                     in (h2, Some (out1 @ (if r2 > 0 then out2 else []))))
               else (h1, Some out1))
         else if r1 = -2
         then (let (h2, out2, r2) = CharBufferRead h1 src False room
               in (h2, Some (if r2 > 0 then out2 else [])))
         else (h1, None))"

text \<open>\<open>len\<close> after \<open>cyg_io_bwrite\<close> is the number of bytes not played; more than were given counts as none.\<close>

definition left_after :: "byte list \<Rightarrow> 32 word \<Rightarrow> nat" where
  "left_after tmp len = (if len > of_nat (length tmp) then 0 else unat len)"

definition codec_took :: "byte list \<Rightarrow> 32 word \<Rightarrow> byte list" where
  "codec_took tmp len = take (length tmp - left_after tmp len) tmp"

text \<open>
  The common body of \<open>PlayAudioTwice\<close>, \<open>PlayAudioTwice_analog\<close> and \<open>PlayAudioTwice_0525\<close>:
  \<open>start\<close> is the number of bytes above which playing begins, \<open>border\<close> is
  \<open>border_of_audia_data_size\<close>. The results are the heap, the bytes handed to the codec, if
  any, and the return value.
\<close>

definition play_twice ::
  "nat \<Rightarrow> nat \<Rightarrow> others \<Rightarrow> 32 word \<Rightarrow> ptr \<Rightarrow> ptr \<Rightarrow> char_heap \<Rightarrow> char_heap \<times> byte list option \<times> int" where
  "play_twice start border env len src pend h =
     (let flag = clear_flag h src;
          current_total_bytes = read_total 0 h src + read_total 0 h pend
      in if current_total_bytes \<le> start then (h, None, -5)
         else let h1 = oth_1 env h
         in if was_cleared flag h1 src then (h1, None, -1)
         else if current_total_bytes > border
         then (case fill_tmp 3072 src pend h1 of
                 (h2, None) \<Rightarrow> (h2, None, -6)
               | (h2, Some tmp) \<Rightarrow>
                   if length tmp < border then (h2, None, -6)
                   else let h3 = oth_2 env h2
                   in if was_cleared flag h3 src then (h3, None, -1)
                   else let h4 = oth_3 env h3
                   in if was_cleared flag h4 src then (h4, Some tmp, -1)
                   else let left_len = left_after tmp len
                   in (if left_len > 0
                       then fst (CharBufferWrite h4 pend (Some (drop (length tmp - left_len) tmp)) left_len)
                       else h4, Some tmp, 0))
         else (h1, None, -2))"

definition PlayAudioTwice :: "others \<Rightarrow> 32 word \<Rightarrow> ptr \<Rightarrow> ptr \<Rightarrow> char_heap \<Rightarrow> char_heap \<times> byte list option \<times> int" where
  "PlayAudioTwice = play_twice 2234 2234"

definition PlayAudioTwice_analog :: "others \<Rightarrow> 32 word \<Rightarrow> ptr \<Rightarrow> ptr \<Rightarrow> char_heap \<Rightarrow> char_heap \<times> byte list option \<times> int" where
  "PlayAudioTwice_analog = play_twice 64 64"

definition PlayAudioTwice_0525 :: "others \<Rightarrow> 32 word \<Rightarrow> ptr \<Rightarrow> ptr \<Rightarrow> char_heap \<Rightarrow> char_heap \<times> byte list option \<times> int" where
  "PlayAudioTwice_0525 = play_twice (1024 * 3 + 64) 2234"

text \<open>
  The players of the intercom keep two counters: how many blocks were played, and whether the
  codec runs steadily. Then what waits beyond 3000 bytes of the main buffer is thrown away
  (the excess is an unsigned difference); the bytes thrown away pass through \<open>tmp_buff\<close>.
\<close>

type_synonym counters = "byte \<times> byte"

definition drop_backlog :: "ptr \<Rightarrow> ptr \<Rightarrow> byte list \<Rightarrow> nat \<Rightarrow> char_heap \<Rightarrow> char_heap \<times> byte list" where
  "drop_backlog src pend tmp main h =
     (let h1 = (if main \<ge> 3000 then CharBufferClear h pend else h);
          excess = (of_nat main - 3000 :: 32 word)
      in if excess > 0 \<and> excess < 3024
         then (let (h2, out, _) = CharBufferRead h1 src False (unat excess) in (h2, mem_put tmp 0 out))
         else (h1, tmp))"

text \<open>
  The common body of \<open>PlayAudioTwice_D2P\<close> and \<open>PlayAudioTwice_D2D\<close>: \<open>tmp_buff\<close> (with the
  contents \<open>tmp\<close> of the stack) has \<open>room\<close> bytes, is filled up to \<open>pad\<close> from
  \<open>mic_blank_audio_data\<close>, and \<open>send\<close> bytes of it are handed to the codec. What the codec leaves is dropped.
\<close>

definition play_padded ::
  "nat \<Rightarrow> nat \<Rightarrow> nat \<Rightarrow> byte list \<Rightarrow> byte list \<Rightarrow> others \<Rightarrow> ptr \<Rightarrow> ptr \<Rightarrow> counters \<times> char_heap
    \<Rightarrow> (counters \<times> char_heap) \<times> byte list option \<times> int" where
  "play_padded room pad send blank tmp env src pend ch =
     (let ((worked, stable), h) = ch;
          flag = clear_flag h src;
          pending = read_total 0 h pend;
          main = read_total 0 h src;
          steady = worked \<ge> 10 \<or> stable = 1;
          cs = (if steady then (0, 1) else (worked, stable));
          trim = steady \<and> main + pending > 3000;
          (h1, tmp1) = (if trim then drop_backlog src pend tmp main h else (h, tmp));
          current_total_bytes =
            (if trim then read_total main h1 src + read_total pending h1 pend else main + pending)
      in if trim \<and> current_total_bytes \<le> 2232 then ((cs, h1), None, -5)
         else let h2 = oth_1 env h1
         in if was_cleared flag h2 src then ((cs, h2), None, -1)
         else if current_total_bytes > 64
         then (case fill_tmp room src pend h2 of
                 (h3, None) \<Rightarrow> ((cs, h3), None, -6)
               | (h3, Some got) \<Rightarrow>
                   let h4 = oth_2 env h3
                   in if was_cleared flag h4 src then ((cs, h4), None, -1)
                   else let tmp2 = mem_put tmp1 0 got;
                            tmp3 = (if length got < pad
                                    then mem_put tmp2 (length got) (take (pad - length got) blank)
                                    else tmp2);
                            h5 = oth_3 env h4
                   in (((fst cs + 1, snd cs), h5), Some (take send tmp3),
                       if was_cleared flag h5 src then -1 else 0))
         else ((cs, h2), None, -2))"

definition PlayAudioTwice_D2P ::
  "byte list \<Rightarrow> byte list \<Rightarrow> others \<Rightarrow> ptr \<Rightarrow> ptr \<Rightarrow> counters \<times> char_heap \<Rightarrow> (counters \<times> char_heap) \<times> byte list option \<times> int" where
  "PlayAudioTwice_D2P = play_padded 3072 3000 3000"

definition PlayAudioTwice_D2D ::
  "byte list \<Rightarrow> byte list \<Rightarrow> others \<Rightarrow> ptr \<Rightarrow> ptr \<Rightarrow> counters \<times> char_heap \<Rightarrow> (counters \<times> char_heap) \<times> byte list option \<times> int" where
  "PlayAudioTwice_D2D = play_padded 3500 3072 3500"

text \<open>
  \<open>BcuPlayAudio\<close> (\<open>block\<close> 2048) and \<open>BcuPlayAudio_analog\<close> (\<open>block\<close> 1024): a whole block or
  nothing; the number is \<open>begin_to_broadcast_d2d\<close>.
\<close>

definition play_block :: "nat \<Rightarrow> ptr \<Rightarrow> nat \<times> char_heap \<Rightarrow> (nat \<times> char_heap) \<times> byte list option" where
  "play_block block src nh =
     (let (begin_d2d, h) = nh; current_total_bytes = read_total 0 h src
      in if begin_d2d = 1 \<and> current_total_bytes < block then ((begin_d2d, h), None)
         else if current_total_bytes < block then ((0, h), None)
         else (let (h1, out, _) = CharBufferRead h src False block in ((0, h1), Some out)))"

definition BcuPlayAudio :: "ptr \<Rightarrow> nat \<times> char_heap \<Rightarrow> (nat \<times> char_heap) \<times> byte list option" where
  "BcuPlayAudio = play_block (2 * 1024)"

definition BcuPlayAudio_analog :: "ptr \<Rightarrow> nat \<times> char_heap \<Rightarrow> (nat \<times> char_heap) \<times> byte list option" where
  "BcuPlayAudio_analog = play_block (1 * 1024)"

section \<open>The audio thread\<close>

text \<open>
  The state of the thread: the control unit (whose states, keys and request it reads), the
  heap of byte buffers with the identifiers kept in \<open>bcu_state\<close>, the counters of the players,
  and its own variables. \<open>a_blank\<close> is \<open>mic_blank_audio_data\<close>, \<open>a_tone\<close> is
  \<open>pcu_alarm_audio\<close>. \<open>a_played\<close> are the bytes that the codec has taken, in order.
\<close>

record audio =
  a_unit :: cunit
  a_heap :: char_heap
  a_send :: ptr
  a_recv :: ptr
  a_local :: ptr
  a_pending :: ptr
  a_alarm :: ptr
  a_counters :: counters
  idle_pcu_req_count :: byte
  led_toggles :: nat
  whether_send_blank :: nat
  live_running_counts :: nat
  a_blank :: "byte list"
  a_tone :: "byte list"
  a_played :: "byte list"

text \<open>
  The inputs of a round: the pins, the answer of \<open>cyg_io_bread\<close> and the bytes it stored, what
  \<open>cyg_io_bwrite\<close> leaves in its first and second call, the contents of the stack, and the
  push-to-talk package of the other driver, if one is waiting.
\<close>

record mic_tick =
  mt_pins :: readings
  mt_stat :: int
  mt_mic :: "byte list"
  mt_left :: "32 word"
  mt_left2 :: "32 word"
  mt_env :: others
  mt_stack :: "byte list"
  mt_ptt :: "nat option"

abbreviation (input) ub :: "audio \<Rightarrow> bcu" where "ub a \<equiv> u_bcu (a_unit a)"

definition on_ub :: "(bcu \<Rightarrow> bcu) \<Rightarrow> audio \<Rightarrow> audio" where
  "on_ub f a = a\<lparr>a_unit := on_unit f (a_unit a)\<rparr>"

definition put_audio :: "ptr \<Rightarrow> byte list \<Rightarrow> audio \<Rightarrow> audio" where
  "put_audio p bs a = a\<lparr>a_heap := fst (CharBufferWrite (a_heap a) p (Some bs) (length bs))\<rparr>"

text \<open>The bytes that a read of the microphone gives; none after an error.\<close>

definition mic_bytes :: "mic_tick \<Rightarrow> byte list" where
  "mic_bytes t = (if mt_stat t < 0 then [] else mt_mic t)"

text \<open>
  The counter of the live monitor: one more every second up to 30, and back to 0 when somebody speaks.
\<close>

definition alarm_func_handle_live_monitor :: "audio \<Rightarrow> audio" where
  "alarm_func_handle_live_monitor a =
     (if live_running_counts a < 30 then a\<lparr>live_running_counts := live_running_counts a + 1\<rparr> else a)"

definition ResetLiveMonitorCounts :: "audio \<Rightarrow> audio" where
  "ResetLiveMonitorCounts a = a\<lparr>live_running_counts := 0\<rparr>"

text \<open>This unit may speak to the amplifiers: the train is not coupled, or it has the initiative.\<close>

definition has_initiative :: "bcu \<Rightarrow> bool" where
  "has_initiative b \<longleftrightarrow> bcu_mcu_connect_state b = 0
     \<or> (bcu_mcu_connect_state b = 1 \<and> bcu_have_the_initiative_of_cmu b = 1)"

text \<open>This driver may speak to the other one: not coupled, or holding the key alone.\<close>

definition may_speak_d2d :: "bcu \<Rightarrow> bool" where
  "may_speak_d2d b \<longleftrightarrow> bcu_mcu_connect_state b = 0
     \<or> (bcu_mcu_connect_state b = 1 \<and> this_bcu_ptt_state b = 1 \<and> other_bcu_ptt_state b = 0)"

definition PutMicSampleDataintoBuffer_EAMP :: "mic_tick \<Rightarrow> audio \<Rightarrow> audio" where
  "PutMicSampleDataintoBuffer_EAMP t a =
     (if bc_ptt_key (ub a) = 1
      then (let a1 = ResetLiveMonitorCounts a; rx = mic_bytes t
            in if length rx > 0 \<and> has_initiative (ub a1)
               then put_audio (a_local a1) rx (put_audio (a_send a1) rx a1) else a1)
      else a)"

definition PutMicSampleDataintoBuffer_EAMP_Outer :: "mic_tick \<Rightarrow> audio \<Rightarrow> audio" where
  "PutMicSampleDataintoBuffer_EAMP_Outer t a =
     (let rx = mic_bytes t
      in if length rx > 0 then put_audio (a_local a) rx (put_audio (a_send a) rx a) else a)"

definition PutMicSampleDataintoBuffer_D2P :: "mic_tick \<Rightarrow> audio \<Rightarrow> audio" where
  "PutMicSampleDataintoBuffer_D2P t a = put_audio (a_send a) (mic_bytes t) a"

definition PutMicSampleDataintoBuffer_BCU :: "mic_tick \<Rightarrow> audio \<Rightarrow> audio" where
  "PutMicSampleDataintoBuffer_BCU t a =
     (if bc_ptt_key (ub a) = 1 then put_audio (a_send a) (mic_bytes t) a else a)"

definition PutMicSampleDataintoBuffer_0525 :: "mic_tick \<Rightarrow> ptr \<Rightarrow> audio \<Rightarrow> audio" where
  "PutMicSampleDataintoBuffer_0525 t p a =
     (let rx = mic_bytes t in if length rx > 0 then put_audio p rx a else a)"

text \<open>The push-to-talk key is told to the passenger's unit, or to the other driver's, when it changed.\<close>

definition SendPTTStateToPCU :: "bcu \<Rightarrow> bcu" where
  "SendPTTStateToPCU b =
     (if this_bcu_ptt_state b \<noteq> bc_ptt_key b then SendCurrentBCUPTTStateToPCU b else b)"

definition SendPTTStateToBCU :: "bcu \<Rightarrow> bcu" where
  "SendPTTStateToBCU b =
     (if this_bcu_ptt_state b \<noteq> bc_ptt_key b then SendPTTStateToBCU_Once b else b)"

text \<open>The players on the thread's state; the bytes that the codec took are logged.\<close>

definition log_played :: "byte list option \<Rightarrow> 32 word \<Rightarrow> audio \<Rightarrow> audio" where
  "log_played d len a =
     (case d of None \<Rightarrow> a | Some tmp \<Rightarrow> a\<lparr>a_played := a_played a @ codec_took tmp len\<rparr>)"

definition play_alarm :: "others \<Rightarrow> 32 word \<Rightarrow> audio \<Rightarrow> audio \<times> int" where
  "play_alarm env len a =
     (let (h, d, r) = PlayAudioTwice env len (a_alarm a) (a_pending a) (a_heap a)
      in (log_played d len (a\<lparr>a_heap := h\<rparr>), r))"

definition play_intercom ::
  "(byte list \<Rightarrow> byte list \<Rightarrow> others \<Rightarrow> ptr \<Rightarrow> ptr \<Rightarrow> counters \<times> char_heap
     \<Rightarrow> (counters \<times> char_heap) \<times> byte list option \<times> int) \<Rightarrow> mic_tick \<Rightarrow> audio \<Rightarrow> audio" where
  "play_intercom player t a =
     (let ((cs, h), d, _) = player (a_blank a) (mt_stack t) (mt_env t) (a_recv a) (a_pending a) (a_counters a, a_heap a)
      in log_played d (mt_left t) (a\<lparr>a_counters := cs, a_heap := h\<rparr>))"

text \<open>Playing starts when enough has arrived.\<close>

definition start_playing :: "nat \<Rightarrow> bool \<Rightarrow> audio \<Rightarrow> audio" where
  "start_playing enough hang_up a =
     (if play_audio (ub a) = 0 \<and> read_total 0 (a_heap a) (a_recv a) \<ge> enough
      then (let a1 = on_ub (\<lambda>b. b\<lparr>play_audio := 1\<rparr>) a;
                h = (if hang_up then write_wavheader (CharBufferClear (a_heap a1) (a_pending a1)) (a_pending a1)
                     else a_heap a1)
            in a1\<lparr>a_heap := h, a_counters := (0, 0)\<rparr>)
      else a)"

text \<open>\<open>blank_audio_data\<close>, 1024 bytes of \<open>0xff\<close>, follows the end of a speech.\<close>

definition blank_audio_data :: "byte list" where
  "blank_audio_data = replicate (1024 * 1) 0xff"

text \<open>The branches of the round: the live announcement,\<close>

definition sample_live :: "mic_tick \<Rightarrow> audio \<Rightarrow> audio" where
  "sample_live t a =
     (let a1 = PutMicSampleDataintoBuffer_EAMP t a;
          a2 = (if this_bcu_ptt_state (ub a1) \<noteq> bc_ptt_key (ub a1)
                then (let a' = on_ub (\<lambda>b. b\<lparr>this_bcu_ptt_state := bc_ptt_key b\<rparr>) a1
                      in if this_bcu_ptt_state (ub a') = 0 then a'\<lparr>whether_send_blank := 5\<rparr> else a')
                else a1)
      in if whether_send_blank a2 > 0 \<and> has_initiative (ub a2)
         then (let a3 = a2\<lparr>whether_send_blank := 0\<rparr>
               in put_audio (a_local a3) blank_audio_data (put_audio (a_send a3) blank_audio_data a3))
         else a2)"

text \<open>the intercom with a passenger,\<close>

definition sample_d2p :: "mic_tick \<Rightarrow> audio \<Rightarrow> audio" where
  "sample_d2p t a =
     (let a1 = PutMicSampleDataintoBuffer_D2P t a;
          a2 = (if begin_to_broadcast_audio_data (ub a1) = 1
                then (let a' = start_playing (1024 * 1) False a1
                      in if play_audio (ub a') = 1 then play_intercom PlayAudioTwice_D2P t a' else a')
                else a1)
      in on_ub SendPTTStateToPCU a2)"

text \<open>the intercom with the other driver (\<open>hang_up\<close> when a passenger is on hold),\<close>

definition sample_d2d :: "bool \<Rightarrow> mic_tick \<Rightarrow> audio \<Rightarrow> audio" where
  "sample_d2d hang_up t a =
     (let a1 = (if may_speak_d2d (ub a) then PutMicSampleDataintoBuffer_BCU t a else a);
          a2 = (if bcu_mcu_connect_state (ub a1) = 1
                then (let a' = (if other_bcu_ptt_state (ub a1) = 0 then on_ub SendPTTStateToBCU a1 else a1)
                      in a'\<lparr>a_unit := ReadOtherBCUPttState (mt_ptt t) (a_unit a')\<rparr>)
                else a1);
          a3 = start_playing (1024 * 3) hang_up a2
      in if play_audio (ub a3) = 1 then play_intercom PlayAudioTwice_D2D t a3 else a3)"

text \<open>
  and no intercom, when the request of a passenger is sounded. At the end of the tone the
  buffer is read again from its beginning, without 48 bytes for the header.
\<close>

definition alarm_reset :: "audio \<Rightarrow> audio" where
  "alarm_reset a =
     (let a1 = on_ub BcuResetPlayAlarmAudioWhenD2pReq a
      in a1\<lparr>a_heap := CharBufferClear (CharBufferClear (a_heap a1) (a_alarm a1)) (a_pending a1)\<rparr>)"

definition load_alarm :: "audio \<Rightarrow> audio" where
  "load_alarm a =
     (if open_snd_playback (ub a) = 1
      then (let a1 = on_ub (\<lambda>b. b\<lparr>open_snd_playback := 2\<rparr>) a
            in put_audio (a_alarm a1) (a_tone a1) (a1\<lparr>a_heap := write_wavheader (a_heap a1) (a_alarm a1)\<rparr>))
      else a)"

definition rewind_alarm :: "audio \<Rightarrow> audio" where
  "rewind_alarm a =
     (let a1 = on_ub (call DisableAudioSampleTimer) a
      in a1\<lparr>a_heap := fst (CharBufferRead (CharBufferBrush (a_heap a1) (a_alarm a1)) (a_alarm a1) False 48)\<rparr>)"

definition sound_alarm :: "mic_tick \<Rightarrow> audio \<Rightarrow> audio" where
  "sound_alarm t a =
     (if pcu_alarm_playing (ub a) = 1
      then (let (a1, r) = play_alarm (mt_env t) (mt_left t) a
            in if r = -5
               then (let a2 = fst (play_alarm (mt_env t) (mt_left2 t) (rewind_alarm a1))
                     in on_ub (\<lambda>b. b\<lparr>pcu_alarm_playing_again := 1\<rparr>)
                          (a2\<lparr>a_heap := CharBufferClear (a_heap a2) (a_pending a2)\<rparr>))
               else a1)
      else a)"

definition sample_idle :: "mic_tick \<Rightarrow> audio \<Rightarrow> audio" where
  "sample_idle t a =
     (if request_number (ub a) \<noteq> 0
      then sound_alarm t (load_alarm
             (if idle_pcu_req_count a \<ge> 3 then a\<lparr>idle_pcu_req_count := 0, led_toggles := led_toggles a + 1\<rparr>
              else a\<lparr>idle_pcu_req_count := idle_pcu_req_count a + 1\<rparr>))
      else (let a1 = on_ub (call (Led 2 False)) a
            in if pcu_alarm_playing (ub a1) = 1 then alarm_reset a1 else a1))"

text \<open>One round of the thread, from its semaphore on.\<close>

definition scan_keys :: "mic_tick \<Rightarrow> audio \<Rightarrow> audio" where
  "scan_keys t a =
     (let btn = GetPAAllOuterButtonState2 (mt_pins t) (u_btn (a_unit a))
      in a\<lparr>a_unit := on_unit (\<lambda>b. b\<lparr>bc_ptt_key := nat (GetPTTState btn)\<rparr>) ((a_unit a)\<lparr>u_btn := btn\<rparr>)\<rparr>)"

definition outer_plays :: "bcu \<Rightarrow> bool" where
  "outer_plays b \<longleftrightarrow> state_id (bcu_active_ann_state b) = MIC_3D5_OUTER_EVENT
     \<and> state_id (bcu_active_intercom_state b) \<noteq> D2P_INTERCOMM_EVENT
     \<and> current_state_ann b = MIC_3D5_OUTER_EVENT \<and> bcu_mcu_connect_state b = 0"

definition live_plays :: "bcu \<Rightarrow> bool" where
  "live_plays b \<longleftrightarrow> state_id (bcu_active_ann_state b) = LIVE_ANN_EVENT
     \<and> state_id (bcu_active_intercom_state b) \<noteq> D2P_INTERCOMM_EVENT
     \<and> current_state_ann b = LIVE_ANN_EVENT"

definition BcuMicSampleAndPlay_round :: "mic_tick \<Rightarrow> audio \<Rightarrow> audio" where
  "BcuMicSampleAndPlay_round t a0 =
     (let a1 = scan_keys t a0;
          a = (if outer_plays (ub a1) then PutMicSampleDataintoBuffer_EAMP_Outer t a1 else a1);
          intercom = state_id (bcu_active_intercom_state (ub a))
      in if live_plays (ub a) then sample_live t a
         else if intercom = D2P_INTERCOMM_EVENT then sample_d2p t a
         else if intercom = D2D_INTERCOMM_EVENT then sample_d2d False t a
         else if intercom = D2D_HANGUP_D2P_EVENT then sample_d2d True t a
         else if intercom = INTERCOM_IDLE then sample_idle t a
         else a)"

section \<open>What a step does to the heap\<close>

abbreviation (input) hview :: "char_heap \<Rightarrow> ptr \<Rightarrow> byte list" where
  "hview h p \<equiv> cb_view (ch_bufs h p)"

definition room_in :: "char_heap \<Rightarrow> ptr \<Rightarrow> nat" where
  "room_in h p = cb_size (ch_bufs h p) - 1 - length (hview h p)"

text \<open>Only the buffers of \<open>P\<close> change, and of these neither the size nor the clear flag.\<close>

definition heap_moves :: "ptr set \<Rightarrow> char_heap \<Rightarrow> char_heap \<Rightarrow> bool" where
  "heap_moves P h h' \<longleftrightarrow> ch_inv h' \<and> ch_ids h' = ch_ids h
     \<and> (\<forall>q. cb_size (ch_bufs h' q) = cb_size (ch_bufs h q)
            \<and> cb_clear_count (ch_bufs h' q) = cb_clear_count (ch_bufs h q))
     \<and> (\<forall>q. q \<notin> P \<longrightarrow> ch_bufs h' q = ch_bufs h q)"

lemma heap_moves_refl: "ch_inv h \<Longrightarrow> heap_moves P h h"
  by (simp add: heap_moves_def)

lemma heap_moves_trans: "heap_moves P h h1 \<Longrightarrow> heap_moves P h1 h2 \<Longrightarrow> heap_moves P h h2"
  by (simp add: heap_moves_def)

lemma heap_moves_mono: "heap_moves P h h' \<Longrightarrow> P \<subseteq> Q \<Longrightarrow> heap_moves Q h h'"
  by (auto simp: heap_moves_def)

lemma heap_movesD:
  assumes "heap_moves P h h'"
  shows "ch_inv h'" "CharBufferIsValid h' q = CharBufferIsValid h q"
    "cb_size (ch_bufs h' q) = cb_size (ch_bufs h q)"
    "CharBufferCheckClearFlag h' q = CharBufferCheckClearFlag h q"
    "q \<notin> P \<Longrightarrow> ch_bufs h' q = ch_bufs h q"
  using assms by (simp_all add: heap_moves_def CharBufferIsValid_def CharBufferCheckClearFlag_def)

lemma upd_moves:
  "h' = ch_upd h p b \<Longrightarrow> ch_inv h' \<Longrightarrow> cb_size b = cb_size (ch_bufs h p)
    \<Longrightarrow> cb_clear_count b = cb_clear_count (ch_bufs h p) \<Longrightarrow> heap_moves {p} h h'"
  by (simp add: heap_moves_def)

declare cb_view_length [simp del]

lemma cb_write_flag: "cb_clear_count (fst (cb_write_loop b src k r)) = cb_clear_count b"
  by (induction b src k r rule: cb_write_loop.induct)
    (auto simp: cb_put_def cb_store_def split: option.splits if_splits)

lemma cb_read_flag: "cb_clear_count (fst (cb_read_loop b room dest r)) = cb_clear_count b"
proof (induction room arbitrary: b dest r)
  case 0
  then show ?case by (subst cb_read_loop.simps) (auto split: option.splits)
next
  case (Suc room)
  then show ?case
    by (subst cb_read_loop.simps) (auto simp: cb_get_def split: option.splits if_splits)
qed

lemma write_moves:
  assumes "ch_inv h" and "CharBufferIsValid h p" and "length src = n"
  defines "h' \<equiv> fst (CharBufferWrite h p (Some src) n)"
  shows "heap_moves {p} h h'" and "hview h' p = hview h p @ take (room_in h p) src"
proof -
  obtain r where w: "CharBufferWrite h p (Some src) (length src) = (h', r)"
    using assms(3) by (metis h'_def prod.collapse)
  note v = char_write_view [OF assms(1,2) w]
  have "cb_clear_count (ch_bufs h' p) = cb_clear_count (ch_bufs h p)"
    using w assms(2) cb_write_flag [of "ch_bufs h p" src 0 0]
    by (auto simp: CharBufferWrite_def split: prod.splits)
  then show "heap_moves {p} h h'"
    by (rule upd_moves [OF v(4) ch_inv_write [OF assms(1) w] v(5)])
  show "hview h' p = hview h p @ take (room_in h p) src"
    using v(1,3) cb_invD(8) [OF ch_inv_valid [OF assms(1,2)]]
    by (auto simp: room_in_def cb_view_length min_def split: if_splits)
qed

lemma read_moves:
  assumes "ch_inv h" and "CharBufferIsValid h p" and "CharBufferRead h p False n = (h', out, r)"
  shows "heap_moves {p} h h'" and "out = take n (hview h p)" and "hview h' p = drop n (hview h p)"
    and "r = (if hview h p = [] then -2 else int (length out))"
proof -
  note v = char_read_view [OF assms]
  have "cb_clear_count (ch_bufs h' p) = cb_clear_count (ch_bufs h p)"
    using assms(2,3) cb_read_flag [of "ch_bufs h p" n "[]" 0]
    by (auto simp: CharBufferRead_def split: prod.splits)
  then show "heap_moves {p} h h'"
    by (rule upd_moves [OF v(5) ch_inv_read [OF assms(1,3)] v(6)])
  show "out = take n (hview h p)" by (rule v(3))
  show "hview h' p = drop n (hview h p)" using v(1,3) by (metis append_take_drop_id same_append_eq)
  show "r = (if hview h p = [] then -2 else int (length out))" by (rule v(4))
qed

lemma read_total_eq:
  assumes "ch_inv h" and "CharBufferIsValid h p"
  shows "read_total old h p = length (hview h p)"
  using current_read_pointer(1) [OF assms] assms(2)
  by (auto simp: read_total_def cb_view_length CharBufferCurrentReadPointer_def Let_def split: option.splits if_splits)

lemma clear_flag_eq: "CharBufferIsValid h p \<Longrightarrow> clear_flag h p = CharBufferCheckClearFlag h p"
  by (simp add: clear_flag_def CharBufferCheckClearFlag_def uint_nat [symmetric] uint_lt2p [of "cb_clear_count (ch_bufs h p)", simplified]
    del: uint_nat)

lemma fill_tmp_moves:
  assumes "ch_inv h" and "CharBufferIsValid h src" and "CharBufferIsValid h pend" and "src \<noteq> pend"
    and "0 < room"
  obtains h' where "fill_tmp room src pend h = (h', Some (take room (hview h pend @ hview h src)))"
    and "heap_moves {src, pend} h h'" and "hview h' pend = drop room (hview h pend)"
    and "hview h' src = drop (room - length (hview h pend)) (hview h src)"
proof -
  obtain h1 out1 r1 where r1: "CharBufferRead h pend False room = (h1, out1, r1)" by (metis prod.collapse)
  note m1 = read_moves [OF assms(1,3) r1]
  have same: "hview h1 src = hview h src" using heap_movesD(5) [OF m1(1), of src] assms(4) by simp
  have v1: "CharBufferIsValid h1 src" using heap_movesD(2) [OF m1(1)] assms(2) by simp
  obtain h2 out2 r2 where r2: "CharBufferRead h1 src False (room - length out1) = (h2, out2, r2)" by (metis prod.collapse)
  note m2 = read_moves [OF heap_movesD(1) [OF m1(1)] v1 r2]
  have h2: "heap_moves {src, pend} h h2" "hview h2 pend = drop room (hview h pend)"
    using heap_moves_trans [OF heap_moves_mono [OF m1(1)] heap_moves_mono [OF m2(1)]]
      heap_movesD(5) [OF m2(1), of pend] m1(3) assms(4) by auto
  have got: "(if r2 > 0 then out2 else []) = out2" using m2(2,4) by (cases "out2 = []") (auto split: if_splits)
  show ?thesis
  proof (cases "room \<le> length (hview h pend)")
    case True
    then have "r1 = int room" "out1 = take room (hview h pend)" using m1(2,4) assms(5) by (auto split: if_splits)
    then show ?thesis
      using that [of h1] r1 True heap_moves_mono [OF m1(1), of "{src, pend}"] m1(3) same assms(5)
      by (simp add: fill_tmp_def)
  next
    case False
    then have o: "out1 = hview h pend" "length out1 < room" using m1(2) by simp_all
    have "fill_tmp room src pend h = (h2, Some (out1 @ (if r2 > 0 then out2 else [])))"
      using o r1 r2 m1(4) by (cases "out1 = []") (simp_all add: fill_tmp_def)
    then have "fill_tmp room src pend h = (h2, Some (take room (hview h pend @ hview h src)))"
      unfolding got using o m2(2) same by simp
    then show ?thesis using that [OF _ h2] o m2(3) same by simp
  qed
qed


section \<open>The players\<close>

text \<open>No other thread acts inside the call.\<close>

definition quiet :: others where
  "quiet = \<lparr>oth_1 = id, oth_2 = id, oth_3 = id\<rparr>"

lemma quiet_simps [simp]: "oth_1 quiet h = h" "oth_2 quiet h = h" "oth_3 quiet h = h"
  by (simp_all add: quiet_def)

lemma left_after_le: "length tmp < 2 ^ 32 \<Longrightarrow> left_after tmp len \<le> length tmp"
  by (auto simp: left_after_def not_less word_le_nat_alt unat_of_nat)

lemma play_twice_spec:
  assumes "ch_inv h" and "CharBufferIsValid h src" and "CharBufferIsValid h pend" and "src \<noteq> pend"
    and pend: "length (hview h pend) \<le> 3072" "3072 < cb_size (ch_bufs h pend)"
    and bounds: "border \<le> start" "border \<le> 3072"
  defines "w \<equiv> hview h pend @ hview h src"
  shows "length w \<le> start \<Longrightarrow> play_twice start border quiet len src pend h = (h, None, -5)"
    and "start < length w \<Longrightarrow> \<exists>h'. play_twice start border quiet len src pend h = (h', Some (take 3072 w), 0)
      \<and> heap_moves {src, pend} h h' \<and> length (hview h' pend) \<le> 3072
      \<and> w = codec_took (take 3072 w) len @ hview h' pend @ hview h' src"
proof -
  have tot: "read_total 0 h src + read_total 0 h pend = length w"
    using read_total_eq [OF assms(1,2)] read_total_eq [OF assms(1,3)] by (simp add: w_def)
  then show "length w \<le> start \<Longrightarrow> play_twice start border quiet len src pend h = (h, None, -5)"
    by (simp add: play_twice_def Let_def)
  assume more: "start < length w"
  obtain h1 where f: "fill_tmp 3072 src pend h = (h1, Some (take 3072 w))" and m1: "heap_moves {src, pend} h h1"
    and v1: "hview h1 pend = []" "hview h1 src = drop 3072 w"
    using fill_tmp_moves [OF assms(1-4), of 3072] pend(1) by (auto simp: w_def)
  let ?l = "left_after (take 3072 w) len" and ?n = "length (take 3072 w)"
  define h2 where "h2 = (if ?l > 0 then fst (CharBufferWrite h1 pend (Some (drop (?n - ?l) (take 3072 w))) ?l) else h1)"
  note valid = heap_movesD(2) [OF m1] and flag = heap_movesD(4) [OF m1]
  have p: "play_twice start border quiet len src pend h = (h2, Some (take 3072 w), 0)"
    unfolding play_twice_def Let_def tot quiet_simps clear_flag_eq [OF assms(2)] f prod.case option.case
    using more bounds assms(2) by (simp add: was_cleared_def flag h2_def)
  have l: "?l \<le> ?n" by (rule left_after_le) simp
  have "heap_moves {pend} h1 h2 \<and> hview h2 pend = drop (?n - ?l) (take 3072 w)"
  proof (cases "?l > 0")
    case True
    have len: "length (drop (?n - ?l) (take 3072 w)) = ?l" using l by simp
    note wr = write_moves [OF heap_movesD(1) [OF m1] _ len, of pend]
    have "room_in h1 pend \<ge> ?l" using v1(1) heap_movesD(3) [OF m1] pend(2) l by (simp add: room_in_def) linarith
    then show ?thesis using wr True assms(3) v1(1) len by (simp add: h2_def valid)
  next
    case False
    then show ?thesis using v1(1) heap_moves_refl [OF heap_movesD(1) [OF m1]] by (simp add: h2_def)
  qed
  moreover from this have "hview h2 src = drop 3072 w"
    using heap_movesD(5) [of "{pend}" h1 h2 src] assms(4) v1(2) by simp
  moreover have "w = codec_took (take 3072 w) len @ drop (?n - ?l) (take 3072 w) @ drop 3072 w"
    by (simp add: codec_took_def flip: append_assoc del: take_take drop_take)
  ultimately show "\<exists>h'. play_twice start border quiet len src pend h = (h', Some (take 3072 w), 0)
      \<and> heap_moves {src, pend} h h' \<and> length (hview h' pend) \<le> 3072
      \<and> w = codec_took (take 3072 w) len @ hview h' pend @ hview h' src"
    using p heap_moves_trans [OF m1 heap_moves_mono [of "{pend}" h1 h2]] l by auto
qed

section \<open>Any sequence of playing and arriving sound\<close>

datatype tone_op = Feed "byte list" | Play "32 word"

text \<open>The bytes that the buffer accepted, and those that the codec took.\<close>

fun tone_run ::
  "(others \<Rightarrow> 32 word \<Rightarrow> ptr \<Rightarrow> ptr \<Rightarrow> char_heap \<Rightarrow> char_heap \<times> byte list option \<times> int) \<Rightarrow> ptr \<Rightarrow> ptr
    \<Rightarrow> tone_op list \<Rightarrow> char_heap \<Rightarrow> byte list \<times> byte list \<times> char_heap" where
  "tone_run player src pend [] h = ([], [], h)"
| "tone_run player src pend (Feed bs # ops) h =
     (let (h1, r) = CharBufferWrite h src (Some bs) (length bs);
          (fed, out, h2) = tone_run player src pend ops h1
      in (take (nat r) bs @ fed, out, h2))"
| "tone_run player src pend (Play len # ops) h =
     (let (h1, d, r) = player quiet len src pend h;
          (fed, out, h2) = tone_run player src pend ops h1
      in (fed, (case d of None \<Rightarrow> [] | Some tmp \<Rightarrow> codec_took tmp len) @ out, h2))"

lemma feed_moves:
  assumes "ch_inv h" and "CharBufferIsValid h p" and "CharBufferWrite h p (Some bs) (length bs) = (h', r)"
  shows "heap_moves {p} h h'" and "hview h' p = hview h p @ take (nat r) bs"
  using write_moves(1) [OF assms(1,2) refl, of bs] char_write_view(1) [OF assms] assms(3) by simp_all

lemma tone_run_lemma:
  assumes "border \<le> start" and "border \<le> 3072" and "src \<noteq> pend"
  shows "ch_inv h \<Longrightarrow> CharBufferIsValid h src \<Longrightarrow> CharBufferIsValid h pend
    \<Longrightarrow> length (hview h pend) \<le> 3072 \<Longrightarrow> 3072 < cb_size (ch_bufs h pend)
    \<Longrightarrow> tone_run (play_twice start border) src pend ops h = (fed, out, h')
    \<Longrightarrow> hview h pend @ hview h src @ fed = out @ hview h' pend @ hview h' src \<and> heap_moves {src, pend} h h'"
proof (induction ops arbitrary: h fed out)
  case Nil
  then show ?case by (simp add: heap_moves_refl)
next
  case (Cons op ops)
  note pre = Cons.prems(1-5)
  show ?case
  proof (cases op)
    case (Feed bs)
    obtain h1 r where w: "CharBufferWrite h src (Some bs) (length bs) = (h1, r)" by fastforce
    note m = feed_moves [OF pre(1,2) w]
    obtain fed1 where run: "tone_run (play_twice start border) src pend ops h1 = (fed1, out, h')"
      and fed: "fed = take (nat r) bs @ fed1"
      using Cons.prems(6) Feed w by (auto split: prod.splits)
    have same: "hview h1 pend = hview h pend" using heap_movesD(5) [OF m(1), of pend] assms(3) by simp
    note ih = Cons.IH [OF _ _ _ _ _ run]
    have "hview h1 pend @ hview h1 src @ fed1 = out @ hview h' pend @ hview h' src \<and> heap_moves {src, pend} h1 h'"
      by (rule ih) (use heap_movesD(1-3) [OF m(1)] pre same in simp_all)
    then show ?thesis
      using m(2) same fed heap_moves_trans [OF heap_moves_mono [OF m(1)]] by simp
  next
    case (Play len)
    note spec = play_twice_spec [OF pre(1-3) assms(3) pre(4,5) assms(1,2), of len]
    define w where "w = hview h pend @ hview h src"
    obtain h1 d r where p: "play_twice start border quiet len src pend h = (h1, d, r)" by (metis prod.collapse)
    obtain out1 where run: "tone_run (play_twice start border) src pend ops h1 = (fed, out1, h')"
      and out: "out = (case d of None \<Rightarrow> [] | Some tmp \<Rightarrow> codec_took tmp len) @ out1"
      using Cons.prems(6) Play p by (auto split: prod.splits)
    have "heap_moves {src, pend} h h1 \<and> length (hview h1 pend) \<le> 3072
      \<and> w = (case d of None \<Rightarrow> [] | Some tmp \<Rightarrow> codec_took tmp len) @ hview h1 pend @ hview h1 src"
    proof (cases "length w \<le> start")
      case True
      then have "h1 = h \<and> d = None" using spec(1) p by (simp add: w_def)
      then show ?thesis using pre(1,4) by (simp add: w_def heap_moves_refl)
    next
      case False
      then have "start < length w" by simp
      from spec(2) [folded w_def, OF this] p show ?thesis by auto
    qed
    then have m: "heap_moves {src, pend} h h1" "length (hview h1 pend) \<le> 3072"
      and ww: "w = (case d of None \<Rightarrow> [] | Some tmp \<Rightarrow> codec_took tmp len) @ hview h1 pend @ hview h1 src"
      by blast+
    note ih = Cons.IH [OF _ _ _ _ _ run]
    have "hview h1 pend @ hview h1 src @ fed = out1 @ hview h' pend @ hview h' src \<and> heap_moves {src, pend} h1 h'"
      by (rule ih) (use heap_movesD(1-3) [OF m(1)] pre m(2) in simp_all)
    moreover from this have "w @ fed = out @ hview h' pend @ hview h' src" using ww out by simp
    ultimately show ?thesis using heap_moves_trans [OF m(1)] by (simp add: w_def)
  qed
qed

section \<open>The players of the intercom\<close>

text \<open>What waits, and what is left of it for a player that has become steady: of the main
  buffer its last 3000 bytes, and nothing of the pending one, when more than that waits.\<close>

definition kept :: "bool \<Rightarrow> byte list \<Rightarrow> byte list \<Rightarrow> byte list \<times> byte list" where
  "kept steady pw mw =
     (if steady \<and> length pw + length mw > 3000
      then (if length mw \<ge> 3000 then [] else pw,
            if 3000 < length mw \<and> length mw < 6024 then drop (length mw - 3000) mw else mw)
      else (pw, mw))"

lemma excess_word:
  "n < 2 ^ 32 \<Longrightarrow> (0 < (of_nat n - 3000 :: 32 word) \<and> of_nat n - 3000 < (3024 :: 32 word)) = (3000 < n \<and> n < 6024)"
  "n < 2 ^ 32 \<Longrightarrow> 3000 < n \<Longrightarrow> unat (of_nat n - 3000 :: 32 word) = n - 3000"
proof -
  assume n: "n < 2 ^ 32"
  have u: "unat (of_nat n - 3000 :: 32 word) = (if 3000 \<le> n then n - 3000 else n + (2 ^ 32 - 3000))"
    using n by (simp add: unat_sub_if_size unat_of_nat word_size)
  then show "(0 < (of_nat n - 3000 :: 32 word) \<and> of_nat n - 3000 < (3024 :: 32 word)) = (3000 < n \<and> n < 6024)"
    using n by (auto simp: word_less_nat_alt)
  show "3000 < n \<Longrightarrow> unat (of_nat n - 3000 :: 32 word) = n - 3000" using u by simp
qed

lemma clear_view:
  assumes "ch_inv h" and "CharBufferIsValid h p"
  shows "hview (CharBufferClear h p) p = []" and "q \<noteq> p \<Longrightarrow> ch_bufs (CharBufferClear h p) q = ch_bufs h q"
    and "CharBufferIsValid (CharBufferClear h p) q = CharBufferIsValid h q"
  using assms by (simp_all add: CharBufferClear_def Let_def cb_view_def cb_count_def cb_rd_def cb_wr_def ring_count_self)


lemma drop_backlog_kept:
  assumes "ch_inv h" and "CharBufferIsValid h src" and "CharBufferIsValid h pend" and "src \<noteq> pend"
    and "length (hview h src) < 2 ^ 32" and "3000 < length (hview h pend) + length (hview h src)"
    and "length tmp \<ge> 3023"
  obtains h' tmp' where "drop_backlog src pend tmp (length (hview h src)) h = (h', tmp')"
    and "length tmp' = length tmp" and "ch_inv h'" and "\<And>q. CharBufferIsValid h' q = CharBufferIsValid h q"
    and "(hview h' pend, hview h' src) = kept True (hview h pend) (hview h src)"
    and "CharBufferCheckClearFlag h' src = CharBufferCheckClearFlag h src"
proof -
  let ?mw = "hview h src"
  define h1 where "h1 = (if length ?mw \<ge> 3000 then CharBufferClear h pend else h)"
  have i1: "ch_inv h1" using assms(1) by (simp add: h1_def ch_inv_clear)
  have v1: "CharBufferIsValid h1 q = CharBufferIsValid h q" for q
    using clear_view(3) [OF assms(1,3)] by (simp add: h1_def)
  have s1: "ch_bufs h1 src = ch_bufs h src" using clear_view(2) [OF assms(1,3,4)] by (simp add: h1_def)
  have p1: "hview h1 pend = (if length ?mw \<ge> 3000 then [] else hview h pend)"
    using clear_view(1) [OF assms(1,3)] by (simp add: h1_def)
  have f1: "CharBufferCheckClearFlag h1 src = CharBufferCheckClearFlag h src"
    using v1 s1 by (simp add: CharBufferCheckClearFlag_def)
  show ?thesis
  proof (cases "3000 < length ?mw \<and> length ?mw < 6024")
    case True
    obtain h2 out r where r: "CharBufferRead h1 src False (length ?mw - 3000) = (h2, out, r)" by (metis prod.collapse)
    note m = read_moves [OF i1 _ r] and v2 = v1 [of src]
    have "drop_backlog src pend tmp (length ?mw) h = (h2, mem_put tmp 0 out)"
      using True excess_word [OF assms(5)] r by (simp add: drop_backlog_def h1_def Let_def)
    moreover have "length out \<le> length tmp" using m(2) v2 assms(2,7) s1 True by (simp, linarith)
    moreover have "(hview h2 pend, hview h2 src) = kept True (hview h pend) ?mw"
      using m(1,3) v2 assms(2,4,6) s1 p1 True heap_movesD(5) [OF m(1), of pend] by (simp add: kept_def)
    ultimately show ?thesis
      using that m(1) v2 assms(2) v1 f1 heap_movesD [OF m(1)] by (simp add: mem_put_length)
  next
    case False
    then have "drop_backlog src pend tmp (length ?mw) h = (h1, tmp)"
      using excess_word(1) [OF assms(5)] by (auto simp: drop_backlog_def h1_def Let_def)
    then show ?thesis using that i1 v1 f1 s1 p1 assms(6) False by (auto simp: kept_def)
  qed
qed

lemma kept_total: "3000 < length pw + length mw \<Longrightarrow> kept True pw mw = (kp, km) \<Longrightarrow> 3000 \<le> length kp + length km"
  by (auto simp: kept_def split: if_splits)

lemma backlog_trimmed:
  assumes "ch_inv h" and "CharBufferIsValid h src" and "CharBufferIsValid h pend" and "src \<noteq> pend"
    and "length (hview h src) < 2 ^ 32" and "3023 \<le> length tmp"
    and trim: "trim = (steady \<and> length (hview h pend) + length (hview h src) > 3000)"
    and kept: "kept steady (hview h pend) (hview h src) = (kp, km)"
  obtains h1 tmp1 where "(if trim then drop_backlog src pend tmp (length (hview h src)) h else (h, tmp)) = (h1, tmp1)"
    and "length tmp1 = length tmp" and "ch_inv h1" and "\<And>q. CharBufferIsValid h1 q = CharBufferIsValid h q"
    and "hview h1 pend = kp" and "hview h1 src = km"
    and "CharBufferCheckClearFlag h1 src = CharBufferCheckClearFlag h src"
proof (cases trim)
  case True
  obtain h' tmp' where "drop_backlog src pend tmp (length (hview h src)) h = (h', tmp')"
    "length tmp' = length tmp" "ch_inv h'" "\<And>q. CharBufferIsValid h' q = CharBufferIsValid h q"
    "(hview h' pend, hview h' src) = kept True (hview h pend) (hview h src)"
    "CharBufferCheckClearFlag h' src = CharBufferCheckClearFlag h src"
    using drop_backlog_kept [OF assms(1-5), of tmp] True trim assms(6) by auto
  then show thesis using that [of h' tmp'] True trim kept by simp
next
  case False
  then show thesis using that [of h tmp] kept trim assms(1) by (auto simp: kept_def)
qed

lemma play_padded_spec:
  assumes "ch_inv h" and "CharBufferIsValid h src" and "CharBufferIsValid h pend" and "src \<noteq> pend"
    and "length (hview h src) < 2 ^ 32" and "length tmp = room" and "length blank = 3072"
    and bounds: "3023 \<le> room" "pad \<le> 3072" "pad \<le> room" "send \<le> room"
    and steady: "steady = (fst cs \<ge> 10 \<or> snd cs = 1)"
    and kept: "kept steady (hview h pend) (hview h src) = (kp, km)"
  defines "cs1 \<equiv> (if steady then (0, 1) else cs)" and "w \<equiv> kp @ km"
  shows "length w \<le> 64 \<Longrightarrow> \<exists>h'. play_padded room pad send blank tmp quiet src pend (cs, h) = ((cs1, h'), None, -2)
      \<and> hview h' pend @ hview h' src = w"
    and "64 < length w \<Longrightarrow> \<exists>h' rest. play_padded room pad send blank tmp quiet src pend (cs, h)
        = (((fst cs1 + 1, snd cs1), h'), Some (take send (take room w @ take (pad - length w) blank @ rest)), 0)
      \<and> hview h' pend @ hview h' src = drop room w
      \<and> length rest = room - max (min room (length w)) pad"
proof -
  let ?trim = "steady \<and> length (hview h pend) + length (hview h src) > 3000"
  obtain h1 tmp1 where t: "(if ?trim then drop_backlog src pend tmp (length (hview h src)) h else (h, tmp)) = (h1, tmp1)"
    and tmp1: "length tmp1 = room" and i1: "ch_inv h1" and v1: "\<And>q. CharBufferIsValid h1 q = CharBufferIsValid h q"
    and k1: "hview h1 pend = kp" "hview h1 src = km"
    and f1: "CharBufferCheckClearFlag h1 src = CharBufferCheckClearFlag h src"
    using backlog_trimmed [OF assms(1-5) _ refl kept, of tmp] assms(6) bounds(1) by metis
  have tot: "(if ?trim then read_total (length (hview h src)) h1 src + read_total (length (hview h pend)) h1 pend
      else length (hview h pend) + length (hview h src)) = length w"
    using read_total_eq [OF i1] v1 assms(2,3) k1 kept by (auto simp: w_def kept_def)
  have no5: "\<not> (?trim \<and> length w \<le> 2232)"
    using kept_total [of "hview h pend" "hview h src" kp km] kept by (auto simp: w_def)
  have cs: "(if worked \<ge> 10 \<or> stb = 1 then (0, 1) else (worked, stb)) = cs1" if "cs = (worked, stb)" for worked stb
    using that steady by (simp add: cs1_def)
  have first: "play_padded room pad send blank tmp quiet src pend (cs, h) =
     (if length w > 64
      then (case fill_tmp room src pend h1 of
              (h3, None) \<Rightarrow> ((cs1, h3), None, -6)
            | (h3, Some got) \<Rightarrow>
                if was_cleared (CharBufferCheckClearFlag h src) h3 src then ((cs1, h3), None, -1)
                else let tmp2 = mem_put tmp1 0 got;
                         tmp3 = (if length got < pad then mem_put tmp2 (length got) (take (pad - length got) blank) else tmp2)
                in (((fst cs1 + 1, snd cs1), h3), Some (take send tmp3),
                    if was_cleared (CharBufferCheckClearFlag h src) h3 src then -1 else 0))
      else ((cs1, h1), None, -2))"
  proof -
    obtain worked stb where c: "cs = (worked, stb)" by fastforce
    have st: "(worked \<ge> 10 \<or> stb = 1) = steady" using steady c by simp
    have cs: "(if steady then (0, 1) else (worked, stb)) = cs1" using c by (simp add: cs1_def)
    have tr: "(3000 < length (hview h src) + length (hview h pend)) = (length (hview h pend) + length (hview h src) > 3000)"
      by (simp add: add.commute)
    have su: "length (hview h src) + length (hview h pend) = length (hview h pend) + length (hview h src)" by simp
    show ?thesis
      unfolding play_padded_def c Let_def prod.case read_total_eq [OF assms(1,2)] read_total_eq [OF assms(1,3)]
        clear_flag_eq [OF assms(2)] st cs su t tot quiet_simps
      using no5 f1 by (auto simp: was_cleared_def split: option.split)
  qed
  show "length w \<le> 64 \<Longrightarrow> \<exists>h'. play_padded room pad send blank tmp quiet src pend (cs, h) = ((cs1, h'), None, -2)
      \<and> hview h' pend @ hview h' src = w"
    using first k1 by (simp add: w_def)
  assume more: "64 < length w"
  obtain h3 where f: "fill_tmp room src pend h1 = (h3, Some (take room w))" and m: "heap_moves {src, pend} h1 h3"
    and k3: "hview h3 pend = drop room kp" "hview h3 src = drop (room - length kp) km"
    using fill_tmp_moves [OF i1 _ _ assms(4), of room] v1 assms(2,3) bounds(1) k1 by (auto simp: w_def)
  have nc: "\<not> was_cleared (CharBufferCheckClearFlag h src) h3 src"
    using heap_movesD(4) [OF m] f1 by (simp add: was_cleared_def)
  let ?got = "take room w"
  let ?rest = "drop (max (length ?got) pad) tmp1"
  have data: "(if length ?got < pad then mem_put (mem_put tmp1 0 ?got) (length ?got) (take (pad - length ?got) blank)
      else mem_put tmp1 0 ?got) = ?got @ take (pad - length w) blank @ ?rest"
    using tmp1 assms(7) bounds more by (auto simp: mem_put_def min_def max_def)
  have "play_padded room pad send blank tmp quiet src pend (cs, h)
      = (((fst cs1 + 1, snd cs1), h3), Some (take send (?got @ take (pad - length w) blank @ ?rest)), 0)"
    unfolding first f Let_def option.case prod.case data using more nc by (simp only: if_True if_False not_False_eq_True)
  moreover have "hview h3 pend @ hview h3 src = drop room w" using k3 by (simp add: w_def)
  moreover have "length ?rest = room - max (min room (length w)) pad" using tmp1 by (simp add: min.commute)
  ultimately show "\<exists>h' rest. play_padded room pad send blank tmp quiet src pend (cs, h)
        = (((fst cs1 + 1, snd cs1), h'), Some (take send (take room w @ take (pad - length w) blank @ rest)), 0)
      \<and> hview h' pend @ hview h' src = drop room w \<and> length rest = room - max (min room (length w)) pad"
    by blast
qed

section \<open>What a round leaves alone\<close>

lemma a_unit_frame [simp]:
  "a_unit (put_audio p bs a) = a_unit a" "a_unit (log_played d len a) = a_unit a"
  "a_unit (fst (play_alarm env len a)) = a_unit a" "a_unit (play_intercom player t a) = a_unit a"
  "a_unit (ResetLiveMonitorCounts a) = a_unit a"
  by (simp_all add: put_audio_def log_played_def play_alarm_def play_intercom_def ResetLiveMonitorCounts_def
      split: option.split prod.split)

lemma a_unit_mic [simp]:
  "a_unit (PutMicSampleDataintoBuffer_EAMP t a) = a_unit a"
  "a_unit (PutMicSampleDataintoBuffer_EAMP_Outer t a) = a_unit a"
  "a_unit (PutMicSampleDataintoBuffer_D2P t a) = a_unit a"
  "a_unit (PutMicSampleDataintoBuffer_BCU t a) = a_unit a"
  by (simp_all add: PutMicSampleDataintoBuffer_EAMP_def PutMicSampleDataintoBuffer_EAMP_Outer_def
      PutMicSampleDataintoBuffer_D2P_def PutMicSampleDataintoBuffer_BCU_def Let_def)

lemma a_unit_on_ub [simp]: "a_unit (on_ub f a) = on_unit f (a_unit a)"
  by (simp add: on_ub_def)

text \<open>The control view, the tables and the requests of the unit.\<close>

definition unit_view :: "cunit \<Rightarrow> ctl \<times> bool \<times> prio_node list" where
  "unit_view u = (uctl u, unit_ok u, u_prio u)"

lemma unit_view_on: "(\<And>b. ctl_of (f b) = ctl_of b) \<Longrightarrow> unit_view (on_unit f u) = unit_view u"
  by (simp add: unit_view_def uctl_simps unit_oks) (simp add: on_unit_def uctl_def)

lemma ctl_audio [ctl_simps]:
  "ctl_of (b\<lparr>this_bcu_ptt_state := n\<rparr>) = ctl_of b" "ctl_of (b\<lparr>bc_ptt_key := n\<rparr>) = ctl_of b"
  "ctl_of (b\<lparr>play_audio := n\<rparr>) = ctl_of b" "ctl_of (b\<lparr>open_snd_playback := n\<rparr>) = ctl_of b"
  "ctl_of (b\<lparr>pcu_alarm_playing_again := n\<rparr>) = ctl_of b" "ctl_of (b\<lparr>other_bcu_ptt_state := n\<rparr>) = ctl_of b"
  by (simp_all add: ctl_of_def)

lemma ctl_ptt [ctl_simps]: "ctl_of (SendPTTStateToPCU b) = ctl_of b" "ctl_of (SendPTTStateToBCU b) = ctl_of b"
  by (simp_all add: SendPTTStateToPCU_def SendPTTStateToBCU_def ctl_simps)

lemma view_live: "unit_view (a_unit (sample_live t a)) = unit_view (a_unit a)"
  by (simp add: sample_live_def Let_def unit_view_on ctl_simps)

lemma view_start: "unit_view (a_unit (start_playing n hang_up a)) = unit_view (a_unit a)"
  by (simp add: start_playing_def Let_def unit_view_on ctl_simps)

lemma view_d2p: "unit_view (a_unit (sample_d2p t a)) = unit_view (a_unit a)"
  by (simp add: sample_d2p_def Let_def unit_view_on ctl_simps view_start)

lemma view_read_ptt: "unit_view (ReadOtherBCUPttState pkg u) = unit_view u"
  by (simp add: ReadOtherBCUPttState_def unit_view_on ctl_simps split: option.split)

lemma view_d2d: "unit_view (a_unit (sample_d2d hang_up t a)) = unit_view (a_unit a)"
  by (simp add: sample_d2d_def Let_def unit_view_on ctl_simps view_start view_read_ptt)

lemma view_load: "unit_view (a_unit (load_alarm a)) = unit_view (a_unit a)"
  by (simp add: load_alarm_def Let_def unit_view_on ctl_simps)

lemma view_sound: "unit_view (a_unit (sound_alarm t a)) = unit_view (a_unit a)"
proof -
  obtain a1 r where p: "play_alarm (mt_env t) (mt_left t) a = (a1, r)" by fastforce
  then have "a_unit a1 = a_unit a" using a_unit_frame(3) [of "mt_env t" "mt_left t" a] by simp
  then show ?thesis
    by (simp add: sound_alarm_def p Let_def rewind_alarm_def unit_view_on ctl_simps)
qed

lemma view_idle: "unit_view (a_unit (sample_idle t a)) = unit_view (a_unit a)"
  by (simp add: sample_idle_def Let_def alarm_reset_def view_sound view_load unit_view_on ctl_simps)

lemma view_scan: "unit_view (a_unit (scan_keys t a)) = unit_view (a_unit a)"
  by (simp add: scan_keys_def Let_def unit_view_on ctl_simps) (simp add: unit_view_def uctl_simps unit_oks)

lemma view_round: "unit_view (a_unit (BcuMicSampleAndPlay_round t a)) = unit_view (a_unit a)"
  by (simp add: BcuMicSampleAndPlay_round_def Let_def view_live view_d2p view_d2d view_idle view_scan)

section \<open>The heap stays well formed\<close>

definition env_ok :: "others \<Rightarrow> bool" where
  "env_ok env \<longleftrightarrow> (\<forall>h. ch_inv h \<longrightarrow> ch_inv (oth_1 env h) \<and> ch_inv (oth_2 env h) \<and> ch_inv (oth_3 env h))"

lemma inv_put [inv_intro]: "ch_inv (a_heap a) \<Longrightarrow> ch_inv (a_heap (put_audio p bs a))"
  using ch_inv_write [of "a_heap a" p "Some bs"] by (simp add: put_audio_def) (metis prod.collapse)

lemma inv_write_fst [inv_intro]: "ch_inv h \<Longrightarrow> ch_inv (fst (CharBufferWrite h p src n))"
  by (rule ch_inv_write [OF _ prod.collapse [symmetric]])

lemma inv_read_fst [inv_intro]: "ch_inv h \<Longrightarrow> ch_inv (fst (CharBufferRead h p d n))"
  using ch_inv_read [of h p d n] by (metis prod.collapse)

lemma inv_header [inv_intro]: "ch_inv h \<Longrightarrow> ch_inv (write_wavheader h p)"
  by (simp add: write_wavheader_def inv_intro)

lemma inv_fill: "ch_inv h \<Longrightarrow> fill_tmp room src pend h = (h', d) \<Longrightarrow> ch_inv h'"
  by (auto simp: fill_tmp_def dest: ch_inv_read split: prod.splits if_splits)

lemma inv_twice:
  assumes "ch_inv h" and "env_ok env"
  shows "ch_inv (fst (play_twice start border env len src pend h))"
proof -
  obtain h1 d where f: "fill_tmp 3072 src pend (oth_1 env h) = (h1, d)" by fastforce
  have e: "ch_inv (oth_1 env h)" "ch_inv g \<Longrightarrow> ch_inv (oth_2 env g)" "ch_inv g \<Longrightarrow> ch_inv (oth_3 env g)" for g
    using assms by (simp_all add: env_ok_def)
  note i = inv_fill [OF e(1) f]
  show ?thesis
    using assms(1) e i by (simp add: play_twice_def Let_def f inv_intro split: option.split)
qed

lemma inv_backlog: "ch_inv h \<Longrightarrow> ch_inv (fst (drop_backlog src pend tmp main h))"
  by (auto simp: drop_backlog_def Let_def inv_intro ch_inv_clear split: prod.split dest: ch_inv_read [rotated])

lemma inv_padded:
  assumes "ch_inv h" and "env_ok env"
  shows "ch_inv (snd (fst (play_padded room pad send blank tmp env src pend (cs, h))))"
proof -
  obtain worked stb where cs: "cs = (worked, stb)" by fastforce
  let ?main = "read_total 0 h src" and ?pending = "read_total 0 h pend"
  let ?steady = "worked \<ge> 10 \<or> stb = 1"
  let ?trim = "?steady \<and> ?main + ?pending > 3000"
  obtain h1 tmp1 where t: "(if ?trim then drop_backlog src pend tmp ?main h else (h, tmp)) = (h1, tmp1)" by fastforce
  then have i1: "ch_inv h1" using inv_backlog [OF assms(1), of src pend tmp ?main] assms(1) by (auto split: if_splits)
  obtain h3 d where f: "fill_tmp room src pend (oth_1 env h1) = (h3, d)" by fastforce
  have e: "ch_inv (oth_1 env h1)" "ch_inv g \<Longrightarrow> ch_inv (oth_2 env g)" "ch_inv g \<Longrightarrow> ch_inv (oth_3 env g)" for g
    using i1 assms(2) by (simp_all add: env_ok_def)
  note i = inv_fill [OF e(1) f]
  show ?thesis
    unfolding play_padded_def Let_def prod.case cs t f
    using i1 e i by (simp split: option.split)
qed

lemma inv_log: "a_heap (log_played d len a) = a_heap a"
  by (simp add: log_played_def split: option.split)

lemma inv_intercom:
  assumes "ch_inv (a_heap a)" and "env_ok (mt_env t)" and "player \<in> {PlayAudioTwice_D2P, PlayAudioTwice_D2D}"
  shows "ch_inv (a_heap (play_intercom player t a))"
proof -
  obtain cs h d r where p: "player (a_blank a) (mt_stack t) (mt_env t) (a_recv a) (a_pending a) (a_counters a, a_heap a) = ((cs, h), d, r)"
    by (metis prod.collapse)
  have "ch_inv (snd (fst (player (a_blank a) (mt_stack t) (mt_env t) (a_recv a) (a_pending a) (a_counters a, a_heap a))))"
    using assms(3) inv_padded [OF assms(1,2), where cs = "a_counters a"] by (auto simp: PlayAudioTwice_D2P_def PlayAudioTwice_D2D_def)
  then show ?thesis by (simp add: play_intercom_def p inv_log)
qed

lemma inv_alarm [inv_intro]: "ch_inv (a_heap a) \<Longrightarrow> env_ok env \<Longrightarrow> ch_inv (a_heap (fst (play_alarm env len a)))"
  using inv_twice [of "a_heap a" env 2234 2234 len "a_alarm a" "a_pending a"]
  by (auto simp: play_alarm_def PlayAudioTwice_def inv_log split: prod.split)

lemma inv_mic [inv_intro]:
  assumes "ch_inv (a_heap a)"
  shows "ch_inv (a_heap (PutMicSampleDataintoBuffer_EAMP t a))"
    "ch_inv (a_heap (PutMicSampleDataintoBuffer_EAMP_Outer t a))"
    "ch_inv (a_heap (PutMicSampleDataintoBuffer_D2P t a))"
    "ch_inv (a_heap (PutMicSampleDataintoBuffer_BCU t a))"
  using assms
  by (simp_all add: PutMicSampleDataintoBuffer_EAMP_def PutMicSampleDataintoBuffer_EAMP_Outer_def ResetLiveMonitorCounts_def
      PutMicSampleDataintoBuffer_D2P_def PutMicSampleDataintoBuffer_BCU_def Let_def inv_intro)

lemma heap_on_ub [simp]: "a_heap (on_ub f a) = a_heap a"
  by (simp add: on_ub_def)

lemma inv_start [inv_intro]: "ch_inv (a_heap a) \<Longrightarrow> ch_inv (a_heap (start_playing n hang_up a))"
  by (simp add: start_playing_def Let_def inv_intro)

lemma inv_live [inv_intro]: "ch_inv (a_heap a) \<Longrightarrow> ch_inv (a_heap (sample_live t a))"
  by (simp add: sample_live_def Let_def inv_intro)

lemma inv_d2p [inv_intro]: "ch_inv (a_heap a) \<Longrightarrow> env_ok (mt_env t) \<Longrightarrow> ch_inv (a_heap (sample_d2p t a))"
  by (simp add: sample_d2p_def Let_def inv_intro inv_intercom)

lemma inv_d2d [inv_intro]:
  assumes "ch_inv (a_heap a)" and "env_ok (mt_env t)"
  shows "ch_inv (a_heap (sample_d2d hang_up t a))"
proof -
  have h: "a_heap (a'\<lparr>a_unit := u\<rparr>) = a_heap a'" for a' u by simp
  show ?thesis
    using assms by (simp add: sample_d2d_def Let_def inv_intro inv_intercom if_distrib [of a_heap] h)
qed

lemma inv_load [inv_intro]: "ch_inv (a_heap a) \<Longrightarrow> ch_inv (a_heap (load_alarm a))"
  by (simp add: load_alarm_def Let_def inv_intro)

lemma inv_sound [inv_intro]:
  assumes "ch_inv (a_heap a)" and "env_ok (mt_env t)"
  shows "ch_inv (a_heap (sound_alarm t a))"
proof -
  obtain a1 r where p: "play_alarm (mt_env t) (mt_left t) a = (a1, r)" by fastforce
  then have "ch_inv (a_heap a1)" using inv_alarm [OF assms] by (metis fst_conv)
  then have "ch_inv (a_heap (rewind_alarm a1))" by (simp add: rewind_alarm_def Let_def inv_intro ch_inv_brush)
  then show ?thesis
    using assms \<open>ch_inv (a_heap a1)\<close> by (simp add: sound_alarm_def p Let_def inv_intro ch_inv_clear)
qed

lemma inv_idle [inv_intro]: "ch_inv (a_heap a) \<Longrightarrow> env_ok (mt_env t) \<Longrightarrow> ch_inv (a_heap (sample_idle t a))"
  by (simp add: sample_idle_def Let_def alarm_reset_def inv_intro ch_inv_clear)

lemma inv_round:
  assumes "ch_inv (a_heap a)" and "env_ok (mt_env t)"
  shows "ch_inv (a_heap (BcuMicSampleAndPlay_round t a))"
proof -
  have s: "ch_inv (a_heap (scan_keys t a))" using assms(1) by (simp add: scan_keys_def Let_def)
  show ?thesis
    using s assms(2) by (simp add: BcuMicSampleAndPlay_round_def Let_def inv_intro)
qed


section \<open>Both threads\<close>

text \<open>A history: rounds and handlers of the control thread, and rounds of the audio thread.\<close>

datatype thread_op = Control handler | Sample mic_tick

fun threads_run :: "thread_op list \<Rightarrow> audio \<Rightarrow> audio option" where
  "threads_run [] a = Some a"
| "threads_run (Control cmd # ops) a =
     (case handle cmd (a_unit a) of None \<Rightarrow> None | Some u \<Rightarrow> threads_run ops (a\<lparr>a_unit := u\<rparr>))"
| "threads_run (Sample t # ops) a = threads_run ops (BcuMicSampleAndPlay_round t a)"

fun thread_ok :: "thread_op \<Rightarrow> bool" where
  "thread_ok (Control cmd) = handler_addressed cmd"
| "thread_ok (Sample t) = env_ok (mt_env t)"

lemma threads_lemma:
  assumes "unit_ok (a_unit a)" and "unit_inv (uctl (a_unit a))" and "prio_wf (u_prio (a_unit a))"
    and "prio_ann (u_prio (a_unit a))" and "ch_inv (a_heap a)" and "list_all thread_ok ops"
  shows "\<exists>a'. threads_run ops a = Some a' \<and> unit_inv (uctl (a_unit a')) \<and> ch_inv (a_heap a')"
  using assms
proof (induction ops arbitrary: a)
  case (Cons op ops)
  show ?case
  proof (cases op)
    case (Control cmd)
    have f: "unit_follows (a_unit a) (handle cmd (a_unit a))"
      using Cons.prems Control by (intro handle_unit) simp_all
    obtain u where u: "handle cmd (a_unit a) = Some u" "unit_ok u" using f by (auto simp: follows_def)
    have "unit_inv (uctl u)" using um.keeps [OF f Cons.prems(2)] u(1) by simp
    then show ?thesis
      using Cons.IH [of "a\<lparr>a_unit := u\<rparr>"] Cons.prems u prio_handle [OF u(1)] Control by simp
  next
    case (Sample t)
    have "unit_view (a_unit (BcuMicSampleAndPlay_round t a)) = unit_view (a_unit a)" by (rule view_round)
    then show ?thesis
      using Cons.IH [of "BcuMicSampleAndPlay_round t a"] Cons.prems Sample inv_round [of a t]
      by (simp add: unit_view_def)
  qed
qed simp

section \<open>The microphone\<close>

text \<open>Whether a round may take the microphone: the 3.5 mm input plays, or the driver speaks live
  with the key pressed and the initiative, or to a passenger, or with the key to the other driver.\<close>

definition may_talk :: "mic_tick \<Rightarrow> audio \<Rightarrow> bool" where
  "may_talk t a \<longleftrightarrow>
     (let b = ub (scan_keys t a); intercom = state_id (bcu_active_intercom_state b)
      in outer_plays b
         \<or> (if live_plays b then bc_ptt_key b = 1 \<and> has_initiative b
            else intercom = D2P_INTERCOMM_EVENT
              \<or> (intercom = D2D_INTERCOMM_EVENT \<or> intercom = D2D_HANGUP_D2P_EVENT)
                \<and> bc_ptt_key b = 1 \<and> may_speak_d2d b))"

text \<open>Two sequences of inputs that differ only in what the microphone gives in rounds that may not take it.\<close>

fun same_but_muted :: "audio \<Rightarrow> mic_tick list \<Rightarrow> mic_tick list \<Rightarrow> bool" where
  "same_but_muted a [] [] = True"
| "same_but_muted a (t # ts) (t' # ts') =
     ((t' = t \<or> \<not> may_talk t a \<and> t'\<lparr>mt_stat := mt_stat t, mt_mic := mt_mic t\<rparr> = t)
      \<and> same_but_muted (BcuMicSampleAndPlay_round t a) ts ts')"
| "same_but_muted a _ _ = False"

definition audio_run :: "mic_tick list \<Rightarrow> audio \<Rightarrow> audio" where
  "audio_run ts a = fold BcuMicSampleAndPlay_round ts a"

lemma muted_fields [simp]:
  "scan_keys (t\<lparr>mt_stat := s, mt_mic := m\<rparr>) a = scan_keys t a"
  "sound_alarm (t\<lparr>mt_stat := s, mt_mic := m\<rparr>) a = sound_alarm t a"
  "play_intercom player (t\<lparr>mt_stat := s, mt_mic := m\<rparr>) a = play_intercom player t a"
  by (simp_all add: scan_keys_def sound_alarm_def play_intercom_def Let_def split: prod.split)

lemma muted_idle [simp]: "sample_idle (t\<lparr>mt_stat := s, mt_mic := m\<rparr>) a = sample_idle t a"
  by (simp only: sample_idle_def muted_fields)

lemma muted_talk:
  "\<not> (bc_ptt_key (ub a) = 1 \<and> has_initiative (ub a)) \<Longrightarrow>
    PutMicSampleDataintoBuffer_EAMP (t\<lparr>mt_stat := s, mt_mic := m\<rparr>) a = PutMicSampleDataintoBuffer_EAMP t a"
  "bc_ptt_key (ub a) \<noteq> 1 \<Longrightarrow>
    PutMicSampleDataintoBuffer_BCU (t\<lparr>mt_stat := s, mt_mic := m\<rparr>) a = PutMicSampleDataintoBuffer_BCU t a"
  by (auto simp: PutMicSampleDataintoBuffer_EAMP_def PutMicSampleDataintoBuffer_BCU_def ResetLiveMonitorCounts_def Let_def)

lemma muted_live:
  assumes "\<not> (bc_ptt_key (ub a) = 1 \<and> has_initiative (ub a))"
  shows "sample_live (t\<lparr>mt_stat := s, mt_mic := m\<rparr>) a = sample_live t a"
  unfolding sample_live_def muted_talk(1) [OF assms] ..

lemma muted_d2d:
  assumes "\<not> (bc_ptt_key (ub a) = 1 \<and> may_speak_d2d (ub a))"
  shows "sample_d2d hang_up (t\<lparr>mt_stat := s, mt_mic := m\<rparr>) a = sample_d2d hang_up t a"
proof -
  let ?put = "\<lambda>t. if may_speak_d2d (ub a) then PutMicSampleDataintoBuffer_BCU t a else a"
  have put: "?put (t\<lparr>mt_stat := s, mt_mic := m\<rparr>) = ?put t" using assms muted_talk(2) [of a] by auto
  have ptt: "mt_ptt (t\<lparr>mt_stat := s, mt_mic := m\<rparr>) = mt_ptt t" by simp
  show ?thesis unfolding sample_d2d_def put ptt muted_fields ..
qed

lemma muted_round:
  assumes "\<not> may_talk t a"
  shows "BcuMicSampleAndPlay_round (t\<lparr>mt_stat := s, mt_mic := m\<rparr>) a = BcuMicSampleAndPlay_round t a"
proof -
  let ?t = "t\<lparr>mt_stat := s, mt_mic := m\<rparr>" and ?b = "ub (scan_keys t a)"
  let ?i = "state_id (bcu_active_intercom_state ?b)"
  have o: "\<not> outer_plays ?b" and not_d2p: "\<not> live_plays ?b \<Longrightarrow> ?i \<noteq> D2P_INTERCOMM_EVENT"
    and live: "live_plays ?b \<Longrightarrow> sample_live ?t (scan_keys t a) = sample_live t (scan_keys t a)"
    and d2d: "\<not> live_plays ?b \<Longrightarrow> ?i = D2D_INTERCOMM_EVENT \<or> ?i = D2D_HANGUP_D2P_EVENT
      \<Longrightarrow> sample_d2d hu ?t (scan_keys t a) = sample_d2d hu t (scan_keys t a)" for hu
    using assms by (auto simp only: may_talk_def Let_def if_True if_False intro: muted_live muted_d2d)
  show ?thesis
    unfolding BcuMicSampleAndPlay_round_def Let_def muted_fields muted_idle if_not_P [OF o]
    using live not_d2p d2d by (simp only: if_True if_False split: if_split) blast
qed

lemma muted_run: "same_but_muted a ts ts' \<Longrightarrow> audio_run ts' a = audio_run ts a"
proof (induction a ts ts' rule: same_but_muted.induct)
  case (2 a t ts t' ts')
  have "BcuMicSampleAndPlay_round t' a = BcuMicSampleAndPlay_round t a"
  proof (cases "t' = t")
    case False
    then have "\<not> may_talk t a" "t'\<lparr>mt_stat := mt_stat t, mt_mic := mt_mic t\<rparr> = t" using 2 by simp_all
    moreover from this have "t' = t\<lparr>mt_stat := mt_stat t', mt_mic := mt_mic t'\<rparr>" by (cases t, cases t') simp
    ultimately show ?thesis using muted_round [of t a, where s = "mt_stat t'" and m = "mt_mic t'"] by simp
  qed simp
  then show ?case using 2 by (simp add: audio_run_def)
qed (simp_all add: audio_run_def)

section \<open>The tone of a request\<close>

text \<open>A buffer that was written from its beginning holds \<open>tone\<close>, of which \<open>k\<close> bytes were read.\<close>

definition tone_in :: "char_buffer \<Rightarrow> byte list \<Rightarrow> nat \<Rightarrow> bool" where
  "tone_in b tone k \<longleftrightarrow> cb_inv b \<and> cb_rd b = k \<and> cb_wr b = length tone \<and> k \<le> length tone
     \<and> take (length tone) (cb_mem b) = tone"

lemma tone_in_view: "tone_in b tone k \<Longrightarrow> cb_view b = drop k tone"
proof -
  assume t: "tone_in b tone k"
  note d = cb_invD [of b]
  have tn: "tone ! i = cb_mem b ! i" if "i < length tone" for i
    using t that by (metis nth_take tone_in_def)
  show ?thesis
  proof (rule nth_equalityI)
    show "length (cb_view b) = length (drop k tone)"
      using t by (simp add: tone_in_def cb_view_length cb_count_def ring_count_def)
    show "cb_view b ! i = drop k tone ! i" if "i < length (cb_view b)" for i
      using that t d by (simp add: tone_in_def cb_view_def ring_view_nth tn cb_count_def ring_count_def)
  qed
qed

lemma tone_in_brush:
  assumes "tone_in (ch_bufs h p) tone k" and "CharBufferIsValid h p"
  shows "tone_in (ch_bufs (CharBufferBrush h p) p) tone 0"
  using assms cb_rewind_inv(2) [of "ch_bufs h p"] by (simp add: tone_in_def CharBufferBrush_def)

lemma tone_in_read:
  assumes "tone_in (ch_bufs h p) tone k" and "CharBufferIsValid h p"
  shows "tone_in (ch_bufs (fst (CharBufferRead h p False n)) p) tone (min (k + n) (length tone))"
proof -
  let ?b = "ch_bufs h p"
  have inv: "cb_inv ?b" using assms(1) by (simp add: tone_in_def)
  obtain ys b' where g: "fifo_gets cb_get n ?b = (ys, b')" by fastforce
  have b': "ch_bufs (fst (CharBufferRead h p False n)) p = b'"
    using assms(2) g by (simp add: CharBufferRead_def cb_read_loop_gets)
  have c: "cb_count ?b = length tone - k" using assms(1) by (simp add: tone_in_def cb_count_def ring_count_def)
  have "k + min n (length tone - k) = min (k + n) (length tone)" using assms(1) by (auto simp: tone_in_def min_def)
  then have "(k + min n (length tone - k)) mod cb_size ?b = min (k + n) (length tone)"
    using assms(1) cb_invD(4) [OF inv] by (simp add: tone_in_def)
  then have e: "b' = ?b\<lparr>cb_readfrom := cb_head ?b + min (k + n) (length tone)\<rparr>"
    using cb_gets_pointer [OF inv g] assms(1) c by (simp add: tone_in_def)
  have "cb_inv b'" using cbf.gets_spec [OF inv g] by simp
  then show ?thesis using assms(1) b' e by (simp add: tone_in_def)
qed


text \<open>A call of the player that takes everything, from an empty pending buffer.\<close>

lemma play_tone:
  assumes "ch_inv h" and "CharBufferIsValid h src" and "CharBufferIsValid h pend" and "src \<noteq> pend"
    and pend: "hview h pend = []" "3072 < cb_size (ch_bufs h pend)"
    and tone: "tone_in (ch_bufs h src) tone k" and more: "2234 < length tone - k"
  obtains h' where "PlayAudioTwice quiet 0 src pend h = (h', Some (take 3072 (drop k tone)), 0)"
    and "heap_moves {src, pend} h h'" and "hview h' pend = []"
    and "tone_in (ch_bufs h' src) tone (min (k + 3072) (length tone))"
proof -
  note view = tone_in_view [OF tone]
  have "start < length tone - k \<Longrightarrow> start < length (hview h pend @ hview h src)" for start using view pend(1) by simp
  then obtain h' where p: "play_twice 2234 2234 quiet 0 src pend h = (h', Some (take 3072 (drop k tone)), 0)"
    and m: "heap_moves {src, pend} h h'"
    and w: "drop k tone = codec_took (take 3072 (drop k tone)) 0 @ hview h' pend @ hview h' src"
    using play_twice_spec(2) [OF assms(1-4) _ pend(2), of 2234 2234 0] pend(1) view more by auto
  define h1 where "h1 = fst (CharBufferRead h pend False 3072)"
  obtain out1 r1 where r1: "CharBufferRead h pend False 3072 = (h1, out1, r1)" by (metis h1_def prod.collapse)
  note m1 = read_moves [OF assms(1,3) r1]
  have tot: "read_total 0 h src + read_total 0 h pend = length tone - k"
    using read_total_eq [OF assms(1,2)] read_total_eq [OF assms(1,3)] view pend(1) by simp
  obtain h2 out2 r2 where r2: "CharBufferRead h1 src False 3072 = (h2, out2, r2)" by (metis prod.collapse)
  have f: "fill_tmp 3072 src pend h = (h2, Some (if r2 > 0 then out2 else []))"
    using r1 r2 m1(4) pend(1) by (simp add: fill_tmp_def)
  have l: "left_after tmp 0 = 0" for tmp by (simp add: left_after_def)
  have "h' = h2"
    using arg_cong [OF p, of fst] arg_cong [OF p, of "\<lambda>x. snd (snd x)"]
    unfolding play_twice_def Let_def tot quiet_simps f prod.case option.case l using more by (simp split: if_splits)
  moreover have "ch_bufs h1 src = ch_bufs h src" using heap_movesD(5) [OF m1(1), of src] assms(4) by simp
  ultimately have t: "tone_in (ch_bufs h' src) tone (min (k + 3072) (length tone))"
    using tone_in_read [of h1 src tone k 3072] tone heap_movesD(2) [OF m1(1)] assms(2) r2 by simp
  define v where "v = length (hview h' pend)"
  have "length tone - k = min (length tone - k) 3072 + (v + (length tone - min (k + 3072) (length tone)))"
    using tone_in_view [OF t] arg_cong [OF w, of length] by (simp add: codec_took_def l v_def)
  then have "v = 0" using more by (cases "k + 3072 \<le> length tone") (simp_all add: min_def split: if_splits)
  then have "hview h' pend = []" by (simp add: v_def)
  then show ?thesis using that p m t by (simp add: PlayAudioTwice_def)
qed

text \<open>A request is being sounded; \<open>k\<close> bytes of the header and the tone were played.\<close>

definition sounding :: "audio \<Rightarrow> nat \<Rightarrow> bool" where
  "sounding a k \<longleftrightarrow>
     ch_inv (a_heap a) \<and> CharBufferIsValid (a_heap a) (a_alarm a) \<and> CharBufferIsValid (a_heap a) (a_pending a)
     \<and> a_alarm a \<noteq> a_pending a \<and> hview (a_heap a) (a_pending a) = [] \<and> 3072 < cb_size (ch_bufs (a_heap a) (a_pending a))
     \<and> tone_in (ch_bufs (a_heap a) (a_alarm a)) (RIFFHeader711 @ a_tone a) k
     \<and> 2234 + 48 < length (RIFFHeader711 @ a_tone a)
     \<and> state_id (bcu_active_intercom_state (ub a)) = INTERCOM_IDLE \<and> \<not> live_plays (ub a) \<and> \<not> outer_plays (ub a)
     \<and> request_number (ub a) \<noteq> 0 \<and> pcu_alarm_playing (ub a) = 1 \<and> open_snd_playback (ub a) \<noteq> 1"

text \<open>What is heard in \<open>n\<close> rounds.\<close>

fun tone_heard :: "nat \<Rightarrow> byte list \<Rightarrow> nat \<Rightarrow> byte list" where
  "tone_heard 0 tone k = []"
| "tone_heard (Suc n) tone k =
     (let k' = (if 2234 < length tone - k then k else 48)
      in take 3072 (drop k' tone) @ tone_heard n tone (min (k' + 3072) (length tone)))"

lemma tone_heard_length: "2234 + 48 < length tone \<Longrightarrow> 2235 * n \<le> length (tone_heard n tone k)"
proof (induction n arbitrary: k)
  case (Suc n)
  show ?case using Suc.IH [OF Suc.prems, of "min ((if 2234 < length tone - k then k else 48) + 3072) (length tone)"] Suc.prems
    by (auto simp: Let_def min_def)
qed simp

lemma codec_took_all [simp]: "codec_took tmp 0 = tmp"
  by (simp add: codec_took_def left_after_def)


lemma brush_moves:
  assumes "ch_inv h" and "CharBufferIsValid h p"
  shows "heap_moves {p} h (CharBufferBrush h p)"
proof (rule upd_moves)
  show "CharBufferBrush h p = ch_upd h p ((ch_bufs h p)\<lparr>cb_readfrom := cb_head (ch_bufs h p)\<rparr>)"
    using assms(2) by (simp add: CharBufferBrush_def)
qed (use assms ch_inv_brush in simp_all)

lemma rewind_tone:
  assumes "ch_inv h" and "CharBufferIsValid h p" and "tone_in (ch_bufs h p) tone k" and "48 \<le> length tone"
  defines "h' \<equiv> fst (CharBufferRead (CharBufferBrush h p) p False 48)"
  shows "heap_moves {p} h h'" and "tone_in (ch_bufs h' p) tone 48"
proof -
  note b = brush_moves [OF assms(1,2)]
  have v: "CharBufferIsValid (CharBufferBrush h p) p" using heap_movesD(2) [OF b] assms(2) by simp
  have "heap_moves {p} (CharBufferBrush h p) h'"
    using read_moves(1) [OF heap_movesD(1) [OF b] v, of 48 h'] by (simp add: h'_def prod_eq_iff)
  then show "heap_moves {p} h h'" by (rule heap_moves_trans [OF b])
  show "tone_in (ch_bufs h' p) tone 48"
    using tone_in_read [OF tone_in_brush [OF assms(3,2)] v, of 48] assms(4) by (simp add: h'_def)
qed

lemma play_short:
  assumes "ch_inv h" and "CharBufferIsValid h src" and "CharBufferIsValid h pend"
    and "hview h pend = []" and "tone_in (ch_bufs h src) tone k" and "length tone - k \<le> 2234"
  shows "PlayAudioTwice quiet len src pend h = (h, None, -5)"
  using assms read_total_eq [OF assms(1,2)] read_total_eq [OF assms(1,3)] tone_in_view [OF assms(5)]
  by (simp add: PlayAudioTwice_def play_twice_def Let_def)

lemma soundingD:
  assumes "sounding a k"
  shows "ch_inv (a_heap a)" "CharBufferIsValid (a_heap a) (a_alarm a)" "CharBufferIsValid (a_heap a) (a_pending a)"
    "a_alarm a \<noteq> a_pending a" "hview (a_heap a) (a_pending a) = []" "3072 < cb_size (ch_bufs (a_heap a) (a_pending a))"
    "tone_in (ch_bufs (a_heap a) (a_alarm a)) (RIFFHeader711 @ a_tone a) k"
    "2234 + 48 < length (RIFFHeader711 @ a_tone a)"
  using assms by (simp_all add: sounding_def)

lemma sounding_heap:
  assumes "sounding a k" and "heap_moves {a_alarm a, a_pending a} (a_heap a) h" and "hview h (a_pending a) = []"
    and "tone_in (ch_bufs h (a_alarm a)) (RIFFHeader711 @ a_tone a) k'"
  shows "sounding (a\<lparr>a_heap := h, a_played := p\<rparr>) k'"
  using assms heap_movesD [OF assms(2)] by (simp add: sounding_def)

lemma sounding_clear:
  assumes "sounding a k"
  shows "sounding (a\<lparr>a_heap := CharBufferClear (a_heap a) (a_pending a)\<rparr>) k"
proof -
  note d = soundingD [OF assms]
  have "cb_size (ch_bufs (CharBufferClear (a_heap a) (a_pending a)) (a_pending a)) = cb_size (ch_bufs (a_heap a) (a_pending a))"
    using d(3) by (simp add: CharBufferClear_def Let_def)
  then show ?thesis
    using assms clear_view [OF d(1,3)] ch_inv_clear [OF d(1)] d(4) by (simp add: sounding_def)
qed

lemma plays_upd [simp]:
  "live_plays (b\<lparr>bc_calls := cs\<rparr>) = live_plays b" "outer_plays (b\<lparr>bc_calls := cs\<rparr>) = outer_plays b"
  "live_plays (b\<lparr>bc_ptt_key := n\<rparr>) = live_plays b" "outer_plays (b\<lparr>bc_ptt_key := n\<rparr>) = outer_plays b"
  "live_plays (b\<lparr>pcu_alarm_playing_again := n\<rparr>) = live_plays b"
  "outer_plays (b\<lparr>pcu_alarm_playing_again := n\<rparr>) = outer_plays b"
  by (simp_all add: live_plays_def outer_plays_def)

lemma sounding_on:
  assumes "sounding a k"
  shows "sounding (on_ub (call c) a) k" and "sounding (on_ub (\<lambda>b. b\<lparr>pcu_alarm_playing_again := 1\<rparr>) a) k"
    and "sounding (scan_keys t a) k"
  using assms
  by (simp_all add: sounding_def on_ub_def on_unit_def call_def scan_keys_def Let_def)

lemma sound_round:
  assumes s: "sounding a k" and t: "mt_env t = quiet" "mt_left t = 0" "mt_left2 t = 0"
  defines "tone \<equiv> RIFFHeader711 @ a_tone a" and "k' \<equiv> (if 2234 < length (RIFFHeader711 @ a_tone a) - k then k else 48)"
    and "a' \<equiv> sound_alarm t a"
  shows "sounding a' (min (k' + 3072) (length tone)) \<and> a_played a' = a_played a @ take 3072 (drop k' tone)
    \<and> a_tone a' = a_tone a \<and> (length tone - k \<le> 2234 \<longrightarrow> pcu_alarm_playing_again (ub a') = 1)"
proof -
  note d = soundingD [OF s, folded tone_def]
  have playing: "pcu_alarm_playing (ub a) = 1" using s by (simp add: sounding_def)
  show ?thesis
  proof (cases "2234 < length tone - k")
    case True
    obtain h where p: "PlayAudioTwice quiet 0 (a_alarm a) (a_pending a) (a_heap a) = (h, Some (take 3072 (drop k tone)), 0)"
      and m: "heap_moves {a_alarm a, a_pending a} (a_heap a) h" "hview h (a_pending a) = []"
        "tone_in (ch_bufs h (a_alarm a)) tone (min (k + 3072) (length tone))"
      using play_tone [OF d(1-7) True] by metis
    have "a' = a\<lparr>a_heap := h, a_played := a_played a @ take 3072 (drop k tone)\<rparr>"
      using playing p t by (simp add: a'_def sound_alarm_def play_alarm_def log_played_def)
    then show ?thesis
      using sounding_heap [OF s m(1,2)] m(3) True by (simp add: k'_def tone_def)
  next
    case False
    let ?r = "rewind_alarm a"
    have short: "play_alarm quiet 0 a = (a, -5)"
      using play_short [OF d(1-3,5,7)] False by (simp add: play_alarm_def log_played_def)
    have rw: "heap_moves {a_alarm a} (a_heap a) (a_heap ?r)" "tone_in (ch_bufs (a_heap ?r) (a_alarm a)) tone 48"
      using rewind_tone [OF d(1,2,7)] d(8) by (simp_all add: rewind_alarm_def Let_def on_ub_def)
    have same: "ch_bufs (a_heap ?r) (a_pending a) = ch_bufs (a_heap a) (a_pending a)"
      using heap_movesD(5) [OF rw(1), of "a_pending a"] d(4) by simp
    have f: "a_alarm ?r = a_alarm a" "a_pending ?r = a_pending a" "a_tone ?r = a_tone a" "a_played ?r = a_played a"
      by (simp_all add: rewind_alarm_def Let_def on_ub_def)
    have "?r = (on_ub (call DisableAudioSampleTimer) a)\<lparr>a_heap := a_heap ?r, a_played := a_played a\<rparr>"
      by (simp add: rewind_alarm_def Let_def on_ub_def)
    moreover have "sounding ((on_ub (call DisableAudioSampleTimer) a)\<lparr>a_heap := a_heap ?r, a_played := a_played a\<rparr>) 48"
      by (rule sounding_heap [OF sounding_on(1) [OF s]])
        (use rw heap_moves_mono [OF rw(1)] same d(5) in \<open>simp_all add: on_ub_def tone_def\<close>)
    ultimately have sr: "sounding ?r 48" by simp
    note dr = soundingD [OF sr, unfolded f, folded tone_def]
    have "2234 < length tone - 48" using d(8) by simp
    then obtain h where p: "PlayAudioTwice quiet 0 (a_alarm a) (a_pending a) (a_heap ?r) = (h, Some (take 3072 (drop 48 tone)), 0)"
      and m: "heap_moves {a_alarm a, a_pending a} (a_heap ?r) h" "hview h (a_pending a) = []"
        "tone_in (ch_bufs h (a_alarm a)) tone (min (48 + 3072) (length tone))"
      using play_tone [OF dr(1-7)] by metis
    let ?a2 = "?r\<lparr>a_heap := h, a_played := a_played a @ take 3072 (drop 48 tone)\<rparr>"
    have s2: "sounding ?a2 (min (48 + 3072) (length tone))"
      using sounding_heap [OF sr, unfolded f, OF m(1,2)] m(3) by (simp add: tone_def)
    have "fst (play_alarm quiet 0 ?r) = ?a2" using p f by (simp add: play_alarm_def log_played_def)
    then have "a' = on_ub (\<lambda>b. b\<lparr>pcu_alarm_playing_again := 1\<rparr>) (?a2\<lparr>a_heap := CharBufferClear (a_heap ?a2) (a_pending ?a2)\<rparr>)"
      using playing short t by (simp add: a'_def sound_alarm_def Let_def)
    then show ?thesis
      using sounding_on(2) [OF sounding_clear [OF s2]] False f by (simp add: k'_def tone_def on_ub_def on_unit_def)
  qed
qed

lemma alarm_round:
  assumes s: "sounding a k" and t: "mt_env t = quiet" "mt_left t = 0" "mt_left2 t = 0"
  defines "tone \<equiv> RIFFHeader711 @ a_tone a" and "k' \<equiv> (if 2234 < length (RIFFHeader711 @ a_tone a) - k then k else 48)"
    and "a' \<equiv> BcuMicSampleAndPlay_round t a"
  shows "sounding a' (min (k' + 3072) (length tone)) \<and> a_played a' = a_played a @ take 3072 (drop k' tone)
    \<and> a_tone a' = a_tone a \<and> (length tone - k \<le> 2234 \<longrightarrow> pcu_alarm_playing_again (ub a') = 1)"
proof -
  let ?a1 = "scan_keys t a"
  let ?a2 = "if idle_pcu_req_count ?a1 \<ge> 3 then ?a1\<lparr>idle_pcu_req_count := 0, led_toggles := led_toggles ?a1 + 1\<rparr>
    else ?a1\<lparr>idle_pcu_req_count := idle_pcu_req_count ?a1 + 1\<rparr>"
  have s1: "sounding ?a1 k" by (rule sounding_on(3) [OF s])
  then have s2: "sounding ?a2 k" by (simp add: sounding_def)
  have "load_alarm ?a2 = ?a2" using s2 by (simp add: load_alarm_def sounding_def)
  then have "a' = sound_alarm t ?a2"
    using s1 by (simp add: a'_def BcuMicSampleAndPlay_round_def Let_def sample_idle_def sounding_def)
  moreover have "a_tone ?a2 = a_tone a" "a_played ?a2 = a_played a" by (simp_all add: scan_keys_def Let_def)
  ultimately show ?thesis using sound_round [OF s2 t] by (simp add: tone_def k'_def)
qed

lemma alarm_run:
  "sounding a k \<Longrightarrow> list_all (\<lambda>t. mt_env t = quiet \<and> mt_left t = 0 \<and> mt_left2 t = 0) ts
    \<Longrightarrow> a_played (audio_run ts a) = a_played a @ tone_heard (length ts) (RIFFHeader711 @ a_tone a) k"
proof (induction ts arbitrary: a k)
  case (Cons t ts)
  note r = alarm_round [OF Cons.prems(1), of t]
  show ?case
    using r Cons.prems(2) Cons.IH [of "BcuMicSampleAndPlay_round t a"]
    by (simp add: audio_run_def Let_def)
qed (simp add: audio_run_def)

section \<open>A concrete thread\<close>

definition blank_buffer :: "nat \<Rightarrow> char_buffer" where
  "blank_buffer n = \<lparr>cb_head = 0, cb_tail = n, cb_writeto = 0, cb_readfrom = 0, cb_size = n,
     cb_clear_count = 0, cb_mem = replicate n 0\<rparr>"

text \<open>The tone is 3000 bytes; nothing of it was played yet.\<close>

definition audio_demo :: audio where
  "audio_demo =
     \<lparr>a_unit = on_unit (\<lambda>b. b\<lparr>request_number := 1, pcu_alarm_playing := 1, open_snd_playback := 2\<rparr>)
         (unit_start\<lparr>u_prio := default_list True\<rparr>),
      a_heap = \<lparr>ch_ids = map (\<lambda>p. \<lparr>nd_name = ''A'' @ replicate 63 NUL, nd_ptr = p, nd_used = 1\<rparr>) [3, 4, 5, 7, 9],
        ch_bufs = (\<lambda>_. blank_buffer 3136)
          (7 := \<lparr>cb_head = 0, cb_tail = 3059, cb_writeto = 3058, cb_readfrom = 0, cb_size = 3059,
                 cb_clear_count = 0, cb_mem = RIFFHeader711 @ replicate 3000 0x55 @ [0]\<rparr>)\<rparr>,
      a_send = 3, a_recv = 5, a_local = 4, a_pending = 9, a_alarm = 7, a_counters = (0, 0),
      idle_pcu_req_count = 0, led_toggles = 0, whether_send_blank = 0, live_running_counts = 0,
      a_blank = replicate 3072 0x7f, a_tone = replicate 3000 0x55, a_played = []\<rparr>"

definition tick_demo :: mic_tick where
  "tick_demo = \<lparr>mt_pins = \<lparr>rd_ptt = 1, rd_key_1 = 1, rd_key_2 = 1, rd_cc = 1, rd_key_4 = 1, rd_hd = 0\<rparr>,
     mt_stat = 0, mt_mic = [1, 2, 3], mt_left = 0, mt_left2 = 0, mt_env = quiet,
     mt_stack = replicate 3500 0, mt_ptt = None\<rparr>"

lemma blank_buffer_inv: "0 < n \<Longrightarrow> cb_inv (blank_buffer n)" "cb_view (blank_buffer n) = []" "cb_size (blank_buffer n) = n"
  by (simp_all add: blank_buffer_def cb_inv_def cb_view_def cb_count_def cb_rd_def cb_wr_def ring_count_self)

lemma header_length: "length RIFFHeader711 = 58"
  by (simp add: RIFFHeader711_def)

lemma demo_tone: "tone_in (ch_bufs (a_heap audio_demo) 7) (RIFFHeader711 @ replicate 3000 0x55) 0"
  by (simp add: audio_demo_def tone_in_def cb_inv_def cb_rd_def cb_wr_def header_length)

lemma audio_demo_fields [simp]:
  "a_alarm audio_demo = 7" "a_pending audio_demo = 9" "a_recv audio_demo = 5" "a_tone audio_demo = replicate 3000 0x55"
  "a_played audio_demo = []" "a_blank audio_demo = replicate 3072 0x7f" "a_counters audio_demo = (0, 0)"
  "ch_bufs (a_heap audio_demo) 9 = blank_buffer 3136" "ch_bufs (a_heap audio_demo) 5 = blank_buffer 3136"
  by (simp_all add: audio_demo_def)

lemma demo_heap: "ch_inv (a_heap audio_demo)"
  using demo_tone
  by (simp add: ch_inv_def id_wf_def tone_in_def) (simp add: audio_demo_def blank_buffer_inv nd_wf_def)

lemma demo_valid: "CharBufferIsValid (a_heap audio_demo) 7" "CharBufferIsValid (a_heap audio_demo) 9"
  "CharBufferIsValid (a_heap audio_demo) 5"
  by (simp_all add: audio_demo_def CharBufferIsValid_def)

lemma demo_unit: "unit_ok (a_unit audio_demo)" "unit_inv (uctl (a_unit audio_demo))"
  "u_prio (a_unit audio_demo) = default_list True"
  using unit_start_ok by (simp_all add: audio_demo_def unit_ok_def uctl_def on_unit_def ctl_of_def)

lemma demo_states: "bcu_active_ann_state (ub audio_demo) = IdleAnn" "bcu_active_intercom_state (ub audio_demo) = IdleIntercom"
  "request_number (ub audio_demo) = 1" "pcu_alarm_playing (ub audio_demo) = 1" "open_snd_playback (ub audio_demo) = 2"
  "current_state_ann (ub audio_demo) = ANN_IDLE"
  by (simp_all add: audio_demo_def on_unit_def unit_start_def BCUStateInit_def bcu_rest_def)

lemma demo_sounding: "sounding audio_demo 0"
  using demo_heap demo_valid demo_tone
  by (simp add: sounding_def demo_states live_plays_def outer_plays_def blank_buffer_inv header_length)

lemma tick_demo_fields [simp]: "mt_env tick_demo = quiet" "mt_left tick_demo = 0" "mt_left2 tick_demo = 0"
  by (simp_all add: tick_demo_def)

lemma demo_cannot_talk: "\<not> may_talk tick_demo audio_demo"
  by (simp add: may_talk_def Let_def scan_keys_def on_unit_def outer_plays_def live_plays_def demo_states)

section \<open>Properties\<close>

text \<open>C23:
  the players of files and tones neither lose, invent nor reorder a byte: for any
  sequence of arriving sound and calls of a player, whatever part of a block the codec leaves,
  what the codec takes followed by what waits (the pending buffer, then the main one) is what
  waited before followed by what the main buffer accepted.\<close>

theorem tone_stream:
  assumes "ch_inv h" and "CharBufferIsValid h src" and "CharBufferIsValid h pend" and "src \<noteq> pend"
    and "length (cb_view (ch_bufs h pend)) \<le> 3072" and "3072 < cb_size (ch_bufs h pend)"
    and "player \<in> {PlayAudioTwice, PlayAudioTwice_analog, PlayAudioTwice_0525}"
    and "tone_run player src pend ops h = (fed, out, h')"
  shows "cb_view (ch_bufs h pend) @ cb_view (ch_bufs h src) @ fed
    = out @ cb_view (ch_bufs h' pend) @ cb_view (ch_bufs h' src)"
proof -
  obtain start border where "player = play_twice start border" "border \<le> start" "border \<le> 3072"
    using assms(7) by (auto simp: PlayAudioTwice_def PlayAudioTwice_analog_def PlayAudioTwice_0525_def)
  with tone_run_lemma [OF _ _ assms(4,1-3,5,6)] assms(8) show ?thesis by blast
qed

theorem tone_stream_witness:
  "\<exists>fed out h'. tone_run PlayAudioTwice 7 9 [Play 100, Feed [1, 2, 3], Play 0] (a_heap audio_demo) = (fed, out, h')
    \<and> RIFFHeader711 @ replicate 3000 0x55 @ fed = out @ cb_view (ch_bufs h' 9) @ cb_view (ch_bufs h' 7)"
proof -
  obtain fed out h' where r: "tone_run PlayAudioTwice 7 9 [Play 100, Feed [1, 2, 3], Play 0] (a_heap audio_demo) = (fed, out, h')"
    by (metis prod.collapse)
  have "cb_view (ch_bufs (a_heap audio_demo) 9) @ cb_view (ch_bufs (a_heap audio_demo) 7) @ fed
      = out @ cb_view (ch_bufs h' 9) @ cb_view (ch_bufs h' 7)"
    by (rule tone_stream [OF demo_heap demo_valid(1,2) _ _ _ _ r]) (simp_all add: blank_buffer_inv)
  then show ?thesis using r tone_in_view [OF demo_tone] by (simp add: blank_buffer_inv del: tone_run.simps)
qed

text \<open>The players of the intercom: of what waits (after the backlog beyond 3000 bytes is
  thrown away once playing is steady) a block is filled up with silence and handed to the codec
  whole. The player of the passenger's intercom removes up to 3072 bytes and plays 3000 of them;
  that of the drivers plays 3500 bytes, of which those after the sound and the silence
  (\<open>rest\<close>) were never written.\<close>

lemma intercom_players:
  assumes "ch_inv h" and "CharBufferIsValid h src" and "CharBufferIsValid h pend" and "src \<noteq> pend"
    and "length (cb_view (ch_bufs h src)) < 2 ^ 32" and "length stack = room" and "length blank = 3072"
    and "(player, room, pad, send) \<in> {(PlayAudioTwice_D2P, 3072, 3000, 3000), (PlayAudioTwice_D2D, 3500, 3072, 3500)}"
    and "kept (10 \<le> fst cs \<or> snd cs = 1) (cb_view (ch_bufs h pend)) (cb_view (ch_bufs h src)) = (kp, km)"
    and "64 < length (kp @ km)"
  shows "\<exists>cs' h' rest. player blank stack quiet src pend (cs, h)
      = ((cs', h'), Some (take send (take room (kp @ km) @ take (pad - length (kp @ km)) blank @ rest)), 0)
    \<and> cb_view (ch_bufs h' pend) @ cb_view (ch_bufs h' src) = drop room (kp @ km)
    \<and> length rest = room - max (min room (length (kp @ km))) pad"
proof -
  have p: "player = play_padded room pad send" "3023 \<le> room" "pad \<le> 3072" "pad \<le> room" "send \<le> room"
    using assms(8) by (auto simp: PlayAudioTwice_D2P_def PlayAudioTwice_D2D_def)
  show ?thesis
    unfolding p(1) using play_padded_spec(2) [OF assms(1-7) p(2-5) refl assms(9,10)] by blast
qed

text \<open>C24:
  the microphone is silent unless the driver may talk: in any run of the thread, what
  the microphone delivers in the rounds that may not take it has no effect at all, neither on
  the buffers that are sent nor on anything else. Such a round is one in which neither the
  3.5 mm input plays, nor the driver speaks to a passenger, nor presses the key in a live
  announcement with the initiative, nor presses it alone to speak to the other driver.\<close>

theorem microphone_gate:
  assumes "same_but_muted a ts ts'"
  shows "audio_run ts' a = audio_run ts a"
  using assms by (rule muted_run)

theorem microphone_gate_witness:
  "audio_run [tick_demo\<lparr>mt_stat := - 5, mt_mic := [9, 9]\<rparr>] audio_demo = audio_run [tick_demo] audio_demo"
  by (rule microphone_gate) (simp add: demo_cannot_talk)



text \<open>C25:
  a request is never silent: while it is sounded and the codec takes what it is given,
  every round plays the next block of the tone, at least 2235 bytes, and after the last whole
  block the tone starts again behind 48 bytes.\<close>

theorem alarm_is_heard:
  assumes "sounding a k" and "\<forall>t \<in> set ts. mt_env t = quiet \<and> mt_left t = 0 \<and> mt_left2 t = 0"
  shows "a_played (audio_run ts a) = a_played a @ tone_heard (length ts) (RIFFHeader711 @ a_tone a) k
    \<and> length (a_played (audio_run ts a)) \<ge> length (a_played a) + 2235 * length ts"
  using alarm_run [OF assms(1)] assms(2) tone_heard_length [of "RIFFHeader711 @ a_tone a" "length ts" k]
    soundingD(8) [OF assms(1)]
  by (simp add: list_all_iff)

theorem alarm_is_heard_witness:
  "length (a_played (audio_run [tick_demo, tick_demo, tick_demo] audio_demo)) \<ge> 6705"
proof -
  have "\<forall>t \<in> set [tick_demo, tick_demo, tick_demo]. mt_env t = quiet \<and> mt_left t = 0 \<and> mt_left2 t = 0" by simp
  from alarm_is_heard [OF demo_sounding this]
  have "length (a_played (audio_run [tick_demo, tick_demo, tick_demo] audio_demo))
    \<ge> length (a_played audio_demo) + 2235 * length [tick_demo, tick_demo, tick_demo]" by blast
  then show ?thesis by simp
qed

text \<open>The end of the tone is told to the control thread, whose round in the idle intercom state
  opens the sampling timer again, which the audio thread closed.\<close>

lemma write_cmd_calls: "bc_calls (write_cmd n pkg b) = bc_calls b"
  by (induction n pkg b rule: write_cmd.induct) simp_all

lemma alarm_reopens_timer:
  assumes "sounding a k" and "mt_env t = quiet" "mt_left t = 0" "mt_left2 t = 0"
    and "length (RIFFHeader711 @ a_tone a) - k \<le> 2234"
  defines "b \<equiv> ub (BcuMicSampleAndPlay_round t a)"
  shows "OpenAudioSampleTimer \<in> set (bc_calls (fst (sp_process IdleIntercom (b, s))))"
proof -
  have "pcu_alarm_playing_again b = 1" "pcu_alarm_playing b = 1"
    using alarm_round [OF assms(1-4)] assms(5) by (simp_all add: b_def sounding_def)
  then show ?thesis
    by (simp add: IdleIntercomProcess_def on_bcu_def call_def CloseAudioSampleTimer_def SendCmd_def Let_def
        write_cmd_calls)
qed

text \<open>The player of the passenger's intercom loses the last 72 bytes of a full block.\<close>

lemma d2p_loses:
  assumes "ch_inv h" and "CharBufferIsValid h src" and "CharBufferIsValid h pend" and "src \<noteq> pend"
    and "length (cb_view (ch_bufs h src)) = 3072" and "cb_view (ch_bufs h pend) = []"
    and "length stack = 3072" and "length blank = 3072" and "fst cs < 10" and "snd cs \<noteq> 1"
  shows "\<exists>cs' h'. PlayAudioTwice_D2P blank stack quiet src pend (cs, h)
      = ((cs', h'), Some (take 3000 (cb_view (ch_bufs h src))), 0)
    \<and> cb_view (ch_bufs h' pend) = [] \<and> cb_view (ch_bufs h' src) = []"
proof -
  have k: "kept False (cb_view (ch_bufs h pend)) (cb_view (ch_bufs h src)) = ([], cb_view (ch_bufs h src))"
    using assms(6) by (simp add: kept_def)
  have f: "False = (10 \<le> fst cs \<or> snd cs = 1)" using assms(9,10) by simp
  show ?thesis
    using play_padded_spec(2) [OF assms(1-4) _ assms(7,8) _ _ _ _ f k, of 3000 3000] assms(5)
    by (auto simp: PlayAudioTwice_D2P_def)
qed

text \<open>A player that finds the main buffer cleared after it has filled its block stops with -1,
  and does not put the rest of the block back.\<close>

lemma cleared_not_put_back:
  assumes "play_twice start border env len src pend h = (h', Some tmp, r)" and "r \<noteq> 0"
  shows "r = -1 \<and> (\<exists>g. h' = oth_3 env g \<and> was_cleared (clear_flag h src) h' src)"
  using assms by (auto simp: play_twice_def Let_def split: if_splits option.splits prod.splits)

end
