(* ===== verification/Audio_Net.thy ===== *)
theory Audio_Net
  imports Char_Buffer "HOL-Library.Monad_Syntax"
begin

text \<open>
  Audio over UDP: the sender cuts a block of samples into numbered packages
  (\<open>network/udp_send_fun.cxx\<close>), the receiver takes them through a cache of six package slots
  into a byte buffer (\<open>network/udp_recv_fun.cxx\<close>). The receiver's code is there twice: the
  functions whose names end in 2 are the ones \<open>UdpRecvFun\<close> calls, the others are the older
  version (theory \<open>Audio_Cache\<close>); both work on the state of this theory.

  The sockets are parameters: what \<open>sendto\<close> answers, and the package that \<open>recvfrom\<close> delivers.
  A function has no result (\<open>None\<close>) when it reads through a null pointer or outside an array.
  The time stamp of a package, debug output and counters of bytes are left out.
\<close>

section \<open>Packages\<close>

abbreviation (input) SIZE_LEN :: nat where "SIZE_LEN \<equiv> 1024"
abbreviation (input) Cache_PACK_NUM :: nat where "Cache_PACK_NUM \<equiv> 6"

record package =
  end_flags :: byte
  package_counter :: "32 word"
  send_len :: int
  data_buffer :: "byte list"

definition package_zero :: package where
  "package_zero = \<lparr>end_flags = 0, package_counter = 0, send_len = 0, data_buffer = replicate SIZE_LEN 0\<rparr>"

section \<open>Sending\<close>

text \<open>\<open>InitSendPackage\<close> with its static counter.\<close>

definition InitSendPackage :: "byte list \<Rightarrow> 32 word \<Rightarrow> package \<times> 32 word" where
  "InitSendPackage buffer counter =
     (package_zero\<lparr>end_flags := 0, package_counter := counter,
        data_buffer := buffer @ replicate (SIZE_LEN - length buffer) 0,
        send_len := int (length buffer)\<rparr>, counter + 1)"

text \<open>
  \<open>UdpSendBuffer\<close>: the packages sent, the counter, and the return value; \<open>sendto i\<close> is the answer
  of call \<open>i\<close>.
\<close>

function send_loop :: "(nat \<Rightarrow> int) \<Rightarrow> nat \<Rightarrow> byte list \<Rightarrow> int \<Rightarrow> 32 word \<Rightarrow> package list \<times> 32 word \<times> int" where
  "send_loop sendto i data ret counter =
     (if data = [] then ([], counter, ret)
      else (let n = (if length data \<ge> SIZE_LEN then SIZE_LEN else length data);
                (pk, counter1) = InitSendPackage (take n data) counter;
                ret1 = sendto i in
        if ret1 < 0 then ([], counter1, -1)
        else (let (pks, counter2, ret2) = send_loop sendto (i + 1) (drop n data) ret1 counter1
              in (pk # pks, counter2, ret2))))"
  by pat_completeness auto

termination by (relation "measure (\<lambda>(_, _, data, _, _). length data)") (auto split: if_splits)

declare send_loop.simps [simp del]

definition UdpSendBuffer :: "(nat \<Rightarrow> int) \<Rightarrow> byte list \<Rightarrow> 32 word \<Rightarrow> package list \<times> 32 word \<times> int" where
  "UdpSendBuffer sendto buffer counter = send_loop sendto 0 buffer 0 counter"

section \<open>The receiver's state\<close>

text \<open>
  \<open>mem\<close> is the memory of the packages, \<open>ArrayToHandle\<close> the array of eight pointers, of which
  \<open>CacheCreate\<close> sets six, \<open>pToData\<close> the slot that \<open>recvfrom\<close> fills next.
\<close>

record receiver =
  mem :: "ptr \<Rightarrow> package"
  ArrayToHandle :: "ptr list"
  pToData :: ptr
  network_buffer_num :: nat
  desired_value :: "32 word"
  push_value :: "32 word"
  counter_packag :: nat
  AddDataToBuff_flage :: bool
  clean_force_len :: bool
  app :: char_heap

definition sizeof_package :: int where
  "sizeof_package = 1041"

definition CacheCreate :: "ptr \<Rightarrow> (ptr \<Rightarrow> package) \<Rightarrow> char_heap \<Rightarrow> receiver" where
  "CacheCreate head m h =
     \<lparr>mem = m, ArrayToHandle = map (\<lambda>i. head + sizeof_package * int i) [0..<Cache_PACK_NUM] @ [NULL, NULL],
      pToData = head, network_buffer_num = 0, desired_value = 0, push_value = 0,
      counter_packag = 0, AddDataToBuff_flage = False, clean_force_len = False, app = h\<rparr>"

text \<open>\<open>*p\<close>, and \<open>ArrayToHandle[i]\<close>.\<close>

definition deref :: "receiver \<Rightarrow> ptr \<Rightarrow> package option" where
  "deref s p = (if p = NULL then None else Some (mem s p))"

definition handle_at :: "receiver \<Rightarrow> nat \<Rightarrow> ptr option" where
  "handle_at s i = (if i < length (ArrayToHandle s) then Some (ArrayToHandle s ! i) else None)"

definition node :: "receiver \<Rightarrow> nat \<Rightarrow> package option" where
  "node s i = Option.bind (handle_at s i) (deref s)"

definition set_handle :: "nat \<Rightarrow> ptr \<Rightarrow> receiver \<Rightarrow> receiver option" where
  "set_handle i p s =
     (if i < length (ArrayToHandle s) then Some (s\<lparr>ArrayToHandle := (ArrayToHandle s)[i := p]\<rparr>) else None)"

section \<open>Pushing\<close>

text \<open>\<open>PushToBuffer2\<close> and \<open>PushToBuffer\<close>, which are the same statements.\<close>

definition PushToBuffer :: "ptr \<Rightarrow> package \<Rightarrow> receiver \<Rightarrow> (receiver \<times> int) option" where
  "PushToBuffer buffer_rw_id pk s =
     (if send_len pk < 0 \<or> send_len pk > int (length (data_buffer pk)) then None
      else (let (h, r) = CharBufferWrite (app s) buffer_rw_id (Some (data_buffer pk)) (nat (send_len pk))
            in Some (s\<lparr>app := h\<rparr>, if r < 0 then -1 else r)))"

definition PushToDataBuffer2 :: "ptr \<Rightarrow> package \<Rightarrow> receiver \<Rightarrow> (receiver \<times> int) option" where
  "PushToDataBuffer2 buffer_rw_id pk s =
     (let s1 = s\<lparr>push_value := package_counter pk\<rparr>;
          s2 = (if desired_value s1 \<le> push_value s1
                then s1\<lparr>desired_value := push_value s1 + 1\<rparr> else s1)
      in PushToBuffer buffer_rw_id pk s2)"

text \<open>\<open>ArraySort\<close> moves the first pointer behind the five others; it reads \<open>ArrayToHandle[6]\<close> on the way.\<close>

definition ArraySort :: "receiver \<Rightarrow> receiver" where
  "ArraySort s =
     (let a = ArrayToHandle s
      in s\<lparr>ArrayToHandle := take 5 (tl a) @ [hd a] @ drop 6 a\<rparr>)"

definition WriteTobuffer2 :: "ptr \<Rightarrow> receiver \<Rightarrow> receiver option" where
  "WriteTobuffer2 buffer_rw_id s =
     do { pk \<leftarrow> node s 0;
          (s1, _) \<leftarrow> PushToDataBuffer2 buffer_rw_id pk s;
          Some (ArraySort (s1\<lparr>network_buffer_num := network_buffer_num s1 - 1\<rparr>)) }"

text \<open>The loop of \<open>CopyToAppBuffer2\<close>; its first argument is \<open>network_buffer_num\<close>, which each turn counts down.\<close>

fun copy_loop :: "nat \<Rightarrow> ptr \<Rightarrow> receiver \<Rightarrow> receiver option" where
  "copy_loop 0 buffer_rw_id s = Some s"
| "copy_loop (Suc k) buffer_rw_id s =
     do { s1 \<leftarrow> WriteTobuffer2 buffer_rw_id s;
          pk \<leftarrow> node s1 0;
          (if package_counter pk = push_value s1 + 1 then copy_loop k buffer_rw_id s1 else Some s1) }"

definition CopyToAppBuffer2 :: "ptr \<Rightarrow> receiver \<Rightarrow> receiver option" where
  "CopyToAppBuffer2 buffer_rw_id s = copy_loop (network_buffer_num s) buffer_rw_id s"

section \<open>The reordering receiver\<close>

definition AddPakageToCache2 :: "receiver \<Rightarrow> receiver option" where
  "AddPakageToCache2 s =
     do { pk \<leftarrow> deref s (pToData s);
          (if package_counter pk \<le> push_value s \<and> network_buffer_num s \<noteq> 0 then Some s
           else do { s1 \<leftarrow> set_handle (network_buffer_num s) (pToData s) s;
                     p \<leftarrow> handle_at s1 (network_buffer_num s + 1);
                     Some (s1\<lparr>network_buffer_num := network_buffer_num s + 1, pToData := p\<rparr>) }) }"

text \<open>
  The loop of \<open>ArrayMoveSort2\<close> and \<open>ArrayMoveSort\<close>, with \<open>local_var\<close> as its first argument; at 0 it
  reads in front of the array.
\<close>

fun move_loop :: "nat \<Rightarrow> receiver \<Rightarrow> receiver option" where
  "move_loop 0 s = None"
| "move_loop (Suc k) s =
     do { pk \<leftarrow> deref s (pToData s);
          q \<leftarrow> handle_at s k;
          nd \<leftarrow> deref s q;
          (if sint (package_counter pk) > sint (package_counter nd)
           then do { s1 \<leftarrow> set_handle (Suc k) q s; move_loop k s1 }
           else set_handle (Suc k) (pToData s) s) }"

definition ArrayMoveSort2 :: "receiver \<Rightarrow> receiver option" where
  "ArrayMoveSort2 s = move_loop (network_buffer_num s) s"

definition AddAndSortFun2 :: "receiver \<Rightarrow> receiver option" where
  "AddAndSortFun2 s =
     do { pk \<leftarrow> deref s (pToData s);
          lst \<leftarrow> node s (network_buffer_num s - 1);
          (let pc = sint (package_counter pk); lc = sint (package_counter lst) in
           if package_counter pk = package_counter lst + 1 then AddPakageToCache2 s
           else if pc < lc + 9 \<and> pc > lc then AddPakageToCache2 s
           else if pc < lc \<and> (package_counter pk \<ge> desired_value s \<or> pc < 12)
           then do { s1 \<leftarrow> ArrayMoveSort2 s;
                     p \<leftarrow> handle_at s1 (network_buffer_num s1 + 1);
                     Some (s1\<lparr>network_buffer_num := network_buffer_num s1 + 1, pToData := p\<rparr>) }
           else Some s) }"

definition SortAlgorithm2 :: "ptr \<Rightarrow> receiver \<Rightarrow> receiver option" where
  "SortAlgorithm2 buffer_rw_id s =
     (if network_buffer_num s = 0
      then do { pk \<leftarrow> deref s (pToData s);
                (s1, _) \<leftarrow> PushToDataBuffer2 buffer_rw_id pk s;
                Some s1 }
      else do { pk \<leftarrow> deref s (pToData s);
                (if package_counter pk \<le> push_value s \<or> package_counter pk > desired_value s + 12
                 then CopyToAppBuffer2 buffer_rw_id s
                 else do { s1 \<leftarrow> AddAndSortFun2 s;
                           fst_pk \<leftarrow> node s1 0;
                           s2 \<leftarrow> (if desired_value s1 = package_counter fst_pk
                                  then CopyToAppBuffer2 buffer_rw_id s1 else Some s1);
                           (if 3 < network_buffer_num s2 then CopyToAppBuffer2 buffer_rw_id s2 else Some s2) }) })"

text \<open>\<open>GetNetData2\<close> puts the package at \<open>*pToData\<close>; \<open>None\<close> is an error of \<open>recvfrom\<close>.\<close>

definition DataRecvAndHandle2 :: "int \<Rightarrow> package option \<Rightarrow> ptr \<Rightarrow> receiver \<Rightarrow> (receiver \<times> int) option" where
  "DataRecvAndHandle2 sockfd recvfrom buffer_rw_id s =
     (if sockfd < 0 \<or> pToData s = NULL \<or> \<not> list_all (\<lambda>p. p \<noteq> NULL) (take Cache_PACK_NUM (ArrayToHandle s))
      then Some (s, -1)
      else (case recvfrom of
              None \<Rightarrow> Some (s, -1)
            | Some pk \<Rightarrow> map_option (\<lambda>s1. (s1, 0))
                (SortAlgorithm2 buffer_rw_id (s\<lparr>mem := (mem s)(pToData s := pk)\<rparr>))))"

text \<open>\<open>UdpRecvFun\<close> for audio (\<open>flage\<close> 2) through \<open>UdpRecvDataPart2\<close>.\<close>

definition UdpRecvData :: "int \<Rightarrow> package option \<Rightarrow> ptr \<Rightarrow> receiver \<Rightarrow> (receiver \<times> int) option" where
  "UdpRecvData sockfd recvfrom buffer_rw_id s =
     map_option (\<lambda>(s1, r). (s1, if r < 0 then -1 else 0)) (DataRecvAndHandle2 sockfd recvfrom buffer_rw_id s)"

fun UdpRecvAll :: "int \<Rightarrow> package list \<Rightarrow> ptr \<Rightarrow> receiver \<Rightarrow> receiver option" where
  "UdpRecvAll sockfd [] buffer_rw_id s = Some s"
| "UdpRecvAll sockfd (pk # pks) buffer_rw_id s =
     do { (s1, _) \<leftarrow> UdpRecvData sockfd (Some pk) buffer_rw_id s; UdpRecvAll sockfd pks buffer_rw_id s1 }"

section \<open>The sender\<close>

lemma send_loop_Nil [simp]: "send_loop sendto i [] ret counter = ([], counter, ret)"
  by (simp add: send_loop.simps)

lemma send_loop_step:
  assumes "data \<noteq> []" and "0 \<le> sendto i"
  shows "send_loop sendto i data ret counter =
    (let (pks, counter2, ret2) = send_loop sendto (i + 1) (drop SIZE_LEN data) (sendto i) (counter + 1)
     in (fst (InitSendPackage (take SIZE_LEN data) counter) # pks, counter2, ret2))"
  using assms
  by (subst send_loop.simps) (auto simp: InitSendPackage_def Let_def split: prod.split)

text \<open>A package that the sender makes: it says how many of its bytes are audio.\<close>

definition package_wf :: "package \<Rightarrow> bool" where
  "package_wf pk \<longleftrightarrow> 0 \<le> send_len pk \<and> send_len pk \<le> int (length (data_buffer pk))"

definition payload :: "package \<Rightarrow> byte list" where
  "payload pk = take (nat (send_len pk)) (data_buffer pk)"

lemma init_package:
  assumes "length d \<le> SIZE_LEN"
  shows "payload (fst (InitSendPackage d n)) = d" "package_wf (fst (InitSendPackage d n))"
    "package_counter (fst (InitSendPackage d n)) = n" "length (data_buffer (fst (InitSendPackage d n))) = SIZE_LEN"
    "end_flags (fst (InitSendPackage d n)) = 0"
  using assms by (simp_all add: InitSendPackage_def payload_def package_wf_def)

lemma blocks_step:
  assumes "data \<noteq> []"
  shows "Suc ((length (drop SIZE_LEN data) + SIZE_LEN - 1) div SIZE_LEN) = (length data + SIZE_LEN - 1) div SIZE_LEN"
proof (cases "length data \<le> SIZE_LEN")
  case True
  then have "(length data + SIZE_LEN - 1) div SIZE_LEN = 1"
    using assms by (intro div_nat_eqI) (simp_all add: Suc_le_eq)
  with True show ?thesis by simp
next
  case False
  then have "length data + SIZE_LEN - 1 = (length (drop SIZE_LEN data) + SIZE_LEN - 1) + SIZE_LEN" by simp
  then show ?thesis by (simp add: div_add_self2)
qed

lemma send_loop_spec:
  assumes "\<And>i. 0 \<le> sendto i"
  shows "case send_loop sendto i data ret counter of (pks, counter', ret') \<Rightarrow>
    concat (map payload pks) = data \<and> list_all package_wf pks
    \<and> length pks = (length data + SIZE_LEN - 1) div SIZE_LEN
    \<and> map package_counter pks = map (\<lambda>k. counter + of_nat k) [0..<length pks]
    \<and> counter' = counter + of_nat (length pks)"
proof (induction "length data" arbitrary: i data ret counter rule: less_induct)
  case less
  show ?case
  proof (cases "data = []")
    case False
    then have sh: "length (drop SIZE_LEN data) < length data" by simp
    obtain pks c r where s: "send_loop sendto (i + 1) (drop SIZE_LEN data) (sendto i) (counter + 1) = (pks, c, r)"
      by (metis prod_cases3)
    have ih0: "case send_loop sendto (i + 1) (drop SIZE_LEN data) (sendto i) (counter + 1) of (pks, counter', ret') \<Rightarrow>
      concat (map payload pks) = drop SIZE_LEN data \<and> list_all package_wf pks
      \<and> length pks = (length (drop SIZE_LEN data) + SIZE_LEN - 1) div SIZE_LEN
      \<and> map package_counter pks = map (\<lambda>k. counter + 1 + of_nat k) [0..<length pks]
      \<and> counter' = counter + 1 + of_nat (length pks)"
      by (rule less.hyps [OF sh])
    then have ih: "concat (map payload pks) = drop SIZE_LEN data" "list_all package_wf pks"
      "length pks = (length (drop SIZE_LEN data) + SIZE_LEN - 1) div SIZE_LEN"
      "map package_counter pks = map (\<lambda>k. counter + 1 + of_nat k) [0..<length pks]"
      "c = counter + 1 + of_nat (length pks)"
      unfolding s prod.case by simp_all
    have len: "Suc (length pks) = (length data + SIZE_LEN - 1) div SIZE_LEN"
      unfolding ih(3) using False by (rule blocks_step)
    have "[0..<Suc (length pks)] = 0 # map Suc [0..<length pks]" by (simp add: upt_conv_Cons map_Suc_upt del: upt_Suc)
    then have cnt: "counter # map package_counter pks = map (\<lambda>k. counter + of_nat k) [0..<Suc (length pks)]"
      using ih(4) by (simp add: comp_def add.assoc add.commute del: upt_Suc)
    let ?pk = "fst (InitSendPackage (take SIZE_LEN data) counter)"
    have e: "send_loop sendto i data ret counter = (?pk # pks, c, r)"
      using send_loop_step [where sendto = sendto and i = i, OF False assms] by (simp only: s Let_def prod.case)
    have tk: "length (take SIZE_LEN data) \<le> SIZE_LEN" by simp
    have "concat (map payload (?pk # pks)) = data" using ih(1) init_package(1) [OF tk, of counter] by simp
    moreover have "list_all package_wf (?pk # pks)" using ih(2) init_package(2) [OF tk, of counter] by simp
    moreover have "map package_counter (?pk # pks) = map (\<lambda>k. counter + of_nat k) [0..<length (?pk # pks)]"
      using cnt init_package(3) [OF tk, of counter] by (simp del: upt_Suc)
    moreover have "c = counter + of_nat (length (?pk # pks))" using ih(5) by simp
    ultimately show ?thesis unfolding e prod.case using len by simp
  qed simp
qed

section \<open>The receiver passes packages on\<close>

definition receiver_ok :: "receiver \<Rightarrow> bool" where
  "receiver_ok s \<longleftrightarrow> network_buffer_num s = 0 \<and> pToData s \<noteq> NULL
     \<and> list_all (\<lambda>p. p \<noteq> NULL) (take Cache_PACK_NUM (ArrayToHandle s))"

definition write_payload :: "ptr \<Rightarrow> package \<Rightarrow> char_heap \<Rightarrow> char_heap" where
  "write_payload p pk h = fst (CharBufferWrite h p (Some (payload pk)) (length (payload pk)))"

lemma write_take: "CharBufferWrite h p (Some (take n src)) (length (take n src)) = CharBufferWrite h p (Some src) n"
  by (simp add: CharBufferWrite_def min_def)

lemma push_wf:
  assumes "package_wf pk"
  obtains r where "PushToBuffer p pk s = Some (s\<lparr>app := write_payload p pk (app s)\<rparr>, r)"
proof -
  obtain h r where c: "CharBufferWrite (app s) p (Some (data_buffer pk)) (nat (send_len pk)) = (h, r)" by fastforce
  then have "write_payload p pk (app s) = h" unfolding write_payload_def payload_def write_take by simp
  with c assms that show thesis by (simp add: PushToBuffer_def package_wf_def not_less)
qed

lemma receive_one:
  assumes "receiver_ok s" and "package_wf pk" and "0 \<le> sockfd"
  obtains s' where "UdpRecvData sockfd (Some pk) p s = Some (s', 0)" "receiver_ok s'"
    "app s' = write_payload p pk (app s)"
proof -
  let ?s = "s\<lparr>mem := (mem s)(pToData s := pk)\<rparr>"
  let ?t = "?s\<lparr>push_value := package_counter pk\<rparr>"
  let ?v = "if desired_value ?t \<le> push_value ?t then ?t\<lparr>desired_value := push_value ?t + 1\<rparr> else ?t"
  obtain r where r: "PushToBuffer p pk ?v = Some (?v\<lparr>app := write_payload p pk (app ?v)\<rparr>, r)"
    using push_wf [OF assms(2)] by blast
  then have "UdpRecvData sockfd (Some pk) p s = Some (?v\<lparr>app := write_payload p pk (app s)\<rparr>, 0)"
    using assms(1,3) by (simp add: UdpRecvData_def DataRecvAndHandle2_def SortAlgorithm2_def receiver_ok_def
        deref_def PushToDataBuffer2_def Let_def)
  moreover have "receiver_ok (?v\<lparr>app := write_payload p pk (app s)\<rparr>)" using assms(1) by (simp add: receiver_ok_def)
  ultimately show thesis by (rule that) simp
qed

lemma receive_all:
  assumes "receiver_ok s" and "list_all package_wf pks" and "0 \<le> sockfd"
  shows "\<exists>s'. UdpRecvAll sockfd pks p s = Some s' \<and> receiver_ok s' \<and> app s' = fold (write_payload p) pks (app s)"
  using assms(1,2)
proof (induction pks arbitrary: s)
  case (Cons pk pks)
  then obtain s1 where s1: "UdpRecvData sockfd (Some pk) p s = Some (s1, 0)" "receiver_ok s1"
      "app s1 = write_payload p pk (app s)"
    using receive_one [OF Cons.prems(1) _ assms(3), of pk p] by auto
  then show ?case using Cons.IH [OF s1(2)] Cons.prems(2) by simp
qed simp

text \<open>The writes of a list of packages, when there is room.\<close>

lemma write_all_view:
  assumes "ch_inv h" and "CharBufferIsValid h p"
    and "length (cb_view (ch_bufs h p)) + length (concat (map payload pks)) < cb_size (ch_bufs h p)"
  shows "cb_view (ch_bufs (fold (write_payload p) pks h) p) = cb_view (ch_bufs h p) @ concat (map payload pks)
    \<and> ch_inv (fold (write_payload p) pks h) \<and> CharBufferIsValid (fold (write_payload p) pks h) p"
  using assms
proof (induction pks arbitrary: h)
  case (Cons pk pks)
  obtain h1 r where w: "CharBufferWrite h p (Some (payload pk)) (length (payload pk)) = (h1, r)" by fastforce
  then have h1: "write_payload p pk h = h1" by (simp add: write_payload_def)
  note v = char_write_view [OF Cons.prems(1,2) w]
  have "cb_count (ch_bufs h p) = length (cb_view (ch_bufs h p))" by (simp add: cb_view_def)
  then have r: "r = int (length (payload pk))" using Cons.prems(3) v(3) by (cases "payload pk") auto
  have "cb_view (ch_bufs h1 p) = cb_view (ch_bufs h p) @ payload pk" using v(1) r by simp
  moreover have "ch_inv h1" by (rule ch_inv_write [OF Cons.prems(1) w])
  ultimately show ?case using Cons.IH [of h1] Cons.prems(3) v(2,5) h1 by simp
qed simp

section \<open>Properties\<close>

text \<open>C21: audio arrives as it was sent: when every \<open>sendto\<close> succeeds, nothing is lost on the way, and
  the receiving buffer has room, cutting a block into packages of at most 1024 bytes and passing
  them through the receiver appends exactly the block to the receiving buffer.\<close>

theorem audio_end_to_end:
  assumes "\<And>i. 0 \<le> sendto i" and "UdpSendBuffer sendto data counter = (pks, counter', r)"
    and "receiver_ok s" and "0 \<le> sockfd" and "ch_inv (app s)" and "CharBufferIsValid (app s) p"
    and "length (cb_view (ch_bufs (app s) p)) + length data < cb_size (ch_bufs (app s) p)"
  shows "length pks = (length data + SIZE_LEN - 1) div SIZE_LEN
    \<and> map package_counter pks = map (\<lambda>k. counter + of_nat k) [0..<length pks]
    \<and> (\<exists>s'. UdpRecvAll sockfd pks p s = Some s' \<and> receiver_ok s' \<and> ch_inv (app s')
        \<and> cb_view (ch_bufs (app s') p) = cb_view (ch_bufs (app s) p) @ data)"
proof -
  have pk: "concat (map payload pks) = data" "list_all package_wf pks"
    "length pks = (length data + SIZE_LEN - 1) div SIZE_LEN"
    "map package_counter pks = map (\<lambda>k. counter + of_nat k) [0..<length pks]"
    using send_loop_spec [where sendto = sendto and i = 0 and data = data and ret = 0 and counter = counter, OF assms(1)] assms(2) by (simp_all add: UdpSendBuffer_def)
  obtain s' where s': "UdpRecvAll sockfd pks p s = Some s'" "receiver_ok s'" "app s' = fold (write_payload p) pks (app s)"
    using receive_all [OF assms(3) pk(2) assms(4)] by blast
  from write_all_view [OF assms(5,6), of pks] assms(7) pk(1) s' show ?thesis
    using pk(3,4) by auto
qed

theorem audio_end_to_end_witness:
  "\<exists>pks counter' r s'. UdpSendBuffer (\<lambda>_. 1041) [7, 8] 5 = (pks, counter', r)
    \<and> UdpRecvAll 3 pks 9 (CacheCreate 4096 (\<lambda>_. package_zero) char_demo) = Some s'
    \<and> cb_view (ch_bufs (app s') 9) = [7, 8]"
proof -
  let ?s = "CacheCreate 4096 (\<lambda>_. package_zero) char_demo"
  have ok: "receiver_ok ?s" by (simp add: receiver_ok_def CacheCreate_def sizeof_package_def upt_rec)
  have app: "app ?s = char_demo" by (simp add: CacheCreate_def)
  obtain pks c r where u: "UdpSendBuffer (\<lambda>_. 1041) [7, 8] 5 = (pks, c, r)" by (metis prod_cases3)
  show ?thesis
    using audio_end_to_end [OF _ u ok, where sockfd = 3 and p = 9] u
    by (simp add: app char_demo_inv char_demo_valid char_demo_view) blast
qed

text \<open>The receiver in use never reorders: its cache stays empty and its array of slots and its
  counters play no part, so every sequence of well-formed packages, numbered as they may be, is
  written to the receiving buffer one by one in the order of arrival.\<close>

lemma receive_in_order:
  assumes "receiver_ok s" and "list_all package_wf pks" and "0 \<le> sockfd"
  shows "\<exists>s'. UdpRecvAll sockfd pks p s = Some s' \<and> network_buffer_num s' = 0
    \<and> app s' = fold (write_payload p) pks (app s)"
  using receive_all [OF assms, of p] by (auto simp: receiver_ok_def)

end
