(* ===== verification/Audio_Cache.thy ===== *)
theory Audio_Cache
  imports Audio_Net "HOL-Library.Sublist"
begin

text \<open>
  The older receiver of \<open>network/udp_recv_fun.cxx\<close>, which waits until three packages are in the
  cache before it passes on the first: its operations, the queue of packages that it implements,
  and the order in which packages leave it.
\<close>

section \<open>Operations\<close>

text \<open>\<open>PushToDataBuffer\<close> and \<open>WriteTobuffer\<close>.\<close>

definition PushToDataBuffer :: "ptr \<Rightarrow> receiver \<Rightarrow> (receiver \<times> int) option" where
  "PushToDataBuffer buffer_rw_id s = do { pk \<leftarrow> node s 0; PushToBuffer buffer_rw_id pk s }"

definition WriteTobuffer :: "ptr \<Rightarrow> receiver \<Rightarrow> receiver option" where
  "WriteTobuffer buffer_rw_id s =
     do { (s1, _) \<leftarrow> PushToDataBuffer buffer_rw_id s;
          (let s2 = ArraySort (s1\<lparr>counter_packag := counter_packag s1 - 1\<rparr>) in
           Some (if counter_packag s2 = 0 then s2\<lparr>AddDataToBuff_flage := False\<rparr> else s2)) }"

definition AddPakageToCache :: "receiver \<Rightarrow> receiver option" where
  "AddPakageToCache s =
     do { pk \<leftarrow> deref s (pToData s);
          hd_pk \<leftarrow> node s 0;
          (if sint (package_counter pk) \<le> sint (package_counter hd_pk) \<and> counter_packag s \<noteq> 0 then Some s
           else do { s1 \<leftarrow> set_handle (counter_packag s) (pToData s) s;
                     p \<leftarrow> handle_at s1 (counter_packag s + 1);
                     Some (s1\<lparr>counter_packag := counter_packag s + 1, pToData := p\<rparr>) }) }"

definition ArrayMoveSort :: "receiver \<Rightarrow> receiver option" where
  "ArrayMoveSort s = move_loop (counter_packag s) s"

definition AddOrAbandonFun :: "receiver \<Rightarrow> receiver option" where
  "AddOrAbandonFun s =
     do { pk \<leftarrow> deref s (pToData s);
          lst \<leftarrow> node s (counter_packag s - 1);
          hd_pk \<leftarrow> node s 0;
          (let pc = sint (package_counter pk); lc = sint (package_counter lst);
               hc = sint (package_counter hd_pk) in
           if pc = lc + 1 then AddPakageToCache s
           else if pc < lc + 9 \<and> pc > lc then AddPakageToCache s
           else if pc < lc \<and> (pc > hc \<or> pc < 12)
           then do { s1 \<leftarrow> ArrayMoveSort s;
                     p \<leftarrow> handle_at s1 (counter_packag s1 + 1);
                     Some (s1\<lparr>counter_packag := counter_packag s1 + 1, pToData := p\<rparr>) }
           else if counter_packag s < 3
           then map_option (\<lambda>s1. s1\<lparr>AddDataToBuff_flage := True\<rparr>) (AddPakageToCache s)
           else Some s) }"

definition SortAlgorithm :: "receiver \<Rightarrow> receiver option" where
  "SortAlgorithm s =
     (if counter_packag s \<noteq> 0 \<and> counter_packag s < 3 then AddOrAbandonFun s
      else if counter_packag s \<noteq> 0 then AddOrAbandonFun (s\<lparr>AddDataToBuff_flage := True\<rparr>)
      else AddPakageToCache s)"

text \<open>The loop that empties the cache after the last package; its first argument is the counter.\<close>

fun flush_loop :: "nat \<Rightarrow> ptr \<Rightarrow> receiver \<Rightarrow> receiver option" where
  "flush_loop 0 buffer_rw_id s = Some s"
| "flush_loop (Suc k) buffer_rw_id s = do { s1 \<leftarrow> WriteTobuffer buffer_rw_id s; flush_loop k buffer_rw_id s1 }"

text \<open>\<open>DataRecvAndHandle\<close> of a package that \<open>recvfrom\<close> delivers; an error of \<open>recvfrom\<close> ends the process.\<close>

definition DataRecvAndHandle :: "int \<Rightarrow> package \<Rightarrow> ptr \<Rightarrow> receiver \<Rightarrow> (receiver \<times> int) option" where
  "DataRecvAndHandle sockfd pk buffer_rw_id s =
     (if sockfd < 0 \<or> pToData s = NULL \<or> \<not> list_all (\<lambda>p. p \<noteq> NULL) (take Cache_PACK_NUM (ArrayToHandle s))
      then Some (s, -1)
      else (let s0 = (if handle_at s 0 = Some (pToData s) \<and> clean_force_len s
                      then s\<lparr>counter_packag := 0, AddDataToBuff_flage := False, clean_force_len := False\<rparr> else s);
                s1 = s0\<lparr>mem := (mem s0)(pToData s0 := pk)\<rparr> in
        do { s2 \<leftarrow> SortAlgorithm s1;
             s3 \<leftarrow> (if end_flags pk = 1 then flush_loop (counter_packag s2) buffer_rw_id s2
                    else if AddDataToBuff_flage s2
                    then WriteTobuffer buffer_rw_id
                      (if counter_packag s2 \<le> 3 then s2\<lparr>AddDataToBuff_flage := False\<rparr> else s2)
                    else Some s2);
             Some (s3, 0) }))"

definition ForceClearDataCache :: "receiver \<Rightarrow> receiver option" where
  "ForceClearDataCache s =
     map_option (\<lambda>p. s\<lparr>pToData := p, clean_force_len := True\<rparr>) (handle_at s 0)"

text \<open>The loop of \<open>ForcePushDataCacheToBuffer\<close> over the slots.\<close>

fun force_loop :: "nat \<Rightarrow> nat \<Rightarrow> ptr \<Rightarrow> receiver \<Rightarrow> receiver option" where
  "force_loop 0 i buffer_rw_id s = Some s"
| "force_loop (Suc k) i buffer_rw_id s =
     do { p \<leftarrow> handle_at s i;
          (if p \<noteq> pToData s
           then do { pk \<leftarrow> deref s p; (s1, _) \<leftarrow> PushToBuffer buffer_rw_id pk s; force_loop k (i + 1) buffer_rw_id s1 }
           else map_option (\<lambda>q. s\<lparr>pToData := q, clean_force_len := True\<rparr>) (handle_at s 0)) }"

definition ForcePushDataCacheToBuffer :: "ptr \<Rightarrow> receiver \<Rightarrow> receiver option" where
  "ForcePushDataCacheToBuffer buffer_rw_id s = force_loop Cache_PACK_NUM 0 buffer_rw_id s"

fun DataRecvAll :: "int \<Rightarrow> package list \<Rightarrow> ptr \<Rightarrow> receiver \<Rightarrow> receiver option" where
  "DataRecvAll sockfd [] buffer_rw_id s = Some s"
| "DataRecvAll sockfd (pk # pks) buffer_rw_id s =
     do { (s1, _) \<leftarrow> DataRecvAndHandle sockfd pk buffer_rw_id s; DataRecvAll sockfd pks buffer_rw_id s1 }"

section \<open>The queue behind the cache\<close>

text \<open>
  \<open>cache_rel s q\<close>: the six slots are distinct, the packages in the cache are \<open>q\<close> in the order of
  the array, and the next one goes to the slot behind them.
\<close>

definition cache_rel :: "receiver \<Rightarrow> package list \<Rightarrow> bool" where
  "cache_rel s q \<longleftrightarrow> length (ArrayToHandle s) = 8 \<and> distinct (take 6 (ArrayToHandle s))
     \<and> NULL \<notin> set (take 6 (ArrayToHandle s)) \<and> length q = counter_packag s \<and> length q < 6
     \<and> q = map (mem s) (take (length q) (ArrayToHandle s)) \<and> pToData s = ArrayToHandle s ! length q"

text \<open>Whether a package is taken into the queue.\<close>

definition accepted :: "package list \<Rightarrow> package \<Rightarrow> bool" where
  "accepted q pk \<longleftrightarrow> q = [] \<or>
     (let pc = sint (package_counter pk); lc = sint (package_counter (last q)); hc = sint (package_counter (hd q)) in
      if pc < lc \<and> (pc > hc \<or> pc < 12) then True
      else pc > hc \<and> (pc = lc + 1 \<or> lc < pc \<and> pc < lc + 9 \<or> length q < 3))"

section \<open>The operations on the queue\<close>

lemma cache_relD:
  assumes "cache_rel s q"
  shows "length (ArrayToHandle s) = 8" "counter_packag s = length q" "length q < 6"
    "pToData s = ArrayToHandle s ! length q"
    "\<And>i. i < length q \<Longrightarrow> mem s (ArrayToHandle s ! i) = q ! i"
    "\<And>i. i < 6 \<Longrightarrow> ArrayToHandle s ! i \<noteq> NULL"
    "\<And>i j. i < 6 \<Longrightarrow> j < 6 \<Longrightarrow> i \<noteq> j \<Longrightarrow> ArrayToHandle s ! i \<noteq> ArrayToHandle s ! j"
proof -
  let ?A = "ArrayToHandle s"
  show A: "length ?A = 8" and "counter_packag s = length q" and n: "length q < 6" and "pToData s = ?A ! length q"
    using assms by (auto simp: cache_rel_def)
  have q: "q = map (mem s) (take (length q) ?A)" using assms unfolding cache_rel_def by blast
  show "mem s (?A ! i) = q ! i" if "i < length q" for i
    using that A n arg_cong [OF q, of "\<lambda>x. x ! i"] by simp
  have d: "distinct (take 6 ?A)" "NULL \<notin> set (take 6 ?A)" using assms by (auto simp: cache_rel_def)
  show "?A ! i \<noteq> NULL" if "i < 6" for i
    using d(2) that A nth_mem [of i "take 6 ?A"] by auto
  show "?A ! i \<noteq> ?A ! j" if "i < 6" "j < 6" "i \<noteq> j" for i j
    using nth_eq_iff_index_eq [OF d(1), of i j] that A by simp
qed

lemma cache_relI:
  assumes "length (ArrayToHandle s) = 8" "counter_packag s = length q" "length q < 6"
    "pToData s = ArrayToHandle s ! length q"
    "\<And>i. i < length q \<Longrightarrow> mem s (ArrayToHandle s ! i) = q ! i"
    "\<And>i. i < 6 \<Longrightarrow> ArrayToHandle s ! i \<noteq> NULL"
    "\<And>i j. i < 6 \<Longrightarrow> j < 6 \<Longrightarrow> i \<noteq> j \<Longrightarrow> ArrayToHandle s ! i \<noteq> ArrayToHandle s ! j"
  shows "cache_rel s q"
proof -
  have "distinct (take 6 (ArrayToHandle s))" using assms(1,7) by (auto simp: distinct_conv_nth)
  moreover have "NULL \<notin> set (take 6 (ArrayToHandle s))"
    using assms(1,6) by (auto simp: in_set_conv_nth)
  moreover have "q = map (mem s) (take (length q) (ArrayToHandle s))"
    using assms(1,3,5) by (intro nth_equalityI) auto
  ultimately show ?thesis using assms(1-4) by (simp add: cache_rel_def)
qed

lemma cache_node: "cache_rel s q \<Longrightarrow> i < length q \<Longrightarrow> node s i = Some (q ! i)"
  using cache_relD [of s q] by (simp add: node_def handle_at_def deref_def)

lemma cache_node0: "cache_rel s q \<Longrightarrow> node s 0 = Some (mem s (ArrayToHandle s ! 0))"
  using cache_relD(1,6) [of s q] by (simp add: node_def handle_at_def deref_def)

lemma cache_slot: "cache_rel s q \<Longrightarrow> pToData s \<noteq> NULL"
  using cache_relD(3,4,6) [of s q] by simp

lemma cache_store: "cache_rel s q \<Longrightarrow> cache_rel (s\<lparr>mem := (mem s)(pToData s := pk)\<rparr>) q"
  by (rule cache_relI) (use cache_relD [of s q] in auto)

lemma cache_view: "cache_rel s q \<Longrightarrow> ArrayToHandle s' = ArrayToHandle s \<Longrightarrow> mem s' = mem s \<Longrightarrow> pToData s' = pToData s \<Longrightarrow>
    counter_packag s' = counter_packag s \<Longrightarrow> cache_rel s' q"
  by (rule cache_relI) (use cache_relD [of s q] in auto)

lemma cache_hd: "cache_rel s q \<Longrightarrow> q \<noteq> [] \<Longrightarrow> mem s (ArrayToHandle s ! 0) = hd q"
  using cache_relD(5) [of s q 0] by (simp add: hd_conv_nth)

text \<open>Taking the package in the next slot into the queue.\<close>

definition took :: "receiver \<Rightarrow> receiver" where
  "took s = s\<lparr>counter_packag := counter_packag s + 1, pToData := ArrayToHandle s ! (counter_packag s + 1)\<rparr>"

lemma cache_took: "cache_rel s q \<Longrightarrow> length q < 5 \<Longrightarrow> cache_rel (took s) (q @ [mem s (pToData s)])"
  by (rule cache_relI) (use cache_relD [of s q] in \<open>auto simp: took_def nth_append less_Suc_eq\<close>)

lemma set_handle_same: "cache_rel s q \<Longrightarrow> set_handle (length q) (pToData s) s = Some s"
  using cache_relD(1,3,4) [of s q] by (simp add: set_handle_def)

lemma add_queue:
  assumes "cache_rel s q" and "mem s (pToData s) = pk"
  shows "AddPakageToCache s = Some
    (if q \<noteq> [] \<and> sint (package_counter pk) \<le> sint (package_counter (hd q)) then s else took s)"
  using cache_relD(1-4) [OF assms(1)] cache_node0 [OF assms(1)] cache_slot [OF assms(1)] assms(2)
    set_handle_same [OF assms(1)] cache_hd [OF assms(1)]
  by (cases "q = []") (simp_all add: AddPakageToCache_def deref_def handle_at_def took_def)

lemma move_queue:
  assumes "cache_rel s q" and "mem s (pToData s) = pk" and "q \<noteq> []"
    and "sint (package_counter pk) < sint (package_counter (last q))"
  shows "ArrayMoveSort s = Some s"
proof -
  obtain k where k: "length q = Suc k" using assms(3) by (cases q) auto
  have l: "mem s (ArrayToHandle s ! k) = last q"
    using cache_relD(5) [OF assms(1), of k] k assms(3) by (simp add: last_conv_nth)
  have "ArrayToHandle s ! k \<noteq> NULL" using cache_relD(3,6) [OF assms(1)] k by simp
  with l k assms(2,4) set_handle_same [OF assms(1)] cache_slot [OF assms(1)] cache_relD(1-3) [OF assms(1)]
  show ?thesis by (simp add: ArrayMoveSort_def deref_def handle_at_def)
qed

text \<open>A package out of the ordinary makes the oldest one leave.\<close>

definition odd_one :: "package list \<Rightarrow> package \<Rightarrow> bool" where
  "odd_one q pk \<longleftrightarrow>
     (let pc = sint (package_counter pk); lc = sint (package_counter (last q)); hc = sint (package_counter (hd q)) in
      \<not> (pc = lc + 1 \<or> pc < lc + 9 \<and> pc > lc \<or> pc < lc \<and> (pc > hc \<or> pc < 12)))"

lemma abandon_queue:
  assumes "cache_rel s q" and "mem s (pToData s) = pk" and "q \<noteq> []"
  shows "AddOrAbandonFun s = Some ((if accepted q pk then took s else s)
    \<lparr>AddDataToBuff_flage := AddDataToBuff_flage s \<or> length q < 3 \<and> odd_one q pk\<rparr>)"
proof -
  have n: "node s (counter_packag s - 1) = Some (last q)" "node s 0 = Some (hd q)" "deref s (pToData s) = Some pk"
    using cache_node [OF assms(1), of "length q - 1"] cache_node [OF assms(1), of 0] assms(2,3)
      cache_relD(2) [OF assms(1)] cache_slot [OF assms(1)]
    by (simp_all add: last_conv_nth hd_conv_nth deref_def)
  have same: "s\<lparr>AddDataToBuff_flage := AddDataToBuff_flage s\<rparr> = s"
    "(took s)\<lparr>AddDataToBuff_flage := AddDataToBuff_flage s\<rparr> = took s"
    by (simp_all add: took_def)
  have at: "handle_at s (counter_packag s + 1) = Some (ArrayToHandle s ! (counter_packag s + 1))"
    using cache_relD(1-3) [OF assms(1)] by (simp add: handle_at_def)
  define pc lc hc where "pc = sint (package_counter pk)" and "lc = sint (package_counter (last q))"
    and "hc = sint (package_counter (hd q))"
  note defs = pc_def [symmetric] lc_def [symmetric] hc_def [symmetric]
  have mv: "pc < lc \<Longrightarrow> ArrayMoveSort s = Some s"
    using move_queue [OF assms] by (simp add: defs)
  consider (add) "pc = lc + 1 \<or> pc < lc + 9 \<and> pc > lc"
    | (mv) "\<not> (pc = lc + 1 \<or> pc < lc + 9 \<and> pc > lc)" "pc < lc" "pc > hc \<or> pc < 12"
    | (odd) "\<not> (pc = lc + 1 \<or> pc < lc + 9 \<and> pc > lc)" "\<not> (pc < lc \<and> (pc > hc \<or> pc < 12))" by blast
  then show ?thesis
  proof cases
    case add
    then have "accepted q pk \<longleftrightarrow> pc > hc" "\<not> odd_one q pk"
      using assms(3) by (auto simp: accepted_def odd_one_def Let_def defs)
    with add show ?thesis
      using add_queue [OF assms(1,2)] n assms(3) same
      by (auto simp: AddOrAbandonFun_def Let_def defs)
  next
    case mv
    then have "accepted q pk" "\<not> odd_one q pk" by (auto simp: accepted_def odd_one_def Let_def defs)
    with mv show ?thesis
      using n at \<open>pc < lc \<Longrightarrow> ArrayMoveSort s = Some s\<close> same
      by (simp add: AddOrAbandonFun_def Let_def defs took_def)
  next
    case odd
    then have "accepted q pk \<longleftrightarrow> pc > hc \<and> length q < 3" "odd_one q pk"
      using assms(3) by (auto simp: accepted_def odd_one_def Let_def defs)
    with odd show ?thesis
      using add_queue [OF assms(1,2)] n assms(3) same cache_relD(2) [OF assms(1)]
      by (auto simp: AddOrAbandonFun_def Let_def defs)
  qed
qed

text \<open>Writing out the oldest package.\<close>

lemma array_sort_nth:
  assumes "length (ArrayToHandle s) = 8"
  shows "length (ArrayToHandle (ArraySort s)) = 8"
    "i < 5 \<Longrightarrow> ArrayToHandle (ArraySort s) ! i = ArrayToHandle s ! (i + 1)"
    "ArrayToHandle (ArraySort s) ! 5 = ArrayToHandle s ! 0"
proof -
  have "ArrayToHandle s \<noteq> []" using assms by auto
  then show "length (ArrayToHandle (ArraySort s)) = 8"
    "i < 5 \<Longrightarrow> ArrayToHandle (ArraySort s) ! i = ArrayToHandle s ! (i + 1)"
    "ArrayToHandle (ArraySort s) ! 5 = ArrayToHandle s ! 0"
    using assms by (simp_all add: ArraySort_def nth_append nth_tl hd_conv_nth Let_def)
qed

lemma array_sort_frame [simp]:
  "mem (ArraySort s) = mem s" "pToData (ArraySort s) = pToData s" "counter_packag (ArraySort s) = counter_packag s"
  "AddDataToBuff_flage (ArraySort s) = AddDataToBuff_flage s" "app (ArraySort s) = app s"
  "clean_force_len (ArraySort s) = clean_force_len s"
  by (simp_all add: ArraySort_def Let_def)

lemma cache_sort:
  assumes "cache_rel s (x # q)"
  shows "cache_rel (ArraySort (s\<lparr>counter_packag := counter_packag s - 1\<rparr>)) q"
proof -
  let ?s = "s\<lparr>counter_packag := counter_packag s - 1\<rparr>"
  let ?A = "ArrayToHandle s" and ?B = "ArrayToHandle (ArraySort ?s)"
  note d = cache_relD [OF assms]
  have len: "length (ArrayToHandle ?s) = 8" using d(1) by simp
  have B: "?B ! i = (if i < 5 then ?A ! (i + 1) else ?A ! 0)" if "i < 6" for i
    using array_sort_nth(2,3) [OF len] that by (cases "i = 5") auto
  show ?thesis
  proof (rule cache_relI)
    show "length ?B = 8" by (rule array_sort_nth(1) [OF len])
    show "?B ! i \<noteq> NULL" if "i < 6" for i using B [OF that] d(6) that by simp
    show "?B ! i \<noteq> ?B ! j" if "i < 6" "j < 6" "i \<noteq> j" for i j
      using B [OF that(1)] B [OF that(2)] d(7) that by auto
    show "mem (ArraySort ?s) (?B ! i) = q ! i" if "i < length q" for i
      using B [of i] d(3) d(5) [of "i + 1"] that by simp
    show "pToData (ArraySort ?s) = ?B ! length q" using B [of "length q"] d(3,4) by simp
  qed (use d(2,3) in simp_all)
qed

lemma write_queue:
  assumes "cache_rel s (x # q)" and "package_wf x"
  obtains s' where "WriteTobuffer p s = Some s'" "cache_rel s' q" "app s' = write_payload p x (app s)"
    "AddDataToBuff_flage s' \<longleftrightarrow> q \<noteq> [] \<and> AddDataToBuff_flage s" "clean_force_len s' = clean_force_len s"
proof -
  obtain r where r: "PushToBuffer p x s = Some (s\<lparr>app := write_payload p x (app s)\<rparr>, r)"
    using push_wf [OF assms(2)] by blast
  define s1 where "s1 = s\<lparr>app := write_payload p x (app s)\<rparr>"
  define s2 where "s2 = ArraySort (s1\<lparr>counter_packag := counter_packag s1 - 1\<rparr>)"
  define s3 where "s3 = (if counter_packag s2 = 0 then s2\<lparr>AddDataToBuff_flage := False\<rparr> else s2)"
  have "cache_rel s1 (x # q)" unfolding s1_def by (rule cache_view [OF assms(1)]) simp_all
  then have c2: "cache_rel s2 q" unfolding s2_def by (rule cache_sort)
  have f2: "app s2 = write_payload p x (app s)" "AddDataToBuff_flage s2 = AddDataToBuff_flage s"
    "clean_force_len s2 = clean_force_len s"
    by (simp_all add: s2_def s1_def)
  have "WriteTobuffer p s = Some s3"
    using r cache_node [OF assms(1), of 0]
    by (simp add: WriteTobuffer_def PushToDataBuffer_def s1_def [symmetric]) (simp add: Let_def s2_def s3_def)
  moreover have "cache_rel s3 q" unfolding s3_def by (rule cache_view [OF c2]) simp_all
  ultimately show thesis using that [of s3] cache_relD(2) [OF c2] f2 by (simp add: s3_def)
qed

lemma flush_queue:
  assumes "cache_rel s q" and "list_all package_wf q"
  shows "\<exists>s'. flush_loop (length q) p s = Some s' \<and> cache_rel s' [] \<and> app s' = fold (write_payload p) q (app s)
    \<and> (AddDataToBuff_flage s' \<longrightarrow> q = [] \<and> AddDataToBuff_flage s) \<and> clean_force_len s' = clean_force_len s"
  using assms
proof (induction q arbitrary: s)
  case (Cons x q)
  have wf: "package_wf x" using Cons.prems(2) by simp
  obtain s1 where s1: "WriteTobuffer p s = Some s1" "cache_rel s1 q" "app s1 = write_payload p x (app s)"
      "AddDataToBuff_flage s1 \<longleftrightarrow> q \<noteq> [] \<and> AddDataToBuff_flage s" "clean_force_len s1 = clean_force_len s"
    by (rule write_queue [OF Cons.prems(1) wf])
  with Cons.IH [OF s1(2)] Cons.prems(2) show ?case by auto
qed auto

section \<open>The receiver on the queue\<close>

text \<open>The state between two packages.\<close>

definition cache_ok :: "receiver \<Rightarrow> package list \<Rightarrow> bool" where
  "cache_ok s q \<longleftrightarrow> cache_rel s q \<and> length q \<le> 3 \<and> list_all package_wf q
     \<and> (AddDataToBuff_flage s \<longrightarrow> length q = 3) \<and> \<not> clean_force_len s"

definition taken :: "package list \<Rightarrow> package \<Rightarrow> package list" where
  "taken q pk = q @ (if accepted q pk then [pk] else [])"

lemma sort_queue:
  assumes "cache_ok s q" and "package_wf pk" and "mem s (pToData s) = pk"
  obtains s' where "SortAlgorithm s = Some s'" "cache_rel s' (taken q pk)" "app s' = app s"
    "AddDataToBuff_flage s' \<longleftrightarrow> q \<noteq> [] \<and> (length q \<ge> 3 \<or> odd_one q pk)" "\<not> clean_force_len s'"
proof -
  note d = cache_relD(2) [of s q]
  have rel: "cache_rel s q" and len: "length q \<le> 3" and fl: "AddDataToBuff_flage s \<Longrightarrow> length q = 3"
    and cl: "\<not> clean_force_len s"
    using assms(1) by (auto simp: cache_ok_def)
  let ?t = "\<lambda>s. if accepted q pk then took s else s"
  have t: "cache_rel (?t s) (taken q pk)" if "cache_rel s q" "mem s (pToData s) = pk" for s
    using cache_took [OF that(1)] that len by (simp add: taken_def)
  show thesis
  proof (cases "q = []")
    case True
    then have "SortAlgorithm s = Some (took s)" "accepted q pk"
      using add_queue [OF rel assms(3)] d [OF rel] by (simp_all add: SortAlgorithm_def accepted_def)
    moreover have "\<not> AddDataToBuff_flage s" using fl True by auto
    ultimately have "SortAlgorithm s = Some (took s)" "accepted q pk" "\<not> AddDataToBuff_flage s" by blast+
    with t [OF rel assms(3)] True cl show thesis by (intro that [of "took s"]) (simp_all add: took_def)
  next
    case False
    define u where "u = (if length q < 3 then s else s\<lparr>AddDataToBuff_flage := True\<rparr>)"
    have u: "cache_rel u q" "mem u (pToData u) = pk" "SortAlgorithm s = AddOrAbandonFun u" "app u = app s"
      "clean_force_len u = clean_force_len s" "AddDataToBuff_flage u \<longleftrightarrow> length q \<ge> 3"
      using rel assms(3) False d [OF rel] fl len
      by (auto simp: u_def SortAlgorithm_def intro: cache_view [OF rel])
    let ?r = "(?t u)\<lparr>AddDataToBuff_flage := AddDataToBuff_flage u \<or> length q < 3 \<and> odd_one q pk\<rparr>"
    have "SortAlgorithm s = Some ?r" using abandon_queue [OF u(1,2) False] u(3) by simp
    moreover have "cache_rel ?r (taken q pk)" by (rule cache_view [OF t [OF u(1,2)]]) simp_all
    moreover have "AddDataToBuff_flage ?r \<longleftrightarrow> q \<noteq> [] \<and> (length q \<ge> 3 \<or> odd_one q pk)"
      using u(6) False by auto
    ultimately show thesis using u(4,5) cl by (intro that [of ?r]) (simp_all add: took_def)
  qed
qed

text \<open>How many packages leave: all after the last package of a stream, else one when three were
  waiting or the new one was out of the ordinary.\<close>

definition leaving :: "package list \<Rightarrow> package \<Rightarrow> nat" where
  "leaving q pk =
     (if end_flags pk = 1 then length (taken q pk)
      else if q \<noteq> [] \<and> (length q \<ge> 3 \<or> odd_one q pk) then 1 else 0)"

lemma leaving_one:
  assumes "cache_rel s2 (taken q pk)" and "list_all package_wf (taken q pk)" and "length q \<le> 3"
    and "AddDataToBuff_flage s2" and "\<not> clean_force_len s2" and "q \<noteq> []"
  obtains s3 where "WriteTobuffer p (if counter_packag s2 \<le> 3 then s2\<lparr>AddDataToBuff_flage := False\<rparr> else s2) = Some s3"
    and "cache_ok s3 (drop 1 (taken q pk))"
    and "app s3 = fold (write_payload p) (take 1 (taken q pk)) (app s2)"
proof -
  obtain x q' where x: "taken q pk = x # q'" using assms(6) by (cases q) (simp_all add: taken_def)
  have c2: "counter_packag s2 = length (taken q pk)" by (rule cache_relD(2) [OF assms(1)])
  have len2: "length (taken q pk) \<le> Suc (length q)" by (simp add: taken_def)
  define u where "u = (if counter_packag s2 \<le> 3 then s2\<lparr>AddDataToBuff_flage := False\<rparr> else s2)"
  have "cache_rel u (x # q')" unfolding u_def x [symmetric] by (rule cache_view [OF assms(1)]) simp_all
  from write_queue [OF this, of p] assms(2) x obtain s3 where s3: "WriteTobuffer p u = Some s3" "cache_rel s3 q'"
      "app s3 = write_payload p x (app u)" "AddDataToBuff_flage s3 \<longleftrightarrow> q' \<noteq> [] \<and> AddDataToBuff_flage u"
      "clean_force_len s3 = clean_force_len u"
    by auto
  have "cache_ok s3 q'"
    using s3(2,4,5) assms(2-5) x c2 len2 by (auto simp: cache_ok_def u_def)
  then show thesis using that [of s3] s3(1,3) x by (simp add: u_def)
qed

lemma receive_queue:
  assumes "cache_ok s q" and "package_wf pk" and "0 \<le> sockfd"
  obtains s' where "DataRecvAndHandle sockfd pk p s = Some (s', 0)"
    "cache_ok s' (drop (leaving q pk) (taken q pk))"
    "app s' = fold (write_payload p) (take (leaving q pk) (taken q pk)) (app s)"
proof -
  have rel: "cache_rel s q" and len: "length q \<le> 3" and cl: "\<not> clean_force_len s" and wf: "list_all package_wf q"
    using assms(1) by (auto simp: cache_ok_def)
  define s1 where "s1 = s\<lparr>mem := (mem s)(pToData s := pk)\<rparr>"
  have s1: "cache_ok s1 q" "mem s1 (pToData s1) = pk" "app s1 = app s"
    using assms(1) cache_store [OF rel] by (simp_all add: s1_def cache_ok_def)
  obtain s2 where s2: "SortAlgorithm s1 = Some s2" "cache_rel s2 (taken q pk)" "app s2 = app s"
      "AddDataToBuff_flage s2 \<longleftrightarrow> q \<noteq> [] \<and> (length q \<ge> 3 \<or> odd_one q pk)" "\<not> clean_force_len s2"
    using sort_queue [OF s1(1) assms(2) s1(2)] s1(3) by metis
  have c2: "counter_packag s2 = length (taken q pk)" by (rule cache_relD(2) [OF s2(2)])
  have wf2: "list_all package_wf (taken q pk)" using wf assms(2) by (simp add: taken_def)
  have len2: "length (taken q pk) \<le> Suc (length q)" by (simp add: taken_def)
  define rest where "rest =
    (if end_flags pk = 1 then flush_loop (counter_packag s2) p s2
     else if AddDataToBuff_flage s2
     then WriteTobuffer p (if counter_packag s2 \<le> 3 then s2\<lparr>AddDataToBuff_flage := False\<rparr> else s2)
     else Some s2)"
  have "list_all (\<lambda>p. p \<noteq> NULL) (take Cache_PACK_NUM (ArrayToHandle s))"
    using rel by (auto simp: cache_rel_def list_all_iff)
  then have run: "DataRecvAndHandle sockfd pk p s = map_option (\<lambda>s3. (s3, 0)) rest"
    using cache_slot [OF rel] cl assms(3) s2(1)
    by (simp add: DataRecvAndHandle_def s1_def [symmetric] rest_def [symmetric] map_option_case split: option.split)
  show thesis
  proof (cases "end_flags pk = 1")
    case True
    obtain s3 where "rest = Some s3" "cache_rel s3 []" "app s3 = fold (write_payload p) (taken q pk) (app s2)"
        "AddDataToBuff_flage s3 \<longrightarrow> taken q pk = [] \<and> AddDataToBuff_flage s2" "clean_force_len s3 = clean_force_len s2"
      using flush_queue [OF s2(2) wf2, of p] True by (auto simp: rest_def c2)
    then show thesis using True run s2(3,4,5)
      by (intro that [of s3]) (auto simp: cache_ok_def leaving_def taken_def)
  next
    case False
    show thesis
    proof (cases "q \<noteq> [] \<and> (length q \<ge> 3 \<or> odd_one q pk)")
      case True
      then have q: "q \<noteq> []" and flag: "AddDataToBuff_flage s2" using s2(4) by auto
      obtain s3 where s3: "WriteTobuffer p (if counter_packag s2 \<le> 3 then s2\<lparr>AddDataToBuff_flage := False\<rparr> else s2) = Some s3"
          "cache_ok s3 (drop 1 (taken q pk))" "app s3 = fold (write_payload p) (take 1 (taken q pk)) (app s2)"
        by (rule leaving_one [OF s2(2) wf2 len flag s2(5) q])
      have l: "leaving q pk = 1" using True False by (simp add: leaving_def)
      have "rest = Some s3" using False flag s3(1) by (simp add: rest_def)
      then show thesis using run l s3(2,3) s2(3) by (intro that [of s3]) simp_all
    next
      case idle: False
      then have "leaving q pk = 0" "rest = Some s2" using False s2(4) by (auto simp: leaving_def rest_def)
      moreover have "length (taken q pk) \<le> 3"
      proof (cases "q = []")
        case True
        then show ?thesis using len2 by simp
      next
        case False
        then have "\<not> length q \<ge> 3" using idle by blast
        then show ?thesis using len2 by simp
      qed
      then have "cache_ok s2 (taken q pk)"
        using idle s2(2,4,5) wf2 unfolding cache_ok_def by blast
      ultimately show thesis using run s2(3) by (intro that [of s2]) simp_all
    qed
  qed
qed

text \<open>What a sequence of packages leaves in the queue, and what it has sent on.\<close>

fun queue_run :: "package list \<Rightarrow> package list \<Rightarrow> package list \<times> package list" where
  "queue_run q [] = ([], q)"
| "queue_run q (pk # pks) =
     (let (out, q') = queue_run (drop (leaving q pk) (taken q pk)) pks
      in (take (leaving q pk) (taken q pk) @ out, q'))"

lemma receive_queue_all:
  assumes "cache_ok s q" and "list_all package_wf pks" and "0 \<le> sockfd"
  shows "\<exists>s'. DataRecvAll sockfd pks p s = Some s' \<and> cache_ok s' (snd (queue_run q pks))
    \<and> app s' = fold (write_payload p) (fst (queue_run q pks)) (app s)"
  using assms(1,2)
proof (induction pks arbitrary: s q)
  case (Cons pk pks)
  have wf: "package_wf pk" using Cons.prems(2) by simp
  obtain s1 where s1: "DataRecvAndHandle sockfd pk p s = Some (s1, 0)"
      "cache_ok s1 (drop (leaving q pk) (taken q pk))"
      "app s1 = fold (write_payload p) (take (leaving q pk) (taken q pk)) (app s)"
    by (rule receive_queue [OF Cons.prems(1) wf assms(3)])
  from Cons.IH [OF s1(2)] Cons.prems(2) s1 show ?case by (auto simp: case_prod_beta Let_def)
qed simp

lemma queue_run_order: "subseq (fst (queue_run q pks) @ snd (queue_run q pks)) (q @ pks)"
proof (induction q pks rule: queue_run.induct)
  case (2 q pk pks)
  let ?n = "leaving q pk" and ?t = "taken q pk"
  have "subseq ((take ?n ?t @ fst (queue_run (drop ?n ?t) pks)) @ snd (queue_run (drop ?n ?t) pks)) (take ?n ?t @ drop ?n ?t @ pks)"
    using 2 by (simp add: subseq_append')
  moreover have "subseq (?t @ pks) (q @ pk # pks)"
    using list_emb_append_mono [OF subseq_order.refl [of q] list_emb_Cons [OF subseq_order.refl [of pks]]]
    by (simp add: taken_def)
  ultimately show ?case
    by (simp add: case_prod_beta Let_def) (metis append_assoc append_take_drop_id subseq_order.trans)
qed simp

lemma cache_ok_create: "0 < base \<Longrightarrow> cache_ok (CacheCreate base m h) []"
  unfolding cache_ok_def cache_rel_def by (simp add: CacheCreate_def sizeof_package_def upt_rec)

section \<open>Properties\<close>



text \<open>Forcing the cache clear empties the queue: the next package is handled exactly as by a
  receiver with nothing in its cache.\<close>

lemma force_clear_restarts:
  assumes "cache_ok s q" and "package_wf pk" and "0 \<le> sockfd" and "end_flags pk \<noteq> 1"
  shows "\<exists>s' s''. ForceClearDataCache s = Some s' \<and> DataRecvAndHandle sockfd pk p s' = Some (s'', 0)
    \<and> cache_ok s'' [pk] \<and> app s'' = app s"
proof -
  have rel: "cache_rel s q" using assms(1) by (simp add: cache_ok_def)
  note d = cache_relD [OF rel]
  have slots: "list_all (\<lambda>p. p \<noteq> NULL) (take Cache_PACK_NUM (ArrayToHandle s))"
    using rel by (auto simp: cache_rel_def list_all_iff)
  define s' where "s' = s\<lparr>pToData := ArrayToHandle s ! 0, clean_force_len := True\<rparr>"
  define t where "t = s'\<lparr>counter_packag := 0, AddDataToBuff_flage := False, clean_force_len := False\<rparr>"
  have f: "ForceClearDataCache s = Some s'"
    using d(1) by (simp add: ForceClearDataCache_def handle_at_def s'_def)
  have t: "cache_ok t []"
    unfolding cache_ok_def by (auto simp: t_def s'_def intro!: cache_relI d(1) dest: d(6,7))
  have "DataRecvAndHandle sockfd pk p s' = DataRecvAndHandle sockfd pk p t"
    using d(1) d(6) [of 0] assms(3) slots by (simp add: DataRecvAndHandle_def t_def s'_def handle_at_def Let_def)
  moreover obtain s'' where "DataRecvAndHandle sockfd pk p t = Some (s'', 0)"
      "cache_ok s'' (drop (leaving [] pk) (taken [] pk))"
      "app s'' = fold (write_payload p) (take (leaving [] pk) (taken [] pk)) (app t)"
    by (rule receive_queue [OF t assms(2,3)])
  ultimately show ?thesis using f assms(4)
    by (auto simp: leaving_def taken_def accepted_def t_def s'_def)
qed

end
