(* ===== verification/Stations.thy ===== *)
theory Stations
  imports Bcu_Types "HOL-Library.While_Combinator"
begin

text \<open>
  Lines, regions and stations (\<open>bcu_function.cxx\<close>, \<open>bcu_update_table_from_ccu.cxx\<close> and the
  branches of \<open>bcu_main.cxx\<close> that call them): what the display shows of the journey, the
  stations to skip, the change of the line and the rows of the line tables.

  \<open>pp_skip_station_info\<close> and \<open>pp_station_info\<close> both point to \<open>station_information[2][32]\<close>. Its
  fields are stores over the flat index of the array: the code checks no subscript, so a
  station of 32 is the first cell of the next row and a line of 0 lies before the array. A
  search that may never end is \<open>while_option\<close>, with \<open>None\<close> for not returning.
\<close>

section \<open>State\<close>

abbreviation (input) SKIP_STATION :: nat where "SKIP_STATION \<equiv> 50"
abbreviation (input) MAX_STATION_NUMBER :: nat where "MAX_STATION_NUMBER \<equiv> 32"
abbreviation (input) DEFAULT_LINE_NO :: nat where "DEFAULT_LINE_NO \<equiv> 3"
abbreviation (input) DEFULT_REGIONS_NUMBER :: int where "DEFULT_REGIONS_NUMBER \<equiv> 8"

text \<open>\<open>region_station_info_t\<close>: what is shown.\<close>

record region_info =
  os_begin_station_no :: byte
  os_terminal_station_no :: byte
  os_current_station_no :: byte
  os_next_station_no :: byte
  os_cycle_line :: byte
  stop_or_leave :: byte
  os_region_no :: byte
  os_door_side :: byte
  os_running_up_or_down :: byte

text \<open>\<open>region_station_t\<close>, and \<open>global_region_info_t\<close> with the array at \<open>p_regin_info\<close>.\<close>

record region_row =
  rs_line_no :: byte
  rs_region_no :: byte
  rs_running_direction :: byte
  rs_whether_the_cycle_bus :: byte
  rs_start_station_no :: byte
  rs_over_station_no :: byte

record line_regions =
  p_regin_info :: "int \<Rightarrow> region_row"
  default_region_no :: int
  total_regions_number :: byte
  current_region_no :: int
  total_stations_number :: byte
  current_region_info :: region_row

record stations =
  region_station_info :: region_info
  effective :: "int \<Rightarrow> byte"
  open_door_side :: "int \<Rightarrow> byte \<times> byte"
  station_chinese_name :: "int \<Rightarrow> string"
  this_line_no :: int
  bcu_region_info :: "int \<Rightarrow> line_regions"
  have_get_part_info :: bool
  begin_line3 :: bool
  begin_line4 :: bool
  manual_station :: "byte \<times> 16 word \<times> 16 word"
  st_name :: string
  st_no :: byte
  st_opposite_no :: nat
  st_sent :: "(string \<times> nat \<times> send_info) list"
  st_screens :: "int list"

text \<open>The flat index of \<open>station_information[line - 3][no]\<close>.\<close>

definition cell :: "int \<Rightarrow> int \<Rightarrow> int" where
  "cell line no = 32 * (line - 3) + no"

definition set_region :: "(region_info \<Rightarrow> region_info) \<Rightarrow> stations \<Rightarrow> stations" where
  "set_region f s = s\<lparr>region_station_info := f (region_station_info s)\<rparr>"

definition set_effective :: "int \<Rightarrow> byte \<Rightarrow> stations \<Rightarrow> stations" where
  "set_effective c x s = s\<lparr>effective := (effective s)(c := x)\<rparr>"

definition set_line :: "int \<Rightarrow> (line_regions \<Rightarrow> line_regions) \<Rightarrow> stations \<Rightarrow> stations" where
  "set_line i f s = s\<lparr>bcu_region_info := (bcu_region_info s)(i := f (bcu_region_info s i))\<rparr>"

section \<open>The stations shown\<close>

text \<open>One turn of the search of \<open>AdjustStationNo\<close>, in \<open>unsigned char\<close>.\<close>

definition adjust_step :: "byte \<Rightarrow> byte \<Rightarrow> byte" where
  "adjust_step up cur =
     (if up = 1 then (let c = cur - 1 in if c < 1 then word_of_nat (MAX_STATION_NUMBER - 1) else c)
      else if up = 2
      then (let c = cur + 1 in if c > word_of_nat (MAX_STATION_NUMBER - 1) then 1 else c)
      else cur)"

definition adjust_search :: "(int \<Rightarrow> byte) \<Rightarrow> byte \<Rightarrow> byte \<Rightarrow> byte option" where
  "adjust_search eff up cur =
     while_option (\<lambda>c. eff (cell 4 (uint c)) = 0) (adjust_step up) (adjust_step up cur)"

definition AdjustStationNo :: "(int \<Rightarrow> byte) \<Rightarrow> region_info \<Rightarrow> region_info option" where
  "AdjustStationNo eff r =
     (let cur = os_current_station_no r; next = os_next_station_no r in
      if stop_or_leave r = 0
      then (let next = cur in
        if cur = os_begin_station_no r \<and> os_cycle_line r = 0
        then Some (r\<lparr>os_current_station_no := 0, os_next_station_no := next\<rparr>)
        else (case adjust_search eff (os_running_up_or_down r) cur of
            None \<Rightarrow> None
          | Some c \<Rightarrow> Some (r\<lparr>os_current_station_no := c, os_next_station_no := next\<rparr>)))
      else if stop_or_leave r = 1
      then (let next = (if cur = os_terminal_station_no r \<and> os_cycle_line r = 0 then 0 else next) in
        Some (r\<lparr>os_current_station_no := cur, os_next_station_no := next\<rparr>))
      else Some (r\<lparr>os_current_station_no := cur, os_next_station_no := next\<rparr>))"

text \<open>One turn of the search of \<open>GetNextStationNo\<close>.\<close>

definition next_step :: "byte \<Rightarrow> byte \<Rightarrow> byte \<Rightarrow> byte \<Rightarrow> byte" where
  "next_step line up ter ret =
     (if line = 3
      then (if up = 1 then (let r = ret + 1 in if r \<ge> ter then ter else r)
            else (let r = ret - 1 in if r \<le> ter then ter else r))
      else (if up = 1 then (let r = ret + 1 in if r > word_of_nat MAX_STATION_NUMBER then 1 else r)
            else (let r = ret - 1 in if r < 1 then word_of_nat MAX_STATION_NUMBER else r)))"

definition GetNextStationNo ::
    "(int \<Rightarrow> byte) \<Rightarrow> byte \<Rightarrow> byte \<Rightarrow> byte \<Rightarrow> byte \<Rightarrow> byte option" where
  "GetNextStationNo eff line cur up ter =
     (if line = 3 \<or> line = 4
      then while_option (\<lambda>c. eff (cell 4 (uint c)) = 0) (next_step line up ter)
             (next_step line up ter cur)
      else Some cur)"

section \<open>Line commands\<close>

text \<open>\<open>line_info_t\<close> and the head of \<open>station_information_t\<close> in the announcement union.\<close>

definition li_line_no :: "send_info \<Rightarrow> byte" where "li_line_no c = si_ann c ! 0"
definition li_region_no :: "send_info \<Rightarrow> byte" where "li_region_no c = si_ann c ! 1"
definition li_region_update_type :: "send_info \<Rightarrow> byte" where "li_region_update_type c = si_ann c ! 2"
definition li_start_station_no :: "send_info \<Rightarrow> byte" where "li_start_station_no c = si_ann c ! 3"
definition li_terminal_station_no :: "send_info \<Rightarrow> byte" where "li_terminal_station_no c = si_ann c ! 4"
definition li_up_or_down :: "send_info \<Rightarrow> byte" where "li_up_or_down c = si_ann c ! 5"
definition li_whether_the_cycle :: "send_info \<Rightarrow> byte" where "li_whether_the_cycle c = si_ann c ! 6"
definition li_get_or_set :: "send_info \<Rightarrow> byte" where "li_get_or_set c = si_ann c ! 7"
definition li_current_station_no :: "send_info \<Rightarrow> byte" where "li_current_station_no c = si_ann c ! 8"
definition sk_line_number :: "send_info \<Rightarrow> byte" where "sk_line_number c = si_ann c ! 0"
definition sk_station_no :: "send_info \<Rightarrow> byte" where "sk_station_no c = si_ann c ! 1"
definition sk_effective :: "send_info \<Rightarrow> byte" where "sk_effective c = si_ann c ! 2"

text \<open>\<open>BCUUpdateTCMSLineInfo\<close>: the answer is \<open>whe_refresh_ts\<close>.\<close>

definition BCUUpdateTCMSLineInfo :: "send_info \<Rightarrow> stations \<Rightarrow> (int \<times> stations) option" where
  "BCUUpdateTCMSLineInfo c s =
     (let r = region_station_info s; i = this_line_no s - 3 in
      if si_type_ann c = LINE_NUMBER_CHANGE_EVENT \<and> si_type_intercom c = INTERCOM_IDLE
         \<and> li_get_or_set c = 0
      then
        (if li_region_no c = 0 \<and> li_region_update_type c = 1
         then
           (if os_terminal_station_no r \<noteq> li_terminal_station_no c
               \<or> os_running_up_or_down r \<noteq> li_up_or_down c
               \<or> os_begin_station_no r \<noteq> li_start_station_no c
            then
              (case GetNextStationNo (effective s) (word_of_nat DEFAULT_LINE_NO)
                      (li_current_station_no c) (li_up_or_down c) (li_terminal_station_no c) of
                 None \<Rightarrow> None
               | Some n \<Rightarrow> Some (3, set_region (\<lambda>r. r\<lparr>
                     os_region_no := 0,
                     os_begin_station_no := li_start_station_no c,
                     os_terminal_station_no := li_terminal_station_no c,
                     os_current_station_no := li_current_station_no c,
                     os_running_up_or_down := li_up_or_down c,
                     os_cycle_line := li_whether_the_cycle c,
                     os_next_station_no := n\<rparr>) s))
            else Some (0, s))
         else if rs_region_no (current_region_info (bcu_region_info s i)) \<noteq> li_region_no c
                 \<and> li_region_update_type c = 0
         then Some (4, set_line i (\<lambda>l. l\<lparr>current_region_no := uint (li_region_no c)\<rparr>) s)
         else Some (0, s))
      else Some (0, s))"

text \<open>\<open>tms_auto_ann_t\<close>, the fields read: the station codes are \<open>unsigned short\<close>.\<close>

record tms_auto =
  ta_up_down :: byte
  ta_stop_or_leave :: byte
  ta_start_station_code :: "16 word"
  ta_current_station_code :: "16 word"
  ta_next_station_code :: "16 word"
  ta_end_station_code :: "16 word"
  ta_door_side :: byte

text \<open>The branch of the main loop for an automatic announcement from the CCU.\<close>

definition tms_region :: "tms_auto \<Rightarrow> region_info \<Rightarrow> region_info" where
  "tms_region a r = r\<lparr>
     os_begin_station_no := ucast (ta_start_station_code a),
     os_terminal_station_no := ucast (ta_end_station_code a),
     os_running_up_or_down := ta_up_down a,
     os_cycle_line := (if ta_start_station_code a = ta_end_station_code a then 1 else 0),
     os_current_station_no := ucast (ta_current_station_code a),
     os_next_station_no := ucast (ta_next_station_code a),
     stop_or_leave := ta_stop_or_leave a,
     os_door_side := ta_door_side a\<rparr>"

definition tms_auto_received :: "string \<Rightarrow> tms_auto \<Rightarrow> stations \<Rightarrow> stations option" where
  "tms_auto_received src a s =
     (if src = ''CCU''
      then (case AdjustStationNo (effective s) (tms_region a (region_station_info s)) of
          None \<Rightarrow> None
        | Some r \<Rightarrow> Some (set_region (\<lambda>_. r) s))
      else Some s)"

text \<open>The branches for a skipped station and for a manual announcement.\<close>

definition skip_received :: "send_info \<Rightarrow> stations \<Rightarrow> stations" where
  "skip_received c s =
     (if si_type_ann c = SKIP_STATION
      then set_effective (cell 4 (uint (sk_station_no c))) (sk_effective c) s else s)"

definition manual_received :: "byte \<Rightarrow> 16 word \<Rightarrow> 16 word \<Rightarrow> stations \<Rightarrow> stations" where
  "manual_received door cur next s = s\<lparr>manual_station := (door, cur, next)\<rparr>"

section \<open>Changing the line\<close>

text \<open>
  \<open>room n\<close> says whether the \<open>n\<close>-th call of \<open>BlockBufferWrite\<close> on the command queue finds room
  (the network thread drains it meanwhile). A package that finds none is lost after two
  attempts, except on the way to the amplifier, where the attempts are not counted. The
  answers are the number of the next call and the packages queued.
\<close>

definition write_twice ::
    "(nat \<Rightarrow> bool) \<Rightarrow> 'p \<Rightarrow> nat \<times> 'p list \<Rightarrow> nat \<times> 'p list" where
  "write_twice room p q =
     (let (n, sent) = q in
      if room n then (n + 1, sent @ [p])
      else if room (n + 1) then (n + 2, sent @ [p])
      else (n + 2, sent))"

definition write_until ::
    "(nat \<Rightarrow> bool) \<Rightarrow> 'p \<Rightarrow> nat \<times> 'p list \<Rightarrow> (nat \<times> 'p list) option" where
  "write_until room p q =
     (let (n, sent) = q in
      map_option (\<lambda>n. (n + 1, sent @ [p])) (while_option (\<lambda>n. \<not> room n) Suc n))"

text \<open>The package built from a zeroed one; \<open>rest\<close> carries \<open>GetPTTState()\<close>.\<close>

definition line_pkg :: "byte list \<Rightarrow> send_info \<Rightarrow> stations \<Rightarrow> send_info" where
  "line_pkg rest c s = send_info_zero\<lparr>
     si_src_name := st_name s, si_src_no := st_no s,
     si_ann := (replicate (length (si_ann c)) 0)[0 := li_line_no c, 1 := li_region_no c],
     si_type_ann := LINE_NUMBER_CHANGE_EVENT,
     si_type_intercom := INTERCOM_IDLE, si_rest := rest\<rparr>"

definition BcuUpdateLineNumber ::
    "(nat \<Rightarrow> bool) \<Rightarrow> byte list \<Rightarrow> send_info \<Rightarrow> stations \<Rightarrow> (send_info \<times> stations) option" where
  "BcuUpdateLineNumber room rest c s =
     (if li_line_no c \<noteq> 0
      then
        (let s = s\<lparr>this_line_no := uint (li_line_no c)\<rparr>;
             p = line_pkg rest c s;
             q = write_twice room (''CCU'', MUL_DST_NO, p) (0, st_sent s)
         in case write_until room (''EAMP'', MUL_DST_NO, p) q of
              None \<Rightarrow> None
            | Some q \<Rightarrow>
                (let q = write_twice room (''BCU'', st_opposite_no s, p) q
                 in Some (c\<lparr>si_src_no := 0, si_src_name := ''''\<rparr>, s\<lparr>st_sent := snd q\<rparr>)))
      else Some (c, s))"

definition ClearSkipStationInfo :: "int \<Rightarrow> stations \<Rightarrow> stations" where
  "ClearSkipStationInfo line s =
     fold (\<lambda>i s. if effective s (cell line (int i)) \<noteq> 2
                 then set_effective (cell line (int i)) 1 s else s)
       [0..<MAX_STATION_NUMBER] s"

definition ChangeLineNumber ::
    "(nat \<Rightarrow> bool) \<Rightarrow> byte list \<Rightarrow> send_info \<Rightarrow> stations \<Rightarrow> (send_info \<times> stations) option" where
  "ChangeLineNumber room rest c s =
     (if si_type_ann c = LINE_NUMBER_CHANGE_EVENT \<and> si_type_intercom c = INTERCOM_IDLE
      then (case BcuUpdateLineNumber room rest c s of
          None \<Rightarrow> None
        | Some (c, s) \<Rightarrow> Some (c, ClearSkipStationInfo (uint (li_line_no c)) s))
      else Some (c, s))"

definition UpdateSkipStationInformation ::
    "(nat \<Rightarrow> bool) \<Rightarrow> send_info \<Rightarrow> stations \<Rightarrow> send_info \<times> stations" where
  "UpdateSkipStationInformation room c s =
     (if si_type_ann c = SKIP_STATION \<and> si_type_intercom c = INTERCOM_IDLE
      then
        (let s = set_effective (cell (uint (sk_line_number c)) (uint (sk_station_no c)))
                   (sk_effective c) s;
             s = s\<lparr>this_line_no := uint (sk_line_number c)\<rparr>;
             q = write_twice room (''EAMP'', MUL_DST_NO, c) (0, st_sent s);
             q = write_twice room (''CCU'', MUL_DST_NO, c) q
         in (set_ann 0 0 (c\<lparr>si_type_ann := ANN_IDLE, si_type_intercom := INTERCOM_IDLE\<rparr>),
             s\<lparr>st_sent := snd q\<rparr>))
      else (c, s))"

section \<open>Rows of the line tables\<close>

text \<open>The row structs, the fields read. Their numbers are \<open>unsigned int\<close>.\<close>

record door_item =
  di_station_no :: int
  di_door_side :: "byte \<times> byte"

record door_row =
  dr_line_no :: int
  dr_total_bytes :: int
  dr_items :: "door_item list"

text \<open>\<open>sizeof\<close> of the row head (4 words) and of an item are those of the C layout.\<close>

definition BcuUpdateDoorSideArray :: "door_row \<Rightarrow> stations \<Rightarrow> int \<times> stations" where
  "BcuUpdateDoorSideArray d s =
     (if dr_total_bytes d \<noteq> 16 + int (length (dr_items d)) * 8 then (-1, s)
      else (0, fold (\<lambda>i s.
               if di_station_no i > 0 \<and> di_station_no i \<le> int MAX_STATION_NUMBER
               then s\<lparr>open_door_side :=
                      (open_door_side s)(cell (dr_line_no d) (di_station_no i) := di_door_side i)\<rparr>
               else s) (dr_items d) s))"

record default_line_row =
  dl_line_no :: byte
  dl_default_line :: byte

definition BcuUpdateLcdDefaultLineArray :: "default_line_row \<Rightarrow> stations \<Rightarrow> stations" where
  "BcuUpdateLcdDefaultLineArray d s =
     (if dl_default_line d = 1
      then (let s = s\<lparr>this_line_no := uint (dl_line_no d)\<rparr> in
            if \<not> have_get_part_info s
            then s\<lparr>have_get_part_info := True, st_screens := st_screens s @ [38]\<rparr> else s)
      else s)"

record station_row =
  sr_line_no :: int
  sr_total_row :: int
  sr_current_index :: int
  sr_station_no :: int
  sr_fix_across_station :: byte
  sr_station_name :: string

definition BcuUpdateLcdLineStationArray :: "station_row \<Rightarrow> stations \<Rightarrow> stations" where
  "BcuUpdateLcdLineStationArray d s =
     (let i = cell (sr_line_no d) (sr_station_no d);
          s = (if sr_current_index d < int MAX_STATION_NUMBER
               then (set_effective i (if sr_fix_across_station d = 1 then 0 else 1) s)
                      \<lparr>station_chinese_name :=
                         (station_chinese_name s)(i := c_str (sr_station_name d))\<rparr>
               else s)
      in set_line (sr_line_no d - 3)
           (\<lambda>l. l\<lparr>total_stations_number := word_of_int (sr_total_row d)\<rparr>) s)"

record section_row =
  se_line_no :: int
  se_total_row :: int
  se_current_index :: int
  se_row_line_no :: int
  se_line_direction :: byte
  se_spec_cycle :: byte
  se_default_section :: byte
  se_section_no :: int
  se_start_station :: int
  se_end_station :: int

definition section_of :: "section_row \<Rightarrow> region_row \<Rightarrow> region_row" where
  "section_of d r = r\<lparr>
     rs_line_no := word_of_int (se_row_line_no d),
     rs_region_no := word_of_int (se_section_no d),
     rs_start_station_no := word_of_int (se_start_station d),
     rs_over_station_no := word_of_int (se_end_station d),
     rs_running_direction := (if se_line_direction d + 1 = 1 then 2 else 1),
     rs_whether_the_cycle_bus := se_spec_cycle d\<rparr>"

definition BcuUpdateLcdLineRegionArray :: "section_row \<Rightarrow> stations \<Rightarrow> stations" where
  "BcuUpdateLcdLineRegionArray d s =
     (let s = (if se_line_no d = 3 \<and> \<not> begin_line3 s
               then set_line 0 (\<lambda>l. l\<lparr>total_regions_number := word_of_int (se_total_row d)\<rparr>)
                      (s\<lparr>begin_line3 := True\<rparr>) else s);
          s = (if se_line_no d = 4 \<and> \<not> begin_line4 s
               then set_line 1 (\<lambda>l. l\<lparr>total_regions_number := word_of_int (se_total_row d)\<rparr>)
                      (s\<lparr>begin_line4 := True\<rparr>) else s);
          max_region_num = (if se_line_no d = 3 then DEFULT_REGIONS_NUMBER
                            else if se_line_no d = 4 then DEFULT_REGIONS_NUMBER else 0);
          i = se_current_index d - 1
      in if se_current_index d < max_region_num
         then set_line (se_line_no d - 3) (\<lambda>l.
                (let l = l\<lparr>p_regin_info := (p_regin_info l)(i := section_of d (p_regin_info l i))\<rparr>
                 in if se_default_section d = 1
                    then l\<lparr>default_region_no := se_section_no d\<rparr> else l)) s
         else s)"

section \<open>Searches\<close>

text \<open>
  A search that visits the members of a list in order, and then stays among them, finds what
  \<open>find\<close> finds, and does not return when there is nothing to find.
\<close>

lemma while_option_find:
  assumes xs: "\<And>j. j < length xs \<Longrightarrow> xs ! j = (f ^^ j) s"
    and closed: "\<And>k. (f ^^ k) s \<in> set xs"
  shows "while_option (\<lambda>c. \<not> ok c) f s = find ok xs"
proof (cases "find ok xs")
  case None
  then have "\<not> ok x" if "x \<in> set xs" for x using that by (simp add: find_None_iff)
  with closed have "\<not> ok ((f ^^ k) s)" for k by blast
  with None show ?thesis by (simp add: while_option_def)
next
  case (Some x)
  then obtain i where i: "i < length xs" "ok (xs ! i)" "x = xs ! i" "\<forall>j<i. \<not> ok (xs ! j)"
    by (auto simp: find_Some_iff)
  have least: "(LEAST k. ok ((f ^^ k) s)) = i"
  proof (rule Least_equality)
    show "ok ((f ^^ i) s)" using i(1,2) xs by simp
    show "i \<le> k" if "ok ((f ^^ k) s)" for k
    proof (rule ccontr)
      assume "\<not> i \<le> k"
      then have "k < i" by simp
      with i(1,4) xs that show False by (metis order.strict_trans)
    qed
  qed
  have "\<exists>k. ok ((f ^^ k) s)" using i(1,2) xs by metis
  with least show ?thesis using Some i(1,3) xs by (simp add: while_option_def)
qed

subsection \<open>\<open>AdjustStationNo\<close>\<close>

text \<open>The direction of the search, against the direction of travel, and the stations in its order.\<close>

definition travel_back :: "byte \<Rightarrow> int" where
  "travel_back up = (if up = 1 then -1 else 1)"

definition station_back :: "byte \<Rightarrow> byte \<Rightarrow> nat \<Rightarrow> byte" where
  "station_back up cur k = word_of_int ((uint cur - 1 + travel_back up * int k) mod 31 + 1)"

definition stations_back :: "byte \<Rightarrow> byte \<Rightarrow> byte list" where
  "stations_back up cur = map (station_back up cur) [1..<32]"

lemma uint_station:
  assumes "1 \<le> i" and "i \<le> (31 :: int)"
  shows "uint (word_of_int i :: byte) = i"
  using assms by (simp add: uint_word_of_int)

lemma mod31: "0 \<le> (i :: int) mod 31" "i mod 31 \<le> 30"
  using pos_mod_bound [of 31 i] by simp_all

lemma uint_station_back: "uint (station_back up cur k) = (uint cur - 1 + travel_back up * int k) mod 31 + 1"
  unfolding station_back_def
  by (rule uint_station) (use mod31 [of "uint cur - 1 + travel_back up * int k"] in simp_all)

lemma adjust_step_all:
  "list_all (\<lambda>i. adjust_step 1 (word_of_int i) = word_of_int ((i - 2) mod 31 + 1)
     \<and> adjust_step 2 (word_of_int i) = word_of_int (i mod 31 + 1)) [1..31]"
  by code_simp

lemma adjust_step_station:
  assumes "up = 1 \<or> up = 2" and "1 \<le> uint c" and "uint c \<le> 31"
  shows "adjust_step up c = word_of_int ((uint c - 1 + travel_back up) mod 31 + 1)"
proof -
  have "uint c \<in> set [1..31]" using assms(2,3) by simp
  with adjust_step_all have "adjust_step 1 (word_of_int (uint c)) = word_of_int ((uint c - 2) mod 31 + 1)
     \<and> adjust_step 2 (word_of_int (uint c)) = word_of_int (uint c mod 31 + 1)"
    unfolding list_all_iff by blast
  then show ?thesis using assms(1) by (auto simp: travel_back_def)
qed

lemma adjust_walk:
  assumes "up = 1 \<or> up = 2" and "1 \<le> uint cur" and "uint cur \<le> 31"
  shows "(adjust_step up ^^ k) (adjust_step up cur) = station_back up cur (Suc k)"
proof (induction k)
  case 0
  show ?case using adjust_step_station [OF assms] by (simp add: station_back_def)
next
  case (Suc k)
  have "(adjust_step up ^^ Suc k) (adjust_step up cur) = adjust_step up (station_back up cur (Suc k))"
    using Suc by simp
  also have "\<dots> = word_of_int ((uint (station_back up cur (Suc k)) - 1 + travel_back up) mod 31 + 1)"
    by (rule adjust_step_station [OF assms(1)])
      (use mod31 [of "uint cur - 1 + travel_back up * int (Suc k)"] in
        \<open>simp_all add: uint_station_back\<close>)
  also have "\<dots> = station_back up cur (Suc (Suc k))"
    unfolding uint_station_back by (simp add: station_back_def mod_simps algebra_simps)
  finally show ?case .
qed

lemma adjust_search_find:
  assumes "up = 1 \<or> up = 2" and "1 \<le> uint cur" and "uint cur \<le> 31"
  shows "adjust_search eff up cur = find (\<lambda>c. eff (cell 4 (uint c)) \<noteq> 0) (stations_back up cur)"
proof -
  have "while_option (\<lambda>c. \<not> eff (cell 4 (uint c)) \<noteq> 0) (adjust_step up) (adjust_step up cur) =
      find (\<lambda>c. eff (cell 4 (uint c)) \<noteq> 0) (stations_back up cur)"
  proof (rule while_option_find)
    show "stations_back up cur ! j = (adjust_step up ^^ j) (adjust_step up cur)"
      if "j < length (stations_back up cur)" for j
      using that by (simp add: adjust_walk [OF assms] stations_back_def del: upt_Suc)
    fix k
    have "station_back up cur (Suc k) = station_back up cur (Suc (k mod 31))"
    proof -
      have "(uint cur - 1 + d * int (Suc k)) mod 31 = (uint cur - 1 + d * int (Suc (k mod 31))) mod 31" for d
      proof -
        have "int k = int (k mod 31) + 31 * int (k div 31)"
          by (metis mod_mult_div_eq of_nat_add of_nat_mult of_nat_numeral)
        then have "uint cur - 1 + d * int (Suc k) =
            (uint cur - 1 + d * int (Suc (k mod 31))) + 31 * (d * int (k div 31))"
          by (simp add: algebra_simps)
        then show ?thesis by (metis mod_mult_self2)
      qed
      then show ?thesis by (simp add: station_back_def)
    qed
    moreover have "Suc (k mod 31) \<in> set [1..<32]" by (simp add: less_Suc_eq_le del: upt_Suc)
    ultimately show "(adjust_step up ^^ k) (adjust_step up cur) \<in> set (stations_back up cur)"
      unfolding stations_back_def adjust_walk [OF assms] set_map by blast
  qed
  then show ?thesis by (simp add: adjust_search_def)
qed

lemma clear_skip_effective:
  "effective (ClearSkipStationInfo line s) =
     (\<lambda>c. if cell line 0 \<le> c \<and> c < cell line 32 \<and> effective s c \<noteq> 2 then 1 else effective s c)"
proof -
  have "effective (fold (\<lambda>i s. if effective s (cell line (int i)) \<noteq> 2
                 then set_effective (cell line (int i)) 1 s else s) [0..<n] s) =
     (\<lambda>c. if cell line 0 \<le> c \<and> c < cell line (int n) \<and> effective s c \<noteq> 2 then 1 else effective s c)"
     (is "?F n = ?G n") for n
  proof (induction n)
    case (Suc n)
    show ?case
    proof
      fix c
      show "?F (Suc n) c = ?G (Suc n) c"
        using fun_cong [OF Suc, of c] fun_cong [OF Suc, of "cell line (int n)"]
        by (cases "c = cell line (int n)") (auto simp: set_effective_def cell_def)
    qed
  qed (auto simp: cell_def fun_eq_iff)
  from this [of 32] show ?thesis by (simp add: ClearSkipStationInfo_def)
qed

lemma clear_skip_frame:
  "st_sent (ClearSkipStationInfo line s) = st_sent s \<and> this_line_no (ClearSkipStationInfo line s) = this_line_no s"
proof -
  have "st_sent (fold (\<lambda>i s. if effective s (cell line (int i)) \<noteq> 2
                 then set_effective (cell line (int i)) 1 s else s) xs s) = st_sent s \<and>
    this_line_no (fold (\<lambda>i s. if effective s (cell line (int i)) \<noteq> 2
                 then set_effective (cell line (int i)) 1 s else s) xs s) = this_line_no s" for xs
    by (induction xs arbitrary: s) (auto simp: set_effective_def)
  then show ?thesis by (simp add: ClearSkipStationInfo_def)
qed

subsection \<open>\<open>GetNextStationNo\<close>\<close>

definition stations_ahead :: "byte \<Rightarrow> byte \<Rightarrow> byte \<Rightarrow> byte list" where
  "stations_ahead up cur ter =
     map word_of_int (if up = 1 then [uint cur + 1..uint ter] else rev [uint ter..uint cur - 1])"

lemma next_up:
  assumes "uint cur < uint ter" and "uint ter \<le> 31"
  shows "uint ((next_step 3 1 ter ^^ j) (next_step 3 1 ter cur)) = min (uint cur + 1 + int j) (uint ter)"
proof -
  have step: "uint (next_step 3 1 ter c) = min (uint c + 1) (uint ter)" if "uint c \<le> uint ter" for c
    using that assms(2) by (auto simp: next_step_def word_le_def Let_def uint_word_ariths min_def)
  show ?thesis
  proof (induction j)
    case (Suc j)
    then show ?case
      using step [of "(next_step 3 1 ter ^^ j) (next_step 3 1 ter cur)"] by simp
  qed (use step [of cur] assms in simp)
qed

lemma next_down:
  assumes "uint ter < uint cur" and "1 \<le> uint ter" and "up \<noteq> 1"
  shows "uint ((next_step 3 up ter ^^ j) (next_step 3 up ter cur)) = max (uint cur - 1 - int j) (uint ter)"
proof -
  have step: "uint (next_step 3 up ter c) = max (uint c - 1) (uint ter)" if "uint ter \<le> uint c" for c
    using that assms(2,3) uint_lt2p [of c]
    by (auto simp: next_step_def word_le_def Let_def uint_word_ariths max_def)
  show ?thesis
  proof (induction j)
    case (Suc j)
    then show ?case
      using step [of "(next_step 3 up ter ^^ j) (next_step 3 up ter cur)"] by simp
  qed (use step [of cur] assms in simp)
qed

lemma next_station_find:
  assumes "1 \<le> uint ter" and "uint ter \<le> 31"
    and "if up = 1 then uint cur < uint ter else uint ter < uint cur"
  shows "GetNextStationNo eff 3 cur up ter =
    find (\<lambda>c. eff (cell 4 (uint c)) \<noteq> 0) (stations_ahead up cur ter)"
proof -
  have walk: "(next_step 3 up ter ^^ j) (next_step 3 up ter cur) =
      word_of_int (if up = 1 then min (uint cur + 1 + int j) (uint ter)
                   else max (uint cur - 1 - int j) (uint ter))" for j
  proof -
    have "uint ((next_step 3 up ter ^^ j) (next_step 3 up ter cur)) =
        (if up = 1 then min (uint cur + 1 + int j) (uint ter) else max (uint cur - 1 - int j) (uint ter))"
      using next_up [of cur ter j] next_down [of ter cur up j] assms by (cases "up = 1") simp_all
    from arg_cong [OF this, of "word_of_int :: int \<Rightarrow> byte"] show ?thesis by (simp only: word_of_int_uint)
  qed
  have "while_option (\<lambda>c. \<not> eff (cell 4 (uint c)) \<noteq> 0) (next_step 3 up ter) (next_step 3 up ter cur) =
      find (\<lambda>c. eff (cell 4 (uint c)) \<noteq> 0) (stations_ahead up cur ter)"
  proof (rule while_option_find)
    show "stations_ahead up cur ter ! j = (next_step 3 up ter ^^ j) (next_step 3 up ter cur)"
      if "j < length (stations_ahead up cur ter)" for j
      unfolding walk using that assms(3)
      by (auto simp: stations_ahead_def rev_nth min_def max_def algebra_simps
            intro!: arg_cong [where f = word_of_int])
    have "set (stations_ahead up cur ter) =
        word_of_int ` (if up = 1 then {uint cur + 1..uint ter} else {uint ter..uint cur - 1})"
      by (simp add: stations_ahead_def)
    moreover have "(if up = 1 then min (uint cur + 1 + int k) (uint ter) else max (uint cur - 1 - int k) (uint ter))
        \<in> (if up = 1 then {uint cur + 1..uint ter} else {uint ter..uint cur - 1})" for k
      using assms(3) by auto
    ultimately show "(next_step 3 up ter ^^ k) (next_step 3 up ter cur) \<in> set (stations_ahead up cur ter)" for k
      unfolding walk by blast
  qed
  then show ?thesis by (simp add: GetNextStationNo_def)
qed

section \<open>Initial state\<close>

text \<open>The zeroed globals with the names of this unit, and the loop of \<open>InitStationInformation\<close>.\<close>

definition region_row_zero :: region_row where
  "region_row_zero = \<lparr>rs_line_no = 0, rs_region_no = 0, rs_running_direction = 0,
     rs_whether_the_cycle_bus = 0, rs_start_station_no = 0, rs_over_station_no = 0\<rparr>"

definition region_info_zero :: region_info where
  "region_info_zero = \<lparr>os_begin_station_no = 0, os_terminal_station_no = 0,
     os_current_station_no = 0, os_next_station_no = 0, os_cycle_line = 0, stop_or_leave = 0,
     os_region_no = 0, os_door_side = 0, os_running_up_or_down = 0\<rparr>"

definition stations_zero :: stations where
  "stations_zero = \<lparr>region_station_info = region_info_zero,
     effective = (\<lambda>i. 0), open_door_side = (\<lambda>i. (0, 0)), station_chinese_name = (\<lambda>i. ''''),
     this_line_no = 3,
     bcu_region_info = (\<lambda>i. \<lparr>p_regin_info = (\<lambda>i. region_row_zero), default_region_no = 0,
       total_regions_number = 36, current_region_no = 0, total_stations_number = 0,
       current_region_info = region_row_zero\<rparr>),
     have_get_part_info = False, begin_line3 = False, begin_line4 = False,
     manual_station = (0, 0, 0), st_name = ''BCU'', st_no = 1, st_opposite_no = 2,
     st_sent = [], st_screens = []\<rparr>"

definition InitStationInformation :: "stations \<Rightarrow> stations" where
  "InitStationInformation s =
     fold (\<lambda>i. fold (\<lambda>j. set_effective (cell (int i + 3) (int j)) 1) [0..<MAX_STATION_NUMBER]) [0..<2] s"

subsection \<open>The line queue\<close>

lemma write_twice_snd: "snd (write_twice room p q) \<in> {snd q, snd q @ [p]}"
  by (auto simp: write_twice_def split: prod.splits)

lemma count_up: "(Suc ^^ k) n = n + k"
  by (induction k) simp_all

lemma write_until_None: "write_until room p q = None \<Longrightarrow> fst q \<le> m \<Longrightarrow> \<forall>n\<ge>m. \<not> room n"
proof (intro allI impI)
  fix n assume none: "write_until room p q = None" "fst q \<le> m" and n: "m \<le> n"
  from none(1) have "\<not> room (fst q + k)" for k
    by (auto simp: write_until_def while_option_def count_up add.commute split: prod.splits if_splits)
  from this [of "n - fst q"] show "\<not> room n" using none(2) n by simp
qed

lemma write_until_Some: "write_until room p q = Some q' \<Longrightarrow> snd q' = snd q @ [p] \<and> (\<exists>n\<ge>fst q. room n)"
  by (auto simp: write_until_def while_option_def count_up split: prod.splits if_splits intro: le_add2)

subsection \<open>Subscripts out of range\<close>

text \<open>A change to line 0 does not set the line, and marks 32 cells before the array.\<close>

lemma change_line_zero:
  assumes "si_type_ann c = LINE_NUMBER_CHANGE_EVENT" and "si_type_intercom c = INTERCOM_IDLE"
    and "li_line_no c = 0"
  shows "\<exists>s'. ChangeLineNumber room rest c s = Some (c, s') \<and> this_line_no s' = this_line_no s
    \<and> effective s' = (\<lambda>i. if -96 \<le> i \<and> i < -64 \<and> effective s i \<noteq> 2 then 1 else effective s i)"
  using assms by (simp add: ChangeLineNumber_def BcuUpdateLineNumber_def clear_skip_effective
      clear_skip_frame cell_def)

text \<open>The row indices count from 1, and the guard is strict: the eighth region is dropped.\<close>

lemma last_region_dropped:
  assumes "se_line_no d = 3 \<or> se_line_no d = 4" and "se_current_index d = 8"
  shows "p_regin_info (bcu_region_info (BcuUpdateLcdLineRegionArray d s) (se_line_no d - 3)) =
    p_regin_info (bcu_region_info s (se_line_no d - 3))"
  using assms by (auto simp: BcuUpdateLcdLineRegionArray_def set_line_def Let_def)

section \<open>Properties\<close>

lemma adjust_stop:
  assumes "stop_or_leave r = 0"
    and "os_current_station_no r \<noteq> os_begin_station_no r \<or> os_cycle_line r \<noteq> 0"
    and "os_running_up_or_down r \<in> {1, 2}"
    and "uint (os_current_station_no r) \<in> {1..31}"
  shows "AdjustStationNo eff r =
    map_option (\<lambda>c. r\<lparr>os_current_station_no := c, os_next_station_no := os_current_station_no r\<rparr>)
      (find (\<lambda>c. eff (cell 4 (uint c)) \<noteq> 0)
        (stations_back (os_running_up_or_down r) (os_current_station_no r)))"
  using assms by (auto simp: AdjustStationNo_def Let_def adjust_search_find split: option.split)


text \<open>A train that goes up from station 5 with stations 3 and 4 skipped shows station 2.\<close>

definition sample_stations :: stations where
  "sample_stations = set_effective (cell 4 3) 0 (set_effective (cell 4 4) 0
     (InitStationInformation stations_zero))"

definition sample_arrival :: tms_auto where
  "sample_arrival = \<lparr>ta_up_down = 1, ta_stop_or_leave = 0, ta_start_station_code = 1,
     ta_current_station_code = 5, ta_next_station_code = 6, ta_end_station_code = 31,
     ta_door_side = 0\<rparr>"


definition sample_line :: "byte list \<Rightarrow> send_info" where
  "sample_line bs = send_info_zero\<lparr>si_type_ann := LINE_NUMBER_CHANGE_EVENT, si_ann := bs\<rparr>"

text \<open>A region set by the CCU over the network shows the first station towards the terminal
  that is not skipped as the next one; when every one of them is skipped, the terminal
  included, the call never returns.
\<close>

lemma region_set_shown:
  assumes "si_type_ann c = LINE_NUMBER_CHANGE_EVENT" and "si_type_intercom c = INTERCOM_IDLE"
    and "li_get_or_set c = 0" and "li_region_no c = 0" and "li_region_update_type c = 1"
    and "os_terminal_station_no (region_station_info s) \<noteq> li_terminal_station_no c"
    and "uint (li_terminal_station_no c) \<in> {1..31}"
    and "if li_up_or_down c = 1 then uint (li_current_station_no c) < uint (li_terminal_station_no c)
         else uint (li_terminal_station_no c) < uint (li_current_station_no c)"
  shows "BCUUpdateTCMSLineInfo c s =
    map_option (\<lambda>n. (3, set_region (\<lambda>r. r\<lparr>
        os_region_no := 0,
        os_begin_station_no := li_start_station_no c,
        os_terminal_station_no := li_terminal_station_no c,
        os_current_station_no := li_current_station_no c,
        os_running_up_or_down := li_up_or_down c,
        os_cycle_line := li_whether_the_cycle c,
        os_next_station_no := n\<rparr>) s))
      (find (\<lambda>n. effective s (cell 4 (uint n)) \<noteq> 0)
        (stations_ahead (li_up_or_down c) (li_current_station_no c) (li_terminal_station_no c)))"
  using assms next_station_find [of "li_terminal_station_no c" "li_up_or_down c" "li_current_station_no c" "effective s"]
  by (simp add: BCUUpdateTCMSLineInfo_def Let_def split: option.split)

text \<open>
  A change of the line returns only when the queue at last takes the package for the
  amplifier; it has then set the line, queued that package, and perhaps those for the CCU
  before it and the other BCU after it, and every station of the line but those marked 2 is
  served again.
\<close>

lemma change_line_sends:
  assumes "si_type_ann c = LINE_NUMBER_CHANGE_EVENT" and "si_type_intercom c = INTERCOM_IDLE"
    and "li_line_no c \<noteq> 0" and "2 \<le> length (si_ann c)"
  shows "case ChangeLineNumber room rest c s of
      None \<Rightarrow> \<forall>n\<ge>2. \<not> room n
    | Some (c', s') \<Rightarrow>
        this_line_no s' = uint (li_line_no c) \<and>
        effective s' = (\<lambda>i. if cell (uint (li_line_no c)) 0 \<le> i \<and> i < cell (uint (li_line_no c)) 32
                              \<and> effective s i \<noteq> 2 then 1 else effective s i) \<and>
        (\<exists>n\<ge>1. room n) \<and>
        (\<exists>p A B. li_line_no p = li_line_no c \<and> li_region_no p = li_region_no c
           \<and> A \<in> {[], [(''CCU'', MUL_DST_NO, p)]} \<and> B \<in> {[], [(''BCU'', st_opposite_no s, p)]}
           \<and> st_sent s' = st_sent s @ A @ [(''EAMP'', MUL_DST_NO, p)] @ B)"
proof -
  define s1 where "s1 = s\<lparr>this_line_no := uint (li_line_no c)\<rparr>"
  define p where "p = line_pkg rest c s1"
  define q where "q = write_twice room (''CCU'', MUL_DST_NO, p) (0, st_sent s1)"
  have p: "li_line_no p = li_line_no c" "li_region_no p = li_region_no c"
    using assms(4) by (cases "si_ann c"; cases "tl (si_ann c)";
      simp add: p_def line_pkg_def li_line_no_def li_region_no_def)+
  obtain A where A: "A \<in> {[], [(''CCU'', MUL_DST_NO, p)]}" "snd q = st_sent s @ A" "fst q \<in> {1, 2}"
    by (cases "room 0"; cases "room 1") (auto simp: q_def write_twice_def s1_def)
  show ?thesis
  proof (cases "write_until room (''EAMP'', MUL_DST_NO, p) q")
    case None
    then have "\<forall>n\<ge>2. \<not> room n" by (rule write_until_None) (use A(3) in auto)
    moreover have "ChangeLineNumber room rest c s = None"
      using None assms by (simp add: ChangeLineNumber_def BcuUpdateLineNumber_def Let_def p_def q_def s1_def)
    ultimately show ?thesis by simp
  next
    case (Some q')
    have q': "snd q' = snd q @ [(''EAMP'', MUL_DST_NO, p)]" "\<exists>n\<ge>fst q. room n"
      using write_until_Some [OF Some] by auto
    define r where "r = write_twice room (''BCU'', st_opposite_no s1, p) q'"
    obtain B where B: "B \<in> {[], [(''BCU'', st_opposite_no s, p)]}" "snd r = snd q' @ B"
      using write_twice_snd [of room "(''BCU'', st_opposite_no s1, p)" q'] by (auto simp: r_def s1_def)
    have "ChangeLineNumber room rest c s = Some (c\<lparr>si_src_no := 0, si_src_name := ''''\<rparr>,
        ClearSkipStationInfo (uint (li_line_no c)) (s1\<lparr>st_sent := snd r\<rparr>))"
      using Some assms
      by (simp add: ChangeLineNumber_def BcuUpdateLineNumber_def Let_def p_def q_def r_def s1_def li_line_no_def)
    moreover have "\<exists>n\<ge>1. room n"
      using q'(2) A(3) order_trans [of 1 "fst q"] by (metis insertE le_refl one_le_numeral singletonD)
    moreover have "snd r = st_sent s @ A @ [(''EAMP'', MUL_DST_NO, p)] @ B"
      using A(2) B(2) q'(1) by simp
    ultimately show ?thesis using A(1) B(1) p
      by (auto simp: clear_skip_effective clear_skip_frame s1_def)
  qed
qed

end
