(* ===== verification/Gd_Sync.thy ===== *)
theory Gd_Sync
  imports Stations Ann_Priority Alarm_List
begin

text \<open>
  The synchronisation of the unit's tables with the data base of a CCU
  (\<open>BcuGdThreadEntry\<close> in \<open>bcu_gd_sync.cxx\<close>): the phases 0 (looking for a CCU), 1 (counting the
  answers of the CCUs), 2 (asking the chosen CCU to start), 3 (receiving rows), 4 and 5 (done).

  One turn of the thread's endless loop is \<open>gd_round\<close>: the switch over the phases, at most one
  package from the queue, and the two repetitions of a request. The thread shares its timer
  with the call-back, which may fire between any two looks at it: \<open>gi_fire\<close> says at which.
  The layout of the rows in memory is the compiler's, so their sizes and decoders are a
  parameter (\<open>gd_layout\<close>).
\<close>

section \<open>State\<close>

abbreviation (input) SUBEVENT_TYPE_DB_VERSION_SYNC_BEP :: byte where "SUBEVENT_TYPE_DB_VERSION_SYNC_BEP \<equiv> 2"
abbreviation (input) SUBEVENT_TYPE_DB_SERVER_CHANGED :: byte where "SUBEVENT_TYPE_DB_SERVER_CHANGED \<equiv> 3"
abbreviation (input) SUBEVENT_TYPE_LINE_STATION_TABLE_SYNC :: byte where "SUBEVENT_TYPE_LINE_STATION_TABLE_SYNC \<equiv> 17"
abbreviation (input) SUBEVENT_TYPE_LINE_SECTION_TABLE_SYNC :: byte where "SUBEVENT_TYPE_LINE_SECTION_TABLE_SYNC \<equiv> 19"
abbreviation (input) SUBEVENT_TYPE_DEFAULT_LINE_TABLE_SYNC :: byte where "SUBEVENT_TYPE_DEFAULT_LINE_TABLE_SYNC \<equiv> 21"
abbreviation (input) SUBEVENT_TYPE_IP_TABLE_SYNC :: byte where "SUBEVENT_TYPE_IP_TABLE_SYNC \<equiv> 23"
abbreviation (input) SUBEVENT_TYPE_PRIORITY_TABLE_SYNC :: byte where "SUBEVENT_TYPE_PRIORITY_TABLE_SYNC \<equiv> 26"
abbreviation (input) SUBEVENT_TYPE_STATION_DOOR_SIDE_SYNC :: byte where "SUBEVENT_TYPE_STATION_DOOR_SIDE_SYNC \<equiv> 30"
abbreviation (input) SUBEVENT_TYPE_STATION_BCU_VOLUME_SYNC :: byte where "SUBEVENT_TYPE_STATION_BCU_VOLUME_SYNC \<equiv> 31"
abbreviation (input) SUBEVENT_TYPE_STATION_BCU_TS_PASSWORD :: byte where "SUBEVENT_TYPE_STATION_BCU_TS_PASSWORD \<equiv> 32"
abbreviation (input) SUBEVENT_TYPE_ALL_DEV_VERSION :: byte where "SUBEVENT_TYPE_ALL_DEV_VERSION \<equiv> 128"
abbreviation (input) SUBEVENT_TYPE_READY_SYNC_REQ :: byte where "SUBEVENT_TYPE_READY_SYNC_REQ \<equiv> 254"
abbreviation (input) SUBEVENT_TYPE_PCU_UPDATED :: byte where "SUBEVENT_TYPE_PCU_UPDATED \<equiv> 250"
abbreviation (input) SUBEVENT_TYPE_EAMP_UPDATING :: byte where "SUBEVENT_TYPE_EAMP_UPDATING \<equiv> 253"
abbreviation (input) SUBEVENT_TYPE_END_SYNC :: byte where "SUBEVENT_TYPE_END_SYNC \<equiv> 255"
abbreviation (input) EVENT_TYPE_SYS_UPDATE_SYNC :: byte where "EVENT_TYPE_SYS_UPDATE_SYNC \<equiv> 251"
abbreviation (input) MUL_SYNC_DST_NO :: int where "MUL_SYNC_DST_NO \<equiv> 251"
abbreviation (input) CONFIG_CCU_VERSION_STRING_LEN :: nat where "CONFIG_CCU_VERSION_STRING_LEN \<equiv> 32"
abbreviation (input) DEVICE_NAME_LENGTH :: nat where "DEVICE_NAME_LENGTH \<equiv> 30"

text \<open>A package: the addresses of \<open>common_big_package_t\<close>, its event and its \<open>gd_sync_cmd_t\<close>.\<close>

record sync_msg =
  sm_dst_dev_name :: string
  sm_dst_dev_number :: int
  sm_src_dev_name :: string
  sm_src_dev_number :: int
  sm_event_type_common :: byte
  sm_sequence :: "32 word"
  gd_sync_context_len :: "32 word"
  gd_sync_req :: byte
  gd_sync_res :: byte
  gd_sync_mask :: byte
  gd_sync_context :: "byte list"

text \<open>The local timer as the thread sees it: what \<open>AlarmCheckTimeOut\<close> answers.\<close>

datatype sync_timer = TimerOff | Running | TimedOut

fun timer_flag :: "sync_timer \<Rightarrow> byte" where
  "timer_flag TimerOff = -1"
| "timer_flag Running = 0"
| "timer_flag TimedOut = 1"

text \<open>The tables that the rows fill, and the layout of the rows.\<close>

record gd_tables =
  gt_stations :: stations
  gt_prio :: "prio_node list"
  gt_volume :: "int \<times> int \<times> int \<times> int"
  gt_password :: string
  gt_ip_rows :: "byte list list"

record gd_layout =
  ly_password_size :: nat
  ly_password :: "byte list \<Rightarrow> string"
  ly_station_size :: nat
  ly_station :: "byte list \<Rightarrow> station_row"
  ly_section_size :: nat
  ly_section :: "byte list \<Rightarrow> section_row"
  ly_default_size :: nat
  ly_default :: "byte list \<Rightarrow> default_line_row"
  ly_ip_size :: nat
  ly_prior_size :: nat
  ly_prior :: "byte list \<Rightarrow> string \<times> nat"
  ly_door :: "byte list \<Rightarrow> door_row"
  ly_volume_size :: nat
  ly_volume :: "byte list \<Rightarrow> int \<times> int \<times> int \<times> int"

text \<open>The local variables of the thread and the globals it owns.\<close>

record gd =
  current_phase :: nat
  ccu_enter_bep_phase :: bool
  bcu_to_ccu_net_ok :: bool
  bcu_update_finish :: bool
  server_ccu_sync_cmd :: bool
  ready_req_cmd :: bool
  receive_ccu_table_item_flag :: bool
  detect_active_ccu_count :: byte
  ready_package_response_count :: byte
  ready_package_request_timeouts :: byte
  table_pacakage_timeouts :: byte
  db_server_dev_no :: int
  db_ccu_status :: "(byte \<times> 32 word) list"
  gd_dev_no :: int
  send_package_serial_number :: "32 word"
  gd_timer :: sync_timer
  update_start :: bool
  have_finished_get_data :: bool
  gd_tabs :: gd_tables
  gd_sent :: "sync_msg list"

text \<open>What the environment does in a round.\<close>

record gd_input =
  gi_fire :: "nat \<Rightarrow> bool"
  gi_room :: "nat \<Rightarrow> bool"
  gi_alloc :: bool
  gi_msg :: "sync_msg option"

definition tick :: "bool \<Rightarrow> gd \<Rightarrow> gd" where
  "tick fire g = (if fire \<and> gd_timer g = Running then g\<lparr>gd_timer := TimedOut\<rparr> else g)"

definition timer_on :: "gd \<Rightarrow> gd" where "timer_on g = g\<lparr>gd_timer := Running\<rparr>"

definition timer_off :: "gd \<Rightarrow> gd" where "timer_off g = g\<lparr>gd_timer := TimerOff\<rparr>"

section \<open>Sending\<close>

definition BcuSendDbSyncReqCommon :: "bool \<Rightarrow> byte \<Rightarrow> int \<Rightarrow> gd \<Rightarrow> gd \<times> bool" where
  "BcuSendDbSyncReqCommon room sub_event dest_dev_no g =
     (let n = send_package_serial_number g + 1;
          m = \<lparr>sm_dst_dev_name = ''CCU'', sm_dst_dev_number = dest_dev_no,
               sm_src_dev_name = ''BCU'', sm_src_dev_number = gd_dev_no g,
               sm_event_type_common = EVENT_TYPE_SYS_UPDATE_SYNC, sm_sequence = n,
               gd_sync_context_len = 0, gd_sync_req = 1, gd_sync_res = 0,
               gd_sync_mask = sub_event, gd_sync_context = []\<rparr>;
          g = g\<lparr>send_package_serial_number := n\<rparr>
      in if room then (g\<lparr>gd_sent := gd_sent g @ [m]\<rparr>, True) else (g, False))"

definition BcuSendCommonNetResponse :: "bool \<Rightarrow> sync_msg \<Rightarrow> gd \<Rightarrow> gd" where
  "BcuSendCommonNetResponse room m g =
     (if gd_sync_req m = 1 \<and> gd_sync_res m = 0
      then (let r = m\<lparr>sm_dst_dev_name := sm_src_dev_name m, sm_dst_dev_number := 251,
                sm_src_dev_name := sm_dst_dev_name m,
                sm_src_dev_number :=
                  (if sm_dst_dev_number m = int MUL_DST_NO \<or> sm_dst_dev_number m = MUL_SYNC_DST_NO
                   then gd_dev_no g else sm_dst_dev_number m),
                gd_sync_res := 1\<rparr>
            in if room then g\<lparr>gd_sent := gd_sent g @ [r]\<rparr> else g)
      else g)"

section \<open>Rows\<close>

definition BcuUpdateBcuVolArray :: "int \<times> int \<times> int \<times> int \<Rightarrow> gd_tables \<Rightarrow> gd_tables" where
  "BcuUpdateBcuVolArray v t = t\<lparr>gt_volume := v\<rparr>"

text \<open>
  \<open>BcuGdGetDbFromServerCcu\<close>: a row is taken only when its length is that of its struct and
  four bytes of check sum. The tables whose functions have no effect in this build (emergency
  texts, versions, device numbers, paths) are the last case.
\<close>

definition BcuGdGetDbFromServerCcu ::
    "gd_layout \<Rightarrow> bool \<Rightarrow> sync_msg \<Rightarrow> gd_tables \<Rightarrow> gd_tables" where
  "BcuGdGetDbFromServerCcu ly alloc m t =
     (let recv_buffer = gd_sync_context m; recv_len = gd_sync_context_len m;
          is = (\<lambda>size. recv_len = word_of_nat size + 4);
          ev = gd_sync_mask m
      in if ev = SUBEVENT_TYPE_STATION_BCU_TS_PASSWORD
         then (if is (ly_password_size ly) then t\<lparr>gt_password := c_str (ly_password ly recv_buffer)\<rparr> else t)
         else if ev = SUBEVENT_TYPE_LINE_STATION_TABLE_SYNC
         then (if is (ly_station_size ly)
               then t\<lparr>gt_stations := BcuUpdateLcdLineStationArray (ly_station ly recv_buffer) (gt_stations t)\<rparr> else t)
         else if ev = SUBEVENT_TYPE_LINE_SECTION_TABLE_SYNC
         then (if is (ly_section_size ly)
               then t\<lparr>gt_stations := BcuUpdateLcdLineRegionArray (ly_section ly recv_buffer) (gt_stations t)\<rparr> else t)
         else if ev = SUBEVENT_TYPE_DEFAULT_LINE_TABLE_SYNC
         then (if is (ly_default_size ly)
               then t\<lparr>gt_stations := BcuUpdateLcdDefaultLineArray (ly_default ly recv_buffer) (gt_stations t)\<rparr> else t)
         else if ev = SUBEVENT_TYPE_IP_TABLE_SYNC
         then (if is (ly_ip_size ly) then t\<lparr>gt_ip_rows := gt_ip_rows t @ [recv_buffer]\<rparr> else t)
         else if ev = SUBEVENT_TYPE_PRIORITY_TABLE_SYNC
         then (if is (ly_prior_size ly)
               then t\<lparr>gt_prio := fst (BcuUpdatePriorArray True alloc (Some (ly_prior ly recv_buffer)) (gt_prio t))\<rparr> else t)
         else if ev = SUBEVENT_TYPE_STATION_DOOR_SIDE_SYNC
         then (if recv_len = word_of_int (dr_total_bytes (ly_door ly recv_buffer)) + 4
               then t\<lparr>gt_stations := snd (BcuUpdateDoorSideArray (ly_door ly recv_buffer) (gt_stations t))\<rparr> else t)
         else if ev = SUBEVENT_TYPE_STATION_BCU_VOLUME_SYNC
         then (if is (ly_volume_size ly) then BcuUpdateBcuVolArray (ly_volume ly recv_buffer) t else t)
         else t)"

section \<open>The phases\<close>

definition ccu_count :: "gd \<Rightarrow> nat \<Rightarrow> 32 word" where
  "ccu_count g i = snd (db_ccu_status g ! i)"

definition ccu_flag :: "gd \<Rightarrow> nat \<Rightarrow> byte" where
  "ccu_flag g i = fst (db_ccu_status g ! i)"

text \<open>The choice of the CCU: first by flags and counts, then by the unit's own number.\<close>

definition choose_by_count :: "gd \<Rightarrow> gd" where
  "choose_by_count g =
     (if ccu_flag g 1 = 1 \<and> ccu_flag g 2 = 2
      then (if ccu_count g 1 < ccu_count g 2 then g\<lparr>db_server_dev_no := 2\<rparr> else g)
      else if ccu_flag g 1 = 2 \<and> ccu_flag g 2 = 1
      then (if ccu_count g 1 > ccu_count g 2 then g\<lparr>db_server_dev_no := 1\<rparr> else g)
      else if ccu_count g 1 < ccu_count g 2 then g\<lparr>db_server_dev_no := 2\<rparr>
      else if ccu_count g 1 > ccu_count g 2 then g\<lparr>db_server_dev_no := 1\<rparr>
      else g)"

definition choose_by_pair :: "gd \<Rightarrow> gd" where
  "choose_by_pair g =
     (let g = (if gd_dev_no g = 1
               then (if ccu_count g 1 > 0 then g\<lparr>db_server_dev_no := 1\<rparr>
                     else if ccu_count g 2 > 0 then g\<lparr>db_server_dev_no := 2\<rparr> else g)
               else g)
      in if gd_dev_no g = 2
         then (if ccu_count g 2 > 0 then g\<lparr>db_server_dev_no := 2\<rparr>
               else if ccu_count g 1 > 0 then g\<lparr>db_server_dev_no := 1\<rparr> else g)
         else g)"

definition gd_reset :: "gd \<Rightarrow> gd" where
  "gd_reset g = timer_on ((timer_off g)\<lparr>bcu_to_ccu_net_ok := False, ccu_enter_bep_phase := False,
     bcu_update_finish := False, detect_active_ccu_count := 0, ready_package_response_count := 0,
     ready_package_request_timeouts := 0, receive_ccu_table_item_flag := False,
     table_pacakage_timeouts := 0, server_ccu_sync_cmd := False, ready_req_cmd := False,
     current_phase := 0, db_ccu_status := replicate 4 (0, 0)\<rparr>)"

definition gd_case0 :: "gd \<Rightarrow> gd" where
  "gd_case0 g =
     (if ccu_enter_bep_phase g
      then (timer_on (g\<lparr>current_phase := 1\<rparr>))\<lparr>server_ccu_sync_cmd := False,
             bcu_to_ccu_net_ok := False, db_ccu_status := replicate 4 (0, 0)\<rparr>
      else g)"

definition gd_case1 :: "bool \<Rightarrow> gd \<Rightarrow> gd" where
  "gd_case1 room g =
     (if bcu_to_ccu_net_ok g \<and> ccu_enter_bep_phase g
      then (let g = choose_by_pair (choose_by_count g);
                (g, ok) = BcuSendDbSyncReqCommon room SUBEVENT_TYPE_READY_SYNC_REQ (db_server_dev_no g) g
            in if ok
               then (timer_on (timer_off g))\<lparr>current_phase := 2, ready_package_request_timeouts := 0,
                      ready_package_response_count := 0, ready_req_cmd := False\<rparr>
               else g)
      else g)"

definition gd_case2 :: "gd \<Rightarrow> gd" where
  "gd_case2 g =
     (let g = (if ready_package_request_timeouts g \<ge> 10 then gd_reset g else g)
      in if ready_package_response_count g \<ge> 3
         then (timer_on ((timer_off g)\<lparr>current_phase := 3\<rparr>))\<lparr>table_pacakage_timeouts := 0, update_start := True\<rparr>
         else g)"

text \<open>The three tests of phase 3 look at the timer one after the other.\<close>

definition gd_case3 :: "(nat \<Rightarrow> bool) \<Rightarrow> gd \<Rightarrow> gd" where
  "gd_case3 fire g =
     (let g = (if table_pacakage_timeouts g \<ge> 10 then gd_reset g else g);
          g = tick (fire 0) g
      in if gd_timer g = TimedOut \<and> \<not> receive_ccu_table_item_flag g
         then (timer_on (timer_off g))\<lparr>table_pacakage_timeouts := table_pacakage_timeouts g + 1\<rparr>
         else (let g = tick (fire 1) g in
           if gd_timer g = Running \<and> receive_ccu_table_item_flag g
           then (timer_on (timer_off g))\<lparr>receive_ccu_table_item_flag := False\<rparr>
           else (let g = tick (fire 2) g in
             if gd_timer g = TimedOut \<and> receive_ccu_table_item_flag g
             then (timer_on (timer_off g))\<lparr>receive_ccu_table_item_flag := False\<rparr>
             else g)))"

definition gd_case4 :: "gd \<Rightarrow> gd" where
  "gd_case4 g = (timer_off g)\<lparr>current_phase := 5, update_start := False\<rparr>"

definition gd_switch :: "gd_input \<Rightarrow> gd \<Rightarrow> gd" where
  "gd_switch i g =
     (if current_phase g = 0 then gd_case0 g
      else if current_phase g = 1 then gd_case1 (gi_room i 0) g
      else if current_phase g = 2 then gd_case2 g
      else if current_phase g = 3 then gd_case3 (gi_fire i) g
      else if current_phase g = 4 then gd_case4 g
      else g)"

section \<open>Receiving\<close>

text \<open>
  The answer of a CCU: after two version strings the text \<open>SERVER\<close>, a device name, a device
  number and the flag of the CCU, an \<open>int\<close> whose low byte comes first on this target.
\<close>

definition server_mark :: "sync_msg \<Rightarrow> bool" where
  "server_mark m \<longleftrightarrow>
     c_str (map (\<lambda>b. char_of (unat b)) (drop (2 * CONFIG_CCU_VERSION_STRING_LEN) (gd_sync_context m))) = ''SERVER''"

definition server_flag :: "sync_msg \<Rightarrow> byte" where
  "server_flag m = gd_sync_context m ! (2 * CONFIG_CCU_VERSION_STRING_LEN + 7 + DEVICE_NAME_LENGTH + 4)"

definition count_ccu :: "sync_msg \<Rightarrow> gd \<Rightarrow> gd" where
  "count_ccu m g =
     (let n = sm_src_dev_number m in
      if n \<ge> 0 \<and> n < 4
      then g\<lparr>db_ccu_status := (db_ccu_status g)[nat n :=
              (server_flag m, snd (db_ccu_status g ! nat n) + 1)]\<rparr>
      else g)"

definition bep_response :: "bool \<Rightarrow> sync_msg \<Rightarrow> gd \<Rightarrow> gd" where
  "bep_response fire m g =
     (let g = tick fire g in
      if gd_timer g = Running \<and> send_package_serial_number g = sm_sequence m
      then (let g = timer_off g;
                g = (if server_mark m then count_ccu m g else g);
                g = g\<lparr>ccu_enter_bep_phase := True, server_ccu_sync_cmd := True\<rparr>
            in if current_phase g = 1
               then (if detect_active_ccu_count g \<ge> 5 then g\<lparr>bcu_to_ccu_net_ok := True\<rparr>
                     else (timer_on g)\<lparr>detect_active_ccu_count := detect_active_ccu_count g + 1,
                            server_ccu_sync_cmd := False\<rparr>)
               else g)
      else g)"

definition ready_response :: "bool \<Rightarrow> bool \<Rightarrow> sync_msg \<Rightarrow> gd \<Rightarrow> gd" where
  "ready_response fire fire' m g =
     (let g = tick fire g in
      if gd_timer g = Running \<and> send_package_serial_number g = sm_sequence m
      then (let g = (timer_off g)\<lparr>ready_req_cmd := True\<rparr>
            in if current_phase g = 2
               then (timer_on (g\<lparr>ready_package_response_count := ready_package_response_count g + 1\<rparr>))
                      \<lparr>ready_req_cmd := False\<rparr>
               else g)
      else (let g = tick fire' g in
        if gd_timer g = TimedOut \<and> ready_package_response_count g = 0
        then (let g = timer_off g
              in if current_phase g = 2
                 then (timer_on (g\<lparr>ready_package_request_timeouts := ready_package_request_timeouts g + 1\<rparr>))
                        \<lparr>ready_req_cmd := False\<rparr>
                 else g)
        else g))"

definition gd_receive :: "gd_layout \<Rightarrow> gd_input \<Rightarrow> sync_msg \<Rightarrow> gd \<Rightarrow> gd" where
  "gd_receive ly i m g =
     (let mask = gd_sync_mask m in
      if sm_event_type_common m \<noteq> EVENT_TYPE_SYS_UPDATE_SYNC then g
      else if mask = SUBEVENT_TYPE_DB_SERVER_CHANGED then g
      else if mask = SUBEVENT_TYPE_DB_VERSION_SYNC_BEP
      then (if gd_sync_req m = 1 \<and> gd_sync_res m = 1 then bep_response (gi_fire i 3) m g else g)
      else if mask \<ge> SUBEVENT_TYPE_LINE_STATION_TABLE_SYNC \<and> mask \<le> SUBEVENT_TYPE_STATION_BCU_TS_PASSWORD
      then (let g = BcuSendCommonNetResponse (gi_room i 1) m g;
                g = (if \<not> bcu_update_finish g
                     then g\<lparr>gd_tabs := BcuGdGetDbFromServerCcu ly (gi_alloc i) m (gd_tabs g)\<rparr> else g)
            in g\<lparr>receive_ccu_table_item_flag := True\<rparr>)
      else if mask \<ge> SUBEVENT_TYPE_PCU_UPDATED \<and> mask \<le> SUBEVENT_TYPE_EAMP_UPDATING then g
      else if mask = SUBEVENT_TYPE_READY_SYNC_REQ
      then (if gd_sync_req m = 1 \<and> gd_sync_res m = 1
            then ready_response (gi_fire i 3) (gi_fire i 4) m g else g)
      else if mask = SUBEVENT_TYPE_END_SYNC
      then (BcuSendCommonNetResponse (gi_room i 1) m g)
             \<lparr>have_finished_get_data := True, bcu_update_finish := True, current_phase := 4\<rparr>
      else if mask = SUBEVENT_TYPE_ALL_DEV_VERSION
      then (if gd_sync_req m = 1 \<and> gd_sync_res m = 0
            then BcuSendCommonNetResponse (gi_room i 1) m g else g)
      else g)"

section \<open>The loop\<close>

definition gd_repeat_bep :: "gd_input \<Rightarrow> gd \<Rightarrow> gd" where
  "gd_repeat_bep i g =
     (if server_ccu_sync_cmd g then g
      else (let g = tick (gi_fire i 5) g in
        if gd_timer g = TimedOut
        then fst (BcuSendDbSyncReqCommon (gi_room i 2) SUBEVENT_TYPE_DB_VERSION_SYNC_BEP MUL_SYNC_DST_NO
               (timer_on (timer_off g)))
        else g))"

definition gd_repeat_ready :: "gd_input \<Rightarrow> gd \<Rightarrow> gd" where
  "gd_repeat_ready i g =
     (if ready_req_cmd g then g
      else (let g = tick (gi_fire i 6) g in
        if gd_timer g = TimedOut
        then fst (BcuSendDbSyncReqCommon (gi_room i 3) SUBEVENT_TYPE_READY_SYNC_REQ (db_server_dev_no g)
               (timer_on (timer_off g)))
        else g))"

definition gd_round :: "gd_layout \<Rightarrow> gd_input \<Rightarrow> gd \<Rightarrow> gd" where
  "gd_round ly i g =
     (let g = gd_switch i g;
          g = (case gi_msg i of None \<Rightarrow> g | Some m \<Rightarrow> gd_receive ly i m g)
      in gd_repeat_ready i (gd_repeat_bep i g))"

definition BcuGdThreadEntry :: "gd_layout \<Rightarrow> gd_input list \<Rightarrow> gd \<Rightarrow> gd" where
  "BcuGdThreadEntry ly is g = fold (gd_round ly) is g"

text \<open>The thread's variables before its loop, on unit \<open>n\<close>; the timer has been enabled.\<close>

definition gd_init :: "int \<Rightarrow> gd_tables \<Rightarrow> gd" where
  "gd_init n t = \<lparr>current_phase = 0, ccu_enter_bep_phase = False, bcu_to_ccu_net_ok = False,
     bcu_update_finish = False, server_ccu_sync_cmd = False, ready_req_cmd = False,
     receive_ccu_table_item_flag = False, detect_active_ccu_count = 0,
     ready_package_response_count = 0, ready_package_request_timeouts = 0,
     table_pacakage_timeouts = 0, db_server_dev_no = 1, db_ccu_status = replicate 4 (0, 0),
     gd_dev_no = n, send_package_serial_number = 0, gd_timer = Running, update_start = False,
     have_finished_get_data = False, gd_tabs = t, gd_sent = []\<rparr>"

section \<open>The timer\<close>

text \<open>The three values of the timer are the flag of an alarm of \<open>Alarm_List\<close>.\<close>

lemma timer_is_alarm:
  "av_flag (alarm_spec p (Enable now p) v) = timer_flag (gd_timer (timer_on g))"
  "av_flag (alarm_spec p (Disable p) v) = timer_flag (gd_timer (timer_off g))"
  "av_flag (alarm_spec p (Fire p) v) = timer_flag TimedOut"
  by (simp_all add: timer_on_def timer_off_def)

lemmas timer_defs = tick_def timer_on_def timer_off_def

section \<open>The invariant of the thread\<close>

text \<open>
  The update is finished in the phases 4 and 5 and only there; phase 5 has no timer; between
  the phases 1 and 3 a CCU is known; the counters stay within the bounds they are tested for.
\<close>

definition gd_ok :: "gd \<Rightarrow> bool" where
  "gd_ok g \<longleftrightarrow> current_phase g \<le> 5
     \<and> (bcu_update_finish g \<longleftrightarrow> current_phase g \<in> {4, 5})
     \<and> (current_phase g = 5 \<longrightarrow> gd_timer g = TimerOff)
     \<and> (current_phase g \<in> {2, 3} \<longrightarrow> bcu_to_ccu_net_ok g)
     \<and> (bcu_to_ccu_net_ok g \<longrightarrow> server_ccu_sync_cmd g \<and> detect_active_ccu_count g = 5)
     \<and> detect_active_ccu_count g \<le> 5
     \<and> ready_package_response_count g \<le> 3
     \<and> ready_package_request_timeouts g \<le> 10
     \<and> table_pacakage_timeouts g \<le> 10
     \<and> length (db_ccu_status g) = 4"

lemma gd_ok_init: "gd_ok (gd_init n t)"
  by (simp add: gd_ok_def gd_init_def)

lemma gd_ok_tick [inv_intro]: "gd_ok g \<Longrightarrow> gd_ok (tick fire g)"
  by (auto simp: gd_ok_def tick_def)

lemma gd_ok_request [inv_intro]: "gd_ok g \<Longrightarrow> gd_ok (fst (BcuSendDbSyncReqCommon room ev d g))"
  by (auto simp: gd_ok_def BcuSendDbSyncReqCommon_def Let_def)

lemma gd_ok_respond [inv_intro]: "gd_ok g \<Longrightarrow> gd_ok (BcuSendCommonNetResponse room m g)"
  by (auto simp: gd_ok_def BcuSendCommonNetResponse_def Let_def)

lemma choose_count_frame [frame]: "\<exists>n. choose_by_count g = g\<lparr>db_server_dev_no := n\<rparr>"
  by (cases g) (auto simp: choose_by_count_def)

lemma choose_frame [frame]:
  "\<exists>n. choose_by_pair (choose_by_count g) = g\<lparr>db_server_dev_no := n\<rparr>"
proof -
  have pair: "\<exists>n. choose_by_pair g = g\<lparr>db_server_dev_no := n\<rparr>" for g
    by (cases g) (auto simp: choose_by_pair_def Let_def ccu_count_def)
  obtain n where n: "choose_by_count g = g\<lparr>db_server_dev_no := n\<rparr>" using choose_count_frame by blast
  obtain k where "choose_by_pair (g\<lparr>db_server_dev_no := n\<rparr>) = g\<lparr>db_server_dev_no := n, db_server_dev_no := k\<rparr>"
    using pair by blast
  with n show ?thesis by auto
qed

text \<open>After the switch the counters of phase 2 are below their bounds.\<close>

definition gd_mid :: "gd \<Rightarrow> bool" where
  "gd_mid g \<longleftrightarrow> gd_ok g \<and> (current_phase g = 2 \<longrightarrow>
     ready_package_response_count g < 3 \<and> ready_package_request_timeouts g < 10)"

lemma gd_ok_reset [inv_intro]: "gd_ok (gd_reset g)"
  by (simp add: gd_ok_def gd_reset_def timer_defs)

lemma gd_mid_case0: "gd_ok g \<Longrightarrow> current_phase g = 0 \<Longrightarrow> gd_mid (gd_case0 g)"
  by (auto simp: gd_mid_def gd_ok_def gd_case0_def timer_defs)

lemma gd_mid_case1:
  assumes "gd_ok g" and "current_phase g = 1"
  shows "gd_mid (gd_case1 room g)"
proof -
  obtain n where "choose_by_pair (choose_by_count g) = g\<lparr>db_server_dev_no := n\<rparr>"
    using choose_frame by blast
  with assms show ?thesis
    by (auto simp: gd_mid_def gd_ok_def gd_case1_def BcuSendDbSyncReqCommon_def Let_def timer_defs)
qed

lemma gd_mid_case2: "gd_ok g \<Longrightarrow> current_phase g = 2 \<Longrightarrow> gd_mid (gd_case2 g)"
  by (auto simp: gd_mid_def gd_ok_def gd_case2_def gd_reset_def timer_defs Let_def not_le)

lemma gd_mid_case3:
  assumes "gd_ok g" and "current_phase g = 3"
  shows "gd_mid (gd_case3 fire g)"
proof -
  define g1 where "g1 = (if table_pacakage_timeouts g \<ge> 10 then gd_reset g else g)"
  have g1: "gd_ok g1" "current_phase g1 \<noteq> 2" "table_pacakage_timeouts g1 < 10"
    "current_phase g1 \<noteq> 5"
    using assms gd_ok_reset [of g] by (auto simp: g1_def gd_reset_def timer_defs not_le)
  have "table_pacakage_timeouts g1 + 1 \<le> 10" using g1(3) by (rule inc_le)
  with g1 show ?thesis
    unfolding gd_case3_def g1_def [symmetric]
    by (auto simp: gd_mid_def gd_ok_def timer_defs Let_def)
qed

lemma gd_mid_switch:
  assumes "gd_ok g"
  shows "gd_mid (gd_switch i g)"
proof -
  have "gd_mid (gd_case4 g)" if "current_phase g = 4"
    using assms that by (auto simp: gd_mid_def gd_ok_def gd_case4_def timer_defs)
  then show ?thesis
    using assms gd_mid_case0 gd_mid_case1 gd_mid_case2 gd_mid_case3
    by (simp add: gd_switch_def gd_mid_def)
qed

lemma count_ccu_frame [frame]:
  "\<exists>l. count_ccu m g = g\<lparr>db_ccu_status := l\<rparr> \<and> length l = length (db_ccu_status g)"
  by (cases g) (auto simp: count_ccu_def Let_def)

lemma gd_mid_tick [inv_intro]: "gd_mid g \<Longrightarrow> gd_mid (tick fire g)"
  by (auto simp: gd_mid_def gd_ok_def tick_def)

lemma gd_ok_bep:
  assumes "gd_mid g"
  shows "gd_ok (bep_response fire m g)"
proof -
  define g1 where "g1 = tick fire g"
  have g1: "gd_ok g1" using assms by (simp add: g1_def gd_mid_def gd_ok_tick)
  obtain l where l: "count_ccu m (timer_off g1) = (timer_off g1)\<lparr>db_ccu_status := l\<rparr>"
    "length l = length (db_ccu_status (timer_off g1))" using count_ccu_frame by blast
  have "detect_active_ccu_count g1 + 1 \<le> 5" if "\<not> detect_active_ccu_count g1 \<ge> 5"
    by (rule inc_le) (use that in \<open>simp add: not_le\<close>)
  moreover have "detect_active_ccu_count g1 = 5" if "detect_active_ccu_count g1 \<ge> 5"
    using that g1 by (simp add: gd_ok_def)
  ultimately show ?thesis
    using g1 l unfolding bep_response_def g1_def [symmetric]
    by (auto simp: gd_ok_def timer_defs Let_def)
qed

lemma gd_ok_ready:
  assumes "gd_mid g"
  shows "gd_ok (ready_response fire fire' m g)"
proof -
  define g1 where "g1 = tick fire g"
  define g2 where "g2 = tick fire' g1"
  have g1: "gd_mid g1" and g2: "gd_mid g2" using assms by (simp_all add: g1_def g2_def gd_mid_tick)
  have "ready_package_response_count g1 + 1 \<le> 3" "ready_package_request_timeouts g2 + 1 \<le> 10"
    if "current_phase g1 = 2" "current_phase g2 = 2"
    using that g1 g2 by (auto simp: gd_mid_def intro: inc_le)
  moreover have "current_phase g2 = current_phase g1" by (simp add: g2_def tick_def)
  ultimately show ?thesis
    using g1 g2 unfolding ready_response_def g1_def [symmetric] Let_def g2_def [symmetric]
    by (auto simp: gd_mid_def gd_ok_def timer_defs)
qed

lemma gd_ok_receive:
  assumes "gd_mid g"
  shows "gd_ok (gd_receive ly i m g)"
proof -
  have ok: "gd_ok g" using assms by (simp add: gd_mid_def)
  have rows: "gd_ok (g'\<lparr>receive_ccu_table_item_flag := True\<rparr>)"
    "gd_ok (g'\<lparr>gd_tabs := t, receive_ccu_table_item_flag := True\<rparr>)"
    "gd_ok (g'\<lparr>have_finished_get_data := True, bcu_update_finish := True, current_phase := 4\<rparr>)"
    if "gd_ok g'" for g' t using that by (auto simp: gd_ok_def)
  show ?thesis
    using ok gd_ok_bep [OF assms] gd_ok_ready [OF assms] rows gd_ok_respond [OF ok]
    by (simp add: gd_receive_def Let_def)
qed

lemma gd_ok_repeat:
  assumes "gd_ok g"
  shows "gd_ok (gd_repeat_ready i (gd_repeat_bep i g))"
proof -
  have again: "gd_ok (timer_on (timer_off g'))" if "gd_ok g'" "gd_timer g' = TimedOut" for g'
    using that by (auto simp: gd_ok_def timer_defs)
  have "gd_ok (gd_repeat_bep i g')" if "gd_ok g'" for g'
    using gd_ok_tick [OF that] that again
    by (auto simp: gd_repeat_bep_def Let_def intro!: gd_ok_request)
  moreover have "gd_ok (gd_repeat_ready i g')" if "gd_ok g'" for g'
    using gd_ok_tick [OF that] that again
    by (auto simp: gd_repeat_ready_def Let_def intro!: gd_ok_request)
  ultimately show ?thesis using assms by blast
qed

lemma gd_ok_round [inv_intro]: "gd_ok g \<Longrightarrow> gd_ok (gd_round ly i g)"
  using gd_mid_switch [of g i] gd_ok_receive gd_ok_repeat
  by (auto simp: gd_round_def Let_def gd_mid_def split: option.splits)

lemma gd_ok_run: "gd_ok g \<Longrightarrow> gd_ok (BcuGdThreadEntry ly is g)"
  by (induction "is" arbitrary: g) (simp_all add: BcuGdThreadEntry_def gd_ok_round)

section \<open>After the end\<close>

lemma request_frame [frame]:
  "current_phase (fst (BcuSendDbSyncReqCommon room ev d g)) = current_phase g"
  "bcu_update_finish (fst (BcuSendDbSyncReqCommon room ev d g)) = bcu_update_finish g"
  "gd_tabs (fst (BcuSendDbSyncReqCommon room ev d g)) = gd_tabs g"
  "ready_package_response_count (fst (BcuSendDbSyncReqCommon room ev d g)) = ready_package_response_count g"
  "ready_package_request_timeouts (fst (BcuSendDbSyncReqCommon room ev d g)) = ready_package_request_timeouts g"
  "table_pacakage_timeouts (fst (BcuSendDbSyncReqCommon room ev d g)) = table_pacakage_timeouts g"
  by (simp_all add: BcuSendDbSyncReqCommon_def Let_def)

lemma repeat_frame [frame]:
  "current_phase (gd_repeat_ready i (gd_repeat_bep i g)) = current_phase g"
  "bcu_update_finish (gd_repeat_ready i (gd_repeat_bep i g)) = bcu_update_finish g"
  "gd_tabs (gd_repeat_ready i (gd_repeat_bep i g)) = gd_tabs g"
  "ready_package_response_count (gd_repeat_ready i (gd_repeat_bep i g)) = ready_package_response_count g"
  "ready_package_request_timeouts (gd_repeat_ready i (gd_repeat_bep i g)) = ready_package_request_timeouts g"
  "table_pacakage_timeouts (gd_repeat_ready i (gd_repeat_bep i g)) = table_pacakage_timeouts g"
  by (simp_all add: gd_repeat_ready_def gd_repeat_bep_def Let_def frame timer_defs)

lemma repeat_off: "gd_timer g = TimerOff \<Longrightarrow> gd_repeat_ready i (gd_repeat_bep i g) = g"
  by (simp add: gd_repeat_ready_def gd_repeat_bep_def Let_def tick_def)

lemma respond_frame [frame]:
  "current_phase (BcuSendCommonNetResponse room m g) = current_phase g"
  "bcu_update_finish (BcuSendCommonNetResponse room m g) = bcu_update_finish g"
  "gd_tabs (BcuSendCommonNetResponse room m g) = gd_tabs g"
  "gd_timer (BcuSendCommonNetResponse room m g) = gd_timer g"
  "ready_package_response_count (BcuSendCommonNetResponse room m g) = ready_package_response_count g"
  "ready_package_request_timeouts (BcuSendCommonNetResponse room m g) = ready_package_request_timeouts g"
  "table_pacakage_timeouts (BcuSendCommonNetResponse room m g) = table_pacakage_timeouts g"
  by (simp_all add: BcuSendCommonNetResponse_def Let_def)

lemma count_ccu_fields [frame]:
  "current_phase (count_ccu m g) = current_phase g"
  "bcu_update_finish (count_ccu m g) = bcu_update_finish g"
  "gd_tabs (count_ccu m g) = gd_tabs g"
  "detect_active_ccu_count (count_ccu m g) = detect_active_ccu_count g"
  "ready_package_response_count (count_ccu m g) = ready_package_response_count g"
  "ready_package_request_timeouts (count_ccu m g) = ready_package_request_timeouts g"
  "table_pacakage_timeouts (count_ccu m g) = table_pacakage_timeouts g"
  "gd_timer (count_ccu m g) = gd_timer g"
  "gd_sent (count_ccu m g) = gd_sent g"
  by (simp_all add: count_ccu_def Let_def)

lemma bep_frame [frame]:
  "current_phase (bep_response fire m g) = current_phase g"
  "bcu_update_finish (bep_response fire m g) = bcu_update_finish g"
  "gd_tabs (bep_response fire m g) = gd_tabs g"
  "ready_package_response_count (bep_response fire m g) = ready_package_response_count g"
  "ready_package_request_timeouts (bep_response fire m g) = ready_package_request_timeouts g"
  "table_pacakage_timeouts (bep_response fire m g) = table_pacakage_timeouts g"
  by (simp_all add: bep_response_def Let_def timer_defs frame)

lemma ready_frame [frame]:
  "current_phase (ready_response fire fire' m g) = current_phase g"
  "bcu_update_finish (ready_response fire fire' m g) = bcu_update_finish g"
  "gd_tabs (ready_response fire fire' m g) = gd_tabs g"
  "table_pacakage_timeouts (ready_response fire fire' m g) = table_pacakage_timeouts g"
  by (simp_all add: ready_response_def Let_def timer_defs)

text \<open>With the timer off the answers of a CCU have no effect.\<close>

lemma response_off:
  "gd_timer g = TimerOff \<Longrightarrow> bep_response fire m g = g"
  "gd_timer g = TimerOff \<Longrightarrow> ready_response fire fire' m g = g"
  by (simp_all add: bep_response_def ready_response_def tick_def)

definition is_request :: "sync_msg \<Rightarrow> bool" where
  "is_request m \<longleftrightarrow> gd_sync_res m = 0"

lemma respond_requests [frame]:
  "filter is_request (gd_sent (BcuSendCommonNetResponse room m g)) = filter is_request (gd_sent g)"
  by (simp add: BcuSendCommonNetResponse_def is_request_def Let_def)

lemma receive_off:
  assumes "gd_timer g = TimerOff"
  shows "gd_timer (gd_receive ly i m g) = TimerOff"
    and "filter is_request (gd_sent (gd_receive ly i m g)) = filter is_request (gd_sent g)"
  using assms by (simp_all add: gd_receive_def Let_def response_off frame)

lemma receive_finish:
  assumes "bcu_update_finish g"
  shows "bcu_update_finish (gd_receive ly i m g)" and "gd_tabs (gd_receive ly i m g) = gd_tabs g"
  using assms by (simp_all add: gd_receive_def Let_def frame)

lemma switch_finish:
  assumes "gd_ok g" and "bcu_update_finish g"
  shows "bcu_update_finish (gd_switch i g)" and "gd_tabs (gd_switch i g) = gd_tabs g"
    and "gd_timer (gd_switch i g) = TimerOff" and "gd_sent (gd_switch i g) = gd_sent g"
  using assms by (auto simp: gd_switch_def gd_ok_def gd_case4_def timer_defs)

lemma round_finish:
  assumes "gd_ok g" and "bcu_update_finish g"
  shows "bcu_update_finish (gd_round ly i g)" and "gd_tabs (gd_round ly i g) = gd_tabs g"
    and "filter is_request (gd_sent (gd_round ly i g)) = filter is_request (gd_sent g)"
  using switch_finish [OF assms, of i]
  by (auto simp: gd_round_def Let_def frame receive_finish receive_off repeat_off split: option.split)

lemma run_finish:
  "gd_ok g \<Longrightarrow> bcu_update_finish g \<Longrightarrow>
    bcu_update_finish (BcuGdThreadEntry ly is g) \<and> gd_tabs (BcuGdThreadEntry ly is g) = gd_tabs g
    \<and> filter is_request (gd_sent (BcuGdThreadEntry ly is g)) = filter is_request (gd_sent g)"
proof (induction "is" arbitrary: g)
  case (Cons i "is")
  from Cons.IH [OF gd_ok_round round_finish(1)] Cons.prems round_finish [OF Cons.prems]
  show ?case by (simp add: BcuGdThreadEntry_def)
qed (simp add: BcuGdThreadEntry_def)

section \<open>Waiting for the chosen CCU\<close>

definition silent_on :: "byte set \<Rightarrow> gd_input \<Rightarrow> bool" where
  "silent_on masks i \<longleftrightarrow> (case gi_msg i of None \<Rightarrow> True | Some m \<Rightarrow> gd_sync_mask m \<notin> masks)"

lemma receive_waiting:
  assumes "gd_sync_mask m \<noteq> SUBEVENT_TYPE_READY_SYNC_REQ" and "gd_sync_mask m \<noteq> SUBEVENT_TYPE_END_SYNC"
  shows "current_phase (gd_receive ly i m g) = current_phase g"
    and "ready_package_response_count (gd_receive ly i m g) = ready_package_response_count g"
    and "ready_package_request_timeouts (gd_receive ly i m g) = ready_package_request_timeouts g"
  using assms by (simp_all add: gd_receive_def Let_def frame)

lemma round_waiting:
  assumes "current_phase g = 2" and "ready_package_response_count g < 3"
    and "ready_package_request_timeouts g < 10" and "silent_on {254, 255} i"
  shows "current_phase (gd_round ly i g) = 2
    \<and> ready_package_response_count (gd_round ly i g) = ready_package_response_count g
    \<and> ready_package_request_timeouts (gd_round ly i g) = ready_package_request_timeouts g"
proof -
  have "gd_switch i g = g" using assms by (simp add: gd_switch_def gd_case2_def Let_def not_le)
  then show ?thesis
    using assms by (auto simp: gd_round_def Let_def frame receive_waiting silent_on_def split: option.splits)
qed

lemma round_rows_off:
  assumes "current_phase g = 3" and "gd_timer g = TimerOff"
    and "table_pacakage_timeouts g < 10" and "silent_on {255} i"
  shows "current_phase (gd_round ly i g) = 3 \<and> gd_timer (gd_round ly i g) = TimerOff
    \<and> table_pacakage_timeouts (gd_round ly i g) = table_pacakage_timeouts g
    \<and> filter is_request (gd_sent (gd_round ly i g)) = filter is_request (gd_sent g)"
proof -
  have s: "gd_switch i g = g"
    using assms by (simp add: gd_switch_def gd_case3_def Let_def not_le tick_def)
  have "current_phase (gd_receive ly i m g) = 3 \<and> gd_timer (gd_receive ly i m g) = TimerOff
    \<and> table_pacakage_timeouts (gd_receive ly i m g) = table_pacakage_timeouts g
    \<and> filter is_request (gd_sent (gd_receive ly i m g)) = filter is_request (gd_sent g)"
    if "gd_sync_mask m \<noteq> 255" for m
    using assms that by (simp add: gd_receive_def Let_def response_off frame)
  then show ?thesis
    using assms s by (auto simp: gd_round_def Let_def repeat_off silent_on_def split: option.splits)
qed

section \<open>A prompt CCU\<close>

text \<open>A round without time-out in which every write finds room.\<close>

definition prompt :: "sync_msg option \<Rightarrow> gd_input" where
  "prompt m = \<lparr>gi_fire = (\<lambda>_. False), gi_room = (\<lambda>_. True), gi_alloc = True, gi_msg = m\<rparr>"

lemma prompt_simps [simp]:
  "gi_msg (prompt m) = m" "gi_fire (prompt m) k = False" "gi_room (prompt m) k = True"
  by (simp_all add: prompt_def)

definition answers :: "byte \<Rightarrow> 32 word \<Rightarrow> sync_msg \<Rightarrow> bool" where
  "answers ev n m \<longleftrightarrow> sm_event_type_common m = EVENT_TYPE_SYS_UPDATE_SYNC \<and> gd_sync_mask m = ev
     \<and> gd_sync_req m = 1 \<and> gd_sync_res m = 1 \<and> sm_sequence m = n"

definition from_ccu :: "sync_msg \<Rightarrow> bool" where
  "from_ccu m \<longleftrightarrow> server_mark m \<and> sm_src_dev_number m \<in> {1, 2}"

text \<open>The table of the CCUs after some answers.\<close>

definition tally1 :: "sync_msg \<Rightarrow> (byte \<times> 32 word) list \<Rightarrow> (byte \<times> 32 word) list" where
  "tally1 m l = l[nat (sm_src_dev_number m) := (server_flag m, snd (l ! nat (sm_src_dev_number m)) + 1)]"

definition tally :: "sync_msg list \<Rightarrow> (byte \<times> 32 word) list" where
  "tally ms = fold tally1 ms (replicate 4 (0, 0))"

lemma tally_snoc: "tally (ms @ [m]) = tally1 m (tally ms)"
  by (simp add: tally_def)

lemma tally_length [simp]: "length (tally ms) = 4"
  by (induction ms rule: rev_induct) (simp_all add: tally_snoc tally1_def, simp add: tally_def)

lemma tally_count:
  assumes "\<forall>m\<in>set ms. from_ccu m" and "n \<in> {1, 2}"
  shows "snd (tally ms ! nat n) = word_of_nat (length (filter (\<lambda>m. sm_src_dev_number m = n) ms))"
  using assms(1)
proof (induction ms rule: rev_induct)
  case Nil
  show ?case using assms(2) by (auto simp: tally_def numeral_eq_Suc)
next
  case (snoc m ms)
  then have "sm_src_dev_number m \<in> {1, 2}" by (simp add: from_ccu_def)
  with snoc assms(2) show ?case
    by (auto simp: tally_snoc tally1_def)
qed

lemma tally_pos:
  assumes "\<forall>m\<in>set ms. from_ccu m" and "n \<in> {1, 2}" and "length ms < 2 ^ 32"
  shows "snd (tally ms ! nat n) > 0 \<longleftrightarrow> n \<in> sm_src_dev_number ` set ms"
proof -
  have "length (filter (\<lambda>m. sm_src_dev_number m = n) ms) < 2 ^ 32"
    using assms(3) length_filter_le order.strict_trans1 by blast
  then have "unat (snd (tally ms ! nat n)) = length (filter (\<lambda>m. sm_src_dev_number m = n) ms)"
    by (simp add: tally_count [OF assms(1,2)] unsigned_of_nat take_bit_nat_eq_self)
  moreover have "snd (tally ms ! nat n) > 0 \<longleftrightarrow> 0 < unat (snd (tally ms ! nat n))"
    by (simp add: word_less_nat_alt)
  ultimately show ?thesis by (auto simp: filter_empty_conv)
qed

text \<open>The thread while it counts answers.\<close>

definition counting :: "int \<Rightarrow> gd_tables \<Rightarrow> sync_msg list \<Rightarrow> gd" where
  "counting n t ms = (gd_init n t)\<lparr>current_phase := 1, ccu_enter_bep_phase := True,
     detect_active_ccu_count := word_of_nat (length ms), db_ccu_status := tally ms\<rparr>"

lemma tick_False [simp]: "tick False g = g"
  by (simp add: tick_def)

lemma prompt_repeat:
  "gd_timer g \<noteq> TimedOut \<Longrightarrow> gd_repeat_ready (prompt m) (gd_repeat_bep (prompt m) g) = g"
  by (simp add: gd_repeat_ready_def gd_repeat_bep_def Let_def)

lemma bep_running:
  assumes "gd_timer g = Running" and "send_package_serial_number g = sm_sequence m" and "from_ccu m"
  shows "bep_response False m g =
    (let g' = g\<lparr>gd_timer := TimerOff, db_ccu_status := tally1 m (db_ccu_status g),
                ccu_enter_bep_phase := True, server_ccu_sync_cmd := True\<rparr>
     in if current_phase g = 1
        then (if detect_active_ccu_count g \<ge> 5 then g'\<lparr>bcu_to_ccu_net_ok := True\<rparr>
              else g'\<lparr>gd_timer := Running, detect_active_ccu_count := detect_active_ccu_count g + 1,
                     server_ccu_sync_cmd := False\<rparr>)
        else g')"
proof -
  have "0 \<le> sm_src_dev_number m \<and> sm_src_dev_number m < 4" using assms(3) by (auto simp: from_ccu_def)
  then have "count_ccu m (timer_off g) = g\<lparr>gd_timer := TimerOff, db_ccu_status := tally1 m (db_ccu_status g)\<rparr>"
    by (simp add: count_ccu_def tally1_def timer_off_def Let_def)
  with assms show ?thesis
    by (simp add: bep_response_def from_ccu_def timer_on_def Let_def)
qed

lemma bep_round:
  assumes "answers 2 n m"
  shows "gd_round ly (prompt (Some m)) g = gd_repeat_ready (prompt (Some m)) (gd_repeat_bep (prompt (Some m))
    (bep_response False m (gd_switch (prompt (Some m)) g)))"
  using assms by (simp add: gd_round_def gd_receive_def answers_def Let_def)

lemma first_answer:
  assumes "answers 2 0 m" and "answers 2 0 m'" and "from_ccu m" and "from_ccu m'"
  shows "gd_round ly (prompt (Some m')) (gd_round ly (prompt (Some m)) (gd_init n t)) = counting n t [m']"
proof -
  define g1 where "g1 = (gd_init n t)\<lparr>gd_timer := TimerOff, db_ccu_status := tally [m],
    ccu_enter_bep_phase := True, server_ccu_sync_cmd := True\<rparr>"
  have s0: "gd_switch (prompt (Some m)) (gd_init n t) = gd_init n t"
    by (simp add: gd_switch_def gd_init_def gd_case0_def)
  have "bep_response False m (gd_init n t) = g1"
    using assms(1,3) by (subst bep_running) (simp_all add: gd_init_def answers_def g1_def tally_def)
  then have r1: "gd_round ly (prompt (Some m)) (gd_init n t) = g1"
    using bep_round [OF assms(1)] s0 by (simp add: prompt_repeat g1_def)
  have s1: "gd_switch (prompt (Some m')) g1 = (gd_init n t)\<lparr>current_phase := 1, ccu_enter_bep_phase := True\<rparr>"
    by (simp add: g1_def gd_switch_def gd_init_def gd_case0_def timer_on_def)
  have "bep_response False m' \<dots> = counting n t [m']"
    using assms(2,4) by (subst bep_running) (simp_all add: gd_init_def answers_def counting_def tally_def)
  then show ?thesis
    using bep_round [OF assms(2)] s1 r1 by (simp add: prompt_repeat counting_def gd_init_def)
qed

lemma switch_counting [simp]: "gd_switch i (counting n t ms) = counting n t ms"
  by (simp add: gd_switch_def gd_case1_def counting_def gd_init_def)

lemma next_answer:
  assumes "answers 2 0 m" and "from_ccu m" and "length ms < 5"
  shows "gd_round ly (prompt (Some m)) (counting n t ms) = counting n t (ms @ [m])"
proof -
  have "\<not> (5 :: byte) \<le> word_of_nat (length ms)"
    using assms(3) by (simp add: word_le_nat_alt unsigned_of_nat take_bit_nat_eq_self)
  then have "bep_response False m (counting n t ms) = counting n t (ms @ [m])"
    using assms(1,2)
    by (subst bep_running) (simp_all add: counting_def gd_init_def answers_def tally_snoc add.commute)
  moreover have "gd_timer (counting n t (ms @ [m])) = Running" by (simp add: counting_def gd_init_def)
  ultimately show ?thesis using bep_round [OF assms(1)] by (simp add: prompt_repeat)
qed

lemma last_answer:
  assumes "answers 2 0 m" and "from_ccu m" and "length ms = 5"
  shows "gd_round ly (prompt (Some m)) (counting n t ms) =
    (counting n t ms)\<lparr>db_ccu_status := tally (ms @ [m]), gd_timer := TimerOff,
      server_ccu_sync_cmd := True, bcu_to_ccu_net_ok := True\<rparr>"
proof -
  have "bep_response False m (counting n t ms) =
    (counting n t ms)\<lparr>db_ccu_status := tally (ms @ [m]), gd_timer := TimerOff,
      server_ccu_sync_cmd := True, bcu_to_ccu_net_ok := True\<rparr>"
    using assms by (subst bep_running) (simp_all add: counting_def gd_init_def answers_def tally_snoc)
  then show ?thesis
    using bep_round [OF assms(1)] by (simp add: prompt_repeat)
qed

text \<open>The choice of the CCU: the one with the unit's own number, if it has answered at all.\<close>

lemma choose_own:
  assumes "gd_dev_no g = n" and "n \<in> {1, 2}"
    and "ccu_count g (nat n) > 0 \<or> ccu_count g (nat (3 - n)) > 0"
  shows "choose_by_pair (choose_by_count g) =
    g\<lparr>db_server_dev_no := if ccu_count g (nat n) > 0 then n else 3 - n\<rparr>"
proof -
  obtain k where k: "choose_by_count g = g\<lparr>db_server_dev_no := k\<rparr>"
    using choose_count_frame by blast
  have count: "ccu_count (g\<lparr>db_server_dev_no := k\<rparr>) i = ccu_count g i" for i
    by (simp add: ccu_count_def)
  consider "n = 1" | "n = 2" using assms(2) by auto
  then show ?thesis
    using assms(1,3) by cases (auto simp: k choose_by_pair_def count)
qed

definition request_to :: "int \<Rightarrow> int \<Rightarrow> sync_msg" where
  "request_to n d = \<lparr>sm_dst_dev_name = ''CCU'', sm_dst_dev_number = d, sm_src_dev_name = ''BCU'',
     sm_src_dev_number = n, sm_event_type_common = EVENT_TYPE_SYS_UPDATE_SYNC, sm_sequence = 1,
     gd_sync_context_len = 0, gd_sync_req = 1, gd_sync_res = 0,
     gd_sync_mask = SUBEVENT_TYPE_READY_SYNC_REQ, gd_sync_context = []\<rparr>"

definition asking :: "int \<Rightarrow> gd_tables \<Rightarrow> sync_msg list \<Rightarrow> int \<Rightarrow> byte \<Rightarrow> gd" where
  "asking n t ms d k = (gd_init n t)\<lparr>current_phase := 2, ccu_enter_bep_phase := True,
     detect_active_ccu_count := 5, db_ccu_status := tally ms, server_ccu_sync_cmd := True,
     bcu_to_ccu_net_ok := True, db_server_dev_no := d, send_package_serial_number := 1,
     gd_sent := [request_to n d], ready_package_response_count := k\<rparr>"

lemma ready_round:
  assumes "answers 254 1 m"
  shows "gd_round ly (prompt (Some m)) g = gd_repeat_ready (prompt (Some m)) (gd_repeat_bep (prompt (Some m))
    (ready_response False False m (gd_switch (prompt (Some m)) g)))"
  using assms by (simp add: gd_round_def gd_receive_def answers_def Let_def)

lemma ready_asking:
  assumes "answers 254 1 m"
  shows "ready_response False False m (asking n t ms d k) = asking n t ms d (k + 1)"
  using assms by (simp add: ready_response_def asking_def answers_def gd_init_def timer_defs Let_def)

lemma asking_timer [simp]: "gd_timer (asking n t ms d k) = Running"
  by (simp add: asking_def gd_init_def)

lemma next_ready:
  assumes "answers 254 1 m" and "k < 3"
  shows "gd_round ly (prompt (Some m)) (asking n t ms d k) = asking n t ms d (k + 1)"
proof -
  have "gd_switch (prompt (Some m)) (asking n t ms d k) = asking n t ms d k"
    using assms(2) by (simp add: gd_switch_def gd_case2_def asking_def gd_init_def not_le Let_def)
  then show ?thesis
    by (simp add: ready_round [OF assms(1)] ready_asking [OF assms(1)] prompt_repeat)
qed

lemma all_answered:
  assumes "\<forall>m\<in>set bs. answers 2 0 m \<and> from_ccu m" and "length bs = 7"
  shows "fold (gd_round ly) (map (prompt \<circ> Some) bs) (gd_init n t) =
    (counting n t (butlast (tl bs)))\<lparr>db_ccu_status := tally (tl bs), gd_timer := TimerOff,
      server_ccu_sync_cmd := True, bcu_to_ccu_net_ok := True\<rparr>"
proof -
  obtain b1 b2 b3 b4 b5 b6 b7 where bs: "bs = [b1, b2, b3, b4, b5, b6, b7]"
    using assms(2) by (auto simp: length_Suc_conv numeral_eq_Suc)
  have ok: "answers 2 0 m \<and> from_ccu m" if "m \<in> {b1, b2, b3, b4, b5, b6, b7}" for m
    using assms(1) that by (auto simp: bs)
  show ?thesis unfolding bs
    by (simp add: first_answer next_answer last_answer ok)
qed

lemma start_asking:
  assumes "n \<in> {1, 2}" and "\<forall>m\<in>set ms. from_ccu m" and "length ms = 6" and "answers 254 1 m"
  defines "d \<equiv> if n \<in> sm_src_dev_number ` set ms then n else 3 - n"
  shows "gd_round ly (prompt (Some m)) ((counting n t (butlast ms))\<lparr>db_ccu_status := tally ms,
      gd_timer := TimerOff, server_ccu_sync_cmd := True, bcu_to_ccu_net_ok := True\<rparr>) =
    asking n t ms d 1"
proof -
  define g where "g = (counting n t (butlast ms))\<lparr>db_ccu_status := tally ms,
      gd_timer := TimerOff, server_ccu_sync_cmd := True, bcu_to_ccu_net_ok := True\<rparr>"
  have count: "ccu_count g (nat k) > 0 \<longleftrightarrow> k \<in> sm_src_dev_number ` set ms" if "k \<in> {1, 2}" for k
    using tally_pos [OF assms(2) that] assms(3) by (simp add: g_def ccu_count_def)
  have some: "n \<in> sm_src_dev_number ` set ms \<or> 3 - n \<in> sm_src_dev_number ` set ms"
  proof -
    obtain m where "m \<in> set ms" using assms(3) by (cases ms) auto
    with assms(1,2) show ?thesis by (auto simp: from_ccu_def)
  qed
  have "choose_by_pair (choose_by_count g) = g\<lparr>db_server_dev_no := d\<rparr>"
    using choose_own [of g n] count [of n] count [of "3 - n"] some assms(1)
    by (auto simp: d_def g_def counting_def gd_init_def)
  then have "gd_switch (prompt (Some m)) g = asking n t ms d 0"
    by (simp add: gd_switch_def gd_case1_def BcuSendDbSyncReqCommon_def Let_def timer_defs)
       (simp add: g_def asking_def counting_def gd_init_def request_to_def assms(3))
  then show ?thesis
    by (simp add: ready_round [OF assms(4)] ready_asking [OF assms(4)] prompt_repeat flip: g_def)
qed

section \<open>Properties\<close>

text \<open>Tables, a layout and packages to try the properties on.\<close>

definition sample_tables :: gd_tables where
  "sample_tables = \<lparr>gt_stations = stations_zero, gt_prio = [], gt_volume = (0, 0, 0, 0),
     gt_password = '''', gt_ip_rows = []\<rparr>"

definition sample_layout :: gd_layout where
  "sample_layout = \<lparr>ly_password_size = 24, ly_password = (\<lambda>b. map (\<lambda>x. char_of (unat x)) (take 10 (drop 8 b))),
     ly_station_size = 84, ly_station = (\<lambda>b. \<lparr>sr_line_no = 3, sr_total_row = 1, sr_current_index = 1,
       sr_station_no = 1, sr_fix_across_station = 0, sr_station_name = ''A''\<rparr>),
     ly_section_size = 156, ly_section = (\<lambda>b. \<lparr>se_line_no = 3, se_total_row = 1, se_current_index = 1,
       se_row_line_no = 3, se_line_direction = 0, se_spec_cycle = 0, se_default_section = 1,
       se_section_no = 1, se_start_station = 1, se_end_station = 31\<rparr>),
     ly_default_size = 12, ly_default = (\<lambda>b. \<lparr>dl_line_no = b ! 8, dl_default_line = b ! 9\<rparr>),
     ly_ip_size = 90, ly_prior_size = 40, ly_prior = (\<lambda>b. (''OCC'', 1)),
     ly_door = (\<lambda>b. \<lparr>dr_line_no = 3, dr_total_bytes = 16, dr_items = []\<rparr>),
     ly_volume_size = 24, ly_volume = (\<lambda>b. (uint (b ! 8), 0, 0, 0))\<rparr>"

definition sample_msg :: "byte \<Rightarrow> byte \<Rightarrow> 32 word \<Rightarrow> int \<Rightarrow> sync_msg" where
  "sample_msg ev res n src = \<lparr>sm_dst_dev_name = ''BCU'', sm_dst_dev_number = 2,
     sm_src_dev_name = ''CCU'', sm_src_dev_number = src,
     sm_event_type_common = EVENT_TYPE_SYS_UPDATE_SYNC, sm_sequence = n, gd_sync_context_len = 16,
     gd_sync_req = 1, gd_sync_res = res, gd_sync_mask = ev,
     gd_sync_context = replicate 64 4 @ map (\<lambda>c. of_char c) ''SERVER'' @ replicate 40 0\<rparr>"



text \<open>In every run of the thread the counters stay within the bounds they are tested for, so no
  byte wraps; the update is finished exactly in the last two phases, and in the very last one
  the timer is off.
\<close>

lemma sync_run_inv:
  "let g = BcuGdThreadEntry ly is (gd_init n t)
   in current_phase g \<le> 5 \<and> (bcu_update_finish g \<longleftrightarrow> current_phase g \<in> {4, 5})
    \<and> detect_active_ccu_count g \<le> 5 \<and> ready_package_response_count g \<le> 3
    \<and> ready_package_request_timeouts g \<le> 10 \<and> table_pacakage_timeouts g \<le> 10
    \<and> length (db_ccu_status g) = 4"
  using gd_ok_run [OF gd_ok_init, of ly "is" n t] by (simp add: gd_ok_def Let_def)

text \<open>C32: Once the update is finished, whatever arrives and whenever the timer fires, the tables
  never change again, the thread sends no request, and it stays finished.
\<close>

theorem sync_end_final:
  assumes "bcu_update_finish (BcuGdThreadEntry ly is (gd_init n t))"
  shows "bcu_update_finish (BcuGdThreadEntry ly (is @ js) (gd_init n t))
    \<and> gd_tabs (BcuGdThreadEntry ly (is @ js) (gd_init n t)) = gd_tabs (BcuGdThreadEntry ly is (gd_init n t))
    \<and> filter is_request (gd_sent (BcuGdThreadEntry ly (is @ js) (gd_init n t))) =
      filter is_request (gd_sent (BcuGdThreadEntry ly is (gd_init n t)))"
proof -
  have "BcuGdThreadEntry ly (is @ js) (gd_init n t) = BcuGdThreadEntry ly js (BcuGdThreadEntry ly is (gd_init n t))"
    by (simp add: BcuGdThreadEntry_def)
  then show ?thesis using run_finish [OF gd_ok_run [OF gd_ok_init] assms] by simp
qed

theorem sync_end_final_witness:
  "gd_tabs (BcuGdThreadEntry sample_layout
     ([prompt (Some (sample_msg 255 0 1 1))] @ [prompt (Some (sample_msg 21 0 1 1))]) (gd_init 2 sample_tables))
   = sample_tables"
proof -
  define g where "g = BcuGdThreadEntry sample_layout [prompt (Some (sample_msg 255 0 1 1))] (gd_init 2 sample_tables)"
  have "bcu_update_finish g \<and> gd_tabs g = sample_tables"
    by (simp add: g_def BcuGdThreadEntry_def gd_round_def gd_receive_def gd_switch_def gd_case0_def
        gd_init_def sample_msg_def Let_def frame)
  then show ?thesis
    using sync_end_final [of sample_layout "[prompt (Some (sample_msg 255 0 1 1))]" 2 sample_tables
        "[prompt (Some (sample_msg 21 0 1 1))]"]
    by (simp add: g_def)
qed

text \<open>While the chosen CCU gives no answer to the request, and no end of the update arrives, the
  thread stays in phase 2 for ever and counts no time-out: the return to phase 0 after ten
  requests without answer cannot happen.
\<close>

lemma sync_unanswered_stuck:
  assumes "current_phase g = 2" and "ready_package_response_count g < 3"
    and "ready_package_request_timeouts g < 10"
    and "list_all (silent_on {254, 255}) is"
  shows "current_phase (BcuGdThreadEntry ly is g) = 2
    \<and> ready_package_request_timeouts (BcuGdThreadEntry ly is g) = ready_package_request_timeouts g"
  using assms
proof (induction "is" arbitrary: g)
  case (Cons i "is")
  with Cons.IH [of "gd_round ly i g"] round_waiting [of g i ly] show ?case
    by (simp add: BcuGdThreadEntry_def)
qed (simp add: BcuGdThreadEntry_def)

text \<open>
  A late answer to the request that arrives in phase 3 switches the timer off, and from then
  on nothing but the end of the update leaves phase 3: no time-out is ever counted again and no
  request is sent.
\<close>

lemma sync_timer_lost:
  assumes "current_phase g = 3" and "gd_timer g = Running" and "table_pacakage_timeouts g < 10"
    and "\<not> receive_ccu_table_item_flag g"
    and "answers 254 (send_package_serial_number g) m"
    and "list_all (silent_on {255}) is"
  shows "current_phase (BcuGdThreadEntry ly (prompt (Some m) # is) g) = 3
    \<and> gd_timer (BcuGdThreadEntry ly (prompt (Some m) # is) g) = TimerOff
    \<and> table_pacakage_timeouts (BcuGdThreadEntry ly (prompt (Some m) # is) g) = table_pacakage_timeouts g
    \<and> filter is_request (gd_sent (BcuGdThreadEntry ly (prompt (Some m) # is) g)) =
      filter is_request (gd_sent g)"
proof -
  define g1 where "g1 = gd_round ly (prompt (Some m)) g"
  have "gd_switch (prompt (Some m)) g = g"
    using assms(1-4) by (simp add: gd_switch_def gd_case3_def Let_def not_le)
  moreover have "gd_receive ly (prompt (Some m)) m g = (timer_off g)\<lparr>ready_req_cmd := True\<rparr>"
    using assms(1,2,5) by (simp add: gd_receive_def answers_def ready_response_def Let_def)
      (simp add: timer_off_def)
  ultimately have g1: "g1 = (timer_off g)\<lparr>ready_req_cmd := True\<rparr>"
    by (simp add: g1_def gd_round_def Let_def repeat_off timer_off_def)
  have "current_phase (fold (gd_round ly) is h) = 3 \<and> gd_timer (fold (gd_round ly) is h) = TimerOff
      \<and> table_pacakage_timeouts (fold (gd_round ly) is h) = table_pacakage_timeouts h
      \<and> filter is_request (gd_sent (fold (gd_round ly) is h)) = filter is_request (gd_sent h)"
    if "current_phase h = 3" "gd_timer h = TimerOff" "table_pacakage_timeouts h < 10" for h
    using that assms(6)
  proof (induction "is" arbitrary: h)
    case (Cons i "is")
    with round_rows_off [of h i ly] show ?case by simp
  qed simp
  from this [of g1] assms(1,3) show ?thesis
    by (simp add: BcuGdThreadEntry_def g1 timer_off_def flip: g1_def)
qed

end
