(* ===== verification/Heart_Beat.thy ===== *)
theory Heart_Beat
  imports Bcu_Prelude
begin

text \<open>
  The heart-beat of the devices on the train's network
  (\<open>network/zhw_dev_selftest_module.cxx\<close>, shared by all devices): the primary server asks one
  device per beat and keeps a table of who is on line; the backup server does so while the
  primary one is silent; a client answers. Which of the three runs is the device's entry in the
  table of devices.

  The five classes of devices have the same code over lists of different types, here one list
  of nodes per class. One turn of a server's or client's endless loop is a function of the
  package that arrives and of which writes find room; the timer's call-back runs between turns.
  \<open>None\<close> is a read through the null head of an empty table.
\<close>

section \<open>State\<close>

datatype dev_class = EAMP | BCU | CCU | PCU | CMU

fun class_name :: "dev_class \<Rightarrow> string" where
  "class_name EAMP = ''EAMP''"
| "class_name BCU = ''BCU''"
| "class_name CCU = ''CCU''"
| "class_name PCU = ''PCU''"
| "class_name CMU = ''CMU''"

definition class_of :: "string \<Rightarrow> dev_class option" where
  "class_of s =
     (if s = ''EAMP'' then Some EAMP else if s = ''BCU'' then Some BCU
      else if s = ''CCU'' then Some CCU else if s = ''PCU'' then Some PCU
      else if s = ''CMU'' then Some CMU else None)"

lemma class_of_name [simp]: "class_of (class_name c) = Some c"
  by (cases c) (simp_all add: class_of_def)

abbreviation (input) DEV_STATUS_SET :: int where "DEV_STATUS_SET \<equiv> 2"
abbreviation (input) FAIL_TIME_HEART_TYPE :: int where "FAIL_TIME_HEART_TYPE \<equiv> 3"
abbreviation (input) SEND_TO_BCU_TYPE :: int where "SEND_TO_BCU_TYPE \<equiv> 26"
abbreviation (input) MAX_TYPE :: int where "MAX_TYPE \<equiv> 26"
abbreviation (input) SEND_TO_BCU :: int where "SEND_TO_BCU \<equiv> 2"

text \<open>A node of a table, and a package of \<open>network_heart_package_t\<close>.\<close>

record dev_info =
  online :: byte
  failures :: "byte list"

record dev_node =
  set_online :: int
  reply :: int
  dev_number :: int
  dn_info :: dev_info

record heart_pkg =
  hp_dst_dev_name :: string
  hp_dst_dev_number :: int
  hp_src_dev_name :: string
  hp_src_dev_number :: int
  hp_package_type :: int
  hp_package_number :: int
  hp_dev_info :: dev_info
  hp_current_time :: "int list"

text \<open>The globals and the servers' local variables.\<close>

record heart =
  dev_status_info :: "dev_class \<Rightarrow> dev_node list"
  dev_count :: "dev_class \<Rightarrow> int"
  current_dev_name :: "dev_class option"
  current_dev_num :: int
  heart_dst_name :: string
  heart_dst_num :: int
  pkg_counte :: int
  curr_pkg_number :: int
  clean_backup_server_status :: int
  primary_server_down :: int
  primary_server_online :: int
  client_net_state :: int
  set_ns :: int
  heart_type :: int
  heart_beat :: bool
  send_to_bcu :: int
  g_time_info :: "int list"
  send_buffer_info :: dev_info
  g_dev_fault_info :: "dev_class \<Rightarrow> nat \<Rightarrow> dev_info"
  h_dev_name :: string
  h_dev_number :: int
  heart_sent :: "heart_pkg list"
  status_sent :: "(string \<times> (dev_class \<Rightarrow> nat \<Rightarrow> dev_info)) list"

definition set_table :: "dev_class \<Rightarrow> dev_node list \<Rightarrow> heart \<Rightarrow> heart" where
  "set_table c t h = h\<lparr>dev_status_info := (dev_status_info h)(c := t)\<rparr>"

definition send_heart :: "bool \<Rightarrow> heart_pkg \<Rightarrow> heart \<Rightarrow> heart" where
  "send_heart room p h = (if room then h\<lparr>heart_sent := heart_sent h @ [p]\<rparr> else h)"

section \<open>The tables\<close>

definition new_node :: "int \<Rightarrow> int \<Rightarrow> dev_node" where
  "new_node s n = \<lparr>set_online = s, reply = 0, dev_number = n, dn_info = \<lparr>online = 1, failures = []\<rparr>\<rparr>"

text \<open>
  In the loop of \<open>ZhwDevStatusBufferInit\<close> it is the head's \<open>set_online\<close> that is set again, not
  that of the new node, which stays zero.
\<close>

definition ZhwDevStatusBufferInit :: "int \<Rightarrow> dev_node list" where
  "ZhwDevStatusBufferInit n =
     (if n > 0 then new_node DEV_STATUS_SET 1 # map (new_node 0) [2..n] else [])"

text \<open>Change the first node with a number; the answer tells whether there is one.\<close>

fun on_node :: "int \<Rightarrow> (dev_node \<Rightarrow> dev_node) \<Rightarrow> dev_node list \<Rightarrow> dev_node list" where
  "on_node k f [] = []"
| "on_node k f (d # ds) = (if dev_number d = k then f d # ds else d # on_node k f ds)"

definition answer_node :: "dev_info \<Rightarrow> dev_node \<Rightarrow> dev_node" where
  "answer_node i d = d\<lparr>set_online := DEV_STATUS_SET, reply := 1, dn_info := i\<rparr>"

definition poll_node :: "dev_node \<Rightarrow> dev_node" where
  "poll_node d =
     (let d = (if set_online d = 0 then d\<lparr>dn_info := (dn_info d)\<lparr>online := 0\<rparr>\<rparr>
               else d\<lparr>set_online := set_online d - 1\<rparr>)
      in d\<lparr>reply := 0\<rparr>)"

definition off_node :: "dev_node \<Rightarrow> dev_node" where
  "off_node d = d\<lparr>reply := 0, dn_info := (dn_info d)\<lparr>online := 0\<rparr>\<rparr>"

text \<open>The struct that is copied: only amplifiers and CCUs have more than \<open>online\<close> in theirs.\<close>

definition info_for :: "dev_class \<Rightarrow> dev_info \<Rightarrow> dev_info" where
  "info_for c i = (if c = EAMP \<or> c = CCU then i else i\<lparr>failures := []\<rparr>)"

definition ZhwDevStatusUpdate :: "heart_pkg \<Rightarrow> heart \<Rightarrow> heart \<times> int" where
  "ZhwDevStatusUpdate p h =
     (case class_of (hp_src_dev_name p) of
        None \<Rightarrow> (h, -1)
      | Some c \<Rightarrow>
          (let t = dev_status_info h c; k = hp_src_dev_number p in
           if k \<in> dev_number ` set t
           then (set_table c (on_node k (answer_node (info_for c (hp_dev_info p))) t) h, 1)
           else (h, -2)))"

section \<open>Packages\<close>

text \<open>The time that \<open>GetCurrentTCMSTime\<close> returns is an uninitialised struct, \<open>junk\<close>.\<close>

definition ZhwServiceSendBufferInit ::
    "int list \<Rightarrow> string \<Rightarrow> int \<Rightarrow> int \<Rightarrow> int \<Rightarrow> heart \<Rightarrow> heart \<times> heart_pkg" where
  "ZhwServiceSendBufferInit junk dst_dev_name dst_dev_number heart_pkg_type heart_pkg_number h =
     (h\<lparr>g_time_info := junk\<rparr>,
      \<lparr>hp_dst_dev_name = dst_dev_name, hp_dst_dev_number = dst_dev_number,
       hp_src_dev_name = h_dev_name h, hp_src_dev_number = h_dev_number h,
       hp_package_type = heart_pkg_type, hp_package_number = heart_pkg_number,
       hp_dev_info = send_buffer_info h, hp_current_time = junk\<rparr>)"

text \<open>\<open>own\<close> is what \<open>GetPerDevFailureInfo\<close> fills in on a CCU or an amplifier.\<close>

definition ZhwClientSendBufferInit ::
    "byte list \<Rightarrow> string \<Rightarrow> int \<Rightarrow> int \<Rightarrow> int \<Rightarrow> heart \<Rightarrow> heart \<times> heart_pkg" where
  "ZhwClientSendBufferInit own dst_dev_name dst_dev_number heart_pkg_type heart_pkg_number h =
     (let old = send_buffer_info h;
          i = (case class_of (h_dev_name h) of
                 None \<Rightarrow> old
               | Some c \<Rightarrow> \<lparr>online = 1, failures = (if c = EAMP \<or> c = CCU then own else failures old)\<rparr>)
      in (h\<lparr>send_buffer_info := i\<rparr>,
          \<lparr>hp_dst_dev_name = dst_dev_name, hp_dst_dev_number = dst_dev_number,
           hp_src_dev_name = h_dev_name h, hp_src_dev_number = h_dev_number h,
           hp_package_type = heart_pkg_type, hp_package_number = heart_pkg_number,
           hp_dev_info = i, hp_current_time = replicate 6 0\<rparr>))"

section \<open>The timer\<close>

definition ZhwAlarmFunction :: "heart \<Rightarrow> heart" where
  "ZhwAlarmFunction h =
     (if heart_type h = FAIL_TIME_HEART_TYPE
      then h\<lparr>heart_type := heart_type h + 1, heart_beat := True\<rparr>
      else if heart_type h = SEND_TO_BCU_TYPE
      then h\<lparr>send_to_bcu := send_to_bcu h - 1, heart_type := heart_type h + 1\<rparr>
      else if heart_type h = MAX_TYPE + 1
      then h\<lparr>heart_type := 0, heart_beat := True\<rparr>
      else if heart_type h > MAX_TYPE + 1
      then h\<lparr>heart_beat := True\<rparr>
      else h\<lparr>heart_beat := True, heart_type := heart_type h + 1\<rparr>)"

section \<open>The servers\<close>

definition count_beat :: "heart \<Rightarrow> heart" where
  "count_beat h = h\<lparr>pkg_counte :=
     (if pkg_counte h < 65535 then pkg_counte h + 1 else pkg_counte h - 65535 + 1)\<rparr>"

text \<open>
  The device to ask: BCUs, amplifiers, passenger units and CMUs in turn, each class by its
  numbers; a beat is spent on the change of the class, with the number 0.
\<close>

fun next_class :: "dev_class \<Rightarrow> dev_class" where
  "next_class BCU = EAMP"
| "next_class EAMP = PCU"
| "next_class PCU = CMU"
| "next_class c = BCU"

definition poll_next :: "heart \<Rightarrow> heart" where
  "poll_next h =
     (let c = (case current_dev_name h of None \<Rightarrow> BCU | Some c \<Rightarrow> c);
          h = h\<lparr>current_dev_name := Some c\<rparr>
      in if c \<noteq> CCU \<and> current_dev_num h < dev_count h c
         then (let k = current_dev_num h + 1
               in set_table c (on_node k poll_node (dev_status_info h c))
                    (h\<lparr>heart_dst_num := k, heart_dst_name := class_name c, current_dev_num := k\<rparr>))
         else h\<lparr>current_dev_num := 0, heart_dst_num := 0, current_dev_name := Some (next_class c)\<rparr>)"

definition send_query :: "bool \<Rightarrow> int list \<Rightarrow> string \<Rightarrow> int \<Rightarrow> heart \<Rightarrow> heart" where
  "send_query room junk dst n h =
     (let (h, p) = ZhwServiceSendBufferInit junk dst n 1 (pkg_counte h) h in send_heart room p h)"

text \<open>An answer: taken when its number is the last one sent, else when the head has not answered.\<close>

definition take_answer :: "heart_pkg \<Rightarrow> heart \<Rightarrow> heart option" where
  "take_answer p h =
     (case class_of (hp_src_dev_name p) of
        None \<Rightarrow> Some h
      | Some c \<Rightarrow>
          (if hp_package_number p = curr_pkg_number h then Some (fst (ZhwDevStatusUpdate p h))
           else (case dev_status_info h c of
               [] \<Rightarrow> None
             | d # _ \<Rightarrow> Some (if reply d \<noteq> 1 then fst (ZhwDevStatusUpdate p h) else h))))"

subsection \<open>The status of all devices\<close>

definition CONFIG_NUM :: "heart \<Rightarrow> dev_class \<Rightarrow> nat" where
  "CONFIG_NUM h c = (case c of BCU \<Rightarrow> 2 | CCU \<Rightarrow> 2 | EAMP \<Rightarrow> 6 | PCU \<Rightarrow> 12 | CMU \<Rightarrow> nat (dev_count h CMU))"

definition node_of :: "int \<Rightarrow> dev_node list \<Rightarrow> dev_node option" where
  "node_of k t = find (\<lambda>d. dev_number d = k) t"

definition copy_status :: "heart \<Rightarrow> dev_class \<Rightarrow> (nat \<Rightarrow> dev_info) \<Rightarrow> nat \<Rightarrow> dev_info" where
  "copy_status h c f =
     fold (\<lambda>i f. case node_of (int i + 1) (dev_status_info h c) of None \<Rightarrow> f | Some d \<Rightarrow> f(i := dn_info d))
       [0..<CONFIG_NUM h c] f"

definition ZhwSendDevStatusToBCUOrCCU :: "bool \<Rightarrow> string \<Rightarrow> heart \<Rightarrow> heart" where
  "ZhwSendDevStatusToBCUOrCCU room dev_name h =
     (let g = (\<lambda>c. copy_status h c (g_dev_fault_info h c));
          h = h\<lparr>g_dev_fault_info := g\<rparr>
      in if room then h\<lparr>status_sent := status_sent h @ [(dev_name, g)]\<rparr> else h)"

definition send_status :: "(nat \<Rightarrow> bool) \<Rightarrow> heart \<Rightarrow> heart" where
  "send_status room h =
     ZhwSendDevStatusToBCUOrCCU (room 11) ''CCU'' (ZhwSendDevStatusToBCUOrCCU (room 10) ''BCU'' h)"

subsection \<open>The primary server\<close>

definition primary_beat :: "(nat \<Rightarrow> bool) \<Rightarrow> int list \<Rightarrow> heart \<Rightarrow> heart" where
  "primary_beat room junk h =
     (if \<not> heart_beat h then h
      else
        (let h = h\<lparr>heart_beat := False\<rparr>;
             h = (if clean_backup_server_status h \<noteq> 0
                  then h\<lparr>clean_backup_server_status := clean_backup_server_status h - 1\<rparr> else h);
             h = poll_next (count_beat h)
         in if heart_dst_num h \<noteq> 0
            then (let h = (if clean_backup_server_status h = 0
                           then set_table CCU (on_node 2 off_node (dev_status_info h CCU)) h else h);
                      h = h\<lparr>curr_pkg_number := pkg_counte h\<rparr>;
                      h = send_query (room 0) junk (heart_dst_name h) (heart_dst_num h) h
                  in send_query (room 1) junk ''CCU'' 2 h)
            else h))"

definition primary_receive :: "(nat \<Rightarrow> bool) \<Rightarrow> int list \<Rightarrow> heart_pkg \<Rightarrow> heart \<Rightarrow> heart option" where
  "primary_receive room junk p h =
     (if hp_package_type p = 1
      then Some (send_query (room 2) junk (hp_src_dev_name p) (hp_src_dev_number p) h)
      else if hp_package_type p = 2
      then take_answer p (if hp_src_dev_name p = ''CCU'' then h\<lparr>clean_backup_server_status := 5\<rparr> else h)
      else Some h)"

definition primary_round ::
    "(nat \<Rightarrow> bool) \<Rightarrow> int list \<Rightarrow> heart_pkg option \<Rightarrow> heart \<Rightarrow> heart option" where
  "primary_round room junk m h =
     (let h = primary_beat room junk h
      in case (case m of None \<Rightarrow> Some h | Some p \<Rightarrow> primary_receive room junk p h) of
           None \<Rightarrow> None
         | Some h \<Rightarrow> Some (if send_to_bcu h = 0 then send_status room (h\<lparr>send_to_bcu := SEND_TO_BCU\<rparr>) else h))"

subsection \<open>The backup server\<close>

definition backup_beat :: "(nat \<Rightarrow> bool) \<Rightarrow> int list \<Rightarrow> heart \<Rightarrow> heart" where
  "backup_beat room junk h =
     (if \<not> heart_beat h then h
      else
        (let h = h\<lparr>heart_beat := False\<rparr>
         in if primary_server_down h \<noteq> 0 then h\<lparr>primary_server_down := primary_server_down h - 1\<rparr>
            else
              (let h = poll_next (count_beat (h\<lparr>primary_server_online := 0\<rparr>))
               in if heart_dst_num h \<noteq> 0
                  then (let h = set_table CCU (on_node 1 off_node (dev_status_info h CCU)) h;
                            h = h\<lparr>curr_pkg_number := pkg_counte h\<rparr>
                        in send_query (room 0) junk (heart_dst_name h) (heart_dst_num h) h)
                  else h)))"

definition send_reply :: "bool \<Rightarrow> byte list \<Rightarrow> heart_pkg \<Rightarrow> heart \<Rightarrow> heart" where
  "send_reply room own p h =
     (let h = h\<lparr>g_time_info := hp_current_time p\<rparr>;
          (h, r) = ZhwClientSendBufferInit own (hp_src_dev_name p) (hp_src_dev_number p) 2 (hp_package_number p) h
      in send_heart room r h)"

definition backup_receive :: "(nat \<Rightarrow> bool) \<Rightarrow> byte list \<Rightarrow> heart_pkg \<Rightarrow> heart \<Rightarrow> heart option" where
  "backup_receive room own p h =
     (if hp_package_type p = 1
      then Some (send_reply (room 2) own p (h\<lparr>primary_server_down := 5, primary_server_online := 1\<rparr>))
      else if hp_package_type p = 2 \<and> primary_server_down h = 0 then take_answer p h
      else Some h)"

definition backup_round ::
    "(nat \<Rightarrow> bool) \<Rightarrow> int list \<Rightarrow> byte list \<Rightarrow> heart_pkg option \<Rightarrow> heart \<Rightarrow> heart option" where
  "backup_round room junk own m h =
     (let h = backup_beat room junk h
      in case (case m of None \<Rightarrow> Some h | Some p \<Rightarrow> backup_receive room own p h) of
           None \<Rightarrow> None
         | Some h \<Rightarrow> Some (if send_to_bcu h = 0
             then (let h = h\<lparr>send_to_bcu := SEND_TO_BCU\<rparr>
                   in if primary_server_down h = 0 then send_status room h else h)
             else h))"

subsection \<open>The client\<close>

definition client_beat :: "heart \<Rightarrow> heart" where
  "client_beat h =
     (if \<not> heart_beat h then h
      else (let h = h\<lparr>heart_beat := False\<rparr>
            in if set_ns h = 0 then h\<lparr>set_ns := MAX_TYPE * 2, client_net_state := 0\<rparr>
               else h\<lparr>set_ns := set_ns h - 1\<rparr>))"

definition client_round :: "(nat \<Rightarrow> bool) \<Rightarrow> byte list \<Rightarrow> heart_pkg option \<Rightarrow> heart \<Rightarrow> heart" where
  "client_round room own m h =
     (let h = client_beat h
      in case m of
           None \<Rightarrow> h
         | Some p \<Rightarrow>
             (let h = h\<lparr>client_net_state := 1\<rparr>
              in if hp_package_type p = 1 then send_reply (room 0) own p h else h))"

section \<open>Start\<close>

text \<open>The globals at power-up and the servers' variables, on device \<open>name\<close>-\<open>no\<close> with \<open>cnt\<close> devices of each class.\<close>

definition heart_init :: "string \<Rightarrow> int \<Rightarrow> (dev_class \<Rightarrow> int) \<Rightarrow> heart" where
  "heart_init name no cnt = \<lparr>dev_status_info = (\<lambda>c. ZhwDevStatusBufferInit (cnt c)), dev_count = cnt,
     current_dev_name = None, current_dev_num = 0, heart_dst_name = '''', heart_dst_num = 0,
     pkg_counte = 0, curr_pkg_number = 0, clean_backup_server_status = 5, primary_server_down = 5,
     primary_server_online = 1, client_net_state = 1, set_ns = MAX_TYPE * 2, heart_type = 0,
     heart_beat = False, send_to_bcu = SEND_TO_BCU, g_time_info = [],
     send_buffer_info = \<lparr>online = 0, failures = []\<rparr>,
     g_dev_fault_info = (\<lambda>c i. \<lparr>online = 0, failures = []\<rparr>), h_dev_name = name, h_dev_number = no,
     heart_sent = [], status_sent = []\<rparr>"

section \<open>The order of the queries\<close>

text \<open>
  What a silent beat does, seen on the class and number asked last, the tables of the asked
  classes and the addressees of the packages sent.
\<close>

type_synonym poll_view = "dev_class \<times> int \<times> (dev_class \<Rightarrow> dev_node list) \<times> (string \<times> int) list"

definition poll_view_of :: "heart \<Rightarrow> poll_view" where
  "poll_view_of h =
     (case current_dev_name h of None \<Rightarrow> BCU | Some c \<Rightarrow> c, current_dev_num h,
      (dev_status_info h)(CCU := []), map (\<lambda>p. (hp_dst_dev_name p, hp_dst_dev_number p)) (heart_sent h))"

fun poll_step :: "(dev_class \<Rightarrow> int) \<Rightarrow> poll_view \<Rightarrow> poll_view" where
  "poll_step cnt (c, j, T, log) =
     (if c \<noteq> CCU \<and> j < cnt c
      then (c, j + 1, T(c := on_node (j + 1) poll_node (T c)), log @ [(class_name c, j + 1), (''CCU'', 2)])
      else (next_class c, 0, T, log))"

definition silent_beat :: "int list \<Rightarrow> heart \<Rightarrow> heart option" where
  "silent_beat junk h = primary_round (\<lambda>_. True) junk None (h\<lparr>heart_beat := True\<rparr>)"

fun silent_beats :: "int list \<Rightarrow> nat \<Rightarrow> heart \<Rightarrow> heart option" where
  "silent_beats junk 0 h = Some h"
| "silent_beats junk (Suc n) h = (case silent_beat junk h of None \<Rightarrow> None | Some h \<Rightarrow> silent_beats junk n h)"

lemma send_status_frame [frame]:
  "dev_status_info (send_status room h) = dev_status_info h" "dev_count (send_status room h) = dev_count h"
  "current_dev_name (send_status room h) = current_dev_name h"
  "current_dev_num (send_status room h) = current_dev_num h" "heart_sent (send_status room h) = heart_sent h"
  "primary_server_down (send_status room h) = primary_server_down h"
  "primary_server_online (send_status room h) = primary_server_online h"
  by (simp_all add: send_status_def ZhwSendDevStatusToBCUOrCCU_def Let_def)

lemma poll_view_frame:
  "poll_view_of (h\<lparr>send_to_bcu := x\<rparr>) = poll_view_of h" "poll_view_of (send_status room h) = poll_view_of h"
  by (simp_all add: poll_view_of_def frame)

lemma silent_beat_view:
  assumes "current_dev_num h \<ge> 0"
  shows "\<exists>h'. silent_beat junk h = Some h' \<and> poll_view_of h' = poll_step (dev_count h) (poll_view_of h)
    \<and> dev_count h' = dev_count h \<and> current_dev_num h' \<ge> 0"
proof -
  define h1 where "h1 = primary_beat (\<lambda>_. True) junk (h\<lparr>heart_beat := True\<rparr>)"
  have "poll_view_of h1 = poll_step (dev_count h) (poll_view_of h) \<and> dev_count h1 = dev_count h \<and> current_dev_num h1 \<ge> 0"
    using assms
    by (auto simp: h1_def primary_beat_def poll_view_of_def poll_next_def count_beat_def set_table_def
        send_query_def ZhwServiceSendBufferInit_def send_heart_def Let_def split: option.splits)
  then show ?thesis
    by (auto simp: silent_beat_def primary_round_def Let_def poll_view_frame frame simp flip: h1_def)
qed

lemma silent_beats_view:
  "current_dev_num h \<ge> 0 \<Longrightarrow>
    \<exists>h'. silent_beats junk n h = Some h' \<and> poll_view_of h' = (poll_step (dev_count h) ^^ n) (poll_view_of h)
      \<and> dev_count h' = dev_count h \<and> current_dev_num h' \<ge> 0"
proof (induction n arbitrary: h)
  case (Suc n)
  obtain h1 where h1: "silent_beat junk h = Some h1" "poll_view_of h1 = poll_step (dev_count h) (poll_view_of h)"
    "dev_count h1 = dev_count h" "current_dev_num h1 \<ge> 0"
    using silent_beat_view [OF Suc.prems] by blast
  from Suc.IH [OF h1(4)] h1 show ?case by (simp add: funpow_Suc_right del: funpow.simps)
qed simp

text \<open>The queries to a class, and the table when its devices are numbered.\<close>

definition queries :: "dev_class \<Rightarrow> int \<Rightarrow> (string \<times> int) list" where
  "queries c n = concat (map (\<lambda>k. [(class_name c, k), (''CCU'', 2)]) [1..n])"

definition numbered :: "dev_node list \<Rightarrow> int \<Rightarrow> bool" where
  "numbered t n \<longleftrightarrow> map dev_number t = [1..n] \<and> 0 \<le> n"

lemma poll_number [simp]: "dev_number (poll_node d) = dev_number d"
  by (simp add: poll_node_def Let_def)

lemma on_node_split:
  "k \<notin> dev_number ` set xs \<Longrightarrow> dev_number d = k \<Longrightarrow> on_node k f (xs @ d # ys) = xs @ f d # ys"
  by (induction xs) auto

lemma poll_steps:
  assumes "c \<noteq> CCU" and "numbered t (cnt c)" and "int j \<le> cnt c"
  shows "(poll_step cnt ^^ j) (c, 0, T(c := t), log) =
    (c, int j, T(c := map poll_node (take j t) @ drop j t), log @ queries c (int j))"
  using assms(3)
proof (induction j)
  case (Suc j)
  then have j: "j < length t" "int j < cnt c"
    using assms(2) by (auto simp: numbered_def dest: arg_cong [of _ _ length])
  have num: "dev_number (t ! i) = 1 + int i" if "i < length t" for i
  proof -
    have m: "map dev_number t = [1..cnt c]" using assms(2) by (simp add: numbered_def)
    then have "length t = nat (cnt c)" by (metis length_map length_upto diff_add_cancel)
    then have "1 + int i \<le> cnt c" using that by simp
    then have "map dev_number t ! i = 1 + int i" unfolding m by (rule nth_upto)
    then show ?thesis using that by simp
  qed
  have "on_node (int j + 1) poll_node (map poll_node (take j t) @ t ! j # drop (Suc j) t) =
      map poll_node (take j t) @ poll_node (t ! j) # drop (Suc j) t"
    by (rule on_node_split) (use num j(1) in \<open>auto simp: in_set_conv_nth\<close>)
  then have "on_node (int j + 1) poll_node (map poll_node (take j t) @ drop j t) =
      map poll_node (take (Suc j) t) @ drop (Suc j) t"
    using j(1) by (simp add: Cons_nth_drop_Suc take_Suc_conv_app_nth)
  moreover have "queries c (int (Suc j)) = queries c (int j) @ [(class_name c, int j + 1), (''CCU'', 2)]"
    by (simp add: queries_def upto_rec2 add.commute)
  ultimately show ?case using Suc j(2) assms(1) by (simp add: add.commute) (auto simp: fun_eq_iff)
qed (simp add: queries_def)

lemma poll_class:
  assumes "c \<noteq> CCU" and "numbered (T c) (cnt c)"
  shows "(poll_step cnt ^^ (Suc (nat (cnt c)))) (c, 0, T, log) =
    (next_class c, 0, T(c := map poll_node (T c)), log @ queries c (cnt c))"
proof -
  have n: "0 \<le> cnt c" "length (T c) = nat (cnt c)"
    using assms(2) by (auto simp: numbered_def dest: arg_cong [of _ _ length])
  then show ?thesis
    using poll_steps [where c = c and t = "T c" and cnt = cnt and j = "nat (cnt c)" and T = T and log = log] assms
    by simp
qed

definition cycle_queries :: "(dev_class \<Rightarrow> int) \<Rightarrow> (string \<times> int) list" where
  "cycle_queries cnt = queries BCU (cnt BCU) @ queries EAMP (cnt EAMP) @ queries PCU (cnt PCU) @ queries CMU (cnt CMU)"

definition cycle_beats :: "(dev_class \<Rightarrow> int) \<Rightarrow> nat" where
  "cycle_beats cnt = nat (cnt BCU) + nat (cnt EAMP) + nat (cnt PCU) + nat (cnt CMU) + 4"

lemma poll_cycle_view:
  assumes "\<And>c. c \<noteq> CCU \<Longrightarrow> numbered (T c) (cnt c)"
  shows "(poll_step cnt ^^ cycle_beats cnt) (BCU, 0, T, log) =
    (BCU, 0, (\<lambda>c. if c = CCU then T c else map poll_node (T c)), log @ cycle_queries cnt)"
proof -
  have "cycle_beats cnt = Suc (nat (cnt CMU)) + (Suc (nat (cnt PCU)) + (Suc (nat (cnt EAMP)) + Suc (nat (cnt BCU))))"
    by (simp add: cycle_beats_def)
  then show ?thesis
    by (simp only: funpow_add comp_apply) (simp add: poll_class assms cycle_queries_def del: funpow.simps,
      auto simp: fun_eq_iff intro: dev_class.exhaust)
qed

text \<open>At the start of a cycle.\<close>

definition cycle_start :: "heart \<Rightarrow> bool" where
  "cycle_start h \<longleftrightarrow> current_dev_name h \<in> {None, Some BCU} \<and> current_dev_num h = 0
     \<and> (\<forall>c. c \<noteq> CCU \<longrightarrow> numbered (dev_status_info h c) (dev_count h c))"

lemma silent_cycle:
  assumes "cycle_start h"
  shows "\<exists>h'. silent_beats junk (cycle_beats (dev_count h)) h = Some h' \<and> cycle_start h'
    \<and> dev_count h' = dev_count h
    \<and> (\<forall>c. c \<noteq> CCU \<longrightarrow> dev_status_info h' c = map poll_node (dev_status_info h c))
    \<and> map (\<lambda>p. (hp_dst_dev_name p, hp_dst_dev_number p)) (heart_sent h') =
      map (\<lambda>p. (hp_dst_dev_name p, hp_dst_dev_number p)) (heart_sent h) @ cycle_queries (dev_count h)"
proof -
  define log where "log = map (\<lambda>p. (hp_dst_dev_name p, hp_dst_dev_number p)) (heart_sent h)"
  have view: "poll_view_of h = (BCU, 0, (dev_status_info h)(CCU := []), log)"
    using assms by (auto simp: poll_view_of_def cycle_start_def log_def)
  have num: "numbered (((dev_status_info h)(CCU := [])) c) (dev_count h c)" if "c \<noteq> CCU" for c
    using assms that by (simp add: cycle_start_def)
  have start: "current_dev_num h \<ge> 0" using assms by (simp add: cycle_start_def)
  have cycle: "(poll_step (dev_count h) ^^ cycle_beats (dev_count h)) (poll_view_of h) =
      (BCU, 0, (\<lambda>c. if c = CCU then [] else map poll_node (dev_status_info h c)), log @ cycle_queries (dev_count h))"
    unfolding view by (subst poll_cycle_view, erule num) (auto simp: fun_eq_iff)
  obtain h' where h': "silent_beats junk (cycle_beats (dev_count h)) h = Some h'"
    "poll_view_of h' = (BCU, 0, (\<lambda>c. if c = CCU then [] else map poll_node (dev_status_info h c)),
       log @ cycle_queries (dev_count h))"
    "dev_count h' = dev_count h"
    using silent_beats_view [OF start, of junk "cycle_beats (dev_count h)"] cycle by auto
  have cur: "current_dev_name h' \<in> {None, Some BCU}" "current_dev_num h' = 0"
    and sent: "map (\<lambda>p. (hp_dst_dev_name p, hp_dst_dev_number p)) (heart_sent h') = log @ cycle_queries (dev_count h)"
    and tab: "(dev_status_info h')(CCU := []) = (\<lambda>c. if c = CCU then [] else map poll_node (dev_status_info h c))"
    using h'(2) by (auto simp: poll_view_of_def split: option.splits)
  have tables: "dev_status_info h' c = map poll_node (dev_status_info h c)" if "c \<noteq> CCU" for c
    using fun_cong [OF tab, of c] that by simp
  have "cycle_start h'"
    using cur assms tables h'(3) by (auto simp: cycle_start_def numbered_def comp_def)
  with h'(1,3) sent tables show ?thesis by (auto simp: log_def)
qed

lemma silent_beats_add:
  "silent_beats junk (m + n) h = (case silent_beats junk m h of None \<Rightarrow> None | Some h \<Rightarrow> silent_beats junk n h)"
  by (induction m arbitrary: h) (auto split: option.splits)

lemma numbered_init: "0 \<le> n \<Longrightarrow> numbered (ZhwDevStatusBufferInit n) n"
proof -
  assume n: "0 \<le> n"
  have "[1..n] = 1 # [2..n]" if "0 < n" using that by (simp add: upto_rec1)
  with n show ?thesis
    by (auto simp: numbered_def ZhwDevStatusBufferInit_def new_node_def comp_def)
qed

lemma cycle_start_init: "\<forall>c. 0 \<le> cnt c \<Longrightarrow> cycle_start (heart_init name no cnt)"
  by (simp add: cycle_start_def heart_init_def numbered_init)

lemma poll_node_info:
  "set_online d \<noteq> 0 \<Longrightarrow> dn_info (poll_node d) = dn_info d"
  "set_online d \<noteq> 0 \<Longrightarrow> set_online (poll_node d) = set_online d - 1"
  "set_online d = 0 \<Longrightarrow> online (dn_info (poll_node d)) = 0"
  by (simp_all add: poll_node_def Let_def)

section \<open>The backup server\<close>

text \<open>Rounds of the backup server; \<open>True\<close> when a beat has fallen due.\<close>

fun backup_run :: "(nat \<Rightarrow> bool) \<Rightarrow> int list \<Rightarrow> byte list \<Rightarrow> (bool \<times> heart_pkg option) list \<Rightarrow> heart \<Rightarrow> heart option" where
  "backup_run room junk own [] h = Some h"
| "backup_run room junk own ((beat, m) # is) h =
     (case backup_round room junk own m (if beat then h\<lparr>heart_beat := True\<rparr> else h) of
        None \<Rightarrow> None
      | Some h \<Rightarrow> backup_run room junk own is h)"

definition no_query :: "heart_pkg option \<Rightarrow> bool" where
  "no_query m \<longleftrightarrow> (case m of None \<Rightarrow> True | Some p \<Rightarrow> hp_package_type p \<noteq> 1)"

text \<open>What stays the same while the backup server waits.\<close>

definition waits :: "heart \<Rightarrow> heart \<Rightarrow> bool" where
  "waits h h' \<longleftrightarrow> heart_sent h' = heart_sent h \<and> primary_server_online h' = primary_server_online h
     \<and> dev_status_info h' = dev_status_info h \<and> dev_count h' = dev_count h
     \<and> current_dev_name h' = current_dev_name h \<and> current_dev_num h' = current_dev_num h
     \<and> \<not> heart_beat h'"

lemma send_status_beat [frame]: "heart_beat (send_status room h) = heart_beat h"
  by (simp add: send_status_def ZhwSendDevStatusToBCUOrCCU_def Let_def)

lemma backup_round_waits:
  assumes "no_query m" and "\<not> heart_beat h"
    and "0 < primary_server_down h" and "beat \<longrightarrow> 1 < primary_server_down h"
  shows "\<exists>h'. backup_round room junk own m (if beat then h\<lparr>heart_beat := True\<rparr> else h) = Some h'
    \<and> primary_server_down h' = primary_server_down h - (if beat then 1 else 0) \<and> waits h h'"
  using assms
  by (auto simp: backup_round_def backup_beat_def backup_receive_def no_query_def waits_def Let_def frame
      split: option.split)

lemma backup_round_last:
  assumes "\<not> heart_beat h" and "primary_server_down h = 1"
  shows "\<exists>h'. backup_round room junk own None (h\<lparr>heart_beat := True\<rparr>) = Some h'
    \<and> primary_server_down h' = 0 \<and> waits h h'"
  using assms
  by (auto simp: backup_round_def backup_beat_def waits_def Let_def frame)

lemma backup_waiting:
  assumes "\<forall>(b, m) \<in> set is. no_query m" and "\<not> heart_beat h"
    and "int (length (filter fst is)) < primary_server_down h"
  shows "\<exists>h'. backup_run room junk own is h = Some h' \<and> waits h h'
    \<and> primary_server_down h' = primary_server_down h - int (length (filter fst is))"
  using assms
proof (induction "is" arbitrary: h)
  case (Cons i "is")
  obtain b m where i: "i = (b, m)" by fastforce
  have "no_query m" "0 < primary_server_down h" "b \<longrightarrow> 1 < primary_server_down h"
    using Cons.prems by (auto simp: i)
  then obtain h1 where h1: "backup_round room junk own m (if b then h\<lparr>heart_beat := True\<rparr> else h) = Some h1"
    "primary_server_down h1 = primary_server_down h - (if b then 1 else 0)" "waits h h1"
    using backup_round_waits Cons.prems(2) by blast
  have "\<exists>h'. backup_run room junk own is h1 = Some h' \<and> waits h1 h'
    \<and> primary_server_down h' = primary_server_down h1 - int (length (filter fst is))"
    by (rule Cons.IH) (use Cons.prems h1 in \<open>auto simp: i waits_def\<close>)
  with h1 show ?case by (auto simp: i waits_def)
qed (simp add: waits_def)

lemma backup_run_append:
  "backup_run room junk own (xs @ ys) h =
     (case backup_run room junk own xs h of None \<Rightarrow> None | Some h \<Rightarrow> backup_run room junk own ys h)"
proof (induction xs arbitrary: h)
  case (Cons x xs)
  then show ?case by (cases x) (auto split: option.splits)
qed simp

text \<open>A query of the primary server starts the count again.\<close>

lemma backup_query:
  assumes "hp_package_type p = 1"
  shows "\<exists>h'. backup_round room junk own (Some p) h = Some h' \<and> primary_server_down h' = 5
    \<and> primary_server_online h' = 1"
  using assms
  by (simp add: backup_round_def backup_receive_def send_reply_def ZhwClientSendBufferInit_def
      send_heart_def Let_def)

text \<open>The sixth silent beat.\<close>

lemma backup_round_first:
  assumes "primary_server_down h = 0" and "cycle_start h" and "0 < dev_count h BCU" and "room 0"
  shows "\<exists>h' p. backup_round room junk own None (h\<lparr>heart_beat := True\<rparr>) = Some h'
    \<and> primary_server_online h' = 0 \<and> heart_sent h' = heart_sent h @ [p]
    \<and> hp_dst_dev_name p = ''BCU'' \<and> hp_dst_dev_number p = 1 \<and> hp_package_type p = 1"
proof -
  have "current_dev_num h < dev_count h BCU" "current_dev_name h = None \<or> current_dev_name h = Some BCU"
    using assms(2,3) by (auto simp: cycle_start_def)
  moreover have "current_dev_num h = 0" using assms(2) by (simp add: cycle_start_def)
  ultimately show ?thesis
    using assms(1,4)
    by (auto simp: backup_round_def backup_beat_def poll_next_def count_beat_def set_table_def
        send_query_def ZhwServiceSendBufferInit_def send_heart_def frame Let_def)
qed

text \<open>An answer with an old number from a class without devices reads through a null head.\<close>

lemma take_answer_null:
  "class_of (hp_src_dev_name p) = Some c \<Longrightarrow> dev_status_info h c = [] \<Longrightarrow>
    hp_package_number p \<noteq> curr_pkg_number h \<Longrightarrow> take_answer p h = None"
  by (simp add: take_answer_def)

section \<open>Properties\<close>



text \<open>After power-up the first device of each class has three cycles to answer, but every other
  one is shown off line as soon as it is asked for the first time: the loop that builds the
  tables sets the head's counter again instead of theirs.
\<close>

lemma startup_offline:
  assumes "\<forall>c. 0 \<le> cnt c" and "c \<noteq> CCU" and "i < nat (cnt c)"
  shows "\<exists>h. silent_beats junk (cycle_beats cnt) (heart_init name no cnt) = Some h
    \<and> online (dn_info (dev_status_info h c ! i)) = (if i = 0 then 1 else 0)"
proof -
  define h0 where "h0 = heart_init name no cnt"
  have c: "dev_count h0 = cnt" by (simp add: h0_def heart_init_def)
  obtain h where h: "silent_beats junk (cycle_beats cnt) h0 = Some h"
    "dev_status_info h c = map poll_node (dev_status_info h0 c)"
    using silent_cycle [OF cycle_start_init [OF assms(1), of name no], of junk] assms(2) c
    by (auto simp: h0_def)
  have t: "dev_status_info h0 c = new_node 2 1 # map (new_node 0) [2..cnt c]"
    using assms(3) by (simp add: h0_def heart_init_def ZhwDevStatusBufferInit_def)
  have "online (dn_info (map poll_node (dev_status_info h0 c) ! i)) = (if i = 0 then 1 else 0)"
    using assms(3) unfolding t
    by (cases i) (auto simp: poll_node_def new_node_def)
  with h show ?thesis by (auto simp: h0_def)
qed

text \<open>C34: The backup server asks nobody and changes no table during five beats without a query of
  the primary server, whatever else arrives in the first four; at the sixth it takes the
  primary server for off line and asks the first BCU.
\<close>

theorem backup_takeover:
  assumes "primary_server_down h = 5" and "\<not> heart_beat h" and "room 0"
    and "\<forall>(b, m) \<in> set is. no_query m" and "length (filter fst is) = 4"
    and "cycle_start h" and "0 < dev_count h BCU"
  shows "\<exists>h5 h6 p. backup_run room junk own (is @ [(True, None)]) h = Some h5 \<and> waits h h5
    \<and> backup_run room junk own (is @ [(True, None), (True, None)]) h = Some h6
    \<and> primary_server_online h6 = 0 \<and> heart_sent h6 = heart_sent h @ [p]
    \<and> hp_dst_dev_name p = ''BCU'' \<and> hp_dst_dev_number p = 1 \<and> hp_package_type p = 1"
proof -
  obtain h4 where h4: "backup_run room junk own is h = Some h4" "waits h h4" "primary_server_down h4 = 1"
    using backup_waiting [OF assms(4,2), of room junk own] assms(1,5) by auto
  have beat: "\<not> heart_beat h4" using h4(2) by (simp add: waits_def)
  obtain h5 where h5: "backup_round room junk own None (h4\<lparr>heart_beat := True\<rparr>) = Some h5"
    "primary_server_down h5 = 0" "waits h4 h5"
    using backup_round_last [OF beat h4(3), of room junk own] by blast
  have w: "waits h h5" using h4(2) h5(3) by (simp add: waits_def)
  then have "cycle_start h5" "0 < dev_count h5 BCU"
    using assms(6,7) by (simp_all add: waits_def cycle_start_def)
  then obtain h6 p where "backup_round room junk own None (h5\<lparr>heart_beat := True\<rparr>) = Some h6"
    "primary_server_online h6 = 0" "heart_sent h6 = heart_sent h5 @ [p]"
    "hp_dst_dev_name p = ''BCU'' \<and> hp_dst_dev_number p = 1 \<and> hp_package_type p = 1"
    using backup_round_first [OF h5(2), of room] assms(3) by blast
  with h4 h5 w show ?thesis by (auto simp: backup_run_append waits_def)
qed

theorem backup_takeover_witness:
  "\<exists>h6. backup_run (\<lambda>_. True) [] [] (replicate 4 (True, None) @ [(True, None), (True, None)])
      (heart_init ''CCU'' 2 (\<lambda>_. 2)) = Some h6 \<and> primary_server_online h6 = 0"
proof -
  have "cycle_start (heart_init ''CCU'' 2 (\<lambda>_. 2))" by (rule cycle_start_init) simp
  moreover have "primary_server_down (heart_init ''CCU'' 2 (\<lambda>_. 2)) = 5"
    "\<not> heart_beat (heart_init ''CCU'' 2 (\<lambda>_. 2))" "0 < dev_count (heart_init ''CCU'' 2 (\<lambda>_. 2)) BCU"
    by (simp_all add: heart_init_def)
  moreover have "\<forall>(b, m) \<in> set (replicate 4 (True, None)). no_query m" by (simp add: no_query_def)
  moreover have "length (filter fst (replicate 4 (True, None :: heart_pkg option))) = 4"
    by (simp add: numeral_eq_Suc)
  ultimately show ?thesis using backup_takeover [where h = "heart_init ''CCU'' 2 (\<lambda>_. 2)" and room = "\<lambda>_. True"]
    by blast
qed

end
