(* ===== verification/Dev_Table.thy ===== *)
theory Dev_Table
  imports Heart_Beat
begin

text \<open>
  The table of devices (\<open>network/zhw_dev_config_info.cxx\<close>): who is on the network and at which
  address. It is filled from the constant table of \<open>network/zhw_read_from_db_test.cxx\<close> when the
  unit starts (\<open>BCU_DEV\<close> is defined), rows that the CCU sends replace or extend it, and every
  sender looks the address of a receiver up by name, by type or by role.

  The table is a linked list whose first node stays zeroed, here a list of nodes; \<open>row\<close> is the
  number of the others. A zeroed node has null pointers for name and address, and the code
  compares strings with them: what it finds there is the C string at address 0. That string,
  and two more things the code reads without having set them, are the record \<open>undef\<close>.
\<close>

section \<open>State\<close>

text \<open>
  \<open>at_null\<close> is the string at address 0, \<open>after_b\<close> the bytes that follow the local variable \<open>b\<close>,
  \<open>i_init\<close> the value that \<open>i\<close> happens to have on entry.
\<close>

record undef =
  at_null :: string
  after_b :: "byte list"
  i_init :: int

record global_info =
  dev_name :: "string option"
  dev_type :: int
  gi_number :: int
  dev_ip :: "string option"
  dev_mac :: "byte list"
  is_server :: int

record dev_table =
  global_array :: "global_info list"
  row :: int

record ip_mac_item =
  device_name :: "char list"
  device_type :: byte
  device_no :: byte
  ip_address :: "char list"
  mac_address :: "byte list"
  server_whether :: byte

definition zeroed :: global_info where
  "zeroed = \<lparr>dev_name = None, dev_type = 0, gi_number = 0, dev_ip = None,
     dev_mac = replicate 6 0, is_server = 0\<rparr>"

section \<open>The table at start-up\<close>

text \<open>An array of \<open>n\<close> cells with an initialiser.\<close>

definition c_array :: "nat \<Rightarrow> 'a \<Rightarrow> 'a list \<Rightarrow> 'a list" where
  "c_array n z xs = take n xs @ replicate (n - length xs) z"

definition item :: "string \<Rightarrow> byte \<Rightarrow> byte \<Rightarrow> string \<Rightarrow> byte list \<Rightarrow> byte \<Rightarrow> ip_mac_item" where
  "item nm ty no ip mac sv =
     \<lparr>device_name = c_array 10 NUL nm, device_type = ty, device_no = no,
      ip_address = c_array 20 NUL ip, mac_address = c_array 50 0 mac, server_whether = sv\<rparr>"

text \<open>The local table; \<open>MUL_SYNC_DST_NO\<close> is 251, \<open>BCU_CMU_CAR_CONNECT_PACKAGE\<close> 231.\<close>

definition device_info :: "ip_mac_item list" where
  "device_info =
    [
     item ''EAMP'' 7 230 ''230.10.10.77'' [] 0,
     item ''EAMP'' 7 231 ''230.10.10.66'' [] 0,
     item ''EAMP'' 7 1 ''192.168.10.120'' [0x0, 0x90, 0x27, 0x8c, 0x57, 0x20] 0,
     item ''EAMP'' 7 2 ''192.168.10.121'' [0x0, 0x90, 0x27, 0x8c, 0x57, 0x21] 0,
     item ''EAMP'' 7 3 ''192.168.10.122'' [0x0, 0x90, 0x27, 0x8c, 0x57, 0x22] 0,
     item ''EAMP'' 7 4 ''192.168.10.123'' [0x0, 0x90, 0x27, 0x8c, 0x57, 0x23] 0,
     item ''EAMP'' 7 5 ''192.168.10.124'' [0x0, 0x90, 0x27, 0x8c, 0x57, 0x24] 0,
     item ''EAMP'' 7 6 ''192.168.10.125'' [0x0, 0x90, 0x27, 0x8c, 0x57, 0x25] 0,
     item ''EAMP'' 7 200 ''192.168.10.207'' [] 0,
     item ''PCU'' 1 1 ''192.168.10.140'' [0x0, 0x90, 0x27, 0x8c, 0x57, 0x40] 0,
     item ''PCU'' 1 2 ''192.168.10.141'' [0x0, 0x90, 0x27, 0x8c, 0x57, 0x41] 0,
     item ''PCU'' 1 3 ''192.168.10.142'' [0x0, 0x90, 0x27, 0x8c, 0x57, 0x42] 0,
     item ''PCU'' 1 4 ''192.168.10.143'' [0x0, 0x90, 0x27, 0x8c, 0x57, 0x43] 0,
     item ''PCU'' 1 5 ''192.168.10.144'' [0x0, 0x90, 0x27, 0x8c, 0x57, 0x44] 0,
     item ''PCU'' 1 6 ''192.168.10.145'' [0x0, 0x90, 0x27, 0x8c, 0x57, 0x45] 0,
     item ''PCU'' 1 7 ''192.168.10.146'' [0x0, 0x90, 0x27, 0x8c, 0x57, 0x46] 0,
     item ''PCU'' 1 8 ''192.168.10.147'' [0x0, 0x90, 0x27, 0x8c, 0x57, 0x47] 0,
     item ''PCU'' 1 9 ''192.168.10.148'' [0x0, 0x90, 0x27, 0x8c, 0x57, 0x48] 0,
     item ''PCU'' 1 10 ''192.168.10.149'' [0x0, 0x90, 0x27, 0x8c, 0x57, 0x49] 0,
     item ''PCU'' 1 11 ''192.168.10.150'' [0x0, 0x90, 0x27, 0x8c, 0x57, 0x50] 0,
     item ''PCU'' 1 12 ''192.168.10.151'' [0x0, 0x90, 0x27, 0x8c, 0x57, 0x51] 0,
     item ''PCU'' 1 200 ''192.168.10.201'' [] 0,
     item ''BCU'' 3 1 ''192.168.10.110'' [0x0, 0x90, 0x27, 0x8c, 0x57, 0x10] 0,
     item ''BCU'' 3 2 ''192.168.10.111'' [0x0, 0x90, 0x27, 0x8c, 0x57, 0x11] 0,
     item ''BCU'' 3 200 ''192.168.10.203'' [] 0,
     item ''CCU'' 5 1 ''192.168.10.113'' [0x0, 0x90, 0x27, 0x8c, 0x57, 0x13] 1,
     item ''CCU'' 5 2 ''192.168.10.114'' [0x0, 0x90, 0x27, 0x8c, 0x57, 0x14] 2,
     item ''CCU'' 5 200 ''192.168.10.205'' [] 0,
     item ''CMU'' 0 1 ''192.168.10.130'' [0x0, 0x90, 0x27, 0x8c, 0x57, 0x30] 0,
     item ''CMU'' 0 2 ''192.168.10.131'' [0x0, 0x90, 0x27, 0x8c, 0x57, 0x31] 0,
     item ''CMU'' 0 232 ''230.10.10.45'' [] 0,
     item ''CMU'' 0 200 ''192.168.10.200'' [] 0,
     item ''CMU'' 0 230 ''230.10.10.58'' [] 0,
     item ''HEART'' 8 230 ''230.10.10.88'' [] 0,
     item ''HEART'' 8 231 ''230.10.10.89'' [] 0,
     item ''PCU'' 1 230 ''230.10.10.22'' [] 0,
     item ''CC'' 8 230 ''192.168.10.200'' [] 0,
     item ''PC'' 8 230 ''230.10.10.57'' [] 0,
     item ''BCU'' 3 230 ''230.10.10.55'' [] 0,
     item ''CCU'' 5 230 ''230.10.10.44'' [] 0,
     item ''BCU'' 3 251 ''230.10.10.100'' [] 0,
     item ''CCU'' 5 251 ''230.10.10.101'' [] 0,
     item ''EAMP'' 7 251 ''230.10.10.102'' [] 0,
     item ''PCU'' 1 251 ''230.10.10.103'' [] 0,
     item ''CMU'' 0 231 ''230.10.10.86'' [] 0]"

definition local_row :: "ip_mac_item \<Rightarrow> global_info" where
  "local_row p =
     \<lparr>dev_name = Some (c_str (device_name p)), dev_type = uint (device_type p),
      gi_number = uint (device_no p), dev_ip = Some (c_str (ip_address p)),
      dev_mac = take 6 (mac_address p), is_server = uint (server_whether p)\<rparr>"

definition InitGlobalArray :: "ip_mac_item list \<Rightarrow> dev_table" where
  "InitGlobalArray pts = \<lparr>global_array = zeroed # map local_row pts, row = int (length pts)\<rparr>"

section \<open>The address in a row from the CCU\<close>

text \<open>The text of a hardware address is cut at its commas.\<close>

definition c_bytes :: "byte list \<Rightarrow> byte list" where
  "c_bytes s = takeWhile (\<lambda>c. c \<noteq> 0) s"

fun digits_val :: "int \<Rightarrow> byte list \<Rightarrow> int" where
  "digits_val v [] = v"
| "digits_val v (c # cs) = (if 48 \<le> c \<and> c \<le> 57 then digits_val (10 * v + (uint c - 48)) cs else v)"

definition c_atoi :: "byte list \<Rightarrow> int" where
  "c_atoi s =
     (case dropWhile (\<lambda>c. c = 32 \<or> 9 \<le> c \<and> c \<le> 13) s of
        [] \<Rightarrow> 0
      | c # cs \<Rightarrow> if c = 45 then - digits_val 0 cs else if c = 43 then digits_val 0 cs
                 else digits_val 0 (c # cs))"

text \<open>
  One piece: \<open>len\<close> is the length the code computes, \<open>s\<close> the text from the piece on. Two
  characters are read as two digits, one goes through \<open>atoi\<close>, which reads on behind the
  variable that holds it.
\<close>

definition mac_piece :: "byte list \<Rightarrow> int \<Rightarrow> byte list \<Rightarrow> byte option" where
  "mac_piece aft len s =
     (let at = (\<lambda>k. if k < length s then s ! k else 0) in
      if len = 2 then Some (16 * (at 0 - 48) + (at 1 - 48))
      else if len = 1 then Some (word_of_int (c_atoi (at 0 # aft)))
      else None)"

text \<open>
  The loop. The piece behind the last comma is measured against \<open>strlen(NULL)\<close>. A write below
  the array is \<open>None\<close>.
\<close>

function mac_loop :: "undef \<Rightarrow> int \<Rightarrow> byte list \<Rightarrow> byte list \<Rightarrow> byte list option" where
  "mac_loop u i mac s =
     (let e = dropWhile (\<lambda>c. c \<noteq> 44) s;
          len = int (length s) - int (if e = [] then length (at_null u) else length e);
          p = mac_piece (after_b u) len s;
          i' = (if i < 6 then i + 1 else i)
      in if i < 0 \<and> p \<noteq> None then None
         else let mac' = (if i < 6 then case p of Some v \<Rightarrow> mac[nat i := v] | None \<Rightarrow> mac else mac)
              in if e = [] then Some mac' else mac_loop u i' mac' (tl e))"
  by pat_completeness auto
termination
proof (relation "measure (\<lambda>(u, i, mac, s). length s)")
  fix s e :: "byte list"
  assume e: "e = dropWhile (\<lambda>c. c \<noteq> 44) s" and "e \<noteq> []"
  have "length e \<le> length s"
    unfolding e by (rule length_dropWhile_le)
  with \<open>e \<noteq> []\<close> have "length (tl e) < length s" by (cases e) auto
  then show "((u, i', mac', tl e), (u, i, mac, s)) \<in> measure (\<lambda>(u, i, mac, s). length s)"
    for u i i' mac mac' by simp
qed simp

declare mac_loop.simps [simp del]

section \<open>Updating a row\<close>

text \<open>\<open>strcpy\<close> from an array; an array without a terminator is read past its end, \<open>None\<close>.\<close>

definition c_strcpy :: "char list \<Rightarrow> string option" where
  "c_strcpy src = (if NUL \<in> set src then Some (c_str src) else None)"

definition overwrite_row :: "undef \<Rightarrow> ip_mac_item \<Rightarrow> global_info \<Rightarrow> global_info option" where
  "overwrite_row u p g =
     (if dev_name g = None then None
      else case c_strcpy (device_name p) of
        None \<Rightarrow> None
      | Some nm \<Rightarrow> (case c_strcpy (ip_address p) of
          None \<Rightarrow> None
        | Some ip \<Rightarrow> (case mac_loop u (i_init u) (dev_mac g) (c_bytes (mac_address p)) of
            None \<Rightarrow> None
          | Some mac \<Rightarrow> Some (g\<lparr>is_server := uint (server_whether p), dev_name := Some nm,
              dev_ip := Some ip, dev_mac := mac\<rparr>))))"

definition new_row :: "undef \<Rightarrow> ip_mac_item \<Rightarrow> global_info option" where
  "new_row u p =
     overwrite_row u p (zeroed\<lparr>gi_number := uint (device_no p), dev_type := uint (device_type p),
       dev_name := Some [], dev_ip := Some []\<rparr>)"

text \<open>Where the first row with a type and a number is.\<close>

fun find_row :: "int \<Rightarrow> int \<Rightarrow> global_info list \<Rightarrow> nat option" where
  "find_row ty n [] = None"
| "find_row ty n (g # gs) =
     (if dev_type g = ty \<and> gi_number g = n then Some 0 else map_option Suc (find_row ty n gs))"

text \<open>
  The answer is 1 for a replaced row, 2 for a new one, 0 when there is no memory for it (\<open>ok\<close>
  tells) -- by then \<open>row\<close> has been counted up.
\<close>

definition ZhwUpdateBCUIpArray ::
  "undef \<Rightarrow> bool \<Rightarrow> ip_mac_item \<Rightarrow> dev_table \<Rightarrow> (int \<times> dev_table) option" where
  "ZhwUpdateBCUIpArray u ok p t =
     (if global_array t = [] then None
      else case find_row (uint (device_type p)) (uint (device_no p)) (global_array t) of
        Some k \<Rightarrow> map_option (\<lambda>g. (1, t\<lparr>global_array := (global_array t)[k := g]\<rparr>))
                    (overwrite_row u p (global_array t ! k))
      | None \<Rightarrow>
          if ok then map_option (\<lambda>g. (2, \<lparr>global_array = global_array t @ [g], row = row t + 1\<rparr>))
                       (new_row u p)
          else Some (0, t\<lparr>row := row t + 1\<rparr>))"

section \<open>Looking a device up\<close>

text \<open>
  A search visits a number of nodes. When none fits, the struct that it returns is left
  unset: \<open>Missed\<close>; \<open>Past_end\<close> is a read through the null pointer behind the last node.
\<close>

datatype found = Found global_info | Missed | Past_end

fun walk :: "(global_info \<Rightarrow> bool) \<Rightarrow> nat \<Rightarrow> global_info list \<Rightarrow> found" where
  "walk P 0 gs = Missed"
| "walk P (Suc n) [] = Past_end"
| "walk P (Suc n) (g # gs) = (if P g then Found g else walk P n gs)"

definition str_at :: "undef \<Rightarrow> string option \<Rightarrow> string" where
  "str_at u s = (case s of None \<Rightarrow> at_null u | Some s' \<Rightarrow> s')"

definition ResolveUseType :: "int \<Rightarrow> int \<Rightarrow> dev_table \<Rightarrow> found" where
  "ResolveUseType ty n t =
     walk (\<lambda>g. ty = dev_type g \<and> n = gi_number g) (nat (row t)) (global_array t)"

definition ResolveUseName :: "undef \<Rightarrow> string \<Rightarrow> int \<Rightarrow> dev_table \<Rightarrow> found" where
  "ResolveUseName u nm n t =
     walk (\<lambda>g. nm = str_at u (dev_name g) \<and> n = gi_number g) (nat (row t + 1)) (global_array t)"

definition ResolveUseIp :: "undef \<Rightarrow> string \<Rightarrow> dev_table \<Rightarrow> found" where
  "ResolveUseIp u ip t =
     walk (\<lambda>g. ip = str_at u (dev_ip g)) (nat (row t + 1)) (global_array t)"

definition ResolveUseServerNumber :: "int \<Rightarrow> dev_table \<Rightarrow> found" where
  "ResolveUseServerNumber a t =
     walk (\<lambda>g. is_server g = a) (nat (row t + 1)) (global_array t)"

definition ReadGlobalArray ::
  "undef \<Rightarrow> int \<Rightarrow> string option \<Rightarrow> int \<Rightarrow> int \<Rightarrow> dev_table \<Rightarrow> found" where
  "ReadGlobalArray u ty nm n how t =
     (if how = 1 then if ty < 0 then Missed else ResolveUseType ty n t
      else if how = 2 then (case nm of None \<Rightarrow> Missed | Some s \<Rightarrow> ResolveUseName u s n t)
      else if how = 3 then (case nm of None \<Rightarrow> Missed | Some s \<Rightarrow> ResolveUseIp u s t)
      else Missed)"

definition zhw_server_info :: "int \<Rightarrow> dev_table \<Rightarrow> found" where
  "zhw_server_info a t =
     (if a = 1 \<or> a = 2 then ResolveUseServerNumber a t else Found zeroed)"

text \<open>How many devices have a name; \<open>None\<close> when the search leaves the list.\<close>

fun count_walk :: "(global_info \<Rightarrow> bool) \<Rightarrow> nat \<Rightarrow> global_info list \<Rightarrow> int option" where
  "count_walk P 0 gs = Some 0"
| "count_walk P (Suc n) [] = None"
| "count_walk P (Suc n) (g # gs) =
     map_option (\<lambda>k. if P g then k + 1 else k) (count_walk P n gs)"

definition ZhwGetDevNumber :: "undef \<Rightarrow> string \<Rightarrow> dev_table \<Rightarrow> int option" where
  "ZhwGetDevNumber u nm t =
     map_option (\<lambda>k. if k > 0 then k else - 1)
       (count_walk (\<lambda>g. nm = str_at u (dev_name g) \<and> 0 < gi_number g \<and> gi_number g < 200)
          (nat (row t)) (global_array t))"

section \<open>Which device this is\<close>

text \<open>
  The switches are read through a port, \<open>con\<close>; \<open>low\<close> is \<open>LOW_TEST\<close>, which
  \<open>zhw_dev_config_info.h\<close> sets to 1 unless the build does.
\<close>

definition switch_number :: "(int \<times> int) list \<Rightarrow> int \<Rightarrow> int" where
  "switch_number tab k = (case map_of tab k of Some n \<Rightarrow> n | None \<Rightarrow> 0)"

definition pcu_switch :: "(int \<times> int) list" where
  "pcu_switch = [(248, 1), (232, 2), (216, 3), (200, 4), (184, 5), (168, 6), (152, 7), (136, 8),
     (120, 9), (104, 10), (88, 11), (72, 12), (56, 13), (40, 14), (24, 15), (8, 16)]"

definition eamp_switch :: "(int \<times> int) list" where
  "eamp_switch = [(240, 1), (232, 2), (216, 3), (184, 4), (120, 5), (112, 6)]"

definition ReadFromIO :: "bool \<Rightarrow> byte \<Rightarrow> int \<times> int" where
  "ReadFromIO low con =
     (if low then (3, 1)
      else let ty = uint (and con 0x07); k = uint (and con 0xf8) in
        if ty = 0 \<or> ty = 5 then (ty, switch_number [(0, 1), (128, 2)] k)
        else if ty = 1 then (ty, switch_number pcu_switch k)
        else if ty = 3 then (ty, switch_number [(0, 1), (8, 2)] k)
        else if ty = 7 then (ty, switch_number eamp_switch k)
        else (0, k))"

text \<open>What the start-up takes over (\<open>bcu_config.cxx\<close>).\<close>

definition GetOtherDeviceNo :: "int \<Rightarrow> int" where
  "GetOtherDeviceNo n = (if n = 1 then 2 else 1)"

definition local_info :: "undef \<Rightarrow> int \<times> int \<Rightarrow> dev_table \<Rightarrow> found" where
  "local_info u io t = ReadGlobalArray u (fst io) None (snd io) 1 t"

text \<open>Which of the loops of the heart-beat the device runs.\<close>

datatype heart_role = Client | Primary | Backup

definition ZhwHeartModule :: "global_info \<Rightarrow> heart_role option" where
  "ZhwHeartModule g =
     (if is_server g = 0 then Some Client else if is_server g = 1 then Some Primary
      else if is_server g = 2 then Some Backup else None)"

section \<open>What the table keeps\<close>

text \<open>The head is zeroed, \<open>row\<close> counts the others, every other node has its strings.\<close>

definition row_ok :: "global_info \<Rightarrow> bool" where
  "row_ok g \<longleftrightarrow> dev_name g \<noteq> None \<and> dev_ip g \<noteq> None \<and> \<not> (dev_type g = 0 \<and> gi_number g = 0)"

definition table_ok :: "dev_table \<Rightarrow> bool" where
  "table_ok t \<longleftrightarrow>
     (\<exists>gs. global_array t = zeroed # gs \<and> row t = int (length gs) \<and> list_all row_ok gs)"

definition item_ok :: "ip_mac_item \<Rightarrow> bool" where
  "item_ok p \<longleftrightarrow> NUL \<in> set (device_name p) \<and> NUL \<in> set (ip_address p) \<and>
     \<not> (device_type p = 0 \<and> device_no p = 0)"

lemma table_okE:
  assumes "table_ok t"
  obtains gs where "global_array t = zeroed # gs" "row t = int (length gs)" "list_all row_ok gs"
  using assms by (auto simp: table_ok_def)

lemma init_ok: "list_all item_ok pts \<Longrightarrow> table_ok (InitGlobalArray pts)"
  by (auto simp: table_ok_def InitGlobalArray_def list_all_iff item_ok_def local_row_def row_ok_def
        unsigned_eq_0_iff)

lemma device_info_ok: "list_all item_ok device_info"
  by (simp add: device_info_def item_def item_ok_def c_array_def)

text \<open>What a table tells its readers: name, address and role under type and number.\<close>

definition key_of :: "global_info \<Rightarrow> int \<times> int" where
  "key_of g = (dev_type g, gi_number g)"

definition dev_view :: "dev_table \<Rightarrow> int \<times> int \<rightharpoonup> string option \<times> string option \<times> int" where
  "dev_view t =
     map_of (map (\<lambda>g. (key_of g, dev_name g, dev_ip g, is_server g)) (tl (global_array t)))"

definition item_key :: "ip_mac_item \<Rightarrow> int \<times> int" where
  "item_key p = (uint (device_type p), uint (device_no p))"

definition item_val :: "ip_mac_item \<Rightarrow> string option \<times> string option \<times> int" where
  "item_val p = (Some (c_str (device_name p)), Some (c_str (ip_address p)),
     uint (server_whether p))"

lemma mac_loop_total: "0 \<le> i \<Longrightarrow> \<exists>mac'. mac_loop u i mac s = Some mac' \<and> length mac' = length mac"
proof (induction u i mac s rule: mac_loop.induct)
  case (1 u i mac s)
  define e where "e = dropWhile (\<lambda>c. c \<noteq> 44) s"
  define p where "p = mac_piece (after_b u)
    (int (length s) - int (if e = [] then length (at_null u) else length e)) s"
  define mac' where "mac' =
    (if i < 6 then case p of Some v \<Rightarrow> mac[nat i := v] | None \<Rightarrow> mac else mac)"
  have step: "mac_loop u i mac s =
      (if e = [] then Some mac' else mac_loop u (if i < 6 then i + 1 else i) mac' (tl e))"
    using "1.prems" unfolding e_def p_def mac'_def
    by (subst mac_loop.simps) (simp only: Let_def not_less [symmetric] simp_thms if_False)
  have len: "length mac' = length mac" by (simp add: mac'_def split: option.split)
  show ?case
  proof (cases "e = []")
    case False
    have "\<not> (i < 0 \<and> p \<noteq> None)" using "1.prems" by simp
    from "1.IH" [OF e_def refl _ refl _ _ False, of p mac'] this "1.prems"
    show ?thesis using step len False by (simp add: p_def mac'_def)
  qed (use step len in simp)
qed

lemma overwrite_row_some:
  assumes "item_ok p" "0 \<le> i_init u" "dev_name g \<noteq> None"
  obtains g' where "overwrite_row u p g = Some g'" "key_of g' = key_of g"
    "(dev_name g', dev_ip g', is_server g') = item_val p"
proof -
  obtain mac where "mac_loop u (i_init u) (dev_mac g) (c_bytes (mac_address p)) = Some mac"
    using mac_loop_total [OF assms(2)] by blast
  then show thesis
    using assms that by (auto simp: overwrite_row_def c_strcpy_def item_ok_def key_of_def item_val_def)
qed

lemma find_row_None: "find_row ty n gs = None \<longleftrightarrow> (ty, n) \<notin> key_of ` set gs"
  by (induction gs) (auto simp: key_of_def)

lemma find_row_Some:
  "find_row ty n gs = Some k \<Longrightarrow> k < length gs \<and> key_of (gs ! k) = (ty, n)"
  by (induction gs arbitrary: k) (auto simp: key_of_def split: if_splits)

lemma find_row_update:
  "find_row ty n gs = Some k \<Longrightarrow> key_of g = (ty, n) \<Longrightarrow>
    map_of (map (\<lambda>g. (key_of g, f g)) (gs[k := g])) = (map_of (map (\<lambda>g. (key_of g, f g)) gs))((ty, n) \<mapsto> f g)"
proof (induction gs arbitrary: k)
  case (Cons a gs)
  show ?case
  proof (cases "key_of a = (ty, n)")
    case True
    then have "k = 0" using Cons.prems(1) by (auto simp: key_of_def)
    then show ?thesis using True Cons.prems(2) by (simp add: fun_eq_iff)
  next
    case False
    then obtain j where "find_row ty n gs = Some j" "k = Suc j"
      using Cons.prems(1) by (auto simp: key_of_def split: if_splits)
    then show ?thesis using Cons.IH Cons.prems(2) False by (auto simp: fun_eq_iff)
  qed
qed simp

lemma map_of_append_new:
  "k \<notin> fst ` set xs \<Longrightarrow> map_of (xs @ [(k, v)]) = (map_of xs)(k \<mapsto> v)"
  by (induction xs) (auto simp: fun_upd_twist)

lemma find_row_zeroed: "item_ok p \<Longrightarrow>
    find_row (uint (device_type p)) (uint (device_no p)) (zeroed # gs) =
      map_option Suc (find_row (uint (device_type p)) (uint (device_no p)) gs)"
  by (auto simp: item_ok_def zeroed_def unsigned_eq_0_iff)

lemma item_key_nonzero: "item_ok p \<Longrightarrow> item_key p \<noteq> (0, 0)"
  by (auto simp: item_ok_def item_key_def unsigned_eq_0_iff)

text \<open>The two ways of an update: the row is new, or it is the first with its type and number.\<close>

lemma update_new:
  assumes "item_ok p" "0 \<le> i_init u" "global_array t = zeroed # gs" "item_key p \<notin> key_of ` set gs"
  obtains g where "ZhwUpdateBCUIpArray u True p t = Some (2, \<lparr>global_array = zeroed # gs @ [g], row = row t + 1\<rparr>)"
    "key_of g = item_key p" "(dev_name g, dev_ip g, is_server g) = item_val p" "row_ok g"
proof -
  obtain g where g: "new_row u p = Some g" "key_of g = item_key p"
      "(dev_name g, dev_ip g, is_server g) = item_val p"
    using overwrite_row_some [OF assms(1,2), of "zeroed\<lparr>gi_number := uint (device_no p),
        dev_type := uint (device_type p), dev_name := Some [], dev_ip := Some []\<rparr>"]
    by (auto simp: new_row_def key_of_def item_key_def)
  have "key_of g \<noteq> (0, 0)" using g item_key_nonzero [OF assms(1)] by simp
  then have "row_ok g" using g(3) by (auto simp: row_ok_def key_of_def item_val_def)
  moreover have "find_row (uint (device_type p)) (uint (device_no p)) gs = None"
    using assms(4) by (simp add: find_row_None item_key_def)
  then have "find_row (uint (device_type p)) (uint (device_no p)) (global_array t) = None"
    using find_row_zeroed [OF assms(1), of gs] assms(3) by simp
  ultimately show thesis
    using that g assms(3) by (simp add: ZhwUpdateBCUIpArray_def)
qed

lemma update_old:
  assumes "item_ok p" "0 \<le> i_init u" "global_array t = zeroed # gs" "list_all row_ok gs"
    "item_key p \<in> key_of ` set gs"
  obtains k g where "find_row (uint (device_type p)) (uint (device_no p)) gs = Some k" "k < length gs"
    "ZhwUpdateBCUIpArray u True p t = Some (1, t\<lparr>global_array := zeroed # gs[k := g]\<rparr>)"
    "key_of g = item_key p" "(dev_name g, dev_ip g, is_server g) = item_val p" "row_ok g"
proof -
  obtain k where k: "find_row (uint (device_type p)) (uint (device_no p)) gs = Some k"
    using assms(5) find_row_None [of "uint (device_type p)" "uint (device_no p)" gs]
    by (auto simp: item_key_def)
  have kl: "k < length gs" "key_of (gs ! k) = item_key p"
    using find_row_Some [OF k] by (auto simp: item_key_def)
  have "row_ok (gs ! k)" using assms(4) kl(1) by (simp add: list_all_length)
  then obtain g where g: "overwrite_row u p (gs ! k) = Some g" "key_of g = key_of (gs ! k)"
      "(dev_name g, dev_ip g, is_server g) = item_val p"
    using overwrite_row_some [OF assms(1,2), of "gs ! k"] by (auto simp: row_ok_def)
  have "key_of g \<noteq> (0, 0)" using g kl item_key_nonzero [OF assms(1)] by simp
  then have "row_ok g" using g(3) by (auto simp: row_ok_def key_of_def item_val_def)
  moreover have "find_row (uint (device_type p)) (uint (device_no p)) (global_array t) = Some (Suc k)"
    using find_row_zeroed [OF assms(1), of gs] assms(3) k by simp
  ultimately show thesis
    using that g k kl assms(3) by (simp add: ZhwUpdateBCUIpArray_def)
qed

lemma update_view:
  assumes "table_ok t" "item_ok p" "0 \<le> i_init u"
  shows "\<exists>k t'. ZhwUpdateBCUIpArray u True p t = Some (k, t') \<and> table_ok t' \<and>
      dev_view t' = (dev_view t)(item_key p \<mapsto> item_val p)"
proof -
  obtain gs where gs: "global_array t = zeroed # gs" "row t = int (length gs)" "list_all row_ok gs"
    using assms(1) by (rule table_okE)
  let ?entry = "\<lambda>g. (key_of g, dev_name g, dev_ip g, is_server g)"
  show ?thesis
  proof (cases "item_key p \<in> key_of ` set gs")
    case False
    from update_new [OF assms(2,3) gs(1) False] obtain g where
      g: "ZhwUpdateBCUIpArray u True p t = Some (2, \<lparr>global_array = zeroed # gs @ [g], row = row t + 1\<rparr>)"
      "key_of g = item_key p" "(dev_name g, dev_ip g, is_server g) = item_val p" "row_ok g" .
    have "item_key p \<notin> fst ` set (map ?entry gs)" using False by (auto simp: image_image)
    from map_of_append_new [OF this, of "item_val p"] g gs show ?thesis
      by (auto simp: table_ok_def dev_view_def simp del: map_of_append)
  next
    case True
    from update_old [OF assms(2,3) gs(1,3) True] obtain k g where
      k: "find_row (uint (device_type p)) (uint (device_no p)) gs = Some k" "k < length gs"
      and g: "ZhwUpdateBCUIpArray u True p t = Some (1, t\<lparr>global_array := zeroed # gs[k := g]\<rparr>)"
      "key_of g = item_key p" "(dev_name g, dev_ip g, is_server g) = item_val p" "row_ok g" .
    have "list_all row_ok (gs[k := g])"
      using gs(3) g(4) by (auto simp: list_all_iff dest!: set_update_subset_insert [THEN subsetD])
    with find_row_update [OF k(1), of g "\<lambda>g. (dev_name g, dev_ip g, is_server g)"] g gs
    show ?thesis by (auto simp: table_ok_def dev_view_def item_key_def)
  qed
qed

section \<open>The table as an address book\<close>

text \<open>
  The interface of a book of entries that is filled one message at a time: an accepted message
  sets the entry under its key and no other. A client that sends a whole table finds in the
  book the last message for every key, and what was there before under the other keys.
\<close>

locale address_book =
  fixes wf :: "'t \<Rightarrow> bool"
    and view :: "'t \<Rightarrow> 'k \<rightharpoonup> 'v"
    and put :: "'r \<Rightarrow> 't \<Rightarrow> 't option"
    and accepted :: "'r \<Rightarrow> bool"
    and key :: "'r \<Rightarrow> 'k"
    and val :: "'r \<Rightarrow> 'v"
  assumes put_sets: "wf t \<Longrightarrow> accepted r \<Longrightarrow>
    \<exists>t'. put r t = Some t' \<and> wf t' \<and> view t' = (view t)(key r \<mapsto> val r)"
begin

lemma put_all:
  "wf t \<Longrightarrow> list_all accepted rs \<Longrightarrow>
    \<exists>t'. foldl (\<lambda>s r. Option.bind s (put r)) (Some t) rs = Some t' \<and> wf t' \<and>
      view t' = view t ++ map_of (rev (map (\<lambda>r. (key r, val r)) rs))"
proof (induction rs rule: rev_induct)
  case (snoc r rs)
  then obtain t1 where t1: "foldl (\<lambda>s r. Option.bind s (put r)) (Some t) rs = Some t1" "wf t1"
      "view t1 = view t ++ map_of (rev (map (\<lambda>r. (key r, val r)) rs))"
    by auto
  with put_sets [of t1 r] snoc.prems show ?case by (auto simp: map_add_def fun_eq_iff)
qed simp

end

definition take_row :: "undef \<times> ip_mac_item \<Rightarrow> dev_table \<Rightarrow> dev_table option" where
  "take_row r t = map_option snd (ZhwUpdateBCUIpArray (fst r) True (snd r) t)"

interpretation book: address_book table_ok dev_view take_row
    "\<lambda>r :: undef \<times> ip_mac_item. item_ok (snd r) \<and> 0 \<le> i_init (fst r)" "item_key \<circ> snd" "item_val \<circ> snd"
proof unfold_locales
  fix t and r :: "undef \<times> ip_mac_item"
  assume "table_ok t" "item_ok (snd r) \<and> 0 \<le> i_init (fst r)"
  then show "\<exists>t'. take_row r t = Some t' \<and> table_ok t' \<and>
      dev_view t' = (dev_view t)((item_key \<circ> snd) r \<mapsto> (item_val \<circ> snd) r)"
    using update_view [of t "snd r" "fst r"] by (auto simp: take_row_def)
qed

section \<open>Searches\<close>

lemma walk_all: "n \<le> length gs \<Longrightarrow>
    walk P n gs = (case List.find P (take n gs) of Some g \<Rightarrow> Found g | None \<Rightarrow> Missed)"
proof (induction gs arbitrary: n)
  case (Cons g gs)
  then show ?case by (cases n) auto
qed simp

lemma find_None: "List.find P xs = None \<longleftrightarrow> (\<forall>x \<in> set xs. \<not> P x)"
  by (auto simp: find_None_iff)

text \<open>A search over all nodes; the one by type leaves the last out.\<close>

lemma by_name_all: "table_ok t \<Longrightarrow> ResolveUseName u nm n t =
    (case List.find (\<lambda>g. nm = str_at u (dev_name g) \<and> n = gi_number g) (global_array t) of
       Some g \<Rightarrow> Found g | None \<Rightarrow> Missed)"
  by (auto simp: ResolveUseName_def walk_all elim!: table_okE)

lemma by_type_butlast: "table_ok t \<Longrightarrow> ResolveUseType ty n t =
    (case List.find (\<lambda>g. ty = dev_type g \<and> n = gi_number g) (butlast (global_array t)) of
       Some g \<Rightarrow> Found g | None \<Rightarrow> Missed)"
  by (auto simp: ResolveUseType_def walk_all butlast_conv_take elim!: table_okE)



text \<open>A device that the CCU adds is not found by type, because that search stops one row before the
  end, although it is found by name.\<close>

lemma appended_missed_by_type:
  assumes "table_ok t" "item_ok p" "0 \<le> i_init u" "item_key p \<notin> dom (dev_view t)"
    and "\<And>g. g \<in> set (tl (global_array t)) \<Longrightarrow> \<not> (dev_name g = Some (c_str (device_name p)) \<and> gi_number g = uint (device_no p))"
    and "\<not> (at_null u = c_str (device_name p) \<and> device_no p = 0)"
  shows "\<exists>t' g. ZhwUpdateBCUIpArray u True p t = Some (2, t') \<and>
      ReadGlobalArray u (uint (device_type p)) None (uint (device_no p)) 1 t' = Missed \<and>
      ReadGlobalArray u 0 (Some (c_str (device_name p))) (uint (device_no p)) 2 t' = Found g \<and>
      dev_ip g = Some (c_str (ip_address p))"
proof -
  obtain gs where gs: "global_array t = zeroed # gs" "row t = int (length gs)" "list_all row_ok gs"
    using assms(1) by (rule table_okE)
  have new: "item_key p \<notin> key_of ` set gs"
    using assms(4) gs(1) by (simp add: dev_view_def dom_map_of_conv_image_fst image_image)
  from update_new [OF assms(2,3) gs(1) new] obtain g where
    g: "ZhwUpdateBCUIpArray u True p t = Some (2, \<lparr>global_array = zeroed # gs @ [g], row = row t + 1\<rparr>)"
    "key_of g = item_key p" "(dev_name g, dev_ip g, is_server g) = item_val p" "row_ok g" .
  define t' where "t' = \<lparr>global_array = zeroed # gs @ [g], row = row t + 1\<rparr>"
  have upd: "ZhwUpdateBCUIpArray u True p t = Some (2, t')" using g by (simp add: t'_def)
  have ok: "table_ok t'" using gs g by (auto simp: table_ok_def t'_def)
  have head: "item_key p \<noteq> (0, 0)"
    using assms(2) by (auto simp: item_ok_def item_key_def unsigned_eq_0_iff)
  have "List.find (\<lambda>g. uint (device_type p) = dev_type g \<and> uint (device_no p) = gi_number g)
      (zeroed # gs) = None"
    using new head by (auto simp: find_None item_key_def key_of_def zeroed_def)
  then have "ResolveUseType (uint (device_type p)) (uint (device_no p)) t' = Missed"
    unfolding by_type_butlast [OF ok] by (simp add: t'_def butlast_append del: List.find.simps)
  moreover have "ResolveUseName u (c_str (device_name p)) (uint (device_no p)) t' = Found g"
  proof -
    have "List.find (\<lambda>g. c_str (device_name p) = str_at u (dev_name g) \<and> uint (device_no p) = gi_number g) gs = None"
      using assms(5) gs by (force simp: find_None str_at_def row_ok_def list_all_iff)
    moreover have "List.find P (xs @ [y]) = Some y" if "List.find P xs = None" "P y" for P and xs :: "global_info list" and y
      using that by (induction xs) (auto split: if_splits)
    ultimately show ?thesis
      unfolding by_name_all [OF ok] using assms(6) g by (auto simp: t'_def zeroed_def str_at_def
          item_val_def key_of_def item_key_def unsigned_eq_0_iff)
  qed
  ultimately show ?thesis
    using upd g(3) by (auto simp: ReadGlobalArray_def item_val_def)
qed

section \<open>The local table\<close>

definition start_table :: dev_table where
  "start_table = InitGlobalArray device_info"

lemma start_rows: "global_array start_table = zeroed # map local_row device_info"
  "row start_table = 45"
  by (simp_all add: start_table_def InitGlobalArray_def device_info_def)

lemma length_start: "length device_info = 45"
  by (simp add: device_info_def)

lemma start_ok: "table_ok start_table"
  unfolding start_table_def by (rule init_ok [OF device_info_ok])

text \<open>A search by name finds a row of the table when no other has its name and number.\<close>

lemma find_unique:
  "distinct (map f gs) \<Longrightarrow> g \<in> set gs \<Longrightarrow> List.find (\<lambda>x. f g = f x) gs = Some g"
  by (induction gs) (auto simp: image_iff)

lemma local_names:
  "map (\<lambda>p. (c_str (device_name p), device_no p)) device_info =
    [(''EAMP'', 230), (''EAMP'', 231), (''EAMP'', 1), (''EAMP'', 2), (''EAMP'', 3), (''EAMP'', 4),
     (''EAMP'', 5), (''EAMP'', 6), (''EAMP'', 200), (''PCU'', 1), (''PCU'', 2), (''PCU'', 3),
     (''PCU'', 4), (''PCU'', 5), (''PCU'', 6), (''PCU'', 7), (''PCU'', 8), (''PCU'', 9), (''PCU'', 10),
     (''PCU'', 11), (''PCU'', 12), (''PCU'', 200), (''BCU'', 1), (''BCU'', 2), (''BCU'', 200),
     (''CCU'', 1), (''CCU'', 2), (''CCU'', 200), (''CMU'', 1), (''CMU'', 2), (''CMU'', 232),
     (''CMU'', 200), (''CMU'', 230), (''HEART'', 230), (''HEART'', 231), (''PCU'', 230), (''CC'', 230),
     (''PC'', 230), (''BCU'', 230), (''CCU'', 230), (''BCU'', 251), (''CCU'', 251), (''EAMP'', 251),
     (''PCU'', 251), (''CMU'', 231)]"
  by (simp add: device_info_def item_def c_array_def c_str_def)

lemma device_names: "dev_name (local_row p) = Some (c_str (device_name p))"
  "gi_number (local_row p) = uint (device_no p)"
  by (simp_all add: local_row_def)

text \<open>
  After the start every row of the local table is found by its name and number, although the
  search begins at a node without a name.\<close>

lemma start_found_by_name:
  assumes "p \<in> set device_info"
  shows "ReadGlobalArray u 0 (Some (c_str (device_name p))) (uint (device_no p)) 2 start_table =
    Found (local_row p)"
proof -
  let ?f = "\<lambda>g. (dev_name g, gi_number g)"
  have "map ?f (map local_row device_info) =
      map (\<lambda>(s, n). (Some s, uint n)) (map (\<lambda>p. (c_str (device_name p), device_no p)) device_info)"
    by (simp add: device_names)
  then have "distinct (map ?f (map local_row device_info))"
    unfolding local_names by simp
  from find_unique [OF this, of "local_row p"] assms
  have "List.find (\<lambda>g. ?f (local_row p) = ?f g) (map local_row device_info) = Some (local_row p)"
    by simp
  moreover have "uint (device_no p) \<noteq> 0"
  proof -
    have "list_all (\<lambda>(s, n). n \<noteq> 0) (map (\<lambda>p. (c_str (device_name p), device_no p)) device_info)"
      unfolding local_names by simp
    then show ?thesis using assms by (auto simp: list_all_iff unsigned_eq_0_iff)
  qed
  moreover have "(c_str (device_name p) = str_at u (dev_name g) \<and> uint (device_no p) = gi_number g) =
      (?f (local_row p) = ?f g)" if "g \<in> set (map local_row device_info)" for g
    using that by (auto simp: device_names str_at_def)
  then have "List.find (\<lambda>g. c_str (device_name p) = str_at u (dev_name g) \<and> uint (device_no p) = gi_number g)
      (map local_row device_info) = List.find (\<lambda>g. ?f (local_row p) = ?f g) (map local_row device_info)"
    by (rule find_cong [OF refl])
  ultimately show ?thesis
    by (simp add: ReadGlobalArray_def by_name_all [OF start_ok] start_rows zeroed_def)
qed

section \<open>Numbers of devices for the heart-beat\<close>

lemma count_walk_all: "n \<le> length gs \<Longrightarrow>
    count_walk P n gs = Some (int (length (filter P (take n gs))))"
proof (induction gs arbitrary: n)
  case (Cons g gs)
  then show ?case by (cases n) auto
qed simp

lemma start_count:
  "ZhwGetDevNumber u nm start_table =
    Some (let k = int (length (filter (\<lambda>(s, n). nm = s \<and> 0 < uint n \<and> uint n < 200)
            (butlast (map (\<lambda>p. (c_str (device_name p), device_no p)) device_info))))
      in if k > 0 then k else - 1)"
proof -
  let ?P = "\<lambda>g. nm = str_at u (dev_name g) \<and> 0 < gi_number g \<and> gi_number g < 200"
  let ?Q = "\<lambda>(s, n :: byte). nm = s \<and> 0 < uint n \<and> uint n < 200"
  let ?f = "\<lambda>p. (c_str (device_name p), device_no p)"
  have "filter ?P (map local_row ps) = map local_row (filter (?Q \<circ> ?f) ps)" for ps
    by (induction ps) (auto simp: device_names str_at_def)
  moreover have "length (filter ?Q (map ?f ps)) = length (filter (?Q \<circ> ?f) ps)" for ps
    by (simp add: filter_map)
  moreover have len: "length device_info = 45" by (simp add: device_info_def)
  then have "take 45 (zeroed # map local_row device_info) = zeroed # map local_row (butlast device_info)"
    by (simp add: butlast_conv_take take_map)
  ultimately show ?thesis
    unfolding ZhwGetDevNumber_def start_rows map_butlast [symmetric]
    by (subst count_walk_all) (simp_all add: Let_def zeroed_def len)
qed

text \<open>
  The heart-beat of a server is set up for six amplifiers, two control units, two servers,
  twelve passenger units and two recorders: the row that the count leaves out is a group.\<close>

lemma heart_counts:
  "map (\<lambda>c. ZhwGetDevNumber u (class_name c) start_table) [EAMP, BCU, CCU, PCU, CMU] =
    [Some 6, Some 2, Some 2, Some 12, Some 2]"
  unfolding start_count local_names by simp

section \<open>Hardware addresses\<close>

definition hex_digit :: "byte \<Rightarrow> byte" where
  "hex_digit d = (if d < 10 then 48 + d else 87 + d)"

definition hex_byte :: "byte \<Rightarrow> byte list" where
  "hex_byte v = [hex_digit (v div 16), hex_digit (v mod 16)]"

fun hex_mac :: "byte list \<Rightarrow> byte list" where
  "hex_mac [] = []"
| "hex_mac [v] = hex_byte v"
| "hex_mac (v # w # vs) = hex_byte v @ 44 # hex_mac (w # vs)"

definition misread :: "byte \<Rightarrow> byte" where
  "misread v = v + (if v div 16 < 10 then 0 else 112) + (if v mod 16 < 10 then 0 else 39)"

lemma hex_digit_less: "d < 16 \<Longrightarrow> hex_digit d \<noteq> 44 \<and> hex_digit d \<noteq> 0"
proof -
  assume "d < 16"
  then have "unat d < 16" by (simp add: word_less_nat_alt)
  then obtain n where "d = of_nat n" "n \<in> set [0..<16]"
    by (intro that [of "unat d"]) simp_all
  then show ?thesis by (auto simp: hex_digit_def upt_conv_Cons)
qed

lemma hex_digit_value:
  "hex_digit d - 48 = d + (if d < 10 then 0 else 39)"
  by (simp add: hex_digit_def algebra_simps)

lemma hex_byte_misread:
  "16 * (hex_byte v ! 0 - 48) + (hex_byte v ! 1 - 48) = misread v"
proof -
  let ?h = "v div 16" and ?l = "v mod 16"
  have "16 * (hex_digit ?h - 48) = 16 * ?h + (if ?h < 10 then 0 else 16 * 39)"
    unfolding hex_digit_value by (simp only: distrib_left if_distrib [of "\<lambda>x. 16 * x"] mult_zero_right)
  also have "(16 :: byte) * 39 = 112" by simp
  finally have "16 * (hex_digit ?h - 48) + (hex_digit ?l - 48) =
      16 * ?h + ?l + (if ?h < 10 then 0 else 112) + (if ?l < 10 then 0 else 39)"
    unfolding hex_digit_value by (simp only: ac_simps)
  also have "16 * ?h + ?l = v" by (rule mult_div_mod_eq)
  finally show ?thesis by (simp add: hex_byte_def misread_def)
qed

lemma hex_byte_plain: "length (hex_byte v) = 2" "44 \<notin> set (hex_byte v)" "0 \<notin> set (hex_byte v)"
proof -
  have "unat v < 256" using unsigned_less [of v] by simp
  then have "v div 16 < 16" "v mod 16 < 16"
    by (simp_all add: word_less_nat_alt unat_div unat_mod less_mult_imp_div_less)
  then show "length (hex_byte v) = 2" "44 \<notin> set (hex_byte v)" "0 \<notin> set (hex_byte v)"
    using hex_digit_less by (auto simp: hex_byte_def)
qed

lemma hex_mac_cons: "vs \<noteq> [] \<Longrightarrow> hex_mac (v # vs) = hex_byte v @ 44 # hex_mac vs"
  by (cases vs) auto

lemma mac_piece_hex: "mac_piece aft 2 (hex_byte v @ s) = Some (misread v)"
  using hex_byte_misread [of v] by (simp add: mac_piece_def nth_append hex_byte_plain Let_def) 

lemma mac_loop_hex:
  "vs \<noteq> [] \<Longrightarrow> i + length vs \<le> 6 \<Longrightarrow> length mac = 6 \<Longrightarrow> at_null u = [] \<Longrightarrow>
    mac_loop u (int i) mac (hex_mac vs) =
      Some (take i mac @ map misread vs @ drop (i + length vs) mac)"
proof (induction vs arbitrary: i mac)
  case (Cons v vs)
  have i: "i < 6" using Cons.prems by simp
  have upd: "mac[i := misread v] = take i mac @ misread v # drop (Suc i) mac"
    using i Cons.prems(3) by (simp add: upd_conv_take_nth_drop)
  show ?case
  proof (cases "vs = []")
    case True
    have "dropWhile (\<lambda>c. c \<noteq> 44) (hex_byte v) = []" using hex_byte_plain(2) by auto
    then show ?thesis
      using True i Cons.prems(4) mac_piece_hex [of "after_b u" v "[]"] upd hex_byte_plain(1) [of v]
      by (subst mac_loop.simps) (simp add: Let_def)
  next
    case False
    have e: "dropWhile (\<lambda>c. c \<noteq> 44) (hex_mac (v # vs)) = 44 # hex_mac vs"
      unfolding hex_mac_cons [OF False]
      by (subst dropWhile_append2) (use hex_byte_plain(2) [of v] in auto)
    have "mac_loop u (int i) mac (hex_mac (v # vs)) =
        mac_loop u (int (Suc i)) (mac[i := misread v]) (hex_mac vs)"
      using i mac_piece_hex [of "after_b u" v "44 # hex_mac vs"] hex_byte_plain(1) [of v] e
      by (subst mac_loop.simps) (simp add: Let_def hex_mac_cons [OF False] add.commute)
    also have "\<dots> = Some (take (Suc i) (mac[i := misread v]) @ map misread vs @
        drop (Suc i + length vs) (mac[i := misread v]))"
      by (rule Cons.IH) (use Cons.prems False in simp_all)
    finally show ?thesis
      using i Cons.prems(3) by (simp add: take_Suc_conv_app_nth)
  qed
qed simp

text \<open>
  How a hardware address that the CCU sends as six pairs of hexadecimal digits is read, even when
  the uninitialised counter starts at 0 and the string at address 0 is empty: a byte with a
  letter among its digits is taken for another one.\<close>

lemma mac_misread:
  assumes "length vs = 6" "length mac = 6" "at_null u = []" "i_init u = 0"
  shows "mac_loop u (i_init u) mac (hex_mac vs) = Some (map misread vs)"
  using mac_loop_hex [of vs 0 mac u] assms by (cases vs) simp_all

text \<open>A row for one of several devices with the same type and number.\<close>

definition cc_row :: ip_mac_item where
  "cc_row = item ''CC'' 8 230 ''192.168.10.9'' [] 0"

lemma local_row_item:
  "dev_type (local_row (item nm ty n ip mac sv)) = uint ty"
  "gi_number (local_row (item nm ty n ip mac sv)) = uint n"
  "dev_name (local_row (item nm ty n ip mac sv)) = Some (c_str (c_array 10 NUL nm))"
  by (simp_all add: local_row_def item_def)

lemma heart_row_is_33: "find_row 8 230 (map local_row device_info) = Some 33"
  by (simp add: device_info_def local_row_item)

text \<open>
  The rows \<open>HEART\<close>, \<open>CC\<close> and \<open>PC\<close> have the same type and number; an update of \<open>CC\<close> replaces
  the first of them, and the group of the heart-beat is not found any more.\<close>

lemma heart_row_lost:
  assumes "0 \<le> i_init u"
  shows "\<exists>t. ZhwUpdateBCUIpArray u True cc_row start_table = Some (1, t) \<and>
    ReadGlobalArray u 0 (Some ''HEART'') 230 2 t = Missed"
proof -
  have ok: "item_ok cc_row" by (simp add: cc_row_def item_def item_ok_def c_array_def)
  have "item_key cc_row = (8, 230)" by (simp add: cc_row_def item_def item_key_def)
  moreover have "(8, 230) \<in> key_of ` set (map local_row device_info)"
    by (metis find_row_None heart_row_is_33 option.distinct(1))
  ultimately have key: "item_key cc_row \<in> key_of ` set (map local_row device_info)" by simp
  have rows: "list_all row_ok (map local_row device_info)"
    using start_ok by (auto simp: table_ok_def start_rows)
  from update_old [OF ok assms start_rows(1) rows key] obtain k g where
    k: "find_row (uint (device_type cc_row)) (uint (device_no cc_row)) (map local_row device_info) = Some k"
    and upd: "ZhwUpdateBCUIpArray u True cc_row start_table =
      Some (1, start_table\<lparr>global_array := zeroed # (map local_row device_info)[k := g]\<rparr>)"
    and val: "(dev_name g, dev_ip g, is_server g) = item_val cc_row" .
  have g: "dev_name g = Some ''CC''"
    using val by (simp add: cc_row_def item_def item_val_def c_array_def c_str_def)
  have "k = 33" using k heart_row_is_33 by (simp add: cc_row_def item_def)
  let ?f = "\<lambda>g. (dev_name g, gi_number g)"
  have names: "map ?f (map local_row device_info) =
      map (\<lambda>(s, n). (Some s, uint n)) (map (\<lambda>p. (c_str (device_name p), device_no p)) device_info)"
    by (simp add: device_names)
  then have dist: "distinct (map ?f (map local_row device_info))"
    unfolding local_names by simp
  have "map ?f (map local_row device_info) ! 33 = (Some ''HEART'', 230)"
    unfolding names local_names by simp
  with set_update_distinct [OF dist, of 33 "?f g"] g
  have "(Some ''HEART'', 230) \<notin> set ((map ?f (map local_row device_info))[33 := ?f g])"
    by (simp add: length_start)
  then have "(Some ''HEART'', 230) \<notin> ?f ` set ((map local_row device_info)[33 := g])"
    unfolding set_map [symmetric] map_update .
  moreover have "dev_name x \<noteq> None" if "x \<in> set ((map local_row device_info)[33 := g])" for x
    using that rows g by (auto simp: list_all_iff row_ok_def dest!: set_update_subset_insert [THEN subsetD])
  ultimately have "List.find (\<lambda>g. ''HEART'' = str_at u (dev_name g) \<and> 230 = gi_number g)
      ((map local_row device_info)[33 := g]) = None"
    by (force simp: find_None str_at_def)
  moreover have "table_ok (start_table\<lparr>global_array := zeroed # (map local_row device_info)[33 := g]\<rparr>)"
    using update_view [OF start_ok ok assms] upd \<open>k = 33\<close> by auto
  note by_name_all [OF this]
  ultimately show ?thesis
    using upd \<open>k = 33\<close> by (auto simp: ReadGlobalArray_def zeroed_def)
qed

lemma walk_past_end:
  "(\<And>x. x \<in> set xs \<Longrightarrow> \<not> P x) \<Longrightarrow> walk P (Suc (length xs)) xs = Past_end"
  by (induction xs) auto

text \<open>Without memory for a new row the table counts one row more than it has.\<close>

lemma no_memory_past_end:
  assumes "table_ok t" "item_ok p" "item_key p \<notin> dom (dev_view t)"
    and "\<And>g. g \<in> set (global_array t) \<Longrightarrow> \<not> (nm = str_at u (dev_name g) \<and> n = gi_number g)"
  shows "\<exists>t'. ZhwUpdateBCUIpArray u False p t = Some (0, t') \<and>
    ReadGlobalArray u 0 (Some nm) n 2 t' = Past_end"
proof -
  obtain gs where gs: "global_array t = zeroed # gs" "row t = int (length gs)"
    using assms(1) by (rule table_okE)
  have "item_key p \<notin> key_of ` set gs"
    using assms(3) gs(1) by (simp add: dev_view_def dom_map_of_conv_image_fst image_image)
  then have "find_row (uint (device_type p)) (uint (device_no p)) (global_array t) = None"
    using find_row_zeroed [OF assms(2), of gs] gs(1) by (simp add: find_row_None item_key_def)
  moreover have "walk (\<lambda>g. nm = str_at u (dev_name g) \<and> n = gi_number g)
      (Suc (length (global_array t))) (global_array t) = Past_end"
    by (rule walk_past_end) (use assms(4) in blast)
  ultimately show ?thesis
    using gs by (simp add: ZhwUpdateBCUIpArray_def ReadGlobalArray_def ResolveUseName_def nat_add_distrib
        del: walk.simps)
qed

text \<open>
  The switches of the devices: with the hardware read, two settings of a type never give the
  same number, save 0, which stands for a setting that is not in use.\<close>

lemma switch_number_inj:
  "distinct (map snd tab) \<Longrightarrow> 0 \<notin> snd ` set tab \<Longrightarrow> switch_number tab a = switch_number tab b \<Longrightarrow>
    switch_number tab a \<noteq> 0 \<Longrightarrow> a = b"
  by (auto simp: switch_number_def distinct_map inj_on_def split: option.splits
      dest!: map_of_SomeD) (metis fst_conv snd_conv)

lemma switch_tables:
  "distinct (map snd pcu_switch)" "0 \<notin> snd ` set pcu_switch"
  "distinct (map snd eamp_switch)" "0 \<notin> snd ` set eamp_switch"
  by (simp_all add: pcu_switch_def eamp_switch_def)

text \<open>As the sources stand every unit takes the number 1 and with it the same address.\<close>

lemma low_test_address:
  "\<exists>g. local_info u (ReadFromIO True con) start_table = Found g \<and> dev_ip g = Some ''192.168.10.110'' \<and>
     dev_name g = Some ''BCU'' \<and> ZhwHeartModule g = Some Client \<and> GetOtherDeviceNo (gi_number g) = 2"
proof -
  have "find_row 3 1 (zeroed # map local_row (butlast device_info)) = Some 23"
    by (simp add: device_info_def local_row_item zeroed_def)
  moreover have "walk (\<lambda>g. ty = dev_type g \<and> n = gi_number g) (length gs) (gs @ hs) =
      (case find_row ty n gs of Some k \<Rightarrow> Found (gs ! k) | None \<Rightarrow> Missed)" for ty n gs hs
    by (induction gs) (auto split: option.split)
  note this [of 3 1 "zeroed # map local_row (butlast device_info)" "[local_row (last device_info)]"]
  moreover have "device_info = butlast device_info @ [last device_info]"
    by (simp add: device_info_def)
  then have "map local_row device_info = map local_row (butlast device_info) @ [local_row (last device_info)]"
    by (metis map_append list.simps(8,9))
  moreover have "butlast device_info ! 22 = item ''BCU'' 3 1 ''192.168.10.110'' [0x0, 0x90, 0x27, 0x8c, 0x57, 0x10] 0"
    by (simp add: device_info_def)
  ultimately show ?thesis
    by (simp add: local_info_def ReadFromIO_def ReadGlobalArray_def ResolveUseType_def start_rows
        length_start del: walk.simps find_row.simps)
      (simp add: local_row_def item_def c_array_def c_str_def ZhwHeartModule_def GetOtherDeviceNo_def length_start)
qed

end
