(* ===== verification/Net_Loop.thy ===== *)
theory Net_Loop
  imports Net_Register Audio_Net Dev_Table
begin

text \<open>
  The loop of the network thread (\<open>NetWorkMain\<close> in \<open>network/zhw_network_main.cxx\<close>): one turn asks
  \<open>select\<close> which sockets are ready, takes at most one package from each readable socket into the
  buffers, and sends at most one package from each buffer to the address that the table of
  devices gives for its receiver.

  The kernel is the record \<open>net_env\<close>: which sockets are ready and what \<open>recvfrom\<close> and \<open>sendto\<close>
  answer. Packages are byte images; where a field lies in them is the record \<open>net_conf\<close>. The
  local package variables of the thread are kept from turn to turn, because a short datagram
  overwrites only their beginning. A turn ends the program (\<open>Exited\<close>) when \<open>select\<close> or the
  receipt of a command fails; \<open>Fault\<close> is a read through a bad pointer. The unit is a BCU, so the
  branches for other devices are left out, as are the flags for the debugger.
\<close>

section \<open>State\<close>

datatype sock = Cmd_Sock | Data_Sock | Common_Sock | Big_Sock | Heart_Sock | Shell_Sock

datatype stop = Exited | Fault

datatype dgram = Bytes "byte list" | Audio package

record net_ids =
  cmd_recv :: ptr
  cmd_send :: ptr
  data_recv :: ptr
  data_send :: ptr
  common_recv :: ptr
  common_send :: ptr
  big_recv :: ptr
  big_send :: ptr
  heart_recv :: ptr
  heart_send :: ptr
  shell_recv :: ptr
  shell_send :: ptr

text \<open>The layout of the packages, the register of the buffers, and what the table leaves open.\<close>

record net_conf =
  ids :: net_ids
  reg :: "buffer_info list"
  common_ps :: pkg_struct
  big_ps :: pkg_struct
  dst_name :: "sock \<Rightarrow> byte list \<Rightarrow> string"
  dst_no :: "sock \<Rightarrow> byte list \<Rightarrow> int"
  event_type_intercom :: "byte list \<Rightarrow> int"
  sizeof_shell :: nat
  und :: undef

record net_env =
  select_fails :: bool
  readable :: "sock \<Rightarrow> bool"
  writable :: "sock \<Rightarrow> bool"
  arrives :: "sock \<Rightarrow> byte list option"
  audio_in :: "package option"
  shell_from :: string
  stray :: "string option"
  inet_ok :: "string \<Rightarrow> bool"
  net_takes :: "sock \<Rightarrow> bool"
  audio_sendto :: "nat \<Rightarrow> int"

record net =
  blocks :: block_heap
  rcv :: receiver
  devices :: dev_table
  audio_dst :: "string \<times> int"
  send_counter :: "32 word"
  cmd_in :: "byte list"
  cmd_buf :: "byte list"
  common_buf :: "byte list"
  big_buf :: "byte list"
  heart_buf :: "byte list"
  shell_peer :: string
  sent :: "(sock \<times> string \<times> dgram) list"

text \<open>Bytes copied over the beginning of a variable.\<close>

definition overlay :: "byte list \<Rightarrow> byte list \<Rightarrow> byte list" where
  "overlay d old = take (length old) d @ drop (length d) old"

definition then_run :: "stop + 'a \<Rightarrow> ('a \<Rightarrow> stop + 'b) \<Rightarrow> stop + 'b" where
  "then_run r f = (case r of Inl s \<Rightarrow> Inl s | Inr x \<Rightarrow> f x)"

definition put_block :: "ptr \<Rightarrow> byte list \<Rightarrow> net \<Rightarrow> net" where
  "put_block p pkg n =
     n\<lparr>blocks := fst (BlockBufferWrite (blocks n) p (Some pkg) (length pkg))\<rparr>"

section \<open>Receiving\<close>

text \<open>
  A command: \<open>CmdRecvAndHandle\<close> reached through \<open>UdpRecvFun\<close>; an error of \<open>recvfrom\<close> ends the
  program in \<open>GetNetData\<close>.
\<close>

definition CmdRecvAndHandle :: "net_conf \<Rightarrow> net_env \<Rightarrow> net \<Rightarrow> stop + net" where
  "CmdRecvAndHandle c e n =
     (if cmd_recv (ids c) < 0 then Inr n
      else case arrives e Cmd_Sock of
        None \<Rightarrow> Inl Exited
      | Some d \<Rightarrow> (let pkg = overlay d (cmd_in n) in
          Inr (put_block (cmd_recv (ids c)) pkg (n\<lparr>cmd_in := pkg\<rparr>))))"

definition recv_cmd :: "net_conf \<Rightarrow> net_env \<Rightarrow> net \<Rightarrow> stop + net" where
  "recv_cmd c e n = (if readable e Cmd_Sock then CmdRecvAndHandle c e n else Inr n)"

definition recv_data :: "net_conf \<Rightarrow> net_env \<Rightarrow> net \<Rightarrow> stop + net" where
  "recv_data c e n =
     (if readable e Data_Sock
      then (case UdpRecvData 0 (audio_in e) (data_recv (ids c)) (rcv n) of
              None \<Rightarrow> Inl Fault
            | Some (s, _) \<Rightarrow> Inr (n\<lparr>rcv := s\<rparr>))
      else Inr n)"

text \<open>A package for the application is put into its network buffer, then one is passed on.\<close>

definition recv_common :: "net_conf \<Rightarrow> net_env \<Rightarrow> net \<Rightarrow> stop + net" where
  "recv_common c e n =
     (if readable e Common_Sock
      then (let n1 = (case arrives e Common_Sock of
                  Some (x # xs) \<Rightarrow> (let pkg = overlay (x # xs) (common_buf n) in
                    put_block (common_recv (ids c)) pkg (n\<lparr>common_buf := pkg\<rparr>))
                | _ \<Rightarrow> n)
            in Inr (n1\<lparr>blocks := fst (ZhwNetworkRecvForward (common_ps c) (big_ps c) (reg c)
                   (blocks n1) (common_recv (ids c)) 1)\<rparr>))
      else Inr n)"

definition recv_big :: "net_conf \<Rightarrow> net_env \<Rightarrow> net \<Rightarrow> stop + net" where
  "recv_big c e n =
     (if readable e Big_Sock
      then (let n1 = (case arrives e Big_Sock of
                  Some (x # xs) \<Rightarrow> (let pkg = overlay (x # xs) (big_buf n) in
                    put_block (big_recv (ids c)) pkg (n\<lparr>big_buf := pkg\<rparr>))
                | _ \<Rightarrow> n)
            in Inr (n1\<lparr>blocks := fst (ZhwNetworkRecvForward (common_ps c) (big_ps c) (reg c)
                   (blocks n1) (big_recv (ids c)) 2)\<rparr>))
      else Inr n)"

definition recv_heart :: "net_conf \<Rightarrow> net_env \<Rightarrow> net \<Rightarrow> stop + net" where
  "recv_heart c e n =
     (if readable e Heart_Sock
      then (case arrives e Heart_Sock of
              Some (x # xs) \<Rightarrow> (let pkg = overlay (x # xs) (heart_buf n) in
                Inr (put_block (heart_recv (ids c)) pkg (n\<lparr>heart_buf := pkg\<rparr>)))
            | _ \<Rightarrow> Inr n)
      else Inr n)"

text \<open>A command of the maintenance tool: at most 20 bytes before the first zero.\<close>

definition recv_shell :: "net_conf \<Rightarrow> net_env \<Rightarrow> net \<Rightarrow> stop + net" where
  "recv_shell c e n =
     (if readable e Shell_Sock
      then (case arrives e Shell_Sock of
              None \<Rightarrow> Inr n
            | Some d \<Rightarrow> (let buf = overlay d (replicate 128 0);
                             n1 = n\<lparr>shell_peer := shell_from e\<rparr> in
                if length (takeWhile (\<lambda>b. b \<noteq> 0) buf) > 20 then Inr n1
                else Inr (put_block (shell_recv (ids c)) buf n1)))
      else Inr n)"

section \<open>Sending\<close>

text \<open>
  The address of a receiver: what the table gives, or, when the search leaves the struct unset,
  whatever its pointer happens to be (\<open>stray\<close>).
\<close>

definition address :: "net_conf \<Rightarrow> net_env \<Rightarrow> string \<Rightarrow> int \<Rightarrow> net \<Rightarrow> stop + string option" where
  "address c e nm k n =
     (case ReadGlobalArray (und c) 0 (Some nm) k 2 (devices n) of
        Found g \<Rightarrow> Inr (dev_ip g)
      | Missed \<Rightarrow> Inr (stray e)
      | Past_end \<Rightarrow> Inl Fault)"

definition UdpSendFunCMD :: "net_env \<Rightarrow> sock \<Rightarrow> byte list \<Rightarrow> string option \<Rightarrow> net \<Rightarrow> net" where
  "UdpSendFunCMD e s pkg ip n =
     (case ip of
        None \<Rightarrow> n
      | Some a \<Rightarrow> if inet_ok e a \<and> net_takes e s then n\<lparr>sent := sent n @ [(s, a, Bytes pkg)]\<rparr> else n)"

definition UdpSendFunDATA :: "net_env \<Rightarrow> byte list \<Rightarrow> string option \<Rightarrow> net \<Rightarrow> net" where
  "UdpSendFunDATA e buffer ip n =
     (case ip of
        None \<Rightarrow> n
      | Some a \<Rightarrow>
          if inet_ok e a
          then (let (pks, k, r) = UdpSendBuffer (audio_sendto e) buffer (send_counter n) in
            n\<lparr>send_counter := k, sent := sent n @ map (\<lambda>pk. (Data_Sock, a, Audio pk)) pks\<rparr>)
          else n)"

definition get_block :: "ptr \<Rightarrow> byte list \<Rightarrow> block_heap \<Rightarrow> block_heap \<times> byte list option" where
  "get_block p old h =
     (let (h', out, r) = BlockBufferRead h p False (length old)
      in (h', if r > 0 then Some (overlay out old) else None))"

definition send_shell :: "net_conf \<Rightarrow> net_env \<Rightarrow> net \<Rightarrow> stop + net" where
  "send_shell c e n =
     (if writable e Shell_Sock
      then (let (h, p) = get_block (shell_send (ids c)) (replicate 128 0) (blocks n) in
        case p of
          None \<Rightarrow> Inr (n\<lparr>blocks := h\<rparr>)
        | Some pkg \<Rightarrow> Inr (n\<lparr>blocks := h,
            sent := if net_takes e Shell_Sock
              then sent n @ [(Shell_Sock, shell_peer n, Bytes (take (sizeof_shell c) pkg))] else sent n\<rparr>))
      else Inr n)"

definition send_cmd :: "net_conf \<Rightarrow> net_env \<Rightarrow> net \<Rightarrow> stop + net" where
  "send_cmd c e n =
     (if writable e Cmd_Sock
      then (let (h, p) = get_block (cmd_send (ids c)) (cmd_buf n) (blocks n) in
        case p of
          None \<Rightarrow> Inr (n\<lparr>blocks := h\<rparr>)
        | Some pkg \<Rightarrow> (let n1 = n\<lparr>blocks := h, cmd_buf := pkg\<rparr> in
            then_run (address c e (dst_name c Cmd_Sock pkg) (dst_no c Cmd_Sock pkg) n1)
              (\<lambda>ip. Inr (UdpSendFunCMD e Cmd_Sock pkg
                 (if event_type_intercom c pkg = 7 then Some ''192.168.10.200'' else ip) n1))))
      else Inr n)"

text \<open>Audio for the passengers goes to the recording server as well.\<close>

definition send_data :: "net_conf \<Rightarrow> net_env \<Rightarrow> net \<Rightarrow> stop + net" where
  "send_data c e n =
     (if writable e Data_Sock
      then (let (h, out, r) = CharBufferRead (app (rcv n)) (data_send (ids c)) False 1024;
                n1 = n\<lparr>rcv := (rcv n)\<lparr>app := h\<rparr>\<rparr> in
        if r > 0
        then then_run (address c e (fst (audio_dst n)) (snd (audio_dst n)) n1) (\<lambda>ip.
          let n2 = UdpSendFunDATA e out ip n1 in
          if fst (audio_dst n) = ''PCU''
          then then_run (address c e ''CC'' 230 n2) (\<lambda>ip2. Inr (UdpSendFunDATA e out ip2 n2))
          else Inr n2)
        else Inr n1)
      else Inr n)"

definition send_common :: "net_conf \<Rightarrow> net_env \<Rightarrow> net \<Rightarrow> stop + net" where
  "send_common c e n =
     (if writable e Common_Sock
      then (let (h, p) = get_block (common_send (ids c)) (common_buf n) (blocks n) in
        case p of
          None \<Rightarrow> Inr (n\<lparr>blocks := h\<rparr>)
        | Some pkg \<Rightarrow> (let n1 = n\<lparr>blocks := h, common_buf := pkg\<rparr> in
            then_run (address c e (dst_name c Common_Sock pkg) (dst_no c Common_Sock pkg) n1)
              (\<lambda>ip. Inr (UdpSendFunCMD e Common_Sock pkg ip n1))))
      else Inr n)"

text \<open>The versions of the software go to the maintenance computer.\<close>

definition send_big :: "net_conf \<Rightarrow> net_env \<Rightarrow> net \<Rightarrow> stop + net" where
  "send_big c e n =
     (if writable e Big_Sock
      then (let (h, p) = get_block (big_send (ids c)) (big_buf n) (blocks n) in
        case p of
          None \<Rightarrow> Inr (n\<lparr>blocks := h\<rparr>)
        | Some pkg \<Rightarrow> (let n1 = n\<lparr>blocks := h, big_buf := pkg\<rparr> in
            then_run (address c e (dst_name c Big_Sock pkg) (dst_no c Big_Sock pkg) n1)
              (\<lambda>ip. Inr (UdpSendFunCMD e Big_Sock pkg
                 (if pkg_type_of (big_ps c) pkg = 12 then Some ''192.168.7.2'' else ip) n1))))
      else Inr n)"

definition send_heart :: "net_conf \<Rightarrow> net_env \<Rightarrow> net \<Rightarrow> stop + net" where
  "send_heart c e n =
     (if writable e Heart_Sock
      then (let (h, p) = get_block (heart_send (ids c)) (heart_buf n) (blocks n) in
        case p of
          None \<Rightarrow> Inr (n\<lparr>blocks := h\<rparr>)
        | Some pkg \<Rightarrow> (let n1 = n\<lparr>blocks := h, heart_buf := pkg\<rparr> in
            then_run (address c e (dst_name c Heart_Sock pkg) (dst_no c Heart_Sock pkg) n1)
              (\<lambda>ip. Inr (UdpSendFunCMD e Heart_Sock pkg ip n1))))
      else Inr n)"

section \<open>One turn, and many\<close>

definition net_steps :: "(net_conf \<Rightarrow> net_env \<Rightarrow> net \<Rightarrow> stop + net) list" where
  "net_steps = [recv_cmd, recv_data, recv_common, recv_big, recv_heart, recv_shell,
     send_shell, send_cmd, send_data, send_common, send_big, send_heart]"

fun run_steps :: "(net \<Rightarrow> stop + net) list \<Rightarrow> net \<Rightarrow> stop + net" where
  "run_steps [] n = Inr n"
| "run_steps (f # fs) n = then_run (f n) (run_steps fs)"

definition net_turn :: "net_conf \<Rightarrow> net_env \<Rightarrow> net \<Rightarrow> stop + net" where
  "net_turn c e n =
     (if select_fails e then Inl Exited else run_steps (map (\<lambda>f. f c e) net_steps) n)"

fun net_run :: "net_conf \<Rightarrow> net_env list \<Rightarrow> net \<Rightarrow> stop + net" where
  "net_run c [] n = Inr n"
| "net_run c (e # es) n = then_run (net_turn c e n) (net_run c es)"

section \<open>Nothing in the loop goes wrong\<close>

definition net_ok :: "net \<Rightarrow> bool" where
  "net_ok n \<longleftrightarrow> bh_inv (blocks n) \<and> ch_inv (app (rcv n)) \<and> receiver_ok (rcv n) \<and> table_ok (devices n)"

definition env_ok :: "net_env \<Rightarrow> bool" where
  "env_ok e \<longleftrightarrow> (case audio_in e of None \<Rightarrow> True | Some pk \<Rightarrow> package_wf pk)"

text \<open>A step ends the program or goes on in a good state with the same table.\<close>

definition good_end :: "dev_table \<Rightarrow> stop + net \<Rightarrow> bool" where
  "good_end t r = (case r of Inl s \<Rightarrow> s = Exited | Inr n \<Rightarrow> net_ok n \<and> devices n = t)"

lemma good_end_simps [simp]:
  "good_end t (Inl s) \<longleftrightarrow> s = Exited"
  "good_end t (Inr n) \<longleftrightarrow> net_ok n \<and> devices n = t"
  by (simp_all add: good_end_def)

lemma good_then:
  "good_end t r \<Longrightarrow> (\<And>n. net_ok n \<Longrightarrow> devices n = t \<Longrightarrow> good_end t (f n)) \<Longrightarrow> good_end t (then_run r f)"
  by (cases r) (auto simp: then_run_def)

named_theorems net_step \<open>what keeps the network's state good\<close>

lemma bh_inv_write: "bh_inv h \<Longrightarrow> BlockBufferWrite h p (Some src) n = (h', r) \<Longrightarrow> bh_inv h'"
proof -
  assume inv: "bh_inv h" and w: "BlockBufferWrite h p (Some src) n = (h', r)"
  have "BlockBufferWrite h p (Some src) n =
      BlockBufferWrite h p (Some (take n src)) (length (take n src))"
    unfolding BlockBufferWrite_def option.case take_all [OF order_refl] ..
  with w show "bh_inv h'"
    using inv block_write_view(1) [of h p "take n src" h' r]
    by (cases "BlockBufferIsValid h p") (simp_all add: BlockBufferWrite_def)
qed

lemma bh_inv_read: "bh_inv h \<Longrightarrow> BlockBufferRead h p False n = (h', out, r) \<Longrightarrow> bh_inv h'"
  using block_read_view(1) [of h p n h' out r]
  by (cases "BlockBufferIsValid h p") (simp_all add: BlockBufferRead_def)

lemma put_block_ok [net_step]: "net_ok n \<Longrightarrow> net_ok (put_block p pkg n)"
  using bh_inv_write [of "blocks n" p pkg "length pkg"]
  by (cases "BlockBufferWrite (blocks n) p (Some pkg) (length pkg)") (auto simp: net_ok_def put_block_def)

lemma put_block_devices [simp]: "devices (put_block p pkg n) = devices n"
  by (simp add: put_block_def)

lemma net_ok_fields [simp]:
  "net_ok (n\<lparr>cmd_in := x1\<rparr>) = net_ok n" "net_ok (n\<lparr>cmd_buf := x1\<rparr>) = net_ok n"
  "net_ok (n\<lparr>common_buf := x1\<rparr>) = net_ok n" "net_ok (n\<lparr>big_buf := x1\<rparr>) = net_ok n"
  "net_ok (n\<lparr>heart_buf := x1\<rparr>) = net_ok n" "net_ok (n\<lparr>shell_peer := x2\<rparr>) = net_ok n"
  "net_ok (n\<lparr>sent := x3\<rparr>) = net_ok n" "net_ok (n\<lparr>send_counter := x4\<rparr>) = net_ok n" "net_ok (n\<lparr>send_counter := x4, sent := x3\<rparr>) = net_ok n"
  by (simp_all add: net_ok_def)

lemma net_ok_blocks: "net_ok n \<Longrightarrow> bh_inv h \<Longrightarrow> net_ok (n\<lparr>blocks := h\<rparr>)"
  by (simp add: net_ok_def)

lemma forward_inv: "bh_inv h \<Longrightarrow> forward_package ps route h low = (h', r) \<Longrightarrow> bh_inv h'"
  by (auto simp: forward_package_def Let_def split: prod.splits if_splits option.splits
      dest: bh_inv_read bh_inv_write)

lemma recv_forward_inv: "bh_inv h \<Longrightarrow> bh_inv (fst (ZhwNetworkRecvForward cs bs nds h low k))"
  by (auto simp: ZhwNetworkRecvForward_def Let_def intro: forward_inv [OF _ prod.collapse [symmetric]])

lemma get_block_inv: "bh_inv h \<Longrightarrow> get_block p old h = (h', r) \<Longrightarrow> bh_inv h'"
  by (auto simp: get_block_def Let_def split: prod.splits dest: bh_inv_read)

lemma address_ok: "net_ok n \<Longrightarrow> \<exists>ip. address c e nm k n = Inr ip"
  by (auto simp: net_ok_def address_def ReadGlobalArray_def by_name_all split: option.split)

lemma send_ok [net_step]:
  "net_ok n \<Longrightarrow> net_ok (UdpSendFunCMD e s pkg ip n)" "net_ok n \<Longrightarrow> net_ok (UdpSendFunDATA e buf ip n)"
  by (auto simp: UdpSendFunCMD_def UdpSendFunDATA_def split: option.split prod.split)

lemma send_devices [simp]:
  "devices (UdpSendFunCMD e s pkg ip n) = devices n" "devices (UdpSendFunDATA e buf ip n) = devices n"
  by (auto simp: UdpSendFunCMD_def UdpSendFunDATA_def split: option.split prod.split)

lemma recv_steps_ok:
  assumes "net_ok n" and "env_ok e"
  shows "good_end (devices n) (recv_cmd c e n)" "good_end (devices n) (recv_data c e n)"
    "good_end (devices n) (recv_common c e n)" "good_end (devices n) (recv_big c e n)"
    "good_end (devices n) (recv_heart c e n)" "good_end (devices n) (recv_shell c e n)"
proof -
  have fwd: "net_ok (m\<lparr>blocks := fst (ZhwNetworkRecvForward cs bs nds (blocks m) low k)\<rparr>)"
    if "net_ok m" for m cs bs nds low k
    using that by (intro net_ok_blocks recv_forward_inv) (simp_all add: net_ok_def)
  show "good_end (devices n) (recv_cmd c e n)"
    using assms(1) by (auto simp: recv_cmd_def CmdRecvAndHandle_def Let_def net_step split: option.split)
  show "good_end (devices n) (recv_common c e n)" "good_end (devices n) (recv_big c e n)"
    using assms(1) by (auto simp: recv_common_def recv_big_def Let_def net_step intro!: fwd split: option.split list.split)
  show "good_end (devices n) (recv_heart c e n)" "good_end (devices n) (recv_shell c e n)"
    using assms(1) by (auto simp: recv_heart_def recv_shell_def Let_def net_step split: option.split list.split)
  show "good_end (devices n) (recv_data c e n)"
  proof (cases "audio_in e")
    case None
    then have "UdpRecvData 0 (audio_in e) p (rcv n) = Some (rcv n, - 1)" for p
      by (simp add: UdpRecvData_def DataRecvAndHandle2_def)
    then show ?thesis using assms(1) by (simp add: recv_data_def)
  next
    case (Some pk)
    have "package_wf pk" using assms(2) Some by (simp add: env_ok_def)
    from receive_one [OF _ this, of "rcv n" 0 "data_recv (ids c)"] assms(1)
    obtain s' where s': "UdpRecvData 0 (Some pk) (data_recv (ids c)) (rcv n) = Some (s', 0)"
        "receiver_ok s'" "app s' = write_payload (data_recv (ids c)) pk (app (rcv n))"
      by (auto simp: net_ok_def)
    have "ch_inv (app s')"
      using ch_inv_write [OF _ prod.collapse [symmetric]] assms(1) unfolding s'(3) write_payload_def net_ok_def
      by blast
    then show ?thesis using s' assms(1) Some by (simp add: recv_data_def net_ok_def)
  qed
qed

lemma send_block_ok:
  assumes "net_ok n" and "get_block p old (blocks n) = (h, r)"
    and "\<And>pkg m. net_ok m \<Longrightarrow> devices m = devices n \<Longrightarrow> good_end (devices n) (f pkg (m\<lparr>blocks := h\<rparr>))"
  shows "good_end (devices n) (case r of None \<Rightarrow> Inr (n\<lparr>blocks := h\<rparr>) | Some pkg \<Rightarrow> f pkg (n\<lparr>blocks := h\<rparr>))"
  using assms get_block_inv [OF _ assms(2)] by (auto simp: net_ok_def split: option.split)

lemma send_steps_ok:
  assumes "net_ok n"
  shows "good_end (devices n) (send_shell c e n)" "good_end (devices n) (send_cmd c e n)"
    "good_end (devices n) (send_data c e n)" "good_end (devices n) (send_common c e n)"
    "good_end (devices n) (send_big c e n)" "good_end (devices n) (send_heart c e n)"
proof -
  have inv: "net_ok (n\<lparr>blocks := h\<rparr>)" if "get_block p old (blocks n) = (h, r)" for p old h r
    using that assms by (intro net_ok_blocks get_block_inv [OF _ that]) (simp_all add: net_ok_def)
  have addr: "\<exists>ip. address c e nm k m = Inr ip" if "net_ok m" for nm k m
    using address_ok [OF that] .
  have go: "good_end (devices n) (then_run (address c e nm k m) (\<lambda>ip. Inr (UdpSendFunCMD e s pkg (g ip) m)))"
    if "net_ok m" "devices m = devices n" for nm k m s pkg g
    using addr [OF that(1), of nm k] that by (auto simp: then_run_def net_step)
  show "good_end (devices n) (send_shell c e n)"
    using inv assms by (auto simp: send_shell_def Let_def split: prod.split option.split)
  show "good_end (devices n) (send_cmd c e n)" "good_end (devices n) (send_common c e n)"
    "good_end (devices n) (send_big c e n)" "good_end (devices n) (send_heart c e n)"
    using assms by (auto simp: send_cmd_def send_common_def send_big_def send_heart_def Let_def
        intro!: go inv split: prod.split option.split)
  show "good_end (devices n) (send_data c e n)"
  proof (cases "writable e Data_Sock")
    case True
    obtain h out r where rd: "CharBufferRead (app (rcv n)) (data_send (ids c)) False 1024 = (h, out, r)"
      by (metis prod_cases3)
    define n1 where "n1 = n\<lparr>rcv := (rcv n)\<lparr>app := h\<rparr>\<rparr>"
    have n1: "net_ok n1" "devices n1 = devices n"
      using assms ch_inv_read [OF _ rd] by (auto simp: n1_def net_ok_def receiver_ok_def)
    have "good_end (devices n) (then_run (address c e nm k n1) (\<lambda>ip.
        let n2 = UdpSendFunDATA e out ip n1 in
        if b then then_run (address c e nm2 k2 n2) (\<lambda>ip2. Inr (UdpSendFunDATA e out ip2 n2)) else Inr n2))" for nm k nm2 k2 b
    proof -
      obtain ip where "address c e nm k n1 = Inr ip" using addr [OF n1(1)] by blast
      moreover have n2: "net_ok (UdpSendFunDATA e out ip n1)" using n1 by (simp add: net_step)
      moreover obtain ip2 where "address c e nm2 k2 (UdpSendFunDATA e out ip n1) = Inr ip2" using addr [OF n2] by blast
      ultimately show ?thesis using n1 by (simp add: then_run_def net_step Let_def)
    qed
    then show ?thesis using True rd n1 by (simp add: send_data_def n1_def [symmetric] Let_def)
  qed (use assms in \<open>simp add: send_data_def\<close>)
qed

lemma run_steps_ok:
  "net_ok n \<Longrightarrow> (\<And>f m. f \<in> set fs \<Longrightarrow> net_ok m \<Longrightarrow> good_end (devices m) (f m)) \<Longrightarrow>
    good_end (devices n) (run_steps fs n)"
proof (induction fs arbitrary: n)
  case (Cons f fs)
  have "good_end (devices n) (f n)" using Cons.prems by simp
  then show ?case
    unfolding run_steps.simps
  proof (rule good_then)
    fix m assume "net_ok m" "devices m = devices n"
    then show "good_end (devices n) (run_steps fs m)" using Cons.IH [of m] Cons.prems(2) by simp
  qed
qed simp

lemma net_turn_ok: "net_ok n \<Longrightarrow> env_ok e \<Longrightarrow> good_end (devices n) (net_turn c e n)"
  using recv_steps_ok send_steps_ok
  by (auto simp: net_turn_def net_steps_def simp del: run_steps.simps intro!: run_steps_ok)

lemma net_run_ok: "net_ok n \<Longrightarrow> list_all env_ok es \<Longrightarrow> good_end (devices n) (net_run c es n)"
proof (induction es arbitrary: n)
  case (Cons e es)
  then have "good_end (devices n) (net_turn c e n)" by (simp add: net_turn_ok)
  then show ?case
    unfolding net_run.simps
  proof (rule good_then)
    fix m assume "net_ok m" "devices m = devices n"
    then show "good_end (devices n) (net_run c es m)" using Cons.IH [of m] Cons.prems by simp
  qed
qed simp



definition net_ids_demo :: net_ids where
  "net_ids_demo = \<lparr>cmd_recv = 1, cmd_send = 2, data_recv = 9, data_send = 4, common_recv = 5,
     common_send = 6, big_recv = 8, big_send = 10, heart_recv = 11, heart_send = 12,
     shell_recv = 13, shell_send = 14\<rparr>"

definition net_conf_demo :: net_conf where
  "net_conf_demo = \<lparr>ids = net_ids_demo, reg = [],
     common_ps = \<lparr>ps_sizeof = 5, ps_type_offset = 0, ps_stack = replicate 5 0\<rparr>,
     big_ps = \<lparr>ps_sizeof = 5, ps_type_offset = 0, ps_stack = replicate 5 0\<rparr>,
     dst_name = \<lambda>_ _. ''EAMP'', dst_no = \<lambda>_ _. 1, event_type_intercom = \<lambda>_. 0,
     sizeof_shell = 40, und = \<lparr>at_null = [], after_b = [], i_init = 0\<rparr>\<rparr>"

definition net_env_demo :: net_env where
  "net_env_demo = \<lparr>select_fails = False, readable = (\<lambda>s. s = Data_Sock), writable = (\<lambda>s. False),
     arrives = \<lambda>_. None, audio_in = Some package_zero, shell_from = [], stray = None,
     inet_ok = \<lambda>_. True, net_takes = \<lambda>_. True, audio_sendto = \<lambda>_. 1\<rparr>"

definition net_demo :: "block_heap \<Rightarrow> net" where
  "net_demo h = \<lparr>blocks = h, rcv = CacheCreate 4096 (\<lambda>_. package_zero) char_demo,
     devices = start_table, audio_dst = (''EAMP'', 1), send_counter = 0, cmd_in = replicate 5 0,
     cmd_buf = replicate 5 0, common_buf = replicate 5 0, big_buf = replicate 5 0,
     heart_buf = replicate 5 0, shell_peer = [], sent = []\<rparr>"

lemma net_demo_rcv: "receiver_ok (CacheCreate 4096 m h)"
  by (simp add: receiver_ok_def CacheCreate_def sizeof_package_def upt_rec)

lemma cache_app: "app (CacheCreate p m h) = h"
  by (simp add: CacheCreate_def)

lemma net_demo_fields:
  "blocks (net_demo h) = h" "app (rcv (net_demo h)) = char_demo"
  "rcv (net_demo h) = CacheCreate 4096 (\<lambda>_. package_zero) char_demo"
  "devices (net_demo h) = start_table" "cmd_buf (net_demo h) = replicate 5 0"
  "common_buf (net_demo h) = replicate 5 0" "sent (net_demo h) = []"
  by (simp_all add: net_demo_def CacheCreate_def)


section \<open>From the socket to the application\<close>

text \<open>A package for the application that arrives while the network's buffer is empty is in the
  buffer registered for its type at the end of the same turn's step, behind what waits there, and
  the network's buffer is empty again.\<close>

lemma common_delivered:
  assumes "bh_inv (blocks n)" and "BlockBufferIsValid (blocks n) low"
    and "low = common_recv (ids c)" and "bb_view (bh_bufs (blocks n) low) = []"
    and "readable e Common_Sock" and "arrives e Common_Sock = Some d"
    and "length d = length (common_buf n)" and "length d = ps_sizeof (common_ps c)"
    and "0 < length d" and "length d \<le> bb_item_size (bh_bufs (blocks n) low) - 4"
    and "length (ps_stack (common_ps c)) = length d"
    and "dst = ZhwBufferInq (reg c) 1 (pkg_type_of (common_ps c) d) 1"
    and "0 \<le> dst" and "dst \<noteq> low" and "BlockBufferIsValid (blocks n) dst"
    and "length (bb_view (bh_bufs (blocks n) dst)) < bb_total_items (bh_bufs (blocks n) dst) - 1"
  shows "\<exists>n'. recv_common c e n = Inr n' \<and> bb_view (bh_bufs (blocks n') low) = []
    \<and> bb_view (bh_bufs (blocks n') dst) =
      bb_view (bh_bufs (blocks n) dst) @ [take (bb_item_size (bh_bufs (blocks n) dst) - 4) d]"
proof -
  have ov: "overlay d (common_buf n) = d" using assms(7) by (simp add: overlay_def)
  obtain h1 r1 where w: "BlockBufferWrite (blocks n) low (Some d) (length d) = (h1, r1)" by fastforce
  note v = block_write_view [OF assms(1,2) w]
  have b: "bb_inv (bh_bufs (blocks n) low)" using bh_inv_valid [OF assms(1,2)] .
  have "bb_count (bh_bufs (blocks n) low) = 0" using assms(4) by (simp flip: length_0_conv)
  moreover have "2 \<le> bb_total_items (bh_bufs (blocks n) low)" using b by (simp add: bb_inv_def bb_shape_def)
  ultimately have view: "bb_view (bh_bufs h1 low) = d # []"
    using v(5) assms(4,10) by simp
  have other: "bh_bufs h1 q = bh_bufs (blocks n) q" if "q \<noteq> low" for q using that by (subst v(3)) simp
  have valid: "BlockBufferIsValid h1 q = BlockBufferIsValid (blocks n) q" for q by (subst v(3)) simp
  let ?route = "\<lambda>pkg. let dst = ZhwBufferInq (reg c) 1 (pkg_type_of (common_ps c) pkg) 1
    in if dst < 0 then None else Some dst"
  obtain h2 r2 where fwd: "forward_package (common_ps c) ?route h1 low = (h2, r2)" by fastforce
  have pkg: "pkg_of_read (common_ps c) (take (ps_sizeof (common_ps c)) d) = d"
    using assms(8,11) by (simp add: pkg_of_read_def)
  have "d \<noteq> []" "0 < ps_sizeof (common_ps c)" "length (ps_stack (common_ps c)) = ps_sizeof (common_ps c)"
    using assms(8,9,11) by auto
  from forward_package_spec(2) [OF v(1,2) view this fwd, of dst, unfolded pkg]
  have "bb_view (bh_bufs h2 low) = [] \<and> bb_view (bh_bufs h2 dst) =
      bb_view (bh_bufs (blocks n) dst) @ [take (bb_item_size (bh_bufs (blocks n) dst) - 4) d]"
    using assms(12-16) by (auto simp: valid other)
  moreover have "recv_common c e n = Inr (n\<lparr>common_buf := d, blocks := h2\<rparr>)"
    using assms(3,5,6,9) w fwd ov
    by (cases d) (simp_all add: recv_common_def put_block_def ZhwNetworkRecvForward_def)
  ultimately show ?thesis by simp
qed

section \<open>From the application to the address\<close>



end
