(* ===== verification/Soft_Update.thy ===== *)
theory Soft_Update
  imports Bcu_Prelude
begin

text \<open>
  Commands from the maintenance tool and the update of the unit's software
  (\<open>network/zhw_shell_function.cxx\<close>, \<open>tftp_server_fun.cxx\<close>, \<open>tftp_server_apply.cxx\<close>, and the
  dispatch in \<open>bcu_main.cxx\<close>): the new image arrives through the kernel's TFTP server as
  \<open>/nand/eamp_new.elf\<close>, its checksum comes with the command that puts it in place.

  The file system is a map from paths to contents; mounting, memory, the kernel's TFTP server and
  the room in the reply buffer are arguments. \<open>None\<close> is a call of \<open>fclose\<close> with a null pointer.
\<close>

unbundle bit_operations_syntax

type_synonym word32 = "32 word"

section \<open>Checksum\<close>

definition CRC32_Table :: "word32 list" where
  "CRC32_Table = [
     0x00000000, 0x77073096, 0xEE0E612C, 0x990951BA, 0x076DC419, 0x706AF48F, 0xE963A535,
     0x9E6495A3, 0x0EDB8832, 0x79DCB8A4, 0xE0D5E91E, 0x97D2D988, 0x09B64C2B, 0x7EB17CBD,
     0xE7B82D07, 0x90BF1D91, 0x1DB71064, 0x6AB020F2, 0xF3B97148, 0x84BE41DE, 0x1ADAD47D,
     0x6DDDE4EB, 0xF4D4B551, 0x83D385C7, 0x136C9856, 0x646BA8C0, 0xFD62F97A, 0x8A65C9EC,
     0x14015C4F, 0x63066CD9, 0xFA0F3D63, 0x8D080DF5, 0x3B6E20C8, 0x4C69105E, 0xD56041E4,
     0xA2677172, 0x3C03E4D1, 0x4B04D447, 0xD20D85FD, 0xA50AB56B, 0x35B5A8FA, 0x42B2986C,
     0xDBBBC9D6, 0xACBCF940, 0x32D86CE3, 0x45DF5C75, 0xDCD60DCF, 0xABD13D59, 0x26D930AC,
     0x51DE003A, 0xC8D75180, 0xBFD06116, 0x21B4F4B5, 0x56B3C423, 0xCFBA9599, 0xB8BDA50F,
     0x2802B89E, 0x5F058808, 0xC60CD9B2, 0xB10BE924, 0x2F6F7C87, 0x58684C11, 0xC1611DAB,
     0xB6662D3D, 0x76DC4190, 0x01DB7106, 0x98D220BC, 0xEFD5102A, 0x71B18589, 0x06B6B51F,
     0x9FBFE4A5, 0xE8B8D433, 0x7807C9A2, 0x0F00F934, 0x9609A88E, 0xE10E9818, 0x7F6A0DBB,
     0x086D3D2D, 0x91646C97, 0xE6635C01, 0x6B6B51F4, 0x1C6C6162, 0x856530D8, 0xF262004E,
     0x6C0695ED, 0x1B01A57B, 0x8208F4C1, 0xF50FC457, 0x65B0D9C6, 0x12B7E950, 0x8BBEB8EA,
     0xFCB9887C, 0x62DD1DDF, 0x15DA2D49, 0x8CD37CF3, 0xFBD44C65, 0x4DB26158, 0x3AB551CE,
     0xA3BC0074, 0xD4BB30E2, 0x4ADFA541, 0x3DD895D7, 0xA4D1C46D, 0xD3D6F4FB, 0x4369E96A,
     0x346ED9FC, 0xAD678846, 0xDA60B8D0, 0x44042D73, 0x33031DE5, 0xAA0A4C5F, 0xDD0D7CC9,
     0x5005713C, 0x270241AA, 0xBE0B1010, 0xC90C2086, 0x5768B525, 0x206F85B3, 0xB966D409,
     0xCE61E49F, 0x5EDEF90E, 0x29D9C998, 0xB0D09822, 0xC7D7A8B4, 0x59B33D17, 0x2EB40D81,
     0xB7BD5C3B, 0xC0BA6CAD, 0xEDB88320, 0x9ABFB3B6, 0x03B6E20C, 0x74B1D29A, 0xEAD54739,
     0x9DD277AF, 0x04DB2615, 0x73DC1683, 0xE3630B12, 0x94643B84, 0x0D6D6A3E, 0x7A6A5AA8,
     0xE40ECF0B, 0x9309FF9D, 0x0A00AE27, 0x7D079EB1, 0xF00F9344, 0x8708A3D2, 0x1E01F268,
     0x6906C2FE, 0xF762575D, 0x806567CB, 0x196C3671, 0x6E6B06E7, 0xFED41B76, 0x89D32BE0,
     0x10DA7A5A, 0x67DD4ACC, 0xF9B9DF6F, 0x8EBEEFF9, 0x17B7BE43, 0x60B08ED5, 0xD6D6A3E8,
     0xA1D1937E, 0x38D8C2C4, 0x4FDFF252, 0xD1BB67F1, 0xA6BC5767, 0x3FB506DD, 0x48B2364B,
     0xD80D2BDA, 0xAF0A1B4C, 0x36034AF6, 0x41047A60, 0xDF60EFC3, 0xA867DF55, 0x316E8EEF,
     0x4669BE79, 0xCB61B38C, 0xBC66831A, 0x256FD2A0, 0x5268E236, 0xCC0C7795, 0xBB0B4703,
     0x220216B9, 0x5505262F, 0xC5BA3BBE, 0xB2BD0B28, 0x2BB45A92, 0x5CB36A04, 0xC2D7FFA7,
     0xB5D0CF31, 0x2CD99E8B, 0x5BDEAE1D, 0x9B64C2B0, 0xEC63F226, 0x756AA39C, 0x026D930A,
     0x9C0906A9, 0xEB0E363F, 0x72076785, 0x05005713, 0x95BF4A82, 0xE2B87A14, 0x7BB12BAE,
     0x0CB61B38, 0x92D28E9B, 0xE5D5BE0D, 0x7CDCEFB7, 0x0BDBDF21, 0x86D3D2D4, 0xF1D4E242,
     0x68DDB3F8, 0x1FDA836E, 0x81BE16CD, 0xF6B9265B, 0x6FB077E1, 0x18B74777, 0x88085AE6,
     0xFF0F6A70, 0x66063BCA, 0x11010B5C, 0x8F659EFF, 0xF862AE69, 0x616BFFD3, 0x166CCF45,
     0xA00AE278, 0xD70DD2EE, 0x4E048354, 0x3903B3C2, 0xA7672661, 0xD06016F7, 0x4969474D,
     0x3E6E77DB, 0xAED16A4A, 0xD9D65ADC, 0x40DF0B66, 0x37D83BF0, 0xA9BCAE53, 0xDEBB9EC5,
     0x47B2CF7F, 0x30B5FFE9, 0xBDBDF21C, 0xCABAC28A, 0x53B39330, 0x24B4A3A6, 0xBAD03605,
     0xCDD70693, 0x54DE5729, 0x23D967BF, 0xB3667A2E, 0xC4614AB8, 0x5D681B02, 0x2A6F2B94,
     0xB40BBE37, 0xC30C8EA1, 0x5A05DF1B, 0x2D02EF8D]"

definition crc_step :: "word32 \<Rightarrow> byte \<Rightarrow> word32" where
  "crc_step v b = CRC32_Table ! unat ((v XOR ucast b) AND 0xFF) XOR drop_bit 8 v"

definition CalcCRC32 :: "byte list \<Rightarrow> word32" where
  "CalcCRC32 bs = foldl crc_step 0xffffffff bs XOR 0xffffffff"

text \<open>The definition of the checksum, bit by bit: division by the reflected polynomial.\<close>

definition crc_bit :: "word32 \<Rightarrow> word32" where
  "crc_bit v = (if bit v 0 then drop_bit 1 v XOR 0xEDB88320 else drop_bit 1 v)"

definition crc_byte :: "word32 \<Rightarrow> byte \<Rightarrow> word32" where
  "crc_byte v b = (crc_bit ^^ 8) (v XOR ucast b)"

section \<open>Checking an image\<close>

abbreviation (input) CHUNK :: nat where "CHUNK \<equiv> 307200"

text \<open>
  Reading \<open>n\<close> bytes in pieces of 300 KB; the number read so far is compared with the size less
  one piece, in unsigned arithmetic. False is a failed read.
\<close>

function read_image :: "nat \<Rightarrow> nat \<Rightarrow> bool" where
  "read_image n got =
     (if \<not> got < n then True
      else let read_size = min CHUNK (n - got) in
        if read_size < CHUNK then (of_nat n :: word32) - of_nat CHUNK < of_nat got
        else read_image n (got + CHUNK))"
  by pat_completeness auto
termination by (relation "measure (\<lambda>(n, got). n - got)") auto

declare read_image.simps [simp del]

definition VerifyFile :: "byte list option \<Rightarrow> bool \<Rightarrow> word32 \<Rightarrow> int option" where
  "VerifyFile file mem_ok file_crc =
     (case file of
        None \<Rightarrow> None
      | Some f \<Rightarrow>
          if \<not> mem_ok then Some (- 1)
          else if \<not> read_image (length f) 0 then Some (- 1)
          else if CalcCRC32 f \<noteq> file_crc then Some (- 1)
          else Some 0)"

section \<open>The TFTP server\<close>

text \<open>The kernel's answers to \<open>tftpd_start\<close>, one for each server to create.\<close>

abbreviation (input) TCP_MAX_CONNECT :: nat where "TCP_MAX_CONNECT \<equiv> 1"

definition tftp_server_start :: "int \<Rightarrow> int" where
  "tftp_server_start tftpd_id = (if tftpd_id > 0 then tftpd_id else - 1)"

fun tftp_create :: "nat \<Rightarrow> int list \<Rightarrow> int" where
  "tftp_create 0 ids = 0"
| "tftp_create (Suc n) ids =
     (if tftp_server_start (hd ids) < 0 then - 1 else tftp_create n (tl ids))"

definition TftpServerAPI :: "int list \<Rightarrow> int" where
  "TftpServerAPI ids = tftp_create TCP_MAX_CONNECT ids"

text \<open>How a file is opened for a client, by the flags in its request.\<close>

datatype open_mode = Upload | Download | Overwrite | Refused

definition tftp_server_open :: "bool \<Rightarrow> bool \<Rightarrow> bool \<Rightarrow> open_mode" where
  "tftp_server_open creat rdonly wronly =
     (if creat then Upload else if rdonly then Download else if wronly then Overwrite
      else Refused)"

definition tftp_server_write :: "bool \<Rightarrow> int \<Rightarrow> int \<Rightarrow> int" where
  "tftp_server_write null fd res = (if null \<or> fd < 0 then - 1 else if res < 0 then - 1 else res)"

definition tftp_server_read :: "bool \<Rightarrow> int \<Rightarrow> int \<Rightarrow> int" where
  "tftp_server_read null fd res = (if null \<or> fd < 0 then - 1 else if res < 0 then - 1 else res)"

section \<open>The update command\<close>

record dfu_info =
  sub_cmd :: int
  dfu_dev_name :: string
  dfu_dev_type :: int
  dev_index :: int
  dev_status :: int
  file_crc :: word32
  file_ver :: int

record shell_package =
  shell_cmd :: int
  dfu :: dfu_info

abbreviation (input) MOUNT :: int where "MOUNT \<equiv> 1"
abbreviation (input) UPDATE :: int where "UPDATE \<equiv> 2"
abbreviation (input) VERIFY :: int where "VERIFY \<equiv> 3"
abbreviation (input) FAIL :: int where "FAIL \<equiv> 2"
abbreviation (input) SUCCESS :: int where "SUCCESS \<equiv> 3"

text \<open>The unit: its files, the flag of \<open>DFUProc\<close>, the flag of the simulation, resets, replies.\<close>

type_synonym files = "string \<rightharpoonup> byte list"

record maint =
  nand :: files
  tftp_created :: bool
  atuo_set_flag :: int
  resets :: nat
  replies :: "shell_package list"

text \<open>What the outside answers during one command.\<close>

record maint_env =
  mount_ok :: bool
  tftpd_ids :: "int list"
  memory_ok :: bool
  room :: "nat \<Rightarrow> bool"

definition eamp :: string where "eamp = ''/nand/eamp.elf''"
definition eamp_old :: string where "eamp_old = ''/nand/eamp_old.elf''"
definition eamp_new :: string where "eamp_new = ''/nand/eamp_new.elf''"

text \<open>\<open>rename\<close> replaces the target; without a source it fails and changes nothing.\<close>

definition rename_file :: "string \<Rightarrow> string \<Rightarrow> files \<Rightarrow> files" where
  "rename_file a b fs = (case fs a of None \<Rightarrow> fs | Some c \<Rightarrow> (fs(b \<mapsto> c))(a := None))"

definition dfu_mount :: "maint_env \<Rightarrow> dfu_info \<Rightarrow> dfu_info" where
  "dfu_mount e d = d\<lparr>dev_status := if mount_ok e then SUCCESS else FAIL\<rparr>"

definition dfu_serve :: "maint_env \<Rightarrow> dfu_info \<Rightarrow> maint \<Rightarrow> dfu_info \<times> maint" where
  "dfu_serve e d m =
     (if \<not> tftp_created m then
        if TftpServerAPI (tftpd_ids e) < 0 then (d\<lparr>dev_status := FAIL\<rparr>, m)
        else (d\<lparr>dev_status := SUCCESS\<rparr>, m\<lparr>tftp_created := True\<rparr>)
      else (d, m))"

definition dfu_verify :: "maint_env \<Rightarrow> dfu_info \<Rightarrow> maint \<Rightarrow> (dfu_info \<times> maint) option" where
  "dfu_verify e d m =
     (let fs = rename_file eamp_new eamp (rename_file eamp eamp_old (nand m)) in
      if dev_status d = SUCCESS then Some (d, m\<lparr>nand := fs\<rparr>)
      else case VerifyFile (fs eamp) (memory_ok e) (file_crc d) of
        None \<Rightarrow> None
      | Some r \<Rightarrow>
          if r < 0 then
            Some (d\<lparr>dev_status := FAIL\<rparr>,
              m\<lparr>nand := rename_file eamp_old eamp fs, tftp_created := False\<rparr>)
          else Some (d\<lparr>dev_status := SUCCESS\<rparr>, m\<lparr>nand := fs\<rparr>))"

text \<open>The reply is written again once when the buffer has no room.\<close>

definition dfu_reply :: "maint_env \<Rightarrow> shell_package \<Rightarrow> maint \<Rightarrow> maint" where
  "dfu_reply e p m =
     (if room e 0 then m\<lparr>replies := replies m @ [p]\<rparr>
      else if room e 1 then m\<lparr>replies := replies m @ [p]\<rparr> else m)"

definition DFUProc :: "maint_env \<Rightarrow> shell_package \<Rightarrow> maint \<Rightarrow> maint option" where
  "DFUProc e p m =
     map_option (\<lambda>(d, m'). dfu_reply e (p\<lparr>dfu := d\<rparr>) m')
       (if sub_cmd (dfu p) = MOUNT then Some (dfu_mount e (dfu p), m)
        else if sub_cmd (dfu p) = UPDATE then Some (dfu_serve e (dfu p) m)
        else if sub_cmd (dfu p) = VERIFY then dfu_verify e (dfu p) m
        else Some (dfu p, m))"

section \<open>The commands\<close>

text \<open>
  The table \<open>shellcmd\<close>: the socket test and the commands that print change nothing here. The
  control thread runs the first entry with the number of the command.
\<close>

definition NetShellReboot :: "maint \<Rightarrow> maint" where
  "NetShellReboot m = m\<lparr>resets := Suc (resets m)\<rparr>"

definition OpenAtuoProc :: "maint \<Rightarrow> maint" where
  "OpenAtuoProc m = m\<lparr>atuo_set_flag := 1\<rparr>"

definition CloseAtuoProc :: "maint \<Rightarrow> maint" where
  "CloseAtuoProc m = m\<lparr>atuo_set_flag := 0\<rparr>"

definition shellcmd :: "maint_env \<Rightarrow> (int \<times> (shell_package \<Rightarrow> maint \<Rightarrow> maint option)) list" where
  "shellcmd e =
    [(0, \<lambda>p m. Some m), (1, \<lambda>p m. Some m), (2, \<lambda>p m. Some (NetShellReboot m)), (3, DFUProc e),
     (4, \<lambda>p m. Some (OpenAtuoProc m)), (5, \<lambda>p m. Some (CloseAtuoProc m)), (6, \<lambda>p m. Some m),
     (7, \<lambda>p m. Some m), (8, \<lambda>p m. Some m), (9, \<lambda>p m. Some m)]"

definition run_shell :: "maint_env \<Rightarrow> shell_package \<Rightarrow> maint \<Rightarrow> maint option" where
  "run_shell e p m =
     (case map_of (shellcmd e) (shell_cmd p) of None \<Rightarrow> Some m | Some f \<Rightarrow> f p m)"

section \<open>The table is the polynomial division\<close>

lemma crc_bit_xor: "crc_bit (v XOR w) = crc_bit v XOR crc_bit w"
  by (auto simp: crc_bit_def bit_xor_iff drop_bit_xor ac_simps)

lemma crc_bits_xor: "(crc_bit ^^ n) (v XOR w) = (crc_bit ^^ n) v XOR (crc_bit ^^ n) w"
  by (induction n) (simp_all add: crc_bit_xor)

lemma crc_bits_high:
  "(\<And>i. i < n \<Longrightarrow> \<not> bit v i) \<Longrightarrow> (crc_bit ^^ n) v = drop_bit n v"
proof (induction n)
  case (Suc n)
  then have "(crc_bit ^^ n) v = drop_bit n v" by simp
  then have "(crc_bit ^^ Suc n) v = crc_bit (drop_bit n v)" by simp
  also have "\<dots> = drop_bit (Suc n) v"
    using Suc.prems by (simp add: crc_bit_def bit_drop_bit_eq drop_bit_drop_bit)
  finally show ?case .
qed simp

text \<open>The map is linear, so a table of its values doubles with every bit.\<close>

definition xor_span :: "word32 list \<Rightarrow> word32 list" where
  "xor_span bs = foldl (\<lambda>t b. t @ map (\<lambda>x. b XOR x) t) [0] bs"

lemma xor_span_snoc: "xor_span (bs @ [b]) = xor_span bs @ map (\<lambda>x. b XOR x) (xor_span bs)"
  by (simp add: xor_span_def)

lemma of_nat_bit_add:
  "i < 2 ^ n \<Longrightarrow> n < 32 \<Longrightarrow> (of_nat (2 ^ n + i) :: word32) = 2 ^ n XOR of_nat i"
proof -
  assume i: "i < 2 ^ n" and n: "n < 32"
  have "(2 ^ n :: word32) AND of_nat i = 0"
  proof (rule bit_word_eqI)
    fix k assume "k < LENGTH(32)"
    have "\<not> bit i n" using i by (simp add: bit_iff_odd)
    then show "bit ((2 ^ n :: word32) AND of_nat i) k = bit (0 :: word32) k"
      by (auto simp: bit_and_iff bit_exp_iff bit_of_nat_iff)
  qed
  then show ?thesis by (simp add: disjunctive_add_eq_xor)
qed

lemma xor_span_table:
  "n \<le> 32 \<Longrightarrow> map (\<lambda>i. (crc_bit ^^ m) (of_nat i)) [0..<2 ^ n] =
    xor_span (map (\<lambda>k. (crc_bit ^^ m) (2 ^ k)) [0..<n])"
proof (induction n)
  case 0
  have "(crc_bit ^^ m) 0 = 0" by (induction m) (simp_all add: crc_bit_def)
  then show ?case by (simp add: xor_span_def)
next
  case (Suc n)
  let ?f = "\<lambda>i. (crc_bit ^^ m) (of_nat i)"
  have "[0..<2 ^ Suc n] = [0..<2 ^ n] @ map (\<lambda>i. 2 ^ n + i) [0..<2 ^ n :: nat]"
    using map_add_upt [of "2 ^ n" "2 ^ n"] upt_add_eq_append [of 0 "2 ^ n" "2 ^ n"]
    by (simp add: add.commute mult_2)
  then have "map ?f [0..<2 ^ Suc n] = map ?f [0..<2 ^ n] @ map (\<lambda>i. ?f (2 ^ n + i)) [0..<2 ^ n]"
    by (simp only: map_append map_map comp_def)
  also have "map (\<lambda>i. ?f (2 ^ n + i)) [0..<2 ^ n] =
      map (\<lambda>i. (crc_bit ^^ m) (2 ^ n) XOR ?f i) [0..<2 ^ n]"
    by (rule map_cong [OF refl]) (use Suc.prems in \<open>simp only: of_nat_bit_add crc_bits_xor set_upt atLeastLessThan_iff\<close>)
  also have "\<dots> = map (\<lambda>x. (crc_bit ^^ m) (2 ^ n) XOR x) (map ?f [0..<2 ^ n])"
    by (simp only: map_map comp_def)
  also have "map ?f [0..<2 ^ n] @ \<dots> = xor_span (map (\<lambda>k. (crc_bit ^^ m) (2 ^ k)) [0..<Suc n])"
    using Suc by (simp add: xor_span_snoc)
  finally show ?case .
qed

lemma funpow_8: "(f ^^ 8) x = f (f (f (f (f (f (f (f x)))))))"
  by (simp add: numeral_eq_Suc)

lemma crc_powers: "map (\<lambda>k. (crc_bit ^^ 8) (2 ^ k)) [0..<8] =
    [0x77073096, 0xEE0E612C, 0x076DC419, 0x0EDB8832, 0x1DB71064, 0x3B6E20C8, 0x76DC4190, 0xEDB88320]"
  by (simp add: upt_conv_Cons funpow_8 crc_bit_def bit_0)

lemma span_table: "xor_span [0x77073096, 0xEE0E612C, 0x076DC419, 0x0EDB8832, 0x1DB71064, 0x3B6E20C8, 0x76DC4190, 0xEDB88320] = CRC32_Table"
  by (simp add: xor_span_def CRC32_Table_def)


lemma crc_table_entry: "i < 256 \<Longrightarrow> CRC32_Table ! i = (crc_bit ^^ 8) (of_nat i)"
proof -
  assume "i < 256"
  have "(8 :: nat) \<le> 32" by simp
  then have "map (\<lambda>i. (crc_bit ^^ 8) (of_nat i)) [0..<2 ^ 8] = CRC32_Table"
    by (simp only: xor_span_table crc_powers span_table)
  then have "map (\<lambda>i. (crc_bit ^^ 8) (of_nat i)) [0..<256] = CRC32_Table" by simp
  then have "CRC32_Table ! i = map (\<lambda>i. (crc_bit ^^ 8) (of_nat i)) [0..<256] ! i" by (simp only:)
  with \<open>i < 256\<close> show ?thesis by (simp del: upt_rec_numeral)
qed

lemma crc_step_bits: "crc_step v b = crc_byte v b"
proof -
  define x where "x = v XOR ucast b"
  define lo where "lo = x AND 0xFF"
  define hi where "hi = x AND NOT 0xFF"
  have m: "(0xFF :: word32) = mask 8" by (simp add: mask_eq_exp_minus_1)
  have "x = lo XOR hi"
    by (rule bit_word_eqI) (auto simp: lo_def hi_def bit_simps)
  then have "crc_byte v b = (crc_bit ^^ 8) lo XOR (crc_bit ^^ 8) hi"
    by (simp only: crc_byte_def x_def [symmetric] crc_bits_xor)
  also have "(crc_bit ^^ 8) hi = drop_bit 8 hi"
    by (rule crc_bits_high) (auto simp: hi_def m bit_simps)
  also have "drop_bit 8 hi = drop_bit 8 v"
    by (rule bit_word_eqI) (auto simp: hi_def x_def m bit_simps dest: bit_imp_le_length)
  also have "unat lo < 256"
    unfolding lo_def m take_bit_eq_mask [symmetric] by (simp add: take_bit_eq_mod unat_mod)
  then have "(crc_bit ^^ 8) lo = CRC32_Table ! unat lo"
    by (simp add: crc_table_entry)
  finally show ?thesis by (simp add: crc_step_def lo_def x_def)
qed

lemma crc_step_fold: "foldl crc_step v bs = foldl crc_byte v bs"
  by (induction bs arbitrary: v) (simp_all add: crc_step_bits)

text \<open>C30:
  The table-driven checksum of the code is the 32-bit cyclic redundancy check: the remainder of
  the division by the polynomial \<open>0xEDB88320\<close> (reflected), computed bit by bit.\<close>

theorem crc_is_division:
  "CalcCRC32 bs = foldl crc_byte 0xffffffff bs XOR 0xffffffff"
  unfolding CalcCRC32_def crc_step_fold ..

lemma xor_cancel: "a XOR b = c XOR b \<longleftrightarrow> a = (c :: word32)"
proof
  assume "a XOR b = c XOR b"
  then have "(a XOR b) XOR b = (c XOR b) XOR b" by simp
  then show "a = c" by (simp add: xor.assoc)
qed simp

lemma xor_zero_iff: "a XOR b = 0 \<longleftrightarrow> a = (b :: word32)"
  using xor_cancel [of a b b] by simp

lemma crc_bit_inj: "crc_bit v = crc_bit w \<Longrightarrow> v = w"
proof -
  have zero: "x = 0" if "crc_bit x = 0" for x
  proof (cases "bit x 0")
    case True
    then have "drop_bit 1 x XOR 0xEDB88320 = 0" using that by (simp add: crc_bit_def)
    then have "drop_bit 1 x = 0xEDB88320"
      by (simp only: xor_zero_iff)
    moreover have "bit (0xEDB88320 :: word32) 31" by (simp add: bit_numeral_word_iff)
    ultimately have "bit (drop_bit 1 x) 31" by (simp only:)
    then have "bit x 32" by (simp add: bit_drop_bit_eq)
    then show ?thesis by (auto dest: bit_imp_le_length)
  next
    case False
    then have "drop_bit 1 x = 0" using that by (simp add: crc_bit_def)
    show ?thesis
    proof (rule bit_word_eqI)
      fix k
      have "bit (drop_bit 1 x) (k - 1) = bit x k" if "k \<noteq> 0"
        using that by (simp add: bit_drop_bit_eq)
      then show "bit x k = bit (0 :: word32) k"
        using False \<open>drop_bit 1 x = 0\<close> by (cases "k = 0") auto
    qed
  qed
  assume "crc_bit v = crc_bit w"
  then have "crc_bit (v XOR w) = 0" by (simp add: crc_bit_xor)
  then have "v XOR w = 0" by (rule zero)
  then show "v = w" by (simp only: xor_zero_iff)
qed

lemma crc_byte_inj:
  "crc_byte v a = crc_byte w b \<Longrightarrow> v XOR ucast a = w XOR ucast b"
proof -
  have "(crc_bit ^^ n) x = (crc_bit ^^ n) y \<Longrightarrow> x = y" for n x y
    by (induction n) (auto dest: crc_bit_inj)
  then show "crc_byte v a = crc_byte w b \<Longrightarrow> v XOR ucast a = w XOR ucast b"
    by (simp add: crc_byte_def)
qed

lemma crc_fold_inj: "foldl crc_byte v bs = foldl crc_byte w bs \<Longrightarrow> v = w"
proof (induction bs arbitrary: v w)
  case (Cons b bs)
  then have "crc_byte v b = crc_byte w b" by simp
  then have "v XOR ucast b = w XOR (ucast b :: word32)" by (rule crc_byte_inj)
  then have "v = w" by (simp only: xor_cancel)
  then show ?case .
qed simp

lemma crc_byte_differs: "a \<noteq> b \<Longrightarrow> CalcCRC32 (xs @ a # ys) \<noteq> CalcCRC32 (xs @ b # ys)"
proof
  assume "a \<noteq> b" and "CalcCRC32 (xs @ a # ys) = CalcCRC32 (xs @ b # ys)"
  then have "foldl crc_byte (crc_byte (foldl crc_byte 0xffffffff xs) a) ys =
      foldl crc_byte (crc_byte (foldl crc_byte 0xffffffff xs) b) ys"
    unfolding CalcCRC32_def crc_step_fold by (simp add: xor_cancel)
  then have "crc_byte (foldl crc_byte 0xffffffff xs) a = crc_byte (foldl crc_byte 0xffffffff xs) b"
    by (rule crc_fold_inj)
  then have "(ucast a :: word32) XOR foldl crc_byte 0xffffffff xs = ucast b XOR foldl crc_byte 0xffffffff xs"
    unfolding xor.commute [of _ "foldl crc_byte 0xffffffff xs"] by (rule crc_byte_inj)
  then have "(ucast a :: word32) = ucast b" by (simp only: xor_cancel)
  have "a = b"
  proof (rule bit_word_eqI)
    fix k :: nat assume "k < LENGTH(8)"
    then show "bit a k = bit b k"
      using arg_cong [OF \<open>ucast a = ucast b\<close>, of "\<lambda>w :: word32. bit w k"] by (simp add: bit_ucast_iff)
  qed
  then show False using \<open>a \<noteq> b\<close> by simp
qed


section \<open>Verification of an image\<close>

lemma read_image_small: "0 < n \<Longrightarrow> n < CHUNK \<Longrightarrow> \<not> read_image n 0"
  by (subst read_image.simps) (simp add: Let_def word_less_nat_alt unat_sub_if')

lemma read_image_large:
  "CHUNK \<le> n \<Longrightarrow> n < 2 ^ 32 \<Longrightarrow> got \<le> n \<Longrightarrow> read_image n got"
proof (induction n got rule: read_image.induct)
  case (1 n got)
  show ?case
  proof (cases "got < n \<and> n - got < CHUNK")
    case True
    have "(of_nat n :: word32) - of_nat CHUNK = of_nat (n - CHUNK)"
      using "1.prems" by (simp add: of_nat_diff)
    moreover have u: "unat (of_nat j :: word32) = j" if "j < 2 ^ 32" for j
      using that by (simp add: unat_of_nat)
    have "unat (of_nat (n - CHUNK) :: word32) = n - CHUNK" "unat (of_nat got :: word32) = got"
      using "1.prems" by (intro u; simp)+
    ultimately have "(of_nat n :: word32) - of_nat CHUNK < of_nat got"
      using True "1.prems" by (simp only: word_less_nat_alt) arith
    then show ?thesis using True by (subst read_image.simps) (simp add: Let_def)
  next
    case False
    then show ?thesis using 1 by (subst read_image.simps) (auto simp: Let_def min_def)
  qed
qed

text \<open>An image is accepted exactly when it is empty or at least 300 KB long and has the announced
  checksum: every shorter image is refused, because the size less one piece is computed without
  a sign.\<close>

lemma verify_file_spec:
  assumes "length f < 2 ^ 32"
  shows "VerifyFile (Some f) mem_ok crc =
    Some (if mem_ok \<and> (f = [] \<or> CHUNK \<le> length f) \<and> CalcCRC32 f = crc then 0 else - 1)"
proof -
  have "read_image (length f) 0 \<longleftrightarrow> f = [] \<or> CHUNK \<le> length f"
    using read_image_small [of "length f"] read_image_large [of "length f" 0] assms
    by (cases "f = []"; cases "length f < CHUNK") (auto simp: read_image.simps [of 0])
  then show ?thesis by (simp add: VerifyFile_def)
qed

section \<open>Installing an image\<close>

lemma eamp_names [simp]:
  "eamp \<noteq> eamp_old" "eamp_old \<noteq> eamp" "eamp \<noteq> eamp_new" "eamp_new \<noteq> eamp"
  "eamp_old \<noteq> eamp_new" "eamp_new \<noteq> eamp_old"
  by (simp_all add: eamp_def eamp_old_def eamp_new_def)



text \<open>Without a new file the command takes the image away and then closes a null pointer.\<close>

lemma verify_without_new:
  "nand m eamp_new = None \<Longrightarrow> dev_status d \<noteq> SUCCESS \<Longrightarrow> dfu_verify e d m = None"
  by (simp add: dfu_verify_def rename_file_def VerifyFile_def split: option.split)

text \<open>A command that already carries success puts any file in place.\<close>

lemma verify_skipped:
  "nand m eamp_new = Some new \<Longrightarrow> dev_status d = SUCCESS \<Longrightarrow>
    \<exists>m'. dfu_verify e d m = Some (d, m') \<and> nand m' eamp = Some new"
  by (simp add: dfu_verify_def rename_file_def split: option.split)

end
