(* ===== verification/Screen_Link.thy ===== *)
theory Screen_Link
  imports Stations
begin

text \<open>
  The touch screen (\<open>TouchScreen_horizontal.cxx\<close>) and the one variable through which other
  threads reach it: \<open>AlarmTSToChangeScreen\<close> (\<open>bcu_function.cxx\<close>) writes the number of a screen to
  \<open>switchFlag\<close> and waits until the variable holds something else; the loop of the screen thread
  shows what the number asks for and then writes 0. The steps of the threads are interleaved:
  a caller's write, each of its looks at the variable, the screen's showing and its write of 0
  are single steps. The window toolkit is the record \<open>panel\<close> of the texts it shows.
\<close>

section \<open>What is shown\<close>

record panel =
  start_value :: string
  end_value :: string
  current_value :: string
  next_value :: string
  open_value :: string
  pcu_recept :: string
  pcu_value :: string
  lock_label :: string

text \<open>The texts in Chinese are the bytes of the source file.\<close>

definition bytes_text :: "nat list \<Rightarrow> string" where
  "bytes_text bs = map char_of bs"

definition door_text :: "byte \<Rightarrow> string option" where
  "door_text side =
     (if side = 0 then Some (bytes_text [0xE5, 0xB7, 0xA6, 0xE9, 0x97, 0xA8])
      else if side = 1 then Some (bytes_text [0xE5, 0x8F, 0xB3, 0xE9, 0x97, 0xA8])
      else if side = 2 then Some (bytes_text [0xE5, 0x8F, 0x8C, 0xE4, 0xBE, 0xA7, 0xE8, 0xBD, 0xA6,
        0xE9, 0x97, 0xA8])
      else None)"

definition station_text :: "(int \<Rightarrow> string) \<Rightarrow> byte \<Rightarrow> string" where
  "station_text names no = names (cell 4 (uint no))"

definition stop_text :: "(int \<Rightarrow> string) \<Rightarrow> byte \<Rightarrow> string" where
  "stop_text names no = (if no = 0 then ''----'' else station_text names no)"

definition TouchScreenShowStationInfo ::
    "region_info \<Rightarrow> (int \<Rightarrow> string) \<Rightarrow> int \<Rightarrow> panel \<Rightarrow> panel" where
  "TouchScreenShowStationInfo r names flag p =
     (let p = p\<lparr>start_value := station_text names (os_begin_station_no r),
                end_value := station_text names (os_terminal_station_no r),
                current_value := stop_text names (os_current_station_no r)\<rparr>;
          p = (case door_text (os_door_side r) of None \<Rightarrow> p | Some t \<Rightarrow> p\<lparr>open_value := t\<rparr>);
          p = p\<lparr>next_value := stop_text names (os_next_station_no r)\<rparr>
      in if flag = 0 then p\<lparr>current_value := '''', next_value := '''', open_value := ''''\<rparr> else p)"

definition pcu_names :: "string list" where
  "pcu_names = ['''', ''TC1-1'', ''TC1-2'', ''MP1-1'', ''MP1-2'', ''M1-1'', ''M1-2'', ''M2-1'',
     ''M2-2'', ''MP2-1'', ''MP2-2'', ''TC2-1'', ''TC2-2'']"

text \<open>
  \<open>str_temp[recept_pcu_no]\<close> is not checked; \<open>stray\<close> is what lies behind the array. The variable
  \<open>whether_show_pcu_info\<close> is the first component.
\<close>

definition TouchScreenShowPCUInfo :: "(nat \<Rightarrow> string) \<Rightarrow> nat \<Rightarrow> nat \<times> panel \<Rightarrow> nat \<times> panel" where
  "TouchScreenShowPCUInfo stray no sp =
     (let (shown, p) = sp in
      if shown = 0
      then (1, p\<lparr>pcu_recept := ''PCU'',
                 pcu_value := (if no < length pcu_names then pcu_names ! no else stray no)\<rparr>)
      else if shown = 1 then (0, p\<lparr>pcu_recept := '''', pcu_value := ''''\<rparr>)
      else (shown, p))"

definition TouchScreenShowLockInfo :: "nat \<Rightarrow> panel \<Rightarrow> panel" where
  "TouchScreenShowLockInfo active p =
     (if active = 0
      then p\<lparr>lock_label := bytes_text [0xE5, 0xB7, 0xB2, 0xE9, 0x94, 0x81, 0xE5, 0xAE, 0x9A]\<rparr>
      else if active = 1
      then p\<lparr>lock_label := bytes_text [0xE5, 0xB7, 0xB2, 0xE8, 0xA7, 0xA3, 0xE9, 0x94, 0x81]\<rparr>
      else p)"

text \<open>What the screen thread reads of the unit when it shows something.\<close>

record unit_view =
  v_region :: region_info
  v_names :: "int \<Rightarrow> string"
  v_recept_pcu_no :: nat
  v_active :: nat
  v_stray :: "nat \<Rightarrow> string"

text \<open>The body of the loop, before it writes 0.\<close>

definition show_screen :: "unit_view \<Rightarrow> int \<Rightarrow> nat \<times> panel \<Rightarrow> nat \<times> panel" where
  "show_screen v flag sp =
     (if flag = 1 then (fst sp, TouchScreenShowStationInfo (v_region v) (v_names v) 0 (snd sp))
      else if flag = 2 then (fst sp, TouchScreenShowStationInfo (v_region v) (v_names v) 1 (snd sp))
      else if flag = 3 then TouchScreenShowPCUInfo (v_stray v) (v_recept_pcu_no v) sp
      else if flag = 4 then (fst sp, TouchScreenShowLockInfo (v_active v) (snd sp))
      else sp)"

section \<open>The threads\<close>

text \<open>
  \<open>sc_wait i\<close> is the number for which thread \<open>i\<close> waits in \<open>AlarmTSToChangeScreen\<close>; \<open>sc_clearing\<close>
  says that the screen has shown something and has not written 0 yet. \<open>sc_asked\<close> and \<open>sc_taken\<close>
  record the requests made and those shown.
\<close>

record screen =
  switchFlag :: int
  sc_clearing :: bool
  sc_panel :: "nat \<times> panel"
  sc_wait :: "nat \<Rightarrow> int option"
  sc_asked :: "int list"
  sc_taken :: "int list"

datatype screen_act = Ask nat int | Look nat | Show unit_view | Zero

inductive screen_step :: "screen \<Rightarrow> screen_act \<Rightarrow> screen \<Rightarrow> bool" where
  ask: "sc_wait s i = None \<Longrightarrow>
    screen_step s (Ask i n) (s\<lparr>switchFlag := n, sc_wait := (sc_wait s)(i := Some n),
      sc_asked := sc_asked s @ [n]\<rparr>)"
| look_again: "sc_wait s i = Some n \<Longrightarrow> switchFlag s = n \<Longrightarrow> screen_step s (Look i) s"
| look_done: "sc_wait s i = Some n \<Longrightarrow> switchFlag s \<noteq> n \<Longrightarrow>
    screen_step s (Look i) (s\<lparr>sc_wait := (sc_wait s)(i := None)\<rparr>)"
| idle: "\<not> sc_clearing s \<Longrightarrow> switchFlag s = 0 \<Longrightarrow> screen_step s (Show v) s"
| show_it: "\<not> sc_clearing s \<Longrightarrow> switchFlag s \<noteq> 0 \<Longrightarrow>
    screen_step s (Show v) (s\<lparr>sc_panel := show_screen v (switchFlag s) (sc_panel s), sc_clearing := True,
      sc_taken := sc_taken s @ [switchFlag s]\<rparr>)"
| zero: "sc_clearing s \<Longrightarrow> screen_step s Zero (s\<lparr>switchFlag := 0, sc_clearing := False\<rparr>)"

inductive_cases ask_cases: "screen_step s (Ask i n) t"
inductive_cases look_cases: "screen_step s (Look i) t"
inductive_cases show_cases: "screen_step s (Show v) t"
inductive_cases zero_cases: "screen_step s Zero t"
lemmas step_cases = ask_cases look_cases show_cases zero_cases

fun screen_run :: "screen \<Rightarrow> screen_act list \<Rightarrow> screen \<Rightarrow> bool" where
  "screen_run s [] t \<longleftrightarrow> t = s"
| "screen_run s (a # as) t \<longleftrightarrow> (\<exists>u. screen_step s a u \<and> screen_run u as t)"

definition blank_screen :: "panel \<Rightarrow> screen" where
  "blank_screen p = \<lparr>switchFlag = 0, sc_clearing = False, sc_panel = (0, p), sc_wait = (\<lambda>_. None),
     sc_asked = [], sc_taken = []\<rparr>"

text \<open>The runs in which no two threads are in \<open>AlarmTSToChangeScreen\<close> at once.\<close>

inductive in_turn :: "panel \<Rightarrow> screen \<Rightarrow> bool" for p where
  turn_blank: "in_turn p (blank_screen p)"
| turn_ask: "in_turn p s \<Longrightarrow> \<forall>j. sc_wait s j = None \<Longrightarrow> n \<noteq> 0 \<Longrightarrow> screen_step s (Ask i n) t \<Longrightarrow> in_turn p t"
| turn_look: "in_turn p s \<Longrightarrow> screen_step s (Look i) t \<Longrightarrow> in_turn p t"
| turn_show: "in_turn p s \<Longrightarrow> screen_step s (Show v) t \<Longrightarrow> in_turn p t"
| turn_zero: "in_turn p s \<Longrightarrow> screen_step s Zero t \<Longrightarrow> in_turn p t"

section \<open>One request after the other\<close>

text \<open>
  The phases of a request: none; written; shown; zeroed but not seen yet. In each but the
  second, everything asked for has been shown.
\<close>

definition turn_inv :: "screen \<Rightarrow> bool" where
  "turn_inv s \<longleftrightarrow>
     (\<forall>i. sc_wait s i = None) \<and> switchFlag s = 0 \<and> \<not> sc_clearing s \<and> sc_taken s = sc_asked s
     \<or> (\<exists>i n q. n \<noteq> 0 \<and> sc_wait s = (\<lambda>_. None)(i := Some n) \<and> sc_asked s = q @ [n]
          \<and> (switchFlag s = n \<and> \<not> sc_clearing s \<and> sc_taken s = q
             \<or> switchFlag s = n \<and> sc_clearing s \<and> sc_taken s = q @ [n]
             \<or> switchFlag s = 0 \<and> \<not> sc_clearing s \<and> sc_taken s = q @ [n]))"

lemma nobody_waits: "(\<lambda>_. None) \<noteq> [i \<mapsto> n]"
  by (metis fun_upd_same option.distinct(1))

lemma turn_inv_step:
  assumes "turn_inv s" and "screen_step s a t" and "\<And>i n. a = Ask i n \<Longrightarrow> (\<forall>j. sc_wait s j = None) \<and> n \<noteq> 0"
  shows "turn_inv t"
  using assms(2,1,3)
proof (cases rule: screen_step.cases)
  case (ask i n)
  then have "sc_wait s = (\<lambda>_. None)" "n \<noteq> 0" using assms(3) by auto
  then show ?thesis using ask assms(1) by (auto simp: turn_inv_def nobody_waits)
next
  case (look_done i n)
  then show ?thesis using assms(1) by (auto simp: turn_inv_def split: if_splits)
qed (use assms(1) in \<open>auto simp: turn_inv_def\<close>)

lemma in_turn_inv: "in_turn p s \<Longrightarrow> turn_inv s"
proof (induction rule: in_turn.induct)
  case turn_blank
  then show ?case by (simp add: turn_inv_def blank_screen_def)
next
  case (turn_ask s n i t)
  show ?case by (rule turn_inv_step [OF turn_ask.IH turn_ask.hyps(4)]) (use turn_ask in auto)
next
  case (turn_look s i t)
  show ?case by (rule turn_inv_step [OF turn_look.IH turn_look.hyps(2)]) auto
next
  case (turn_show s v t)
  show ?case by (rule turn_inv_step [OF turn_show.IH turn_show.hyps(2)]) auto
next
  case (turn_zero s t)
  show ?case by (rule turn_inv_step [OF turn_zero.IH turn_zero.hyps(2)]) auto
qed


lemma request_taken:
  assumes w: "sc_wait s = [i \<mapsto> n]" and "n \<noteq> 0" and q: "sc_asked s = q @ [n]"
    and alt: "switchFlag s = n \<and> \<not> sc_clearing s \<and> sc_taken s = q
      \<or> switchFlag s = n \<and> sc_clearing s \<and> sc_taken s = q @ [n]
      \<or> switchFlag s = 0 \<and> \<not> sc_clearing s \<and> sc_taken s = q @ [n]"
  shows "\<exists>as t. length as \<le> 3 \<and> screen_run s as t \<and> sc_wait t = (\<lambda>_. None) \<and> sc_taken t = sc_asked s"
proof -
  define look where "look t = t\<lparr>sc_wait := (sc_wait t)(i := None)\<rparr>" for t :: screen
  define clear where "clear t = t\<lparr>switchFlag := 0, sc_clearing := False\<rparr>" for t :: screen
  define shown where "shown t = t\<lparr>sc_panel := show_screen undefined (switchFlag t) (sc_panel t),
    sc_clearing := True, sc_taken := sc_taken t @ [switchFlag t]\<rparr>" for t :: screen
  have look: "switchFlag t = 0 \<Longrightarrow> sc_wait t = [i \<mapsto> n] \<Longrightarrow> screen_step t (Look i) (look t)" for t
    unfolding look_def by (rule look_done [where n = n]) (use \<open>n \<noteq> 0\<close> in auto)
  have zero: "sc_clearing t \<Longrightarrow> screen_step t Zero (clear t)" for t
    unfolding clear_def by (rule zero)
  have show_: "\<not> sc_clearing t \<Longrightarrow> switchFlag t = n \<Longrightarrow> screen_step t (Show undefined) (shown t)" for t
    unfolding shown_def by (rule show_it) (use \<open>n \<noteq> 0\<close> in auto)
  note fields = look_def clear_def shown_def
  from alt show ?thesis
  proof (elim disjE conjE)
    assume "switchFlag s = n" "\<not> sc_clearing s" "sc_taken s = q"
    then have "screen_run s [Show undefined, Zero, Look i] (look (clear (shown s)))"
      using show_ [of s] zero [of "shown s"] look [of "clear (shown s)"] w by (auto simp: fields)
    then show ?thesis using w q \<open>switchFlag s = n\<close> \<open>sc_taken s = q\<close>
      by (intro exI [of _ "[Show undefined, Zero, Look i]"] exI [of _ "look (clear (shown s))"])
        (simp add: fields)
  next
    assume "switchFlag s = n" "sc_clearing s" "sc_taken s = q @ [n]"
    then have "screen_run s [Zero, Look i] (look (clear s))"
      using zero [of s] look [of "clear s"] w by (auto simp: fields)
    then show ?thesis using w q \<open>sc_taken s = q @ [n]\<close>
      by (intro exI [of _ "[Zero, Look i]"] exI [of _ "look (clear s)"]) (simp add: fields)
  next
    assume "switchFlag s = 0" "\<not> sc_clearing s" "sc_taken s = q @ [n]"
    then have "screen_run s [Look i] (look s)" using look [of s] w by auto
    then show ?thesis using w q \<open>sc_taken s = q @ [n]\<close>
      by (intro exI [of _ "[Look i]"] exI [of _ "look s"]) (simp add: fields)
  qed
qed



definition panel_demo :: panel where
  "panel_demo = \<lparr>start_value = [], end_value = [], current_value = [], next_value = [],
     open_value = [], pcu_recept = [], pcu_value = [], lock_label = []\<rparr>"

definition asking_demo :: screen where
  "asking_demo = (blank_screen panel_demo)\<lparr>switchFlag := 3, sc_wait := [1 \<mapsto> 3], sc_asked := [3]\<rparr>"

lemma asking_demo_turn: "in_turn panel_demo asking_demo"
proof (rule turn_ask [OF turn_blank])
  show "screen_step (blank_screen panel_demo) (Ask 1 3) asking_demo"
    using ask [of "blank_screen panel_demo" 1 3] by (simp add: asking_demo_def blank_screen_def)
qed (simp_all add: blank_screen_def)


section \<open>Two requests at once\<close>

text \<open>
  The control thread asks for many screens, and the thread that copies the tables asks for screen
  38 (\<open>bcu_update_table_from_ccu.cxx\<close>). When the second writes before the screen has looked, the
  first goes on although its screen is never shown; when it writes between the showing and the
  writing of 0, its own request is wiped out and it goes on too.
\<close>

lemma request_overwritten:
  assumes "sc_wait s i = None" and "sc_wait s j = None" and "i \<noteq> j" and "a \<noteq> b" and "b \<noteq> 0"
    and "switchFlag s = 0" and "\<not> sc_clearing s"
  shows "\<exists>t. screen_run s [Ask i a, Ask j b, Look i, Show v, Zero, Look j] t
    \<and> sc_wait t i = None \<and> sc_wait t j = None \<and> sc_taken t = sc_taken s @ [b]"
  using assms by (force intro: screen_step.intros simp: screen_step.simps)

lemma request_wiped_out:
  assumes "sc_wait s i = None" and "sc_wait s j = None" and "i \<noteq> j" and "a \<noteq> 0" and "b \<noteq> 0"
    and "switchFlag s = 0" and "\<not> sc_clearing s"
  shows "\<exists>t. screen_run s [Ask i a, Show v, Ask j b, Zero, Look i, Look j] t
    \<and> sc_wait t i = None \<and> sc_wait t j = None \<and> sc_taken t = sc_taken s @ [a]"
  using assms by (force intro: screen_step.intros simp: screen_step.simps)

text \<open>The numbers that the other threads ask for, above 4, change nothing on the panel.\<close>

lemma other_screens_blank: "4 < flag \<Longrightarrow> show_screen v flag sp = sp"
  by (simp add: show_screen_def)

end
