(* ===== verification/Dev_Failure.thy ===== *)
theory Dev_Failure
  imports Bcu_Prelude
begin

text \<open>
  The table of failures (\<open>g_dev_fault_info_t\<close> in \<open>include/struct_type.h\<close>) and the functions of
  \<open>bcu_function.cxx\<close> that summarise it: whether anything has failed, which of the nine kinds of
  device have, and what has changed since the last table. The unit keeps two tables,
  \<open>dev_falut_info\<close> and \<open>dev_falut_last_info\<close>. The members of the arrays are bytes, 1 for on line
  and 0 for no failure.
\<close>

section \<open>State\<close>

record eamp_failure =
  eamp_online :: byte
  outer_sider_led1 :: byte
  outer_sider_led2 :: byte
  in_sider_led1 :: byte
  in_sider_led2 :: byte
  nd1 :: byte
  nd2 :: byte
  dm :: byte

record ccu_failure =
  ccu_online :: byte
  fdu :: byte

record fault_table =
  eamp_info :: "eamp_failure list"
  bcu_info :: "byte list"
  ccu_info :: "ccu_failure list"
  pcu_info :: "byte list"

text \<open>The arrays have six, two, two and twelve members.\<close>

definition fault_wf :: "fault_table \<Rightarrow> bool" where
  "fault_wf t \<longleftrightarrow> length (eamp_info t) = 6 \<and> length (bcu_info t) = 2
     \<and> length (ccu_info t) = 2 \<and> length (pcu_info t) = 12"

record faults =
  dev_falut_info :: fault_table
  dev_falut_last_info :: fault_table
  device_recv_failure :: "int list"
  device_failure :: "int list"

section \<open>Operations\<close>

text \<open>The loops leave with \<open>break\<close> or \<open>return\<close> at the first member that has failed.\<close>

fun first_bad :: "('a \<Rightarrow> bool) \<Rightarrow> 'a list \<Rightarrow> int" where
  "first_bad bad [] = 0"
| "first_bad bad (x # xs) = (if bad x then 1 else first_bad bad xs)"

fun first_diff :: "('a \<Rightarrow> 'a \<Rightarrow> bool) \<Rightarrow> 'a list \<Rightarrow> 'a list \<Rightarrow> int" where
  "first_diff differs (x # xs) (y # ys) = (if differs x y then 1 else first_diff differs xs ys)"
| "first_diff differs _ _ = 0"

text \<open>The part of \<open>InitBCUState\<close> that fills the tables.\<close>

definition eamp_init :: eamp_failure where
  "eamp_init = \<lparr>eamp_online = 1, outer_sider_led1 = 0, outer_sider_led2 = 0, in_sider_led1 = 0,
     in_sider_led2 = 0, nd1 = 0, nd2 = 0, dm = 0\<rparr>"

definition fault_init :: fault_table where
  "fault_init = \<lparr>eamp_info = replicate 6 eamp_init, bcu_info = replicate 2 1,
     ccu_info = replicate 2 \<lparr>ccu_online = 1, fdu = 0\<rparr>, pcu_info = replicate 12 1\<rparr>"

definition InitBCUState_faults :: "faults \<Rightarrow> faults" where
  "InitBCUState_faults f = f\<lparr>dev_falut_info := fault_init, dev_falut_last_info := fault_init\<rparr>"

definition WhetherHaveDevFailureInfo :: "faults \<Rightarrow> int" where
  "WhetherHaveDevFailureInfo f =
     (let t = dev_falut_info f in
      if first_bad (\<lambda>x. x \<noteq> 1) (bcu_info t) = 1 then 1
      else if first_bad (\<lambda>c. ccu_online c \<noteq> 1 \<or> fdu c \<noteq> 0) (ccu_info t) = 1 then 1
      else if first_bad (\<lambda>e. eamp_online e \<noteq> 1 \<or> dm e \<noteq> 0 \<or> in_sider_led1 e \<noteq> 0 \<or> in_sider_led2 e \<noteq> 0
          \<or> nd1 e \<noteq> 0 \<or> nd2 e \<noteq> 0 \<or> outer_sider_led1 e \<noteq> 0 \<or> outer_sider_led2 e \<noteq> 0) (eamp_info t) = 1 then 1
      else if first_bad (\<lambda>x. x \<noteq> 1) (pcu_info t) = 1 then 1
      else 0)"

definition UpdateSecondDeviceState :: "faults \<Rightarrow> faults" where
  "UpdateSecondDeviceState f =
     (let t = dev_falut_info f in
      f\<lparr>dev_falut_info := t\<lparr>
          ccu_info := map (\<lambda>c. if ccu_online c \<noteq> 1 then c\<lparr>fdu := 1\<rparr> else c) (ccu_info t),
          eamp_info := map (\<lambda>e. if eamp_online e \<noteq> 1
            then e\<lparr>dm := 1, in_sider_led1 := 1, in_sider_led2 := 1, nd1 := 1, nd2 := 1,
                   outer_sider_led1 := 1, outer_sider_led2 := 1\<rparr> else e) (eamp_info t)\<rparr>\<rparr>)"

definition CheckCertificateDeviceFailureInfo :: "nat \<Rightarrow> faults \<Rightarrow> int" where
  "CheckCertificateDeviceFailureInfo flag f =
     (let t = dev_falut_info f; l = dev_falut_last_info f in
      if flag = 1 then first_diff (\<noteq>) (bcu_info t) (bcu_info l)
      else if flag = 2 then first_diff (\<lambda>c d. ccu_online c \<noteq> ccu_online d) (ccu_info t) (ccu_info l)
      else if flag = 3 then first_diff (\<lambda>c d. eamp_online c \<noteq> eamp_online d) (eamp_info t) (eamp_info l)
      else if flag = 4 then first_diff (\<noteq>) (pcu_info t) (pcu_info l)
      else if flag = 5 then first_diff (\<lambda>c d. nd1 c \<noteq> nd1 d \<or> nd2 c \<noteq> nd2 d) (eamp_info t) (eamp_info l)
      else if flag = 6 then first_diff (\<lambda>c d. dm c \<noteq> dm d) (eamp_info t) (eamp_info l)
      else if flag = 7 then first_diff (\<lambda>c d. fdu c \<noteq> fdu d) (ccu_info t) (ccu_info l)
      else if flag = 8
      then first_diff (\<lambda>c d. in_sider_led1 c \<noteq> in_sider_led2 d \<or> in_sider_led2 c \<noteq> in_sider_led2 d)
             (eamp_info t) (eamp_info l)
      else if flag = 9
      then first_diff (\<lambda>c d. outer_sider_led1 c \<noteq> outer_sider_led1 d \<or> outer_sider_led2 c \<noteq> outer_sider_led2 d)
             (eamp_info t) (eamp_info l)
      else 0)"

definition recv_failures :: "fault_table \<Rightarrow> int list" where
  "recv_failures t =
     [first_bad (\<lambda>x. x \<noteq> 1) (bcu_info t),
      first_bad (\<lambda>c. ccu_online c \<noteq> 1) (ccu_info t),
      first_bad (\<lambda>e. eamp_online e \<noteq> 1) (eamp_info t),
      first_bad (\<lambda>x. x \<noteq> 1) (pcu_info t),
      first_bad (\<lambda>c. fdu c \<noteq> 0) (ccu_info t),
      first_bad (\<lambda>e. outer_sider_led1 e \<noteq> 0 \<or> outer_sider_led2 e \<noteq> 0) (eamp_info t),
      first_bad (\<lambda>e. in_sider_led1 e \<noteq> 0 \<or> in_sider_led2 e \<noteq> 0) (eamp_info t),
      first_bad (\<lambda>e. dm e \<noteq> 0) (eamp_info t),
      first_bad (\<lambda>e. nd1 e \<noteq> 0 \<or> nd2 e \<noteq> 0) (eamp_info t)]"

definition CheckDeviceFailureStatusPerTypeDeviceFFromNet :: "faults \<Rightarrow> faults \<times> int" where
  "CheckDeviceFailureStatusPerTypeDeviceFFromNet f =
     (let r = recv_failures (dev_falut_info f)
      in (f\<lparr>device_recv_failure := r\<rparr>, first_diff (\<noteq>) r (device_failure f)))"

section \<open>What the summaries say\<close>

lemma first_bad_iff: "first_bad bad xs = 1 \<longleftrightarrow> (\<exists>x \<in> set xs. bad x)"
  by (induction xs) auto

lemma first_bad_01: "first_bad bad xs \<in> {0, 1}"
  by (induction xs) auto

lemma first_diff_iff:
  "length xs = length ys \<Longrightarrow> first_diff differs xs ys = 1 \<longleftrightarrow> (\<exists>i < length xs. differs (xs ! i) (ys ! i))"
proof (induction xs arbitrary: ys)
  case (Cons x xs)
  then obtain y zs where "ys = y # zs" by (cases ys) auto
  with Cons show ?case by (auto simp: less_Suc_eq_0_disj)
qed simp

lemma first_diff_01: "first_diff differs xs ys \<in> {0, 1}"
  by (induction differs xs ys rule: first_diff.induct) auto

text \<open>A device that is on line and has no failure of its own.\<close>

definition all_well :: "fault_table \<Rightarrow> bool" where
  "all_well t \<longleftrightarrow> (\<forall>e \<in> set (eamp_info t). e = eamp_init) \<and> (\<forall>c \<in> set (ccu_info t). c = \<lparr>ccu_online = 1, fdu = 0\<rparr>)
     \<and> (\<forall>b \<in> set (bcu_info t). b = 1) \<and> (\<forall>p \<in> set (pcu_info t). p = 1)"

lemma eamp_well: "e = eamp_init \<longleftrightarrow> eamp_online e = 1 \<and> dm e = 0 \<and> in_sider_led1 e = 0
    \<and> in_sider_led2 e = 0 \<and> nd1 e = 0 \<and> nd2 e = 0 \<and> outer_sider_led1 e = 0 \<and> outer_sider_led2 e = 0"
  by (cases e) (auto simp: eamp_init_def)

lemma ccu_well: "c = \<lparr>ccu_online = 1, fdu = 0\<rparr> \<longleftrightarrow> ccu_online c = 1 \<and> fdu c = 0"
  by (cases c) auto

lemma second_devices_well: "all_well (dev_falut_info (UpdateSecondDeviceState f)) = all_well (dev_falut_info f)"
proof -
  have e: "((if eamp_online e \<noteq> 1 then e\<lparr>dm := 1, in_sider_led1 := 1, in_sider_led2 := 1, nd1 := 1, nd2 := 1,
      outer_sider_led1 := 1, outer_sider_led2 := 1\<rparr> else e) = eamp_init) = (e = eamp_init)" for e
    by (cases e) (auto simp: eamp_init_def)
  have c: "((if ccu_online c \<noteq> 1 then c\<lparr>fdu := 1\<rparr> else c) = \<lparr>ccu_online = 1, fdu = 0\<rparr>)
      = (c = \<lparr>ccu_online = 1, fdu = 0\<rparr>)" for c
    by (cases c) simp
  let ?t = "dev_falut_info f" and ?u = "dev_falut_info (UpdateSecondDeviceState f)"
  have "eamp_info ?u = map (\<lambda>e. if eamp_online e \<noteq> 1
      then e\<lparr>dm := 1, in_sider_led1 := 1, in_sider_led2 := 1, nd1 := 1, nd2 := 1,
             outer_sider_led1 := 1, outer_sider_led2 := 1\<rparr> else e) (eamp_info ?t)"
    and "ccu_info ?u = map (\<lambda>c. if ccu_online c \<noteq> 1 then c\<lparr>fdu := 1\<rparr> else c) (ccu_info ?t)"
    and "bcu_info ?u = bcu_info ?t" and "pcu_info ?u = pcu_info ?t"
    by (simp_all add: UpdateSecondDeviceState_def Let_def)
  note parts = this
  show ?thesis unfolding all_well_def parts by (simp only: set_map ball_simps e c)
qed

text \<open>The three summaries agree: a failure is reported exactly when some device is not on line or
  reports a failure of its own, which is exactly when one of the nine flags of the kinds of device
  is 1; the flags are reported as changed exactly when they differ from the last ones; and marking
  what hangs behind a device that is off line changes none of this.\<close>

lemma failure_summaries:
  assumes "length (device_failure f) = 9"
  defines "g \<equiv> fst (CheckDeviceFailureStatusPerTypeDeviceFFromNet f)"
    and "changed \<equiv> snd (CheckDeviceFailureStatusPerTypeDeviceFFromNet f)"
  shows "(WhetherHaveDevFailureInfo f = 1 \<longleftrightarrow> \<not> all_well (dev_falut_info f))
    \<and> (WhetherHaveDevFailureInfo f = 1 \<longleftrightarrow> 1 \<in> set (device_recv_failure g))
    \<and> set (device_recv_failure g) \<subseteq> {0, 1}
    \<and> (changed = 0 \<longleftrightarrow> device_recv_failure g = device_failure f)
    \<and> WhetherHaveDevFailureInfo (UpdateSecondDeviceState f) = WhetherHaveDevFailureInfo f"
proof -
  let ?t = "dev_falut_info f"
  have whether: "WhetherHaveDevFailureInfo f = 1 \<longleftrightarrow> \<not> all_well (dev_falut_info f)" for f
    by (auto simp: WhetherHaveDevFailureInfo_def Let_def first_bad_iff all_well_def eamp_well ccu_well)
  have flags: "device_recv_failure g = recv_failures ?t"
    by (simp add: g_def CheckDeviceFailureStatusPerTypeDeviceFFromNet_def Let_def)
  have one: "1 \<in> set (recv_failures ?t) \<longleftrightarrow> \<not> all_well ?t"
    by (auto simp: recv_failures_def first_bad_iff all_well_def eamp_well ccu_well
        dest: arg_cong [where f = "\<lambda>x. x = 1"])
  have "length (recv_failures ?t) = length (device_failure f)"
    using assms(1) by (simp add: recv_failures_def)
  then have "changed = 1 \<longleftrightarrow> recv_failures ?t \<noteq> device_failure f"
    unfolding changed_def CheckDeviceFailureStatusPerTypeDeviceFFromNet_def Let_def snd_conv
    by (simp add: first_diff_iff list_eq_iff_nth_eq)
  moreover have "changed \<in> {0, 1}"
    unfolding changed_def CheckDeviceFailureStatusPerTypeDeviceFFromNet_def Let_def snd_conv
    by (rule first_diff_01)
  moreover have "set (recv_failures ?t) \<subseteq> {0, 1}"
    by (simp only: recv_failures_def list.set insert_subset first_bad_01 empty_subsetI simp_thms)
  moreover have "all_well (dev_falut_info (UpdateSecondDeviceState f)) = all_well ?t"
    by (rule second_devices_well)
  moreover have "WhetherHaveDevFailureInfo f \<in> {0, 1}" for f
    by (simp add: WhetherHaveDevFailureInfo_def Let_def)
  ultimately show ?thesis using whether one flags
    by (metis insertE singletonD zero_neq_one)
qed


definition faults_demo :: faults where
  "faults_demo = \<lparr>dev_falut_info = fault_init\<lparr>eamp_info := [eamp_init\<lparr>in_sider_led1 := 1\<rparr>]
       @ replicate 5 eamp_init\<rparr>,
     dev_falut_last_info = fault_init, device_recv_failure = replicate 9 0,
     device_failure = replicate 9 0\<rparr>"

section \<open>What is reported as changed\<close>

text \<open>The bytes of a device that one kind of report is about.\<close>

definition observed :: "nat \<Rightarrow> fault_table \<Rightarrow> (byte \<times> byte) list" where
  "observed flag t =
     (if flag = 1 then map (\<lambda>x. (x, 0)) (bcu_info t)
      else if flag = 2 then map (\<lambda>c. (ccu_online c, 0)) (ccu_info t)
      else if flag = 3 then map (\<lambda>e. (eamp_online e, 0)) (eamp_info t)
      else if flag = 4 then map (\<lambda>x. (x, 0)) (pcu_info t)
      else if flag = 5 then map (\<lambda>e. (nd1 e, nd2 e)) (eamp_info t)
      else if flag = 6 then map (\<lambda>e. (dm e, 0)) (eamp_info t)
      else if flag = 7 then map (\<lambda>c. (fdu c, 0)) (ccu_info t)
      else if flag = 8 then map (\<lambda>e. (in_sider_led1 e, in_sider_led2 e)) (eamp_info t)
      else if flag = 9 then map (\<lambda>e. (outer_sider_led1 e, outer_sider_led2 e)) (eamp_info t)
      else [])"

lemma first_diff_map:
  assumes "length xs = length ys" and "\<And>x y. differs x y \<longleftrightarrow> g x \<noteq> g y"
  shows "first_diff differs xs ys = (if map g xs \<noteq> map g ys then 1 else 0)"
proof -
  have "first_diff differs xs ys = 1 \<longleftrightarrow> map g xs \<noteq> map g ys"
    using assms by (simp add: first_diff_iff list_eq_iff_nth_eq)
  then show ?thesis using first_diff_01 [of differs xs ys] by auto
qed

lemma change_compared:
  assumes "fault_wf (dev_falut_info f)" and "fault_wf (dev_falut_last_info f)"
  shows "flag \<noteq> 8 \<longrightarrow> CheckCertificateDeviceFailureInfo flag f =
      (if observed flag (dev_falut_info f) \<noteq> observed flag (dev_falut_last_info f) then 1 else 0)"
proof -
  note len = assms [unfolded fault_wf_def]
  let ?t = "dev_falut_info f" and ?l = "dev_falut_last_info f"
  have l: "length (bcu_info ?t) = length (bcu_info ?l)" "length (pcu_info ?t) = length (pcu_info ?l)"
    "length (ccu_info ?t) = length (ccu_info ?l)" "length (eamp_info ?t) = length (eamp_info ?l)"
    using len by simp_all
  note bytes = first_diff_map [where differs = "(\<noteq>)" and g = "\<lambda>x. (x, 0 :: byte)"]
  have "first_diff (\<noteq>) (bcu_info ?t) (bcu_info ?l)
      = (if map (\<lambda>x. (x, 0 :: byte)) (bcu_info ?t) \<noteq> map (\<lambda>x. (x, 0 :: byte)) (bcu_info ?l) then 1 else 0)"
    "first_diff (\<noteq>) (pcu_info ?t) (pcu_info ?l)
      = (if map (\<lambda>x. (x, 0 :: byte)) (pcu_info ?t) \<noteq> map (\<lambda>x. (x, 0 :: byte)) (pcu_info ?l) then 1 else 0)"
    by (rule bytes; simp add: l)+
  note bytes = this
  have ccu: "first_diff (\<lambda>c d. ccu_online c \<noteq> ccu_online d) (ccu_info ?t) (ccu_info ?l)
      = (if map (\<lambda>c. (ccu_online c, 0 :: byte)) (ccu_info ?t) \<noteq> map (\<lambda>c. (ccu_online c, 0 :: byte)) (ccu_info ?l) then 1 else 0)"
    "first_diff (\<lambda>c d. fdu c \<noteq> fdu d) (ccu_info ?t) (ccu_info ?l)
      = (if map (\<lambda>c. (fdu c, 0 :: byte)) (ccu_info ?t) \<noteq> map (\<lambda>c. (fdu c, 0 :: byte)) (ccu_info ?l) then 1 else 0)"
    by (rule first_diff_map; simp add: l)+
  have eamp: "first_diff (\<lambda>c d. eamp_online c \<noteq> eamp_online d) (eamp_info ?t) (eamp_info ?l)
      = (if map (\<lambda>e. (eamp_online e, 0 :: byte)) (eamp_info ?t) \<noteq> map (\<lambda>e. (eamp_online e, 0 :: byte)) (eamp_info ?l) then 1 else 0)"
    "first_diff (\<lambda>c d. dm c \<noteq> dm d) (eamp_info ?t) (eamp_info ?l)
      = (if map (\<lambda>e. (dm e, 0 :: byte)) (eamp_info ?t) \<noteq> map (\<lambda>e. (dm e, 0 :: byte)) (eamp_info ?l) then 1 else 0)"
    "first_diff (\<lambda>c d. nd1 c \<noteq> nd1 d \<or> nd2 c \<noteq> nd2 d) (eamp_info ?t) (eamp_info ?l)
      = (if map (\<lambda>e. (nd1 e, nd2 e)) (eamp_info ?t) \<noteq> map (\<lambda>e. (nd1 e, nd2 e)) (eamp_info ?l) then 1 else 0)"
    "first_diff (\<lambda>c d. outer_sider_led1 c \<noteq> outer_sider_led1 d \<or> outer_sider_led2 c \<noteq> outer_sider_led2 d)
        (eamp_info ?t) (eamp_info ?l)
      = (if map (\<lambda>e. (outer_sider_led1 e, outer_sider_led2 e)) (eamp_info ?t)
            \<noteq> map (\<lambda>e. (outer_sider_led1 e, outer_sider_led2 e)) (eamp_info ?l) then 1 else 0)"
    by (rule first_diff_map; simp add: l)+
  show ?thesis
    unfolding CheckCertificateDeviceFailureInfo_def observed_def Let_def bytes ccu eamp by simp
qed

text \<open>C37:
  For every kind of device but the inner displays, a change is reported exactly when what the two
  tables hold of that kind differs. For the inner displays the first lamp is compared with the
  second lamp of the last table: a table that has not changed is reported as changed when the two
  lamps of an amplifier differ, and a change of the first lamp alone can go unnoticed.\<close>

theorem change_reported:
  assumes "fault_wf (dev_falut_info f)" and "fault_wf (dev_falut_last_info f)"
  shows "(flag \<noteq> 8 \<longrightarrow> CheckCertificateDeviceFailureInfo flag f =
        (if observed flag (dev_falut_info f) \<noteq> observed flag (dev_falut_last_info f) then 1 else 0))
    \<and> CheckCertificateDeviceFailureInfo 8 f =
        (if \<exists>i < 6. fst (observed 8 (dev_falut_info f) ! i) \<noteq> snd (observed 8 (dev_falut_last_info f) ! i)
            \<or> snd (observed 8 (dev_falut_info f) ! i) \<noteq> snd (observed 8 (dev_falut_last_info f) ! i)
         then 1 else 0)"
proof
  note len = assms [unfolded fault_wf_def]
  show "flag \<noteq> 8 \<longrightarrow> CheckCertificateDeviceFailureInfo flag f =
      (if observed flag (dev_falut_info f) \<noteq> observed flag (dev_falut_last_info f) then 1 else 0)"
    by (rule change_compared [OF assms])
  have "CheckCertificateDeviceFailureInfo 8 f = 1 \<longleftrightarrow>
      (\<exists>i < 6. fst (observed 8 (dev_falut_info f) ! i) \<noteq> snd (observed 8 (dev_falut_last_info f) ! i)
            \<or> snd (observed 8 (dev_falut_info f) ! i) \<noteq> snd (observed 8 (dev_falut_last_info f) ! i))"
    using len by (auto simp: CheckCertificateDeviceFailureInfo_def observed_def Let_def first_diff_iff)
  moreover have "CheckCertificateDeviceFailureInfo 8 f \<in> {0, 1}"
    using first_diff_01 by (simp add: CheckCertificateDeviceFailureInfo_def Let_def)
  ultimately show "CheckCertificateDeviceFailureInfo 8 f =
      (if \<exists>i < 6. fst (observed 8 (dev_falut_info f) ! i) \<noteq> snd (observed 8 (dev_falut_last_info f) ! i)
            \<or> snd (observed 8 (dev_falut_info f) ! i) \<noteq> snd (observed 8 (dev_falut_last_info f) ! i)
         then 1 else 0)" by auto
qed

text \<open>A lamp that stays broken, and one that was broken and works again.\<close>

definition lamp_broken :: fault_table where
  "lamp_broken = fault_init\<lparr>eamp_info := eamp_init\<lparr>in_sider_led1 := 1\<rparr> # replicate 5 eamp_init\<rparr>"

definition faults_with :: "fault_table \<Rightarrow> fault_table \<Rightarrow> faults" where
  "faults_with t l = \<lparr>dev_falut_info = t, dev_falut_last_info = l,
     device_recv_failure = replicate 9 0, device_failure = replicate 9 0\<rparr>"

lemma demo_tables_wf: "fault_wf fault_init" "fault_wf lamp_broken"
  by (simp_all add: fault_wf_def fault_init_def lamp_broken_def)

lemma demo_lamps:
  "observed 8 fault_init = replicate 6 (0, 0)" "observed 8 lamp_broken = (1, 0) # replicate 5 (0, 0)"
  by (simp_all add: observed_def fault_init_def lamp_broken_def eamp_init_def)

theorem change_reported_witness:
  "CheckCertificateDeviceFailureInfo 8 (faults_with lamp_broken lamp_broken) = 1
   \<and> CheckCertificateDeviceFailureInfo 8 (faults_with fault_init lamp_broken) = 0
   \<and> CheckCertificateDeviceFailureInfo 6 (faults_with fault_init lamp_broken) = 0"
proof -
  have tables: "dev_falut_info (faults_with t l) = t" "dev_falut_last_info (faults_with t l) = l" for t l
    by (simp_all add: faults_with_def)
  have wf: "fault_wf (dev_falut_info (faults_with t l)) \<and> fault_wf (dev_falut_last_info (faults_with t l))"
    if "t \<in> {fault_init, lamp_broken}" and "l \<in> {fault_init, lamp_broken}" for t l
    using that demo_tables_wf by (auto simp: tables)
  have stays: "CheckCertificateDeviceFailureInfo 8 (faults_with lamp_broken lamp_broken) = 1"
  proof -
    have "\<exists>i < 6. fst (observed 8 lamp_broken ! i) \<noteq> snd (observed 8 lamp_broken ! i)"
      by (rule exI [of _ 0]) (simp add: demo_lamps)
    with change_reported [of "faults_with lamp_broken lamp_broken" 8, THEN conjunct2]
      wf [of lamp_broken lamp_broken] show ?thesis by (auto simp: tables)
  qed
  have "observed 6 fault_init = observed 6 lamp_broken"
    by (simp add: observed_def fault_init_def lamp_broken_def eamp_init_def numeral_eq_Suc)
  then have same: "CheckCertificateDeviceFailureInfo 6 (faults_with fault_init lamp_broken) = 0"
    using change_reported [of "faults_with fault_init lamp_broken" 6] wf [of fault_init lamp_broken]
    by (simp add: tables)
  have "CheckCertificateDeviceFailureInfo 8 (faults_with fault_init lamp_broken) = 0"
    using change_reported [of "faults_with fault_init lamp_broken" 8] wf [of fault_init lamp_broken]
    by (simp add: tables demo_lamps nth_Cons split: nat.splits)
  with stays same show ?thesis by simp
qed

end
