(* ===== verification/Start_Up.thy ===== *)
theory Start_Up
  imports Net_Loop
begin

text \<open>
  Start-up of the unit: \<open>main\<close> in \<open>bcu_main.cxx\<close> creates every buffer by name in \<open>InitBuffer\<close>
  (\<open>bcu_function.cxx\<close>), then starts the threads, and each thread opens by name the buffers that it
  shares with the others: \<open>BCUControlMainBufferInit\<close> for the control thread,
  \<open>NetworkHandleEntry\<close>, \<open>TouchScreenEntry\<close> and \<open>BcuFailureStaticsEntry\<close>, and the thread of
  \<open>bcu_gd_sync.cxx\<close>. The names are strings that the compiler does not compare; the lemmas show
  that they fit together, and what happens when memory is short.

  \<open>InitBuffer\<close> is twenty-five calls with a test of each result; it is written as the list
  \<open>init_calls\<close>, in the order of the source, and run by \<open>run_init\<close>. Its local variables, of which
  three are never assigned, are the function \<open>bo_vars\<close>. The addresses that \<open>malloc\<close> returns to
  the k-th call are \<open>given k\<close>, and the sizes of the package structs are the record \<open>sizeofs\<close>.
\<close>

section \<open>Creating the buffers\<close>

datatype init_var = Gd_Net_Cmd_Rx | Control_Recv_Ts | Network_Send_Audio | Network_Receive_Audio
  | Network_Receive_Control | Network_Send_Control | Control_Receive_Cmd | Send_Info_To_Pis
  | Recv_Info_To_Pis | Local_Audio_Data | Alarm_Audio_Data | Ptt_State_Send | Ptt_State_Recv
  | Udp_Common_Send | Udp_Common_Recv | Dev_Vol_Info | Ret | Ignored

record sizeofs =
  sz_network_send :: "32 word"
  sz_send_info :: "32 word"
  sz_common :: "32 word"
  sz_big :: "32 word"
  sz_heart :: "32 word"
  sz_shell :: "32 word"
  sz_ts_volume :: "32 word"

datatype creation = Chars nat string | Blocks "32 word" "sizeofs \<Rightarrow> 32 word" string

datatype deletion = DelChars init_var | DelBlocks init_var

text \<open>
  One call: what it creates, the variable that takes the result, the value that the code takes
  for a failure, and on a failure the buffers deleted and the result of \<open>InitBuffer\<close>.
\<close>

record init_call =
  ic_what :: creation
  ic_var :: init_var
  ic_bad :: "int option"
  ic_del :: "deletion list"
  ic_code :: int

definition call_of :: "init_var \<Rightarrow> creation \<Rightarrow> int option \<Rightarrow> deletion list \<Rightarrow> int \<Rightarrow> init_call" where
  "call_of v c bad del code = \<lparr>ic_what = c, ic_var = v, ic_bad = bad, ic_del = del, ic_code = code\<rparr>"

abbreviation (input) DEFAULT_AUDIO_BUFFER_SIZE :: nat where "DEFAULT_AUDIO_BUFFER_SIZE \<equiv> 8192"
abbreviation (input) DEFAULT_BUFFER_TOTAL_BLOCKS :: "32 word" where "DEFAULT_BUFFER_TOTAL_BLOCKS \<equiv> 16"

text \<open>The deletions grow from test to test; these are the steps in which they grow.\<close>

definition del_screen :: "deletion list" where
  "del_screen = [DelChars Network_Send_Audio, DelChars Network_Receive_Audio,
     DelBlocks Network_Receive_Control, DelBlocks Network_Send_Control]"

definition del_alarm :: "deletion list" where
  "del_alarm = del_screen @ [DelBlocks Control_Receive_Cmd, DelBlocks Send_Info_To_Pis,
     DelBlocks Recv_Info_To_Pis, DelBlocks Local_Audio_Data]"

definition del_ptt :: "deletion list" where
  "del_ptt = del_alarm @ [DelChars Alarm_Audio_Data]"

definition del_common :: "deletion list" where
  "del_common = del_ptt @ [DelBlocks Ptt_State_Send, DelBlocks Ptt_State_Recv]"

definition own_calls :: "init_call list" where
  "own_calls =
     [call_of Gd_Net_Cmd_Rx (Blocks 8 sz_big ''bcu-gd-net-cmd-Rx'') (Some 0) [] (-1),
      call_of Control_Recv_Ts (Blocks 2 sz_ts_volume ''bcu-control-recv-ts-info'') (Some 0) [] (-1),
      call_of Network_Send_Audio (Chars DEFAULT_AUDIO_BUFFER_SIZE ''bcu-network-audio-tx'') (Some 0) [] (-1),
      call_of Ignored (Chars (3 * 1024 + 64) ''bcu-network-audio-pendig'') None [] 0,
      call_of Network_Receive_Audio
        (Chars (DEFAULT_AUDIO_BUFFER_SIZE + 3 * 1024) ''bcu-network-audio-rx'') None [] 0,
      call_of Network_Receive_Audio
        (Chars (DEFAULT_AUDIO_BUFFER_SIZE + 3 * 1024) ''bcu-local-audio-rx'') (Some 0)
        [DelChars Network_Send_Audio] (-1),
      call_of Network_Receive_Control
        (Blocks DEFAULT_BUFFER_TOTAL_BLOCKS sz_network_send ''bcu-network-cmd-rx'') (Some 0)
        [DelChars Network_Send_Audio, DelChars Network_Receive_Audio] (-1),
      call_of Network_Send_Control (Blocks 5 sz_network_send ''bcu-network-cmd-tx'') (Some 0)
        [DelChars Network_Send_Audio, DelChars Network_Receive_Audio,
         DelBlocks Network_Receive_Control] (-1),
      call_of Control_Receive_Cmd (Blocks 5 sz_send_info ''bcu-screen-cmd-tx'') (Some 0) del_screen (-1),
      call_of Alarm_Audio_Data (Chars (128 + 1024 * 11) ''bcu-alarm-audio-data'') (Some 0) del_alarm (-1),
      call_of Ptt_State_Send (Blocks 2 sz_common ''bcu-cmu-car-type-rx'') (Some 0) del_ptt (-1),
      call_of Ptt_State_Recv (Blocks 3 sz_common ''bcu-ptt-state-rx'') (Some 0)
        (del_ptt @ [DelBlocks Ptt_State_Send]) (-1),
      call_of Udp_Common_Send (Blocks 5 sz_common ''network-udp-common-send'') (Some 0) del_common (-1)]"

definition network_calls :: "init_call list" where
  "network_calls =
     [call_of Dev_Vol_Info (Blocks 2 sz_common ''network-udp-dev_vol-recv'') (Some (-1)) [] (-1),
      call_of Udp_Common_Recv (Blocks 3 sz_common ''network-udp-common-recv'') (Some 0)
        (del_common @ [DelBlocks Udp_Common_Send]) (-1),
      call_of Ignored (Blocks 3 sz_big ''network-udp-common-big-send'') None [] 0,
      call_of Ignored (Blocks 2 sz_big ''network-udp-common-big-recv'') None [] 0,
      call_of Ret (Blocks 3 sz_heart ''network-udp-heart-recv'') (Some 0) [] (-1),
      call_of Ret (Blocks 3 sz_heart ''network-udp-heart-send'') (Some 0) [] (-1),
      call_of Ret (Blocks 2 sz_big ''bcu-recv-all-dev-state'') (Some 0) [] (-1),
      call_of Ret (Blocks 3 sz_big ''network-udp-common-big-recv-version-check'') (Some 0) [] (-25),
      call_of Ret (Blocks 2 sz_common ''bcu-cmu-ack-state-rx'') (Some 0) [] (-26),
      call_of Ret (Blocks 2 sz_common ''network-udp-common-TCMS-cmu-state'') (Some 0) [] (-27),
      call_of Ret (Blocks 2 sz_shell ''network-udp-shell-recv'') (Some 0) [] (-28),
      call_of Ret (Blocks 2 sz_shell ''network-udp-shell-send'') (Some 0) [] (-29)]"

definition init_calls :: "init_call list" where
  "init_calls = own_calls @ network_calls"

lemmas init_calls_code = init_calls_def own_calls_def network_calls_def append.simps

record boot =
  bo_chars :: char_heap
  bo_blocks :: block_heap
  bo_vars :: "init_var \<Rightarrow> ptr"

record memory =
  me_char :: cb_alloc
  me_block :: bb_alloc

fun create :: "sizeofs \<Rightarrow> memory \<Rightarrow> creation \<Rightarrow> boot \<Rightarrow> boot \<times> ptr" where
  "create S m (Chars n s) b =
     (let (h, p) = CharBufferCreate (me_char m) (bo_chars b) n (Some s) in (b\<lparr>bo_chars := h\<rparr>, p))"
| "create S m (Blocks n isz s) b =
     (let (h, p) = BlockBufferCreate (me_block m) (bo_blocks b) n (isz S) (Some s)
      in (b\<lparr>bo_blocks := h\<rparr>, p))"

fun delete :: "deletion \<Rightarrow> boot \<Rightarrow> boot" where
  "delete (DelChars v) b = b\<lparr>bo_chars := CharBufferDelete (bo_chars b) (bo_vars b v)\<rparr>"
| "delete (DelBlocks v) b = b\<lparr>bo_blocks := BlockBufferDelete (bo_blocks b) (bo_vars b v)\<rparr>"

fun run_init :: "sizeofs \<Rightarrow> (nat \<Rightarrow> memory) \<Rightarrow> nat \<Rightarrow> init_call list \<Rightarrow> boot \<Rightarrow> boot \<times> int" where
  "run_init S given k [] b = (b, 0)"
| "run_init S given k (c # cs) b =
     (let (b, p) = create S (given k) (ic_what c) b;
          b = b\<lparr>bo_vars := (bo_vars b)(ic_var c := p)\<rparr>
      in if ic_bad c = Some p then (fold delete (ic_del c) b, ic_code c)
         else run_init S given (Suc k) cs b)"

definition InitBuffer :: "sizeofs \<Rightarrow> (nat \<Rightarrow> memory) \<Rightarrow> boot \<Rightarrow> boot \<times> int" where
  "InitBuffer S given b = run_init S given 0 init_calls b"

text \<open>\<open>main\<close> gives up only on the result -1.\<close>

definition main_goes_on :: "int \<Rightarrow> bool" where
  "main_goes_on return_init_buffer \<longleftrightarrow> return_init_buffer \<noteq> -1"

text \<open>Before \<open>InitBuffer\<close> both lists of identifiers hold their static heads.\<close>

definition blank_boot :: "(ptr \<Rightarrow> char_buffer) \<Rightarrow> (ptr \<Rightarrow> block_buffer) \<Rightarrow> (init_var \<Rightarrow> ptr) \<Rightarrow> boot" where
  "blank_boot cs bs vs =
     \<lparr>bo_chars = \<lparr>ch_ids = [id_head_init], ch_bufs = cs\<rparr>,
      bo_blocks = \<lparr>bh_ids = [id_head_init], bh_bufs = bs\<rparr>, bo_vars = vs\<rparr>"

section \<open>Opening them\<close>

abbreviation (input) char_open :: "boot \<Rightarrow> string \<Rightarrow> ptr" where
  "char_open b s \<equiv> CharBufferOpen (bo_chars b) (Some s)"

abbreviation (input) block_open :: "boot \<Rightarrow> string \<Rightarrow> ptr" where
  "block_open b s \<equiv> BlockBufferOpen (bo_blocks b) (Some s)"

text \<open>The identifiers of \<open>bcu_state\<close> behind those that are registered.\<close>

record control_ids = common_ids +
  comm_cmd_recv_big_buffer_id :: ptr
  comm_cmd_send_big_buffer_id :: ptr
  comm_cmd_send_buffer_id :: ptr
  comm_cmd_recv_buffer_id :: ptr
  local_audio_data_recv_buffer_id :: ptr
  dev_vol_info_buffer_id :: ptr
  cmd_send_buffer_id :: ptr
  cmd_recv_buffer_id :: ptr
  audio_data_send_buffer_id :: ptr
  audio_data_recv_buffer_id :: ptr
  recv_cmd_from_touch :: ptr
  local_audio_data_buffer_id :: ptr
  alarm_audio_data_buffer_id :: ptr
  pending_buffer_id :: ptr
  shell_recv_buffer_id :: ptr
  shell_send_buffer_id :: ptr

definition BCUControlMainBufferInit :: "boot \<Rightarrow> control_ids" where
  "BCUControlMainBufferInit b =
     \<lparr>ppt_state_recv_buffer_id = block_open b ''bcu-ptt-state-rx'',
      bcu_cmu_car_type_buffer_id = block_open b ''bcu-cmu-car-type-rx'',
      udp_common_recv_dev_colueme = block_open b ''network-udp-dev_vol-recv'',
      all_dev_state_buffer_id = block_open b ''bcu-recv-all-dev-state'',
      software_version_buffer_id = block_open b ''network-udp-common-big-recv-version-check'',
      bcu_cmu_ack_state_buffer_id = block_open b ''bcu-cmu-ack-state-rx'',
      bcu_recv_tcms_cmu_state_buffer_id = block_open b ''network-udp-common-TCMS-cmu-state'',
      comm_cmd_recv_big_buffer_id = block_open b ''network-udp-common-big-recv'',
      comm_cmd_send_big_buffer_id = block_open b ''network-udp-common-big-send'',
      comm_cmd_send_buffer_id = block_open b ''network-udp-common-send'',
      comm_cmd_recv_buffer_id = block_open b ''network-udp-common-recv'',
      local_audio_data_recv_buffer_id = char_open b ''bcu-local-audio-rx'',
      dev_vol_info_buffer_id = block_open b ''bcu-control-recv-ts-info'',
      cmd_send_buffer_id = block_open b ''bcu-network-cmd-tx'',
      cmd_recv_buffer_id = block_open b ''bcu-network-cmd-rx'',
      audio_data_send_buffer_id = char_open b ''bcu-network-audio-tx'',
      audio_data_recv_buffer_id = char_open b ''bcu-network-audio-rx'',
      recv_cmd_from_touch = block_open b ''bcu-screen-cmd-tx'',
      local_audio_data_buffer_id = char_open b ''bcu-local-audio-data'',
      alarm_audio_data_buffer_id = char_open b ''bcu-alarm-audio-data'',
      pending_buffer_id = char_open b ''bcu-network-audio-pendig'',
      shell_recv_buffer_id = block_open b ''network-udp-shell-recv'',
      shell_send_buffer_id = block_open b ''network-udp-shell-send''\<rparr>"

definition NetworkHandleEntry :: "boot \<Rightarrow> net_ids" where
  "NetworkHandleEntry b =
     \<lparr>cmd_recv = block_open b ''bcu-network-cmd-rx'', cmd_send = block_open b ''bcu-network-cmd-tx'',
      data_recv = char_open b ''bcu-network-audio-rx'', data_send = char_open b ''bcu-network-audio-tx'',
      common_recv = block_open b ''network-udp-common-recv'',
      common_send = block_open b ''network-udp-common-send'',
      big_recv = block_open b ''network-udp-common-big-recv'',
      big_send = block_open b ''network-udp-common-big-send'',
      heart_recv = block_open b ''network-udp-heart-recv'',
      heart_send = block_open b ''network-udp-heart-send'',
      shell_recv = block_open b ''network-udp-shell-recv'',
      shell_send = block_open b ''network-udp-shell-send''\<rparr>"

definition TouchScreenEntry :: "boot \<Rightarrow> ptr \<times> ptr" where
  "TouchScreenEntry b = (block_open b ''bcu-screen-cmd-tx'', block_open b ''bcu-control-recv-ts-info'')"

definition BcuFailureStaticsEntry :: "boot \<Rightarrow> ptr \<times> ptr" where
  "BcuFailureStaticsEntry b = (block_open b ''network-udp-heart-recv'', block_open b ''network-udp-heart-send'')"

text \<open>The first statements of the thread that copies the tables: its buffers, and its own
  registration.\<close>

abbreviation (input) COMMON_PACKAGE_TYPE_SYNC_GD :: int where "COMMON_PACKAGE_TYPE_SYNC_GD \<equiv> 2"

definition gd_open :: "buffer_info list \<Rightarrow> boot \<Rightarrow> buffer_info list \<times> ptr \<times> ptr" where
  "gd_open nds b =
     (let rx = block_open b ''bcu-gd-net-cmd-Rx''
      in (fst (ZhwBufferRegister True nds 2 COMMON_PACKAGE_TYPE_SYNC_GD 1 rx), rx,
          block_open b ''network-udp-common-big-send''))"

section \<open>What one call does\<close>

fun cname :: "creation \<Rightarrow> string" where
  "cname (Chars n s) = s"
| "cname (Blocks n isz s) = s"

fun addr :: "memory \<Rightarrow> creation \<Rightarrow> ptr" where
  "addr m (Chars n s) = ca_struct (me_char m)"
| "addr m (Blocks n isz s) = ba_struct (me_block m)"

text \<open>The memory returned has the size that was asked for.\<close>

fun fits :: "sizeofs \<Rightarrow> memory \<Rightarrow> creation \<Rightarrow> bool" where
  "fits S m (Chars n s) \<longleftrightarrow> length (ca_junk (me_char m)) = n"
| "fits S m (Blocks n isz s) \<longleftrightarrow> 2 \<le> unat n \<and> unat n \<le> 256 \<and> unat n * (unat (isz S) + 4) < 2 ^ 32
     \<and> length (ba_junk (me_block m)) = unat n * (unat (isz S) + 4) + 1"

fun opened :: "boot \<Rightarrow> creation \<Rightarrow> ptr" where
  "opened b (Chars n s) = char_open b s"
| "opened b (Blocks n isz s) = block_open b s"

fun in_use :: "boot \<Rightarrow> creation \<Rightarrow> bool" where
  "in_use b (Chars n s) \<longleftrightarrow> id_name_used (ch_ids (bo_chars b)) s"
| "in_use b (Blocks n isz s) \<longleftrightarrow> id_name_used (bh_ids (bo_blocks b)) s"

fun live_at :: "boot \<Rightarrow> creation \<Rightarrow> ptr set" where
  "live_at b (Chars n s) = set (id_live (ch_ids (bo_chars b)))"
| "live_at b (Blocks n isz s) = set (id_live (bh_ids (bo_blocks b)))"

text \<open>The buffer \<open>p\<close> is what the call asked for: found by its name, empty, of the right size.\<close>

fun stands :: "sizeofs \<Rightarrow> boot \<Rightarrow> ptr \<Rightarrow> creation \<Rightarrow> bool" where
  "stands S b p (Chars n s) \<longleftrightarrow> char_open b s = p \<and> CharBufferIsValid (bo_chars b) p
     \<and> cb_view (ch_bufs (bo_chars b) p) = [] \<and> cb_size (ch_bufs (bo_chars b) p) = n"
| "stands S b p (Blocks n isz s) \<longleftrightarrow> block_open b s = p \<and> BlockBufferIsValid (bo_blocks b) p
     \<and> bb_view (bh_bufs (bo_blocks b) p) = []
     \<and> bb_conf (bh_bufs (bo_blocks b) p) = (unat n, unat (isz S) + 4)"

definition boot_ok :: "boot \<Rightarrow> bool" where
  "boot_ok b \<longleftrightarrow> ch_inv (bo_chars b) \<and> bh_inv (bo_blocks b)
     \<and> id_pristine (ch_ids (bo_chars b)) \<and> id_pristine (bh_ids (bo_blocks b))"

lemma chars_step:
  assumes "ch_inv h" and "id_pristine (ch_ids h)" and "plain_name s"
    and "ca_struct a \<notin> set (id_live (ch_ids h))" and "length (ca_junk a) = n"
    and "CharBufferCreate a h n (Some s) = (h', p)"
  shows "ch_inv h'" and "id_pristine (ch_ids h')"
    and "set (id_live (ch_ids h')) \<subseteq> insert (ca_struct a) (set (id_live (ch_ids h)))"
    and "q \<in> set (id_live (ch_ids h)) \<Longrightarrow> q \<in> set (id_live (ch_ids h')) \<and> ch_bufs h' q = ch_bufs h q"
    and "plain_name t \<Longrightarrow> t \<noteq> s \<Longrightarrow> id_name_used (ch_ids h') t = id_name_used (ch_ids h) t
      \<and> id_open (ch_ids h') t = id_open (ch_ids h) t"
    and "p \<noteq> NULL \<Longrightarrow> p = ca_struct a \<and> p \<in> set (id_live (ch_ids h')) \<and> id_open (ch_ids h') s = p
      \<and> cb_view (ch_bufs h' p) = [] \<and> cb_size (ch_bufs h' p) = n"
    and "p = NULL \<Longrightarrow> ch_ids h' = ch_ids h"
proof -
  have nul: "NUL \<notin> set s" using assms(3) by (simp add: plain_name_def)
  show "ch_inv h'" using ch_inv_create [OF assms(1,4,5) nul assms(6)] .
  have wf: "id_wf (ch_ids h)" using assms(1) by (simp add: ch_inv_def)
  have null: "p = NULL \<Longrightarrow> ch_ids h' = ch_ids h" "p = NULL \<Longrightarrow> q \<noteq> ca_struct a \<Longrightarrow> ch_bufs h' q = ch_bufs h q" for q
    using char_create_fail [of a h n s h'] assms(6) by simp_all
  then show "p = NULL \<Longrightarrow> ch_ids h' = ch_ids h" by simp
  have full: "p = ca_struct a \<and> ch_bufs h' = (ch_bufs h)(p := cb_new a n) \<and> id_pristine (ch_ids h')
      \<and> set (id_live (ch_ids h')) = insert p (set (id_live (ch_ids h)))
      \<and> (\<forall>t. plain_name t \<longrightarrow> (id_name_used (ch_ids h') t \<longleftrightarrow> t = s \<or> id_name_used (ch_ids h) t)
          \<and> id_open (ch_ids h') t = (if t = s then p else id_open (ch_ids h) t))" if "p \<noteq> NULL"
  proof -
    note c = char_create_cases [OF assms(6) that]
    have "set (id_live (ch_ids h')) = insert p (set (id_live (ch_ids h)))"
      by (rule id_save_wf(2) [OF wf _ nul c(4)]) (use assms(4) c(1) in auto)
    with c id_save_map [OF wf assms(2,3) c(4)] show ?thesis by simp
  qed
  show "id_pristine (ch_ids h')" using full null(1) assms(2) by (cases "p = NULL") simp_all
  show "set (id_live (ch_ids h')) \<subseteq> insert (ca_struct a) (set (id_live (ch_ids h)))"
    using full null(1) by (cases "p = NULL") auto
  show "q \<in> set (id_live (ch_ids h)) \<Longrightarrow> q \<in> set (id_live (ch_ids h')) \<and> ch_bufs h' q = ch_bufs h q"
    using full null(1) null(2) [of q] assms(4) by (cases "p = NULL"; cases "q = ca_struct a") auto
  show "plain_name t \<Longrightarrow> t \<noteq> s \<Longrightarrow> id_name_used (ch_ids h') t = id_name_used (ch_ids h) t
      \<and> id_open (ch_ids h') t = id_open (ch_ids h) t"
    using full null(1) by (cases "p = NULL") simp_all
  show "p \<noteq> NULL \<Longrightarrow> p = ca_struct a \<and> p \<in> set (id_live (ch_ids h')) \<and> id_open (ch_ids h') s = p
      \<and> cb_view (ch_bufs h' p) = [] \<and> cb_size (ch_bufs h' p) = n"
    using full assms(3) by (auto simp: cb_new_view cb_new_size)
qed

lemma block_list_step:
  assumes "bh_inv h" and "id_pristine (bh_ids h)" and "plain_name s"
    and "ba_struct a \<notin> set (id_live (bh_ids h))" and n: "2 \<le> unat n" "unat n \<le> 256"
    and fit: "unat n * (unat isz + 4) < 2 ^ 32"
    and junk: "length (ba_junk a) = unat n * (unat isz + 4) + 1"
    and "BlockBufferCreate a h n isz (Some s) = (h', p)"
  shows "bh_inv h'" and "id_pristine (bh_ids h')"
    and "set (id_live (bh_ids h')) \<subseteq> insert (ba_struct a) (set (id_live (bh_ids h)))"
    and "q \<in> set (id_live (bh_ids h)) \<Longrightarrow> q \<in> set (id_live (bh_ids h')) \<and> bh_bufs h' q = bh_bufs h q"
    and "plain_name t \<Longrightarrow> t \<noteq> s \<Longrightarrow> id_name_used (bh_ids h') t = id_name_used (bh_ids h) t
      \<and> id_open (bh_ids h') t = id_open (bh_ids h) t"
    and "p \<noteq> NULL \<Longrightarrow> p = ba_struct a \<and> p \<in> set (id_live (bh_ids h')) \<and> id_open (bh_ids h') s = p
      \<and> bb_view (bh_bufs h' p) = [] \<and> bb_conf (bh_bufs h' p) = (unat n, unat isz + 4)"
    and "p = NULL \<Longrightarrow> bh_ids h' = bh_ids h"
proof -
  note create = assms(9)
  have nul: "NUL \<notin> set s" using assms(3) by (simp add: plain_name_def)
  have max: "max 2 n = n" using n(1) by (simp add: max_absorb2 word_le_nat_alt)
  have pos: "0 < n" "n \<le> 256" using n by (simp_all add: word_less_nat_alt word_le_nat_alt)
  show "bh_inv h'"
    by (rule bh_inv_create [OF assms(1,4) nul pos _ _ create]) (use fit junk in \<open>simp_all add: max\<close>)
  have wf: "id_wf (bh_ids h)" using assms(1) by (simp add: bh_inv_def)
  have null: "p = NULL \<Longrightarrow> bh_ids h' = bh_ids h" "p = NULL \<Longrightarrow> q \<noteq> ba_struct a \<Longrightarrow> bh_bufs h' q = bh_bufs h q" for q
    using block_create_fail [of a h n isz s h'] create by simp_all
  then show "p = NULL \<Longrightarrow> bh_ids h' = bh_ids h" by simp
  have full: "p = ba_struct a \<and> bh_bufs h' = (bh_bufs h)(p := bb_new a n isz) \<and> id_pristine (bh_ids h')
      \<and> set (id_live (bh_ids h')) = insert p (set (id_live (bh_ids h)))
      \<and> (\<forall>t. plain_name t \<longrightarrow> (id_name_used (bh_ids h') t \<longleftrightarrow> t = s \<or> id_name_used (bh_ids h) t)
          \<and> id_open (bh_ids h') t = (if t = s then p else id_open (bh_ids h) t))" if "p \<noteq> NULL"
  proof -
    note c = block_create_cases [OF create that, unfolded max]
    have "set (id_live (bh_ids h')) = insert p (set (id_live (bh_ids h)))"
      by (rule id_save_wf(2) [OF wf _ nul c(4)]) (use assms(4) c(1) in auto)
    with c id_save_map [OF wf assms(2,3) c(4)] show ?thesis by simp
  qed
  note new = bb_new_inv [OF n fit junk]
  show "id_pristine (bh_ids h')" using full null(1) assms(2) by (cases "p = NULL") simp_all
  show "set (id_live (bh_ids h')) \<subseteq> insert (ba_struct a) (set (id_live (bh_ids h)))"
    using full null(1) by (cases "p = NULL") auto
  show "q \<in> set (id_live (bh_ids h)) \<Longrightarrow> q \<in> set (id_live (bh_ids h')) \<and> bh_bufs h' q = bh_bufs h q"
    using full null(1) null(2) [of q] assms(4) by (cases "p = NULL"; cases "q = ba_struct a") auto
  show "plain_name t \<Longrightarrow> t \<noteq> s \<Longrightarrow> id_name_used (bh_ids h') t = id_name_used (bh_ids h) t
      \<and> id_open (bh_ids h') t = id_open (bh_ids h) t"
    using full null(1) by (cases "p = NULL") simp_all
  show "p \<noteq> NULL \<Longrightarrow> p = ba_struct a \<and> p \<in> set (id_live (bh_ids h')) \<and> id_open (bh_ids h') s = p
      \<and> bb_view (bh_bufs h' p) = [] \<and> bb_conf (bh_bufs h' p) = (unat n, unat isz + 4)"
    using full assms(3) new(2,3) by auto
qed


lemma create_step:
  assumes ok: "boot_ok b" and name: "plain_name (cname c)" and new: "addr m c \<notin> live_at b c"
    and fit: "fits S m c" and c: "create S m c b = (b', p)"
  shows "boot_ok b'"
    and "p \<noteq> NULL \<Longrightarrow> p = addr m c \<and> stands S b' p c"
    and "p = NULL \<Longrightarrow> in_use b' c = in_use b c"
    and "plain_name (cname d) \<Longrightarrow> cname d \<noteq> cname c
      \<Longrightarrow> in_use b' d = in_use b d \<and> opened b' d = opened b d \<and> (stands S b q d \<longrightarrow> stands S b' q d)"
    and "live_at b' d \<subseteq> insert (addr m c) (live_at b d)"
proof -
  have keep_char: "CharBufferIsValid h q \<Longrightarrow> q \<in> set (id_live (ch_ids h))" for h q
    by (simp add: CharBufferIsValid_def id_is_valid_iff split: if_splits)
  have keep_block: "BlockBufferIsValid h q \<Longrightarrow> q \<in> set (id_live (bh_ids h))" for h q
    by (simp add: BlockBufferIsValid_def id_is_valid_iff split: if_splits)
  have "boot_ok b' \<and> (p \<noteq> NULL \<longrightarrow> p = addr m c \<and> stands S b' p c) \<and> (p = NULL \<longrightarrow> in_use b' c = in_use b c)
    \<and> (plain_name (cname d) \<and> cname d \<noteq> cname c \<longrightarrow> in_use b' d = in_use b d \<and> opened b' d = opened b d
        \<and> (stands S b q d \<longrightarrow> stands S b' q d))
    \<and> live_at b' d \<subseteq> insert (addr m c) (live_at b d)"
  proof (cases c)
    case (Chars n s)
    obtain h where h: "CharBufferCreate (me_char m) (bo_chars b) n (Some s) = (h, p)" "b' = b\<lparr>bo_chars := h\<rparr>"
      using c Chars by (auto split: prod.splits)
    note st = chars_step [OF _ _ _ _ _ h(1)]
    have pre: "ch_inv (bo_chars b)" "id_pristine (ch_ids (bo_chars b))" "plain_name s"
      "ca_struct (me_char m) \<notin> set (id_live (ch_ids (bo_chars b)))" "length (ca_junk (me_char m)) = n"
      using ok name new fit Chars by (simp_all add: boot_ok_def)
    note st = st [OF pre]
    show ?thesis
      using st(1-3) st(6,7) st(4) [of q] st(5) [of "cname d"] ok h(2) Chars keep_char [of "bo_chars b" q]
      by (cases d) (auto simp: boot_ok_def CharBufferOpen_def CharBufferIsValid_def id_is_valid_iff)
  next
    case (Blocks n isz s)
    obtain h where h: "BlockBufferCreate (me_block m) (bo_blocks b) n (isz S) (Some s) = (h, p)"
        "b' = b\<lparr>bo_blocks := h\<rparr>"
      using c Blocks by (auto split: prod.splits)
    note st = block_list_step [OF _ _ _ _ _ _ _ _ h(1)]
    have pre: "bh_inv (bo_blocks b)" "id_pristine (bh_ids (bo_blocks b))" "plain_name s"
      "ba_struct (me_block m) \<notin> set (id_live (bh_ids (bo_blocks b)))" "2 \<le> unat n" "unat n \<le> 256"
      "unat n * (unat (isz S) + 4) < 2 ^ 32"
      "length (ba_junk (me_block m)) = unat n * (unat (isz S) + 4) + 1"
      using ok name new fit Blocks by (simp_all add: boot_ok_def)
    note st = st [OF pre]
    show ?thesis
      using st(1-3) st(6,7) st(4) [of q] st(5) [of "cname d"] ok h(2) Blocks keep_block [of "bo_blocks b" q]
      by (cases d) (auto simp: boot_ok_def BlockBufferOpen_def BlockBufferIsValid_def id_is_valid_iff)
  qed
  then show "boot_ok b'" "p \<noteq> NULL \<Longrightarrow> p = addr m c \<and> stands S b' p c"
    "p = NULL \<Longrightarrow> in_use b' c = in_use b c"
    "plain_name (cname d) \<Longrightarrow> cname d \<noteq> cname c
      \<Longrightarrow> in_use b' d = in_use b d \<and> opened b' d = opened b d \<and> (stands S b q d \<longrightarrow> stands S b' q d)"
    "live_at b' d \<subseteq> insert (addr m c) (live_at b d)" by blast+
qed

section \<open>The whole list\<close>

text \<open>
  What is relied on of \<open>malloc\<close>: the blocks have the size asked for, no two buffers get the same
  address, and no address is -1.
\<close>

definition good_memory :: "sizeofs \<Rightarrow> (nat \<Rightarrow> memory) \<Rightarrow> bool" where
  "good_memory S given \<longleftrightarrow>
     (\<forall>k < length init_calls. fits S (given k) (ic_what (init_calls ! k))
        \<and> addr (given k) (ic_what (init_calls ! k)) \<noteq> -1
        \<and> (\<forall>j < k. addr (given k) (ic_what (init_calls ! k)) = NULL
              \<or> addr (given j) (ic_what (init_calls ! j)) \<noteq> addr (given k) (ic_what (init_calls ! k))))"

definition nth_what :: "nat \<Rightarrow> creation" where
  "nth_what k = ic_what (init_calls ! k)"

definition never_created :: creation where
  "never_created = Chars 1 ''bcu-local-audio-data''"

definition names :: "string list" where
  "names = cname never_created # map (cname \<circ> ic_what) init_calls"

lemma names_distinct: "distinct names"
  by code_simp

lemma names_plain: "s \<in> set names \<Longrightarrow> plain_name s"
proof -
  have "list_all plain_name names" by code_simp
  then show "s \<in> set names \<Longrightarrow> plain_name s" by (simp add: list_all_iff)
qed

lemma nth_name:
  assumes "k < length init_calls"
  shows "plain_name (cname (nth_what k))" and "cname (nth_what k) \<noteq> cname never_created"
    and "j < length init_calls \<Longrightarrow> j \<noteq> k \<Longrightarrow> cname (nth_what j) \<noteq> cname (nth_what k)"
proof -
  have d: "cname never_created \<notin> set (map (cname \<circ> ic_what) init_calls)"
    "distinct (map (cname \<circ> ic_what) init_calls)"
    using names_distinct by (simp_all add: names_def)
  have mem: "cname (nth_what k) \<in> set (map (cname \<circ> ic_what) init_calls)"
    using assms by (auto simp: nth_what_def)
  then show "plain_name (cname (nth_what k))" by (simp add: names_plain names_def)
  show "cname (nth_what k) \<noteq> cname never_created" using d(1) mem by auto
  show "cname (nth_what j) \<noteq> cname (nth_what k)" if "j < length init_calls" "j \<noteq> k"
    using nth_eq_iff_index_eq [OF d(2), of j k] assms that by (simp add: nth_what_def)
qed

text \<open>
  The first \<open>k\<close> calls have been made and the code has gone on: their buffers stand, except that a
  call whose result is not tested may have created nothing.
\<close>

definition stage :: "sizeofs \<Rightarrow> (nat \<Rightarrow> memory) \<Rightarrow> nat \<Rightarrow> boot \<Rightarrow> bool" where
  "stage S given k b \<longleftrightarrow> boot_ok b
     \<and> (\<forall>j < k. stands S b (addr (given j) (nth_what j)) (nth_what j)
          \<or> opened b (nth_what j) = -1 \<and> ic_bad (init_calls ! j) \<noteq> Some 0)
     \<and> (\<forall>j < length init_calls. k \<le> j \<longrightarrow> \<not> in_use b (nth_what j))
     \<and> \<not> in_use b never_created
     \<and> (\<forall>d. live_at b d \<subseteq> {addr (given j) (nth_what j) | j. j < k})"

lemma never_opened: "\<not> in_use b c \<Longrightarrow> plain_name (cname c) \<Longrightarrow> opened b c = -1"
  by (cases c) (simp_all add: CharBufferOpen_def BlockBufferOpen_def id_open_unused)

lemma live_not_null: "boot_ok b \<Longrightarrow> NULL \<notin> live_at b c"
  by (cases c) (simp_all add: boot_ok_def ch_inv_def bh_inv_def id_wf_def)

lemma stage_fresh:
  assumes st: "stage S given k b" and mem: "good_memory S given" and k: "k < length init_calls"
  shows "addr (given k) (nth_what k) \<notin> live_at b (nth_what k)"
proof
  assume live: "addr (given k) (nth_what k) \<in> live_at b (nth_what k)"
  have "live_at b (nth_what k) \<subseteq> {addr (given j) (nth_what j) | j. j < k}"
    using st unfolding stage_def by blast
  then have "addr (given k) (nth_what k) \<in> {addr (given j) (nth_what j) | j. j < k}" using live by (rule subsetD)
  then obtain j where "j < k" "addr (given j) (nth_what j) = addr (given k) (nth_what k)"
    unfolding mem_Collect_eq by metis
  moreover have "addr (given k) (nth_what k) \<noteq> NULL"
    using live live_not_null [of b "nth_what k"] st by (auto simp: stage_def)
  moreover have "addr (given k) (nth_what k) = NULL \<or> addr (given j) (nth_what j) \<noteq> addr (given k) (nth_what k)"
    using mem k \<open>j < k\<close> unfolding good_memory_def nth_what_def by blast
  ultimately show False by blast
qed

lemma stage_step:
  assumes st: "stage S given k b" and mem: "good_memory S given" and k: "k < length init_calls"
    and c: "create S (given k) (nth_what k) b = (b', p)"
    and go: "ic_bad (init_calls ! k) \<noteq> Some p"
  shows "stage S given (Suc k) (b'\<lparr>bo_vars := vs\<rparr>)"
proof -
  have vs: "stands S (b'\<lparr>bo_vars := vs\<rparr>) q d = stands S b' q d" "opened (b'\<lparr>bo_vars := vs\<rparr>) d = opened b' d"
    "in_use (b'\<lparr>bo_vars := vs\<rparr>) d = in_use b' d" "live_at (b'\<lparr>bo_vars := vs\<rparr>) d = live_at b' d"
    "boot_ok (b'\<lparr>bo_vars := vs\<rparr>) = boot_ok b'" for q d
    by (cases d; simp add: boot_ok_def)+
  have pre: "boot_ok b" "plain_name (cname (nth_what k))" "addr (given k) (nth_what k) \<notin> live_at b (nth_what k)"
    "fits S (given k) (nth_what k)"
    using st mem k nth_name(1) [OF k] stage_fresh [OF st mem k]
    by (auto simp: stage_def good_memory_def nth_what_def)
  note cs = create_step [OF pre c]
  have other: "in_use b' (nth_what j) = in_use b (nth_what j) \<and> opened b' (nth_what j) = opened b (nth_what j)
      \<and> (stands S b q (nth_what j) \<longrightarrow> stands S b' q (nth_what j))" if "j < length init_calls" "j \<noteq> k" for j q
    using cs(4) [of "nth_what j" q] nth_name(1) [OF that(1)] nth_name(3) [OF k that] by simp
  have own: "stands S b' (addr (given k) (nth_what k)) (nth_what k)
      \<or> opened b' (nth_what k) = -1 \<and> ic_bad (init_calls ! k) \<noteq> Some 0"
  proof (cases "p = NULL")
    case True
    then have "\<not> in_use b' (nth_what k)" using cs(3) st k by (simp add: stage_def)
    then show ?thesis using never_opened [OF _ pre(2)] True go by simp
  next
    case False
    then have "p = addr (given k) (nth_what k)" "stands S b' p (nth_what k)" using cs(2) by blast+
    then show ?thesis by simp
  qed
  have "stands S b' (addr (given j) (nth_what j)) (nth_what j)
      \<or> opened b' (nth_what j) = -1 \<and> ic_bad (init_calls ! j) \<noteq> Some 0" if "j < Suc k" for j
  proof (cases "j = k")
    case False
    then have "j < k" using that by simp
    then show ?thesis using other [of j "addr (given j) (nth_what j)"] st k
      by (auto simp: stage_def)
  qed (use own in simp)
  moreover have "\<not> in_use b' (nth_what j)" if "j < length init_calls" "Suc k \<le> j" for j
    using other [of j] that st by (simp add: stage_def)
  moreover have "\<not> in_use b' never_created"
  proof -
    have "plain_name (cname never_created)" by (rule names_plain) (simp add: names_def)
    then show ?thesis
      using cs(4) [of never_created] nth_name(2) [OF k] st by (simp add: stage_def)
  qed
  moreover have "live_at b' d \<subseteq> {addr (given j) (nth_what j) | j. j < Suc k}" for d
    using cs(5) [of d] st by (fastforce simp: stage_def less_Suc_eq)
  ultimately show ?thesis using cs(1) by (simp add: stage_def vs)
qed

lemma bad_code: "k < length init_calls \<Longrightarrow> ic_bad (init_calls ! k) \<noteq> None \<Longrightarrow> ic_code (init_calls ! k) \<noteq> 0"
proof -
  have "list_all (\<lambda>c. ic_bad c \<noteq> None \<longrightarrow> ic_code c \<noteq> 0) init_calls"
    by (simp add: init_calls_code call_of_def)
  then show "k < length init_calls \<Longrightarrow> ic_bad (init_calls ! k) \<noteq> None \<Longrightarrow> ic_code (init_calls ! k) \<noteq> 0"
    by (simp add: list_all_length)
qed

lemma run_init_stage:
  assumes "stage S given k b" and "good_memory S given" and "cs = drop k init_calls"
    and "k \<le> length init_calls" and "run_init S given k cs b = (b', 0)"
  shows "stage S given (length init_calls) b'"
  using assms(1,3-)
proof (induction cs arbitrary: k b)
  case Nil
  then show ?case by simp
next
  case (Cons c cs)
  have k: "k < length init_calls" "c = init_calls ! k" "cs = drop (Suc k) init_calls"
    using Cons.prems(2) Cons.prems(3)
    by (cases "k < length init_calls"; simp add: Cons_nth_drop_Suc [symmetric])+
  obtain b1 p where c1: "create S (given k) (nth_what k) b = (b1, p)" by (cases "create S (given k) (nth_what k) b")
  have go: "ic_bad (init_calls ! k) \<noteq> Some p"
    using Cons.prems(4) c1 k bad_code [OF k(1)] by (auto simp: nth_what_def)
  show ?case
  proof (rule Cons.IH [OF stage_step [OF Cons.prems(1) assms(2) k(1) c1 go] k(3)])
    show "run_init S given (Suc k) cs (b1\<lparr>bo_vars := (bo_vars b1)(ic_var c := p)\<rparr>) = (b', 0)"
      using Cons.prems(4) c1 go k(2) by (simp add: nth_what_def)
  qed (use k(1) in simp)
qed

lemma stage_blank: "stage S given 0 (blank_boot cs bs vs)"
proof -
  have "\<not> in_use (blank_boot cs bs vs) d" for d
    by (cases d) (simp_all add: blank_boot_def id_head_init_def)
  moreover have "live_at (blank_boot cs bs vs) d = {}" for d
    by (cases d) (simp_all add: blank_boot_def id_head_init_def)
  moreover have "boot_ok (blank_boot cs bs vs)"
    by (simp add: boot_ok_def blank_boot_def ch_inv_def bh_inv_def id_wf_init id_pristine_def
        del: id_live_simps) (simp add: id_head_init_def)
  ultimately show ?thesis by (simp add: stage_def)
qed

lemma init_stage:
  assumes "good_memory S given" and "InitBuffer S given (blank_boot cs bs vs) = (b, 0)"
  shows "stage S given (length init_calls) b"
  by (rule run_init_stage [OF stage_blank assms(1)])
    (use assms(2) in \<open>simp_all add: InitBuffer_def\<close>)

text \<open>What stands is live, so its address is not \<open>NULL\<close>, and no two of them are the same.\<close>

lemma stands_live: "stands S b p c \<Longrightarrow> p \<in> live_at b c \<and> p = opened b c"
  by (cases c) (auto simp: CharBufferIsValid_def BlockBufferIsValid_def id_is_valid_iff split: if_splits)

lemma stage_stands:
  assumes st: "stage S given (length init_calls) b" and j: "j < length init_calls"
  shows "stands S b (opened b (nth_what j)) (nth_what j) \<and> opened b (nth_what j) \<noteq> NULL
      \<and> opened b (nth_what j) = addr (given j) (nth_what j)
    \<or> opened b (nth_what j) = -1 \<and> ic_bad (init_calls ! j) \<noteq> Some 0"
proof -
  have ok: "boot_ok b" and alt: "stands S b (addr (given j) (nth_what j)) (nth_what j)
      \<or> opened b (nth_what j) = -1 \<and> ic_bad (init_calls ! j) \<noteq> Some 0"
    using st j unfolding stage_def by blast+
  have "stands S b p c \<Longrightarrow> p = opened b c \<and> p \<noteq> NULL" for p c
    using stands_live live_not_null [OF ok] by blast
  with alt show ?thesis by metis
qed

lemma stage_distinct:
  assumes st: "stage S given (length init_calls) b" and mem: "good_memory S given"
    and jk: "j < length init_calls" "k < length init_calls" "j \<noteq> k" and op: "opened b (nth_what j) \<noteq> -1"
  shows "opened b (nth_what j) \<noteq> opened b (nth_what k)"
proof -
  have apart: "addr (given x) (nth_what x) \<noteq> addr (given y) (nth_what y)"
    if "x < y" "y < length init_calls" "addr (given y) (nth_what y) \<noteq> NULL" for x y
    using mem that unfolding good_memory_def nth_what_def by blast
  have "addr (given k) (nth_what k) \<noteq> -1" "addr (given j) (nth_what j) \<noteq> -1"
    using mem jk(1,2) unfolding good_memory_def nth_what_def by blast+
  with stage_stands [OF st jk(1)] stage_stands [OF st jk(2)] op apart [of j k] apart [of k j] jk
  show ?thesis by (metis nat_neq_iff)
qed

text \<open>The calls whose result is tested against 0, and those whose failure goes unnoticed.\<close>

definition untested :: "string set" where
  "untested = {''bcu-network-audio-pendig'', ''bcu-network-audio-rx'', ''network-udp-dev_vol-recv'',
     ''network-udp-common-big-send'', ''network-udp-common-big-recv''}"

lemma untested_iff: "c \<in> set init_calls \<Longrightarrow> ic_bad c \<noteq> Some 0 \<longleftrightarrow> cname (ic_what c) \<in> untested"
proof -
  have "list_all (\<lambda>c. ic_bad c \<noteq> Some 0 \<longleftrightarrow> cname (ic_what c) \<in> untested) init_calls"
    by (simp add: init_calls_code call_of_def untested_def)
  then show "c \<in> set init_calls \<Longrightarrow> ic_bad c \<noteq> Some 0 \<longleftrightarrow> cname (ic_what c) \<in> untested"
    by (simp add: list_all_iff)
qed

lemma call_in: "nth_what k \<in> ic_what ` set init_calls" if "k < length init_calls"
  using that by (simp add: nth_what_def)

text \<open>C12:
  When \<open>InitBuffer\<close> returns 0, every name that it gave to a buffer finds that buffer: it is valid,
  empty and of the size in the call, no two names find the same one, and both heaps are well
  formed. Five calls are not tested, and their names may find nothing; the control thread's
  \<open>bcu-local-audio-data\<close> never finds anything, because no call creates it.\<close>

theorem start_up_wired:
  assumes "good_memory S given" and "InitBuffer S given (blank_boot cs bs vs) = (b, 0)"
  shows "ch_inv (bo_chars b) \<and> bh_inv (bo_blocks b)
    \<and> (\<forall>c \<in> ic_what ` set init_calls. stands S b (opened b c) c \<or> cname c \<in> untested \<and> opened b c = -1)
    \<and> (\<forall>c \<in> ic_what ` set init_calls. \<forall>d \<in> ic_what ` set init_calls.
          opened b c = opened b d \<longrightarrow> c = d \<or> opened b c = -1)
    \<and> local_audio_data_buffer_id (BCUControlMainBufferInit b) = -1"
proof (intro conjI ballI impI)
  note st = init_stage [OF assms]
  show "ch_inv (bo_chars b)" "bh_inv (bo_blocks b)" using st by (simp_all add: stage_def boot_ok_def)
  show "local_audio_data_buffer_id (BCUControlMainBufferInit b) = -1"
    using never_opened [of b never_created] st names_plain [of "cname never_created"]
    by (simp add: stage_def BCUControlMainBufferInit_def never_created_def names_def)
  fix c assume c: "c \<in> ic_what ` set init_calls"
  then obtain j where j: "j < length init_calls" "c = nth_what j"
    by (auto simp: in_set_conv_nth nth_what_def)
  show "stands S b (opened b c) c \<or> cname c \<in> untested \<and> opened b c = -1"
    using stage_stands [OF st j(1)] untested_iff [of "init_calls ! j"] j by (auto simp: nth_what_def)
  fix d assume d: "d \<in> ic_what ` set init_calls" and eq: "opened b c = opened b d"
  then obtain k where k: "k < length init_calls" "d = nth_what k"
    by (auto simp: in_set_conv_nth nth_what_def)
  show "c = d \<or> opened b c = -1"
    using stage_distinct [OF st assms(1) j(1) k(1)] eq j(2) k(2) by blast
qed

section \<open>When memory is short\<close>

fun granted :: "memory \<Rightarrow> creation \<Rightarrow> bool" where
  "granted m (Chars n s) \<longleftrightarrow> ca_struct (me_char m) \<noteq> NULL \<and> ca_head (me_char m) \<noteq> 0 \<and> ca_node (me_char m)"
| "granted m (Blocks n isz s) \<longleftrightarrow> ba_struct (me_block m) \<noteq> NULL \<and> ba_head (me_block m) \<noteq> 0 \<and> ba_node (me_block m)"

fun asks :: "creation \<Rightarrow> bool" where
  "asks (Chars n s) \<longleftrightarrow> 0 < n"
| "asks (Blocks n isz s) \<longleftrightarrow> 0 < n"

lemma create_granted:
  "granted m c \<Longrightarrow> asks c \<Longrightarrow> \<not> in_use b c \<Longrightarrow> snd (create S m c b) = addr m c"
  by (cases c) (auto simp: CharBufferCreate_def BlockBufferCreate_def CharBufferPointerSave_def
      BlockBufferPointerSave_def Let_def split: prod.splits dest: arg_cong [where f = snd]
      simp: id_save_ok)

lemma granted_addr: "granted m c \<Longrightarrow> addr m c \<noteq> NULL"
  by (cases c) simp_all

lemma create_denied: "addr m c = NULL \<Longrightarrow> create S m c b = (b, NULL)"
  by (cases c) (simp_all add: CharBufferCreate_def BlockBufferCreate_def)

lemma nth_asks: "k < length init_calls \<Longrightarrow> asks (nth_what k)"
proof -
  have "list_all (\<lambda>c. asks (ic_what c)) init_calls" by (simp add: init_calls_code call_of_def)
  then show "k < length init_calls \<Longrightarrow> asks (nth_what k)" by (simp add: list_all_length nth_what_def)
qed

text \<open>As long as memory is granted the code goes on.\<close>

lemma run_granted:
  assumes "stage S given k b" and "good_memory S given" and "k + n \<le> length init_calls"
    and "\<forall>j. k \<le> j \<and> j < k + n \<longrightarrow> granted (given j) (nth_what j)"
  shows "\<exists>b'. stage S given (k + n) b'
    \<and> run_init S given k (drop k init_calls) b = run_init S given (k + n) (drop (k + n) init_calls) b'"
  using assms(1,3,4)
proof (induction n arbitrary: k b)
  case 0
  then show ?case by auto
next
  case (Suc n)
  then have k: "k < length init_calls" by simp
  obtain b1 p where c: "create S (given k) (nth_what k) b = (b1, p)" by (cases "create S (given k) (nth_what k) b")
  have "\<not> in_use b (nth_what k)" using Suc.prems(1) k by (simp add: stage_def)
  then have p: "p = addr (given k) (nth_what k)"
    using create_granted [of "given k" "nth_what k" b S] Suc.prems(3) nth_asks [OF k] c by simp
  have null: "p \<noteq> NULL" using Suc.prems(3) unfolding p by (intro granted_addr) simp
  have "addr (given k) (nth_what k) \<noteq> -1"
    using assms(2) k unfolding good_memory_def nth_what_def by blast
  then have minus: "p \<noteq> -1" by (simp only: p not_False_eq_True)
  have "list_all (\<lambda>c. ic_bad c \<in> {None, Some 0, Some (-1)}) init_calls"
    by (simp add: init_calls_code call_of_def)
  then have "ic_bad (init_calls ! k) \<in> {None, Some 0, Some (-1)}" using k by (simp add: list_all_length)
  then have go: "ic_bad (init_calls ! k) \<noteq> Some p" using null minus by auto
  have "\<exists>b'. stage S given (Suc k + n) b' \<and> run_init S given (Suc k) (drop (Suc k) init_calls)
      (b1\<lparr>bo_vars := (bo_vars b1)(ic_var (init_calls ! k) := p)\<rparr>)
    = run_init S given (Suc k + n) (drop (Suc k + n) init_calls) b'"
    by (rule Suc.IH [OF stage_step [OF Suc.prems(1) assms(2) k c go]]) (use Suc.prems in auto)
  moreover have "run_init S given k (drop k init_calls) b = run_init S given (Suc k) (drop (Suc k) init_calls)
      (b1\<lparr>bo_vars := (bo_vars b1)(ic_var (init_calls ! k) := p)\<rparr>)"
    using c go k by (simp add: Cons_nth_drop_Suc [symmetric] nth_what_def del: drop_Suc)
  ultimately show ?case by simp
qed


lemma tested_failure:
  assumes "stage S given k b0" and k: "k < length init_calls" and tested: "ic_bad (init_calls ! k) = Some 0"
    and b: "b = fold delete (ic_del (init_calls ! k)) (b0\<lparr>bo_vars := vs\<rparr>)"
  shows "(ic_code (init_calls ! k) \<noteq> -1 \<longleftrightarrow> 20 \<le> k) \<and> (20 \<le> k \<longrightarrow> opened b (nth_what k) = -1)"
proof -
  have "list_all (\<lambda>j. ic_bad (init_calls ! j) = Some 0 \<longrightarrow>
      (ic_code (init_calls ! j) \<noteq> -1 \<longleftrightarrow> 20 \<le> j) \<and> (20 \<le> j \<longrightarrow> ic_del (init_calls ! j) = [])) [0..<length init_calls]"
    by (simp add: init_calls_code call_of_def upt_rec)
  then have codes: "ic_code (init_calls ! k) \<noteq> -1 \<longleftrightarrow> 20 \<le> k" "20 \<le> k \<Longrightarrow> ic_del (init_calls ! k) = []"
    using k tested by (simp_all add: list_all_iff)
  have "\<not> in_use b0 (nth_what k)" using assms(1) k by (simp add: stage_def)
  then have "opened b0 (nth_what k) = -1" using never_opened nth_name(1) [OF k] by blast
  then have "20 \<le> k \<Longrightarrow> opened b (nth_what k) = -1"
    using b codes(2) by (cases "nth_what k") simp_all
  then show ?thesis using codes(1) by blast
qed

lemma untested_failure:
  assumes "good_memory S given" and "stage S given (Suc k) b1" and "k < length init_calls"
    and "addr (given k) (nth_what k) = NULL"
    and "\<And>j. j < length init_calls \<Longrightarrow> j \<noteq> k \<Longrightarrow> granted (given j) (nth_what j)"
    and "run_init S given (Suc k) (drop (Suc k) init_calls) b1 = (b, r)"
  shows "r = 0 \<and> opened b (nth_what k) = -1"
proof -
  have rest: "Suc k + (length init_calls - Suc k) = length init_calls" using assms(3) by simp
  have "\<exists>b'. stage S given (Suc k + (length init_calls - Suc k)) b'
    \<and> run_init S given (Suc k) (drop (Suc k) init_calls) b1
      = run_init S given (Suc k + (length init_calls - Suc k))
          (drop (Suc k + (length init_calls - Suc k)) init_calls) b'"
    by (rule run_granted [OF assms(2,1)]) (use assms(5) rest in auto)
  then have fin: "stage S given (length init_calls) b" "r = 0"
    unfolding rest using assms(6) by auto
  show ?thesis using stage_stands [OF fin(1) assms(3)] assms(4) fin(2) by auto
qed

text \<open>C14:
  When memory is granted to every call but one, the result of \<open>InitBuffer\<close> is the code of that
  call, or 0 when its result is not tested. \<open>main\<close> goes on without the buffer, whose name then
  finds nothing, for the five calls that are not tested and for the last five, whose codes are
  -25 to -29 and not the -1 that \<open>main\<close> looks for.\<close>

theorem start_up_failure:
  assumes "good_memory S given" and "k < length init_calls"
    and "addr (given k) (nth_what k) = NULL"
    and "\<And>j. j < length init_calls \<Longrightarrow> j \<noteq> k \<Longrightarrow> granted (given j) (nth_what j)"
    and "InitBuffer S given (blank_boot cs bs vs) = (b, r)"
  shows "r = (if cname (nth_what k) \<in> untested then 0 else ic_code (init_calls ! k))
    \<and> (main_goes_on r \<longleftrightarrow> cname (nth_what k) \<in> untested \<or> 20 \<le> k)
    \<and> (main_goes_on r \<longrightarrow> opened b (nth_what k) = -1)"
proof -
  note k = assms(2)
  obtain b0 where st: "stage S given k b0"
    and run: "run_init S given 0 init_calls (blank_boot cs bs vs) = run_init S given k (drop k init_calls) b0"
    using run_granted [where k = 0 and n = k and b = "blank_boot cs bs vs", OF stage_blank assms(1)]
      assms(2,4) by auto
  note no = create_denied [OF assms(3), of S b0]
  define b1 where "b1 = b0\<lparr>bo_vars := (bo_vars b0)(ic_var (init_calls ! k) := NULL)\<rparr>"
  have step: "run_init S given k (drop k init_calls) b0 =
      (if ic_bad (init_calls ! k) = Some NULL
       then (fold delete (ic_del (init_calls ! k)) b1, ic_code (init_calls ! k))
       else run_init S given (Suc k) (drop (Suc k) init_calls) b1)"
    using no k by (simp add: Cons_nth_drop_Suc [symmetric] nth_what_def b1_def del: drop_Suc)
  have tested: "ic_bad (init_calls ! k) = Some 0 \<longleftrightarrow> cname (nth_what k) \<notin> untested"
    using untested_iff [of "init_calls ! k"] k by (auto simp: nth_what_def)
  show ?thesis
  proof (cases "ic_bad (init_calls ! k) = Some 0")
    case True
    then have "r = ic_code (init_calls ! k)" "b = fold delete (ic_del (init_calls ! k)) b1"
      using assms(5) run step by (simp_all add: InitBuffer_def)
    then show ?thesis using True tested tested_failure [OF st k True] unfolding b1_def
      by (auto simp: main_goes_on_def)
  next
    case False
    then have go: "ic_bad (init_calls ! k) \<noteq> Some NULL" by simp
    have st1: "stage S given (Suc k) b1"
      unfolding b1_def by (rule stage_step [OF st assms(1) k no go])
    have "run_init S given (Suc k) (drop (Suc k) init_calls) b1 = (b, r)"
      using assms(5) run step False by (simp add: InitBuffer_def)
    with untested_failure [OF assms(1) st1 k assms(3,4)] False tested
    show ?thesis by (auto simp: main_goes_on_def)
  qed
qed

section \<open>Memory that is never short\<close>

text \<open>An allocator that gives each call an address of its own.\<close>

fun demo_junk :: "sizeofs \<Rightarrow> creation \<Rightarrow> byte list" where
  "demo_junk S (Chars n s) = replicate n 0"
| "demo_junk S (Blocks n isz s) = replicate (unat n * (unat (isz S) + 4) + 1) 0"

definition demo_memory :: "sizeofs \<Rightarrow> nat \<Rightarrow> memory" where
  "demo_memory S k =
     \<lparr>me_char = \<lparr>ca_struct = int k + 1, ca_head = 1, ca_node = True, ca_clear = 0,
        ca_junk = demo_junk S (nth_what k)\<rparr>,
      me_block = \<lparr>ba_struct = int k + 1, ba_head = 1, ba_node = True,
        ba_junk = demo_junk S (nth_what k)\<rparr>\<rparr>"

definition demo_sizes :: sizeofs where
  "demo_sizes = \<lparr>sz_network_send = 200, sz_send_info = 150, sz_common = 100, sz_big = 512,
     sz_heart = 300, sz_shell = 256, sz_ts_volume = 40\<rparr>"

lemma demo_memory_addr: "addr (demo_memory S k) c = int k + 1" "granted (demo_memory S k) c"
  by (cases c; simp add: demo_memory_def)+

lemma demo_memory_fits: "k < length init_calls \<Longrightarrow> fits demo_sizes (demo_memory demo_sizes k) (nth_what k)"
proof -
  define room where "room c = (case c of Chars n s \<Rightarrow> True
    | Blocks n isz s \<Rightarrow> 2 \<le> unat n \<and> unat n \<le> 256 \<and> unat n * (unat (isz demo_sizes) + 4) < 2 ^ 32)" for c
  have "list_all (\<lambda>c. room (ic_what c)) init_calls"
    by (simp add: init_calls_code call_of_def demo_sizes_def room_def)
  then show "k < length init_calls \<Longrightarrow> fits demo_sizes (demo_memory demo_sizes k) (nth_what k)"
    by (cases "nth_what k") (auto simp: list_all_length demo_memory_def nth_what_def room_def)
qed

lemma demo_good: "good_memory demo_sizes (demo_memory demo_sizes)"
  using demo_memory_fits by (simp add: good_memory_def demo_memory_addr nth_what_def)

definition demo_boot :: boot where
  "demo_boot = blank_boot (ch_bufs char_demo) (bh_bufs block_demo) (\<lambda>_. 0)"

lemma demo_init: "\<exists>b. InitBuffer demo_sizes (demo_memory demo_sizes) demo_boot = (b, 0)"
  using run_granted [where k = 0 and n = "length init_calls" and b = demo_boot, OF _ demo_good]
  by (auto simp: InitBuffer_def demo_boot_def stage_blank demo_memory_addr)

theorem start_up_wired_witness:
  "\<exists>b. InitBuffer demo_sizes (demo_memory demo_sizes) demo_boot = (b, 0)
     \<and> ch_inv (bo_chars b) \<and> local_audio_data_buffer_id (BCUControlMainBufferInit b) = -1"
proof -
  obtain b where b: "InitBuffer demo_sizes (demo_memory demo_sizes) demo_boot = (b, 0)"
    using demo_init by blast
  from start_up_wired [OF demo_good b [unfolded demo_boot_def]] b show ?thesis by blast
qed

text \<open>The allocator that fails in the call number \<open>k\<close>.\<close>

definition short_memory :: "nat \<Rightarrow> nat \<Rightarrow> memory" where
  "short_memory k j = (let m = demo_memory demo_sizes j in
     if j = k then m\<lparr>me_char := (me_char m)\<lparr>ca_struct := NULL\<rparr>, me_block := (me_block m)\<lparr>ba_struct := NULL\<rparr>\<rparr>
     else m)"

lemma short_memory_addr:
  "addr (short_memory k j) c = (if j = k then NULL else int j + 1)" "granted (short_memory k j) c \<longleftrightarrow> j \<noteq> k"
  by (cases c; simp add: short_memory_def demo_memory_def Let_def)+

lemma short_good: "good_memory demo_sizes (short_memory k)"
proof -
  have "fits demo_sizes (short_memory k j) c = fits demo_sizes (demo_memory demo_sizes j) c" for j c
    by (cases c) (simp_all add: short_memory_def Let_def)
  then show ?thesis
    using demo_memory_fits by (auto simp: good_memory_def short_memory_addr nth_what_def)
qed

text \<open>The buffer of the version enquiry is missing, and \<open>main\<close> goes on.\<close>

theorem start_up_failure_witness:
  "\<exists>b. InitBuffer demo_sizes (short_memory 20) demo_boot = (b, -25) \<and> main_goes_on (-25)
     \<and> software_version_buffer_id (BCUControlMainBufferInit b) = -1"
proof -
  obtain b r where b: "InitBuffer demo_sizes (short_memory 20) demo_boot = (b, r)"
    by (cases "InitBuffer demo_sizes (short_memory 20) demo_boot")
  have len: "20 < length init_calls" by (simp add: init_calls_code)
  have c: "nth_what 20 = Blocks 3 sz_big ''network-udp-common-big-recv-version-check''"
    "ic_code (init_calls ! 20) = -25"
    by (simp_all add: nth_what_def init_calls_code call_of_def)
  have "addr (short_memory 20 20) (nth_what 20) = NULL"
    "\<And>j. j < length init_calls \<Longrightarrow> j \<noteq> 20 \<Longrightarrow> granted (short_memory 20 j) (nth_what j)"
    by (simp_all only: short_memory_addr refl if_True not_False_eq_True)
  from start_up_failure [OF short_good len this b [unfolded demo_boot_def]]
  have "r = -25 \<and> opened b (nth_what 20) = -1"
    by (simp add: c untested_def main_goes_on_def)
  with b c show ?thesis by (auto simp: BCUControlMainBufferInit_def main_goes_on_def)
qed

section \<open>The registry of the packages\<close>

text \<open>Which buffer is meant for which package: the two namespaces of types, the type, the name.\<close>

definition package_routes :: "(int \<times> int \<times> string) list" where
  "package_routes =
     [(1, COMMON_PACKAGE_TYPE_PTT_STATE, ''bcu-ptt-state-rx''),
      (1, COMMON_PACKAGE_TYPE_CMU_CAR_TYPE, ''bcu-cmu-car-type-rx''),
      (1, COMMON_PACKAGE_TYPE_DEVICE_INFO, ''network-udp-dev_vol-recv''),
      (1, COMMON_PACKAGE_TYPE_MONITOR_SPEAKER_CONTROL, ''network-udp-dev_vol-recv''),
      (1, COMMON_PACKAGE_TYPE_ACK_STATE, ''bcu-cmu-ack-state-rx''),
      (1, COMMON_PACKAGE_TYPE_TCMS_CMU_STATE, ''network-udp-common-TCMS-cmu-state''),
      (2, COMMON_PACKAGE_TYPE_SYNC_GD, ''bcu-gd-net-cmd-Rx''),
      (2, COMMON_PACKAGE_TYPE_ALL_DEV_STATE, ''bcu-recv-all-dev-state''),
      (2, COMMON_PACKAGE_TYPE_SOFTWARE_VERSION, ''network-udp-common-big-recv-version-check'')]"

definition routed :: "buffer_info list \<Rightarrow> boot \<Rightarrow> bool" where
  "routed nds b \<longleftrightarrow> (\<forall>(ct, pt, name) \<in> set package_routes. ZhwBufferInq nds ct pt 1 = block_open b name)"

text \<open>Registrations whose identifiers are new, as far as the code looks.\<close>

fun reg_node :: "int \<times> int \<times> int \<times> int \<Rightarrow> buffer_info" where
  "reg_node (ct, pt, bt, bid) =
     \<lparr>bi_common_type = ct, bi_pkg_type = pt, bi_buffer_type = bt, bi_buffer_id = bid\<rparr>"

fun fresh_ids :: "int list \<Rightarrow> (int \<times> int \<times> int \<times> int) list \<Rightarrow> bool" where
  "fresh_ids xs [] = True"
| "fresh_ids xs ((ct, pt, bt, bid) # regs) \<longleftrightarrow> bid \<notin> set (butlast xs) \<and> fresh_ids (xs @ [bid]) regs"

lemma register_all_fresh:
  "nds \<noteq> [] \<Longrightarrow> fresh_ids (map bi_buffer_id nds) regs \<Longrightarrow> register_all nds regs = nds @ map reg_node regs"
proof (induction nds regs rule: register_all.induct)
  case (2 nds ct pt bt bid regs)
  have "\<not> reg_walk nds bid" using 2(3) by (auto simp: reg_walk_iff map_butlast [symmetric])
  then have "fst (ZhwBufferRegister True nds ct pt bt bid) = nds @ [reg_node (ct, pt, bt, bid)]"
    by (simp add: ZhwBufferRegister_def)
  then show ?case using 2 by simp
qed simp

lemma register_either_way:
  assumes apart: "distinct [ppt_state_recv_buffer_id s, bcu_cmu_car_type_buffer_id s,
      udp_common_recv_dev_colueme s, all_dev_state_buffer_id s, software_version_buffer_id s,
      bcu_cmu_ack_state_buffer_id s, bcu_recv_tcms_cmu_state_buffer_id s, gd, 0]"
    and nds: "nds = register_all [buffer_info_head] (common_registrations s @ [(2, 2, 1, gd)])
      \<or> nds = register_all [buffer_info_head] ((2, 2, 1, gd) # common_registrations s)"
  shows "\<forall>(ct, pt, bt, bid) \<in> set ((2, 2, 1, gd) # common_registrations s). ZhwBufferInq nds ct pt bt = bid"
proof -
  have "fresh_ids (map bi_buffer_id [buffer_info_head]) (common_registrations s @ [(2, 2, 1, gd)])"
    "fresh_ids (map bi_buffer_id [buffer_info_head]) ((2, 2, 1, gd) # common_registrations s)"
    using apart apart [THEN distinct_rev [THEN iffD2]]
    by (simp_all add: common_registrations_def buffer_info_head_def del: distinct_rev)
  then have "nds = [buffer_info_head] @ map reg_node (common_registrations s @ [(2, 2, 1, gd)])
      \<or> nds = [buffer_info_head] @ map reg_node ((2, 2, 1, gd) # common_registrations s)"
    using nds by (simp only: register_all_fresh list.distinct not_False_eq_True)
  then show ?thesis
    by (elim disjE) (simp_all add: common_registrations_def buffer_info_head_def)
qed

lemma register_all_append: "register_all nds (xs @ ys) = register_all (register_all nds xs) ys"
  by (induction nds xs rule: register_all.induct) simp_all

text \<open>The calls of \<open>InitBuffer\<close> for the buffers that a type of package is routed to.\<close>

lemma routed_calls:
  "nth_what 0 = Blocks 8 sz_big ''bcu-gd-net-cmd-Rx''"
  "nth_what 10 = Blocks 2 sz_common ''bcu-cmu-car-type-rx''"
  "nth_what 11 = Blocks 3 sz_common ''bcu-ptt-state-rx''"
  "nth_what 13 = Blocks 2 sz_common ''network-udp-dev_vol-recv''"
  "nth_what 19 = Blocks 2 sz_big ''bcu-recv-all-dev-state''"
  "nth_what 20 = Blocks 3 sz_big ''network-udp-common-big-recv-version-check''"
  "nth_what 21 = Blocks 2 sz_common ''bcu-cmu-ack-state-rx''"
  "nth_what 22 = Blocks 2 sz_common ''network-udp-common-TCMS-cmu-state''"
  "length init_calls = 25"
  "\<forall>j \<in> {0, 10, 11, 19, 20, 21, 22}. ic_bad (init_calls ! j) = Some 0"
  by (simp_all add: nth_what_def init_calls_code call_of_def)

lemma routed_ids:
  "ppt_state_recv_buffer_id (common_ids.truncate (BCUControlMainBufferInit b)) = opened b (nth_what 11)"
  "bcu_cmu_car_type_buffer_id (common_ids.truncate (BCUControlMainBufferInit b)) = opened b (nth_what 10)"
  "udp_common_recv_dev_colueme (common_ids.truncate (BCUControlMainBufferInit b)) = opened b (nth_what 13)"
  "all_dev_state_buffer_id (common_ids.truncate (BCUControlMainBufferInit b)) = opened b (nth_what 19)"
  "software_version_buffer_id (common_ids.truncate (BCUControlMainBufferInit b)) = opened b (nth_what 20)"
  "bcu_cmu_ack_state_buffer_id (common_ids.truncate (BCUControlMainBufferInit b)) = opened b (nth_what 21)"
  "bcu_recv_tcms_cmu_state_buffer_id (common_ids.truncate (BCUControlMainBufferInit b)) = opened b (nth_what 22)"
  by (simp_all add: common_ids.defs BCUControlMainBufferInit_def routed_calls)

lemma routed_buffers:
  assumes "good_memory S given" and st: "stage S given (length init_calls) b" and j: "j \<in> {0, 10, 11, 19, 20, 21, 22}"
  shows "stands S b (opened b (nth_what j)) (nth_what j)"
    and "k \<in> {0, 10, 11, 13, 19, 20, 21, 22} \<Longrightarrow> k \<noteq> j \<Longrightarrow> opened b (nth_what j) \<noteq> opened b (nth_what k)"
proof -
  note sts = stage_stands [OF st, unfolded routed_calls(9)]
  have j: "j < 25" "ic_bad (init_calls ! j) = Some 0" using routed_calls(10) j by auto
  show "stands S b (opened b (nth_what j)) (nth_what j)" using sts [OF j(1)] j(2) by blast
  have "addr (given j) (nth_what j) \<noteq> -1"
    using assms(1) j(1) unfolding good_memory_def nth_what_def routed_calls(9) by blast
  then have "opened b (nth_what j) \<noteq> -1" using sts [OF j(1)] j(2) by simp
  then show "k \<in> {0, 10, 11, 13, 19, 20, 21, 22} \<Longrightarrow> k \<noteq> j \<Longrightarrow> opened b (nth_what j) \<noteq> opened b (nth_what k)"
    using stage_distinct [OF st assms(1), of j k] j(1) routed_calls(9) by auto
qed

text \<open>C13:
  After start-up every package type of the registry is routed to the buffer that bears its name,
  whether the control thread or the thread that copies the tables registers first; and the
  buffers of all types but the device volumes are valid and empty.\<close>

theorem start_up_routes:
  assumes "good_memory S given" and "InitBuffer S given (blank_boot cs bs vs) = (b, 0)"
  shows "let ids = common_ids.truncate (BCUControlMainBufferInit b) in
    routed (fst (gd_open (RegisterCommonBufferRecvBuffer [buffer_info_head] ids) b)) b
    \<and> routed (RegisterCommonBufferRecvBuffer (fst (gd_open [buffer_info_head] b)) ids) b
    \<and> (\<forall>(ct, pt, name) \<in> set package_routes. name \<noteq> ''network-udp-dev_vol-recv'' \<longrightarrow>
          BlockBufferIsValid (bo_blocks b) (block_open b name)
          \<and> bb_view (bh_bufs (bo_blocks b) (block_open b name)) = [])"
proof -
  note st = init_stage [OF assms]
  note what = routed_calls
  note bufs = routed_buffers [OF assms(1) st]
  have up: "\<forall>j \<in> {0, 10, 11, 19, 20, 21, 22}. stands S b (opened b (nth_what j)) (nth_what j)"
    using bufs(1) by blast
  have ne: "j < 25 \<Longrightarrow> opened b (nth_what j) \<noteq> NULL" for j
    using stage_stands [OF st, unfolded routed_calls(9), of j] by auto
  define ids where "ids = common_ids.truncate (BCUControlMainBufferInit b)"
  note ids = routed_ids [of b, folded ids_def]
  have apart: "distinct [ppt_state_recv_buffer_id ids, bcu_cmu_car_type_buffer_id ids,
      udp_common_recv_dev_colueme ids, all_dev_state_buffer_id ids, software_version_buffer_id ids,
      bcu_cmu_ack_state_buffer_id ids, bcu_recv_tcms_cmu_state_buffer_id ids, opened b (nth_what 0), 0]"
    using bufs(2) bufs(2) [of _ 13, symmetric] ne unfolding ids by simp
  have "\<forall>(ct, pt, name) \<in> set package_routes. ZhwBufferInq nds ct pt 1 = block_open b name"
    if "\<forall>(ct, pt, bt, bid) \<in> set ((2, COMMON_PACKAGE_TYPE_SYNC_GD, 1, opened b (nth_what 0))
        # common_registrations ids). ZhwBufferInq nds ct pt bt = bid" for nds
    using that unfolding common_registrations_def ids what package_routes_def by simp
  then have "routed nds b"
    if "nds = fst (gd_open (RegisterCommonBufferRecvBuffer [buffer_info_head] ids) b)
      \<or> nds = RegisterCommonBufferRecvBuffer (fst (gd_open [buffer_info_head] b)) ids" for nds
    using register_either_way [OF apart, of nds] that
    unfolding routed_def gd_open_def Let_def what opened.simps fst_conv register_all_append
      RegisterCommonBufferRecvBuffer_def register_all.simps by blast
  then have "routed (fst (gd_open (RegisterCommonBufferRecvBuffer [buffer_info_head] ids) b)) b"
    "routed (RegisterCommonBufferRecvBuffer (fst (gd_open [buffer_info_head] b)) ids) b" by blast+
  moreover have "\<forall>(ct, pt, name) \<in> set package_routes. name \<noteq> ''network-udp-dev_vol-recv'' \<longrightarrow>
      BlockBufferIsValid (bo_blocks b) (block_open b name)
      \<and> bb_view (bh_bufs (bo_blocks b) (block_open b name)) = []"
    using up by (simp add: package_routes_def what)
  ultimately show ?thesis by (simp only: Let_def ids_def)
qed

theorem start_up_routes_witness:
  "\<exists>b. InitBuffer demo_sizes (demo_memory demo_sizes) demo_boot = (b, 0)
     \<and> routed (RegisterCommonBufferRecvBuffer (fst (gd_open [buffer_info_head] b))
         (common_ids.truncate (BCUControlMainBufferInit b))) b"
proof -
  obtain b where b: "InitBuffer demo_sizes (demo_memory demo_sizes) demo_boot = (b, 0)"
    using demo_init by blast
  from start_up_routes [OF demo_good b [unfolded demo_boot_def]] b show ?thesis
    unfolding Let_def by blast
qed

text \<open>From here the network thread never reads through a bad pointer.\<close>

lemma start_up_network:
  assumes "good_memory S given" and "InitBuffer S given (blank_boot cs bs vs) = (b, 0)"
    and "blocks n = bo_blocks b" and "app (rcv n) = bo_chars b" and "receiver_ok (rcv n)"
    and "table_ok (devices n)" and "list_all env_ok es"
  shows "net_run (c\<lparr>ids := NetworkHandleEntry b\<rparr>) es n \<noteq> Inl Fault"
proof -
  have "net_ok n" using init_stage [OF assms(1,2)] assms(3-6) by (simp add: net_ok_def stage_def boot_ok_def)
  from net_run_ok [OF this assms(7)] show ?thesis by (fastforce simp: good_end_def split: sum.splits)
qed

end
