(* ===== verification/Status_Messages.thy ===== *)
theory Status_Messages
  imports Bcu_Control Block_Buffer Net_Register
begin

text \<open>
  The packages by which the unit tells the others about itself and asks them
  (\<open>bcu_function.cxx\<close>, \<open>bcu_intercom.cxx\<close>), what it takes from those that arrive
  (\<open>bcu_main.cxx\<close>, \<open>bcu_cmu_handle.cxx\<close>).

  The packages go to a block buffer that the network thread empties. A writer that finds the
  buffer full sleeps and tries again; what the other threads do to the heap of buffers during
  its k-th sleep is the argument \<open>drain k\<close>. The bytes of the struct of a package are
  \<open>bytes p\<close>. \<open>junk\<close> is the content of a package on the stack before it is filled.
\<close>

section \<open>Packages\<close>

abbreviation (input) MUL_SYNC_DST_NO :: int where "MUL_SYNC_DST_NO \<equiv> 251"

text \<open>
  \<open>common_package_t\<close>; the union is kept as its bytes. Its members start at its first byte, and
  a name takes 30 bytes, so that \<open>device_volume\<close> is at 36.
\<close>

record common_package =
  dst_dev_name :: string
  dst_dev_number :: int
  src_dev_name :: string
  src_dev_number :: int
  pkg_type :: int
  common_data_u :: "byte list"

definition union_set :: "nat \<Rightarrow> byte \<Rightarrow> common_package \<Rightarrow> common_package" where
  "union_set i x p = p\<lparr>common_data_u := (common_data_u p)[i := x]\<rparr>"

definition union_int :: "nat \<Rightarrow> nat \<Rightarrow> common_package \<Rightarrow> common_package" where
  "union_int off n p = p\<lparr>common_data_u := mem_put (common_data_u p) off (le32 n)\<rparr>"

definition union_name :: "string \<Rightarrow> common_package \<Rightarrow> common_package" where
  "union_name s p =
     p\<lparr>common_data_u := mem_put (common_data_u p) 0 (map of_char (s @ [NUL]))\<rparr>"

definition vol_device_name :: "common_package \<Rightarrow> string" where
  "vol_device_name p =
     takeWhile (\<lambda>c. c \<noteq> NUL) (map (\<lambda>b. char_of (unat b)) (common_data_u p))"

definition vol_device_volume :: "common_package \<Rightarrow> int" where
  "vol_device_volume p = sint (of_nat (u32_at (common_data_u p) 36) :: 32 word)"

definition from_to :: "string \<Rightarrow> int \<Rightarrow> string \<Rightarrow> int \<Rightarrow> int \<Rightarrow> common_package \<Rightarrow> common_package" where
  "from_to sname sno dname dno t p =
     p\<lparr>dst_dev_name := dname, dst_dev_number := dno, src_dev_name := sname, src_dev_number := sno,
       pkg_type := t\<rparr>"

text \<open>The packages about the key, on static storage that is zero.\<close>

record ptt_packages =
  ptt_release_to_bcu :: common_package
  ptt_press_to_bcu :: common_package
  ptt_release_to_pcu :: common_package
  ptt_press_to_pcu :: common_package

definition ptt_package :: "byte \<Rightarrow> common_package \<Rightarrow> common_package" where
  "ptt_package src p = union_set 0 0 (union_set 1 src p)"

definition SetPTTStateInfoPackage :: "bcu \<Rightarrow> ptt_packages \<Rightarrow> ptt_packages" where
  "SetPTTStateInfoPackage b q =
     (let n = devices_name b; no = int (devices_no b); other = int (opposite_bcu_no b) in
      q\<lparr>ptt_release_to_bcu := ptt_package 0 (from_to n no n other COMMON_PACKAGE_TYPE_PTT_STATE (ptt_release_to_bcu q)),
        ptt_press_to_bcu := ptt_package 1 (from_to n no n other COMMON_PACKAGE_TYPE_PTT_STATE (ptt_press_to_bcu q)),
        ptt_release_to_pcu := ptt_package 0 (from_to ''BCU'' no ''PCU'' 0 COMMON_PACKAGE_TYPE_PTT_STATE (ptt_release_to_pcu q)),
        ptt_press_to_pcu := ptt_package 1 (from_to ''BCU'' no ''PCU'' 0 COMMON_PACKAGE_TYPE_PTT_STATE (ptt_press_to_pcu q))\<rparr>)"

text \<open>The four packages about volumes.\<close>

record vol_packages =
  dev_vol_to_eamp :: common_package
  dev_vol_to_pcu :: common_package
  dev_vol_to_bcu :: common_package
  dev_vol_to_ccu :: common_package

definition ControlCommomPackageInit :: "bcu \<Rightarrow> vol_packages \<Rightarrow> vol_packages" where
  "ControlCommomPackageInit b v =
     (let n = devices_name b; no = int (devices_no b) in
      v\<lparr>dev_vol_to_eamp := from_to n no ''EAMP'' MUL_SYNC_DST_NO COMMON_PACKAGE_TYPE_DEVICE_INFO (dev_vol_to_eamp v),
        dev_vol_to_pcu := union_int 44 10 (union_name ''PCU''
          (from_to n no ''PCU'' MUL_SYNC_DST_NO COMMON_PACKAGE_TYPE_DEVICE_INFO (dev_vol_to_pcu v))),
        dev_vol_to_bcu := from_to n no ''BCU'' (int (opposite_bcu_no b)) COMMON_PACKAGE_TYPE_DEVICE_INFO (dev_vol_to_bcu v),
        dev_vol_to_ccu := from_to n no ''CCU'' MUL_SYNC_DST_NO COMMON_PACKAGE_TYPE_DEVICE_INFO (dev_vol_to_ccu v)\<rparr>)"

section \<open>Writing to the network thread\<close>

record outbox =
  ob_heap :: block_heap
  ob_sleeps :: nat

definition put :: "ptr \<Rightarrow> byte list \<Rightarrow> outbox \<Rightarrow> outbox \<times> int" where
  "put p m ob = (let (h, r) = BlockBufferWrite (ob_heap ob) p (Some m) (length m) in (ob\<lparr>ob_heap := h\<rparr>, r))"

definition thread_delay :: "(nat \<Rightarrow> block_heap \<Rightarrow> block_heap) \<Rightarrow> outbox \<Rightarrow> outbox" where
  "thread_delay drain ob =
     ob\<lparr>ob_heap := drain (ob_sleeps ob) (ob_heap ob), ob_sleeps := ob_sleeps ob + 1\<rparr>"

text \<open>The result in a variable of type \<open>int\<close>, or \<open>unsigned char\<close>.\<close>

definition as_int :: "int \<Rightarrow> int" where
  "as_int r = r"

definition as_uchar :: "int \<Rightarrow> int" where
  "as_uchar r = r mod 256"

text \<open>\<open>do { ret = write; if (ret <= 0) delay; } while (ret <= 0)\<close>; \<open>None\<close> does not return.\<close>

partial_function (option) write_until ::
    "(int \<Rightarrow> int) \<Rightarrow> (nat \<Rightarrow> block_heap \<Rightarrow> block_heap) \<Rightarrow> ptr \<Rightarrow> byte list \<Rightarrow> outbox \<Rightarrow> outbox option" where
  "write_until conv drain p m ob =
     (let (ob, r) = put p m ob in
      if conv r \<le> 0 then write_until conv drain p m (thread_delay drain ob) else Some ob)"

text \<open>The same with at most \<open>n\<close> attempts.\<close>

fun write_times ::
    "nat \<Rightarrow> (int \<Rightarrow> int) \<Rightarrow> (nat \<Rightarrow> block_heap \<Rightarrow> block_heap) \<Rightarrow> ptr \<Rightarrow> byte list \<Rightarrow> outbox \<Rightarrow> outbox" where
  "write_times 0 conv drain p m ob = ob"
| "write_times (Suc n) conv drain p m ob =
     (let (ob, r) = put p m ob in
      if conv r \<le> 0 then write_times n conv drain p m (thread_delay drain ob) else ob)"

section \<open>The messages\<close>

text \<open>The question to the CCU about the coupled train.\<close>

definition tcms_cmu_question :: "bcu \<Rightarrow> common_package \<Rightarrow> common_package" where
  "tcms_cmu_question b junk =
     from_to (devices_name b) (int (devices_no b)) ''CCU'' MUL_SYNC_DST_NO COMMON_PACKAGE_TYPE_TCMS_CMU_STATE
       (union_set 0 1 junk)"

definition AskCCUTcmsCMUState :: "(nat \<Rightarrow> block_heap \<Rightarrow> block_heap) \<Rightarrow> (common_package \<Rightarrow> byte list)
    \<Rightarrow> common_package \<Rightarrow> bcu \<Rightarrow> ptr \<Rightarrow> outbox \<Rightarrow> outbox option" where
  "AskCCUTcmsCMUState drain bytes junk b comm_send ob =
     write_until as_int drain comm_send (bytes (tcms_cmu_question b junk)) ob"

text \<open>The loudspeaker of the amplifiers; a full buffer loses the command.\<close>

definition monitor_speaker :: "byte \<Rightarrow> (common_package \<Rightarrow> byte list) \<Rightarrow> common_package \<Rightarrow> bcu \<Rightarrow> ptr
    \<Rightarrow> outbox \<Rightarrow> outbox" where
  "monitor_speaker state bytes junk b comm_send ob =
     fst (put comm_send (bytes (union_set 0 state
       (from_to (devices_name b) (int (devices_no b)) ''EAMP'' (int MUL_DST_NO)
          COMMON_PACKAGE_TYPE_MONITOR_SPEAKER_CONTROL junk))) ob)"

definition OpenMonitorSpeaker_package where
  "OpenMonitorSpeaker_package = monitor_speaker 3"

definition CloseMonitorSpeaker_package where
  "CloseMonitorSpeaker_package = monitor_speaker 0"

abbreviation (input) COMMON_PACKAGE_TYPE_INTERCOMM_LOG :: int where
  "COMMON_PACKAGE_TYPE_INTERCOMM_LOG \<equiv> 8"

definition SendCommonCMDToCCUTORecordingAudioData ::
    "(nat \<Rightarrow> block_heap \<Rightarrow> block_heap) \<Rightarrow> (common_package \<Rightarrow> byte list) \<Rightarrow> common_package \<Rightarrow> bcu \<Rightarrow> ptr
     \<Rightarrow> byte \<Rightarrow> byte \<Rightarrow> byte \<Rightarrow> byte \<Rightarrow> outbox \<Rightarrow> outbox" where
  "SendCommonCMDToCCUTORecordingAudioData drain bytes junk b comm_send t src dst begin_or_over ob =
     (let m = bytes (union_set 3 begin_or_over (union_set 2 dst (union_set 1 src (union_set 0 t
            (from_to ''BCU'' (int (devices_no b)) ''CCU'' (int MUL_DST_NO)
               COMMON_PACKAGE_TYPE_INTERCOMM_LOG junk)))));
          (ob, ret) = put comm_send m ob
      in if ret \<le> 0 then fst (put comm_send m (thread_delay drain ob)) else ob)"

text \<open>The volumes; the result of the write is kept in an \<open>unsigned char\<close>.\<close>

definition vol_until where
  "vol_until drain bytes comm_send q = write_until as_uchar drain comm_send (bytes q)"

definition vol_times where
  "vol_times drain bytes comm_send q = write_times 3 as_uchar drain comm_send (bytes q)"

definition BCUSendDevVolumeInfoToD2DOtherDev :: "(nat \<Rightarrow> block_heap \<Rightarrow> block_heap)
    \<Rightarrow> (common_package \<Rightarrow> byte list) \<Rightarrow> vol_packages \<Rightarrow> ptr \<Rightarrow> outbox \<Rightarrow> outbox option" where
  "BCUSendDevVolumeInfoToD2DOtherDev drain bytes v comm_send ob =
     Option.bind (vol_until drain bytes comm_send (dev_vol_to_ccu v) ob)
       (vol_until drain bytes comm_send (dev_vol_to_bcu v))"

definition BCUSendDevVolumeInfoToD2POtherDev :: "(nat \<Rightarrow> block_heap \<Rightarrow> block_heap)
    \<Rightarrow> (common_package \<Rightarrow> byte list) \<Rightarrow> vol_packages \<Rightarrow> ptr \<Rightarrow> outbox \<Rightarrow> outbox option" where
  "BCUSendDevVolumeInfoToD2POtherDev drain bytes v comm_send ob =
     Option.bind (vol_until drain bytes comm_send (dev_vol_to_pcu v) ob) (\<lambda>ob.
     Option.bind (vol_until drain bytes comm_send (dev_vol_to_ccu v) ob)
       (vol_until drain bytes comm_send (dev_vol_to_bcu v)))"

definition BCUSendDevVolumeInfoToPAOtherDev :: "(nat \<Rightarrow> block_heap \<Rightarrow> block_heap)
    \<Rightarrow> (common_package \<Rightarrow> byte list) \<Rightarrow> vol_packages \<Rightarrow> ptr \<Rightarrow> outbox \<Rightarrow> outbox" where
  "BCUSendDevVolumeInfoToPAOtherDev drain bytes v comm_send ob =
     vol_times drain bytes comm_send (dev_vol_to_bcu v)
       (vol_times drain bytes comm_send (dev_vol_to_ccu v)
         (vol_times drain bytes comm_send (dev_vol_to_eamp v) ob))"

definition KeepComminicationWithPCU :: "(common_package \<Rightarrow> byte list) \<Rightarrow> bool \<Rightarrow> nat \<Rightarrow> ptr
    \<Rightarrow> nat \<times> vol_packages \<times> outbox \<Rightarrow> nat \<times> vol_packages \<times> outbox" where
  "KeepComminicationWithPCU bytes tables_received intercomm_volume comm_send s =
     (let (whether_send_to_pcu, v, ob) = s in
      if whether_send_to_pcu > 6 \<and> tables_received
      then (let q = union_int 44 6000 (union_int 40 (if intercomm_volume = 0 then 60 else 15)
                     (union_int 36 intercomm_volume (union_name ''PCU'' (dev_vol_to_pcu v))))
            in (0, v\<lparr>dev_vol_to_pcu := q\<rparr>, fst (put comm_send (bytes q) ob)))
      else s)"

section \<open>Packages that arrive\<close>

definition tcms_cmu_state_received :: "common_package \<Rightarrow> bcu \<Rightarrow> bcu" where
  "tcms_cmu_state_received p b =
     (if pkg_type p = COMMON_PACKAGE_TYPE_TCMS_CMU_STATE \<and> common_data_u p ! 0 = 0
      then b\<lparr>bcu_current_tcms_cmu_state := unat (common_data_u p ! 1)\<rparr> else b)"

text \<open>With the volume of the passenger intercom as second component.\<close>

definition device_volume_received :: "common_package \<Rightarrow> bcu \<times> nat \<Rightarrow> bcu \<times> nat" where
  "device_volume_received p s =
     (let (b, intercomm_volume) = s; vol = vol_device_volume p in
      if pkg_type p = COMMON_PACKAGE_TYPE_DEVICE_INFO
      then
        if vol_device_name p = ''BCU'' \<and> 0 \<le> vol \<and> vol \<le> 4
        then
          if int (d2d_volume b) \<noteq> 4 - vol
          then (let b = b\<lparr>d2d_volume := nat (4 - vol)\<rparr>;
                    b = call (SpeakerVolume (d2d_volume b)) b
                in (if state_id (bcu_active_intercom_state b) \<noteq> INTERCOM_IDLE
                    then call AdjustVolumeAfterCODEC b else b, intercomm_volume))
          else (b, intercomm_volume)
        else if vol_device_name p = ''PCU'' \<and> 0 \<le> vol \<and> vol \<le> 4
        then (b, if intercomm_volume \<noteq> nat vol then nat vol else intercomm_volume)
        else (b, intercomm_volume)
      else (b, intercomm_volume))"

definition BCUCMUCarTypeHandle :: "common_package \<Rightarrow> bcu \<Rightarrow> bcu" where
  "BCUCMUCarTypeHandle p b =
     (let line = common_data_u p ! 0 in
      if pkg_type p = COMMON_PACKAGE_TYPE_CMU_CAR_TYPE
      then if line = 0 then call (ScreenSwitch 35) b
           else if line = 3 then call (ScreenSwitch 36) b
           else if line = 4 then call (ScreenSwitch 37) b
           else b
      else b)"

definition BCUCMUACKStateHandle :: "common_package \<Rightarrow> bcu \<Rightarrow> bcu" where
  "BCUCMUACKStateHandle p b =
     (if pkg_type p = COMMON_PACKAGE_TYPE_ACK_STATE
      then (let b = b\<lparr>bcu_mcu_connect_state := unat (common_data_u p ! 0)\<rparr>
            in if bcu_mcu_connect_state b = 1 then SetAudioDataDestination ''CMU'' 232 b else b)
      else b)"

text \<open>A package is read from each buffer whether or not it is then used.\<close>

definition BCUCMUConnectionCatTypeAndAckState ::
    "int \<Rightarrow> common_package option \<Rightarrow> common_package option \<Rightarrow> bcu \<Rightarrow> bcu" where
  "BCUCMUConnectionCatTypeAndAckState ccu_state car_type ack b =
     (let b = (case car_type of Some p \<Rightarrow> if ccu_state = 3 then BCUCMUCarTypeHandle p b else b | None \<Rightarrow> b)
      in case ack of Some p \<Rightarrow> if ccu_state = 3 then BCUCMUACKStateHandle p b else b | None \<Rightarrow> b)"

subsection \<open>The software version\<close>

text \<open>\<open>pa_software_version_t\<close>: four arrays of 32 characters, of which 30 are copied.\<close>

record version_info =
  get_or_set_version_info :: int
  software_version :: string
  software_date :: string
  db_version_audio :: string
  db_version_config :: string

record big_package =
  bg_dst_dev_name :: string
  bg_dst_dev_number :: int
  bg_src_dev_name :: string
  bg_src_dev_number :: int
  bg_pkg_type :: int
  bg_version :: version_info

definition strncpy30 :: "string \<Rightarrow> string \<Rightarrow> string" where
  "strncpy30 dst src =
     take 30 (takeWhile (\<lambda>c. c \<noteq> NUL) src @ replicate 30 NUL) @ drop 30 dst"

definition version_answer :: "bcu \<Rightarrow> version_info \<Rightarrow> big_package \<Rightarrow> big_package" where
  "version_answer b own q =
     (let v = bg_version q in
      q\<lparr>bg_dst_dev_name := ''PTU'', bg_dst_dev_number := 1, bg_src_dev_name := devices_name b,
        bg_src_dev_number := int (devices_no b), bg_pkg_type := COMMON_PACKAGE_TYPE_SOFTWARE_VERSION,
        bg_version := \<lparr>get_or_set_version_info = 0,
          software_version = strncpy30 (software_version v) (software_version own),
          software_date = strncpy30 (software_date v) (software_date own),
          db_version_audio = strncpy30 (db_version_audio v) (db_version_audio own),
          db_version_config = strncpy30 (db_version_config v) (db_version_config own)\<rparr>\<rparr>)"

definition GetBCUDeviceVersionInfo :: "(big_package \<Rightarrow> byte list) \<Rightarrow> bcu \<Rightarrow> version_info \<Rightarrow> ptr
    \<Rightarrow> big_package option \<Rightarrow> outbox \<Rightarrow> outbox" where
  "GetBCUDeviceVersionInfo bytes b own big_send read ob =
     (case read of
        None \<Rightarrow> ob
      | Some q \<Rightarrow>
          if bg_src_dev_name q = ''PTU'' \<and> bg_pkg_type q = COMMON_PACKAGE_TYPE_SOFTWARE_VERSION
             \<and> get_or_set_version_info (bg_version q) = 1
          then fst (put big_send (bytes (version_answer b own q)) ob) else ob)"

section \<open>What the buffer holds after a message\<close>

definition waiting :: "ptr \<Rightarrow> outbox \<Rightarrow> byte list list" where
  "waiting p ob = bb_view (bh_bufs (ob_heap ob) p)"

text \<open>A buffer of \<open>slots\<close> slots for items of \<open>sz\<close> bytes: it holds one item less than it has slots.\<close>

definition queue_ok :: "nat \<Rightarrow> nat \<Rightarrow> ptr \<Rightarrow> block_heap \<Rightarrow> bool" where
  "queue_ok slots sz p h \<longleftrightarrow> bh_inv h \<and> BlockBufferIsValid h p \<and> bb_conf (bh_bufs h p) = (slots, sz + 4)
     \<and> length (bb_view (bh_bufs h p)) \<le> slots - 1"

text \<open>What the other threads may do while a writer sleeps: take packages from the front.\<close>

definition drains :: "nat \<Rightarrow> nat \<Rightarrow> ptr \<Rightarrow> (nat \<Rightarrow> block_heap \<Rightarrow> block_heap) \<Rightarrow> bool" where
  "drains slots sz p d \<longleftrightarrow> (\<forall>k h. queue_ok slots sz p h \<longrightarrow> queue_ok slots sz p (d k h)
     \<and> (\<exists>n. bb_view (bh_bufs (d k h) p) = drop n (bb_view (bh_bufs h p))))"

definition slept :: "(nat \<Rightarrow> block_heap \<Rightarrow> block_heap) \<Rightarrow> nat \<Rightarrow> outbox \<Rightarrow> outbox" where
  "slept d n ob = (thread_delay d ^^ n) ob"

lemma put_queue:
  assumes "queue_ok slots sz p (ob_heap ob)" and "length m = sz" and "put p m ob = (ob', r)"
  shows "queue_ok slots sz p (ob_heap ob')" and "ob_sleeps ob' = ob_sleeps ob"
    and "length (waiting p ob) = slots - 1 \<Longrightarrow> waiting p ob' = waiting p ob \<and> r = -1"
    and "length (waiting p ob) \<noteq> slots - 1 \<Longrightarrow> waiting p ob' = waiting p ob @ [m] \<and> r = int sz"
proof -
  note q = assms(1) [unfolded queue_ok_def]
  obtain h where w: "BlockBufferWrite (ob_heap ob) p (Some m) (length m) = (h, r)" and ob': "ob' = ob\<lparr>ob_heap := h\<rparr>"
    using assms(3) by (auto simp: put_def split: prod.splits)
  note v = block_write_view [OF _ _ w] and spec = block_write_spec [OF _ _ w, of slots "sz + 4"]
  show "ob_sleeps ob' = ob_sleeps ob" by (simp add: ob')
  show full: "waiting p ob' = waiting p ob \<and> r = -1" if "length (waiting p ob) = slots - 1"
    using spec q that by (simp add: waiting_def ob')
  show app: "waiting p ob' = waiting p ob @ [m] \<and> r = int sz" if "length (waiting p ob) \<noteq> slots - 1"
    using spec q that assms(2) by (simp add: waiting_def ob')
  have "length (bb_view (bh_bufs h p)) \<le> slots - 1"
    using full app q by (cases "length (waiting p ob) = slots - 1") (simp_all add: waiting_def ob')
  then show "queue_ok slots sz p (ob_heap ob')" using v(1,2,6) q by (simp add: queue_ok_def ob')
qed

lemma slept_simps: "slept d 0 ob = ob" "slept d (Suc n) ob = slept d n (thread_delay d ob)"
  "ob_sleeps (slept d n ob) = ob_sleeps ob + n"
proof -
  show "slept d 0 ob = ob" by (simp add: slept_def)
  show "slept d (Suc n) ob = slept d n (thread_delay d ob)" by (simp add: slept_def funpow_swap1)
  show "ob_sleeps (slept d n ob) = ob_sleeps ob + n"
    by (induction n arbitrary: ob) (simp_all add: slept_def thread_delay_def)
qed

lemma slept_queue:
  assumes "drains slots sz p d" and "queue_ok slots sz p (ob_heap ob)"
  shows "queue_ok slots sz p (ob_heap (slept d n ob)) \<and> (\<exists>k. waiting p (slept d n ob) = drop k (waiting p ob))"
proof (induction n)
  case 0
  show ?case using assms(2) by (auto simp: slept_def intro: exI [of _ 0])
next
  case (Suc n)
  let ?h = "ob_heap (slept d n ob)"
  have "ob_heap (slept d (Suc n) ob) = d (ob_sleeps (slept d n ob)) ?h"
    by (simp add: slept_def thread_delay_def)
  moreover obtain k where "waiting p (slept d n ob) = drop k (waiting p ob)" using Suc by blast
  moreover obtain j where "bb_view (bh_bufs (d (ob_sleeps (slept d n ob)) ?h) p) = drop j (bb_view (bh_bufs ?h p))"
    using assms(1) Suc unfolding drains_def by blast
  moreover have "queue_ok slots sz p (d (ob_sleeps (slept d n ob)) ?h)"
    using assms(1) Suc unfolding drains_def by blast
  ultimately show ?case by (auto simp: waiting_def)
qed

text \<open>The loop ends with the first attempt whose result is positive.\<close>

lemma write_until_ends:
  assumes "\<forall>k < n. conv (snd (put p m (slept d k ob))) \<le> 0" and "0 < conv (snd (put p m (slept d n ob)))"
    and same: "\<And>k. k < n \<Longrightarrow> fst (put p m (slept d k ob)) = slept d k ob"
  shows "write_until conv d p m ob = Some (fst (put p m (slept d n ob)))"
  using assms
proof (induction n arbitrary: ob)
  case 0
  then show ?case
    by (subst write_until.simps) (cases "put p m ob", auto simp: slept_simps)
next
  case (Suc n)
  have first: "conv (snd (put p m ob)) \<le> 0" "fst (put p m ob) = ob"
    using Suc.prems(1,3) by (force simp: slept_simps(1))+
  have "write_until conv d p m (thread_delay d ob) = Some (fst (put p m (slept d n (thread_delay d ob))))"
    by (rule Suc.IH) (use Suc.prems in \<open>auto simp: slept_simps(2) [symmetric]\<close>)
  then show ?case
    by (subst write_until.simps) (use first in \<open>cases "put p m ob", simp add: slept_simps\<close>)
qed

lemma write_until_written:
  assumes "write_until conv d p m ob = Some ob'"
  shows "\<exists>k. 0 < conv (snd (put p m (slept d k ob))) \<or> fst (put p m (slept d k ob)) \<noteq> slept d k ob"
proof (rule write_until.raw_induct [OF _ assms, of
    "\<lambda>conv d p m ob _. \<exists>k. 0 < conv (snd (put p m (slept d k ob))) \<or> fst (put p m (slept d k ob)) \<noteq> slept d k ob"])
  fix f :: "(int \<Rightarrow> int) \<Rightarrow> (nat \<Rightarrow> block_heap \<Rightarrow> block_heap) \<Rightarrow> ptr \<Rightarrow> byte list \<Rightarrow> outbox \<Rightarrow> outbox option"
    and conv d p m ob ob'
  assume IH: "\<And>conv d p m ob ob'. f conv d p m ob = Some ob' \<Longrightarrow>
      \<exists>k. 0 < conv (snd (put p m (slept d k ob))) \<or> fst (put p m (slept d k ob)) \<noteq> slept d k ob"
    and step: "(let (ob, r) = put p m ob in if conv r \<le> 0 then f conv d p m (thread_delay d ob) else Some ob) = Some ob'"
  obtain ob1 r where w: "put p m ob = (ob1, r)" by fastforce
  show "\<exists>k. 0 < conv (snd (put p m (slept d k ob))) \<or> fst (put p m (slept d k ob)) \<noteq> slept d k ob"
  proof (cases "conv r \<le> 0 \<and> ob1 = ob")
    case True
    then have "f conv d p m (thread_delay d ob) = Some ob'" using step w by simp
    from IH [OF this] obtain k where "0 < conv (snd (put p m (slept d (Suc k) ob)))
        \<or> fst (put p m (slept d (Suc k) ob)) \<noteq> slept d (Suc k) ob" by (auto simp: slept_simps)
    then show ?thesis by blast
  next
    case False
    then show ?thesis using w by (intro exI [of _ 0]) (auto simp: slept_simps)
  qed
qed

lemma write_until_never:
  assumes "\<And>k. conv (snd (put p m (slept d k ob))) \<le> 0 \<and> fst (put p m (slept d k ob)) = slept d k ob"
  shows "write_until conv d p m ob = None"
proof (cases "write_until conv d p m ob")
  case (Some ob')
  from write_until_written [OF this] assms show ?thesis by (auto simp: not_less [symmetric])
qed

text \<open>C15:
  The question to the CCU waits for room: it is appended exactly once, in the first moment in which
  the network thread has taken something from a full buffer, and the packages before it keep their
  order; if the network thread never takes any, the call never returns.\<close>

theorem question_waits_for_room:
  assumes "queue_ok slots sz p (ob_heap ob)" and "drains slots sz p d" and "0 < sz"
    and "length (bytes (tcms_cmu_question b junk)) = sz"
  defines "full \<equiv> \<lambda>n. length (waiting p (slept d n ob)) = slots - 1"
  shows "(\<forall>n. \<not> full n \<and> (\<forall>k < n. full k) \<longrightarrow>
        (\<exists>ob'. AskCCUTcmsCMUState d bytes junk b p ob = Some ob' \<and> ob_sleeps ob' = ob_sleeps ob + n
          \<and> (\<exists>k. waiting p ob' = drop k (waiting p ob) @ [bytes (tcms_cmu_question b junk)])))
    \<and> ((\<forall>n. full n) \<longrightarrow> AskCCUTcmsCMUState d bytes junk b p ob = None)"
proof -
  let ?m = "bytes (tcms_cmu_question b junk)"
  have q: "queue_ok slots sz p (ob_heap (slept d n ob))" "\<exists>k. waiting p (slept d n ob) = drop k (waiting p ob)" for n
    using slept_queue [OF assms(2,1)] by blast+
  have heap: "fst (put p ?m (slept d n ob)) = slept d n ob" "snd (put p ?m (slept d n ob)) = -1" if "full n" for n
  proof -
    obtain ob' r where w: "put p ?m (slept d n ob) = (ob', r)" by fastforce
    have "r = -1" using put_queue(3) [OF q(1) assms(4) w] that by (simp add: full_def)
    moreover have "ob' = slept d n ob"
    proof -
      obtain h where h: "BlockBufferWrite (ob_heap (slept d n ob)) p (Some ?m) (length ?m) = (h, r)"
        "ob' = (slept d n ob)\<lparr>ob_heap := h\<rparr>" using w by (auto simp: put_def split: prod.splits)
      have "h = ob_heap (slept d n ob)"
        using block_write_spec [OF _ _ h(1), of slots "sz + 4"] q(1) [of n] that
        by (simp add: queue_ok_def full_def waiting_def)
      with h(2) show ?thesis by simp
    qed
    ultimately show "fst (put p ?m (slept d n ob)) = slept d n ob" "snd (put p ?m (slept d n ob)) = -1"
      using w by simp_all
  qed
  have "\<exists>ob'. AskCCUTcmsCMUState d bytes junk b p ob = Some ob' \<and> ob_sleeps ob' = ob_sleeps ob + n
      \<and> (\<exists>k. waiting p ob' = drop k (waiting p ob) @ [?m])"
    if n: "\<not> full n" "\<forall>k < n. full k" for n
  proof -
    obtain ob' r where w: "put p ?m (slept d n ob) = (ob', r)" by fastforce
    note a = put_queue(4) [OF q(1) assms(4) w] put_queue(2) [OF q(1) assms(4) w]
    have "AskCCUTcmsCMUState d bytes junk b p ob = Some (fst (put p ?m (slept d n ob)))"
      unfolding AskCCUTcmsCMUState_def
      by (rule write_until_ends) (use n heap a assms(3) w in \<open>auto simp: as_int_def full_def\<close>)
    moreover obtain k where "waiting p (slept d n ob) = drop k (waiting p ob)" using q(2) by blast
    ultimately show ?thesis using a w n by (simp add: full_def slept_simps) metis
  qed
  moreover have "AskCCUTcmsCMUState d bytes junk b p ob = None" if "\<forall>n. full n"
    unfolding AskCCUTcmsCMUState_def
    by (rule write_until_never) (use heap that in \<open>simp add: as_int_def\<close>)
  ultimately show ?thesis by blast
qed

section \<open>Volumes\<close>

text \<open>A result -1 becomes 255 in an \<open>unsigned char\<close>: the loops never try again.\<close>

lemma put_uchar:
  assumes "queue_ok slots sz p (ob_heap ob)" and "length m = sz" and "sz mod 256 \<noteq> 0" and "put p m ob = (ob', r)"
  shows "0 < as_uchar r" and "waiting p ob' = take (slots - 1) (waiting p ob @ [m])"
    and "queue_ok slots sz p (ob_heap ob')" and "ob_sleeps ob' = ob_sleeps ob"
proof -
  note q = put_queue [OF assms(1,2,4)]
  have len: "length (waiting p ob) \<le> slots - 1" using assms(1) by (simp add: queue_ok_def waiting_def)
  have "0 < int sz mod 256" using assms(3) by presburger
  then show "0 < as_uchar r"
    using q(3,4) by (cases "length (waiting p ob) = slots - 1") (simp_all add: as_uchar_def)
  show "waiting p ob' = take (slots - 1) (waiting p ob @ [m])"
    using q(3,4) len by (cases "length (waiting p ob) = slots - 1") simp_all
  show "queue_ok slots sz p (ob_heap ob')" "ob_sleeps ob' = ob_sleeps ob" using q by simp_all
qed

definition sent_once :: "nat \<Rightarrow> nat \<Rightarrow> ptr \<Rightarrow> byte list list \<Rightarrow> outbox \<Rightarrow> outbox \<Rightarrow> bool" where
  "sent_once slots sz p ms ob ob' \<longleftrightarrow> waiting p ob' = take (slots - 1) (waiting p ob @ ms)
     \<and> queue_ok slots sz p (ob_heap ob') \<and> ob_sleeps ob' = ob_sleeps ob"

lemma sent_once_trans:
  "sent_once slots sz p ms ob ob1 \<Longrightarrow> sent_once slots sz p ns ob1 ob2 \<Longrightarrow> sent_once slots sz p (ms @ ns) ob ob2"
  by (simp add: sent_once_def take_append [symmetric] del: take_append)
     (simp add: min_def)

lemma vol_once:
  assumes "queue_ok slots sz p (ob_heap ob)" and "length (bytes q) = sz" and "sz mod 256 \<noteq> 0"
  shows "\<exists>ob'. vol_until d bytes p q ob = Some ob' \<and> sent_once slots sz p [bytes q] ob ob'"
    and "sent_once slots sz p [bytes q] ob (vol_times d bytes p q ob)"
proof -
  obtain ob' r where w: "put p (bytes q) ob = (ob', r)" by fastforce
  note u = put_uchar [OF assms(1,2,3) w]
  have s: "sent_once slots sz p [bytes q] ob ob'" using u by (simp add: sent_once_def)
  have "vol_until d bytes p q ob = Some ob'"
    unfolding vol_until_def by (subst write_until.simps) (use w u(1) in simp)
  with s show "\<exists>ob'. vol_until d bytes p q ob = Some ob' \<and> sent_once slots sz p [bytes q] ob ob'" by blast
  have "vol_times d bytes p q ob = ob'"
    using w u(1) by (simp add: vol_times_def numeral_3_eq_3)
  with s show "sent_once slots sz p [bytes q] ob (vol_times d bytes p q ob)" by simp
qed

text \<open>The messages about volumes never wait: each of the three functions returns without a sleep and
  has tried each of its packages once, in its order; those that found the buffer full are lost.\<close>

lemma volumes_never_wait:
  assumes "queue_ok slots sz p (ob_heap ob)" and "sz mod 256 \<noteq> 0" and "\<And>q. length (bytes q) = sz"
  shows "(\<exists>ob'. BCUSendDevVolumeInfoToD2DOtherDev d bytes v p ob = Some ob'
        \<and> sent_once slots sz p [bytes (dev_vol_to_ccu v), bytes (dev_vol_to_bcu v)] ob ob')
    \<and> (\<exists>ob'. BCUSendDevVolumeInfoToD2POtherDev d bytes v p ob = Some ob'
        \<and> sent_once slots sz p [bytes (dev_vol_to_pcu v), bytes (dev_vol_to_ccu v), bytes (dev_vol_to_bcu v)] ob ob')
    \<and> sent_once slots sz p [bytes (dev_vol_to_eamp v), bytes (dev_vol_to_ccu v), bytes (dev_vol_to_bcu v)] ob
        (BCUSendDevVolumeInfoToPAOtherDev d bytes v p ob)"
proof (intro conjI)
  note one = vol_once [where bytes = bytes, OF _ assms(3,2)]
  have ok: "sent_once slots sz p ms ob ob' \<Longrightarrow> queue_ok slots sz p (ob_heap ob')" for ms ob ob'
    by (simp add: sent_once_def)
  obtain a where a: "vol_until d bytes p (dev_vol_to_ccu v) ob = Some a" "sent_once slots sz p [bytes (dev_vol_to_ccu v)] ob a"
    using one(1) [OF assms(1)] by blast
  obtain b where b: "vol_until d bytes p (dev_vol_to_bcu v) a = Some b" "sent_once slots sz p [bytes (dev_vol_to_bcu v)] a b"
    using one(1) [OF ok [OF a(2)]] by blast
  show "\<exists>ob'. BCUSendDevVolumeInfoToD2DOtherDev d bytes v p ob = Some ob'
      \<and> sent_once slots sz p [bytes (dev_vol_to_ccu v), bytes (dev_vol_to_bcu v)] ob ob'"
    using a(1) b(1) sent_once_trans [OF a(2) b(2)] by (simp add: BCUSendDevVolumeInfoToD2DOtherDev_def)
  obtain x where x: "vol_until d bytes p (dev_vol_to_pcu v) ob = Some x" "sent_once slots sz p [bytes (dev_vol_to_pcu v)] ob x"
    using one(1) [OF assms(1)] by blast
  obtain y where y: "vol_until d bytes p (dev_vol_to_ccu v) x = Some y" "sent_once slots sz p [bytes (dev_vol_to_ccu v)] x y"
    using one(1) [OF ok [OF x(2)]] by blast
  obtain z where z: "vol_until d bytes p (dev_vol_to_bcu v) y = Some z" "sent_once slots sz p [bytes (dev_vol_to_bcu v)] y z"
    using one(1) [OF ok [OF y(2)]] by blast
  show "\<exists>ob'. BCUSendDevVolumeInfoToD2POtherDev d bytes v p ob = Some ob'
      \<and> sent_once slots sz p [bytes (dev_vol_to_pcu v), bytes (dev_vol_to_ccu v), bytes (dev_vol_to_bcu v)] ob ob'"
    using x(1) y(1) z(1) sent_once_trans [OF sent_once_trans [OF x(2) y(2)] z(2)]
    by (simp add: BCUSendDevVolumeInfoToD2POtherDev_def)
  let ?e = "vol_times d bytes p (dev_vol_to_eamp v) ob"
  let ?c = "vol_times d bytes p (dev_vol_to_ccu v) ?e"
  note e = one(2) [OF assms(1), where q = "dev_vol_to_eamp v" and d = d]
  note c = one(2) [OF ok [OF e], where q = "dev_vol_to_ccu v" and d = d]
  note f = one(2) [OF ok [OF c], where q = "dev_vol_to_bcu v" and d = d]
  show "sent_once slots sz p [bytes (dev_vol_to_eamp v), bytes (dev_vol_to_ccu v), bytes (dev_vol_to_bcu v)] ob
      (BCUSendDevVolumeInfoToPAOtherDev d bytes v p ob)"
    using sent_once_trans [OF sent_once_trans [OF e c] f] by (simp add: BCUSendDevVolumeInfoToPAOtherDev_def)
qed

text \<open>What the amplifier was told last.\<close>

fun amp_volume :: "bcu_call list \<Rightarrow> nat option" where
  "amp_volume [] = None"
| "amp_volume (c # cs) =
     (case amp_volume cs of Some v \<Rightarrow> Some v
      | None \<Rightarrow> (case c of SpeakerVolume v \<Rightarrow> Some v | _ \<Rightarrow> None))"

lemma amp_volume_snoc:
  "amp_volume (cs @ [c]) = (case c of SpeakerVolume v \<Rightarrow> Some v | _ \<Rightarrow> amp_volume cs)"
  by (induction cs) (auto split: option.splits bcu_call.splits)

lemma amp_volume_snoc2: "amp_volume (cs @ [c, AdjustVolumeAfterCODEC]) = amp_volume (cs @ [c])"
  using amp_volume_snoc [of "cs @ [c]" AdjustVolumeAfterCODEC] by simp

definition vol_inv :: "bcu \<times> nat \<Rightarrow> bool" where
  "vol_inv s \<longleftrightarrow> d2d_volume (fst s) \<le> 4 \<and> snd s \<le> 4 \<and> amp_volume (bc_calls (fst s)) = Some (d2d_volume (fst s))"

lemma volume_step:
  assumes "vol_inv s"
  shows "vol_inv (device_volume_received p s) \<and> ctl_of (fst (device_volume_received p s)) = ctl_of (fst s)"
  using assms
  by (cases s) (auto simp: vol_inv_def device_volume_received_def Let_def call_def amp_volume_snoc amp_volume_snoc2 ctl_of_def)


section \<open>The software version\<close>

lemma strncpy30_text:
  assumes "length dst = 32" and "length src < 30" and "NUL \<notin> set src"
  shows "length (strncpy30 dst src) = 32" and "takeWhile (\<lambda>c. c \<noteq> NUL) (strncpy30 dst src) = src"
proof -
  have plain: "takeWhile (\<lambda>c. c \<noteq> NUL) src = src" using assms(3) by (auto simp: takeWhile_eq_all_conv)
  show "length (strncpy30 dst src) = 32" using assms by (simp add: strncpy30_def plain)
  obtain n where n: "30 - length src = Suc n" using assms(2) by (cases "30 - length src") auto
  have "strncpy30 dst src = src @ NUL # (replicate n NUL @ drop 30 dst)"
    using assms(2) n by (simp add: strncpy30_def plain)
  then show "takeWhile (\<lambda>c. c \<noteq> NUL) (strncpy30 dst src) = src"
    using assms(3) by (simp add: takeWhile_append)
qed

text \<open>In the answer the four texts are those of the unit, and each ends within its array.\<close>

lemma version_answered:
  assumes "bg_src_dev_name q = ''PTU''" and "bg_pkg_type q = COMMON_PACKAGE_TYPE_SOFTWARE_VERSION"
    and "get_or_set_version_info (bg_version q) = 1" and "length (software_version (bg_version q)) = 32"
    and "length (software_version own) < 30" and "NUL \<notin> set (software_version own)"
    and "queue_ok slots sz p (ob_heap ob)" and "length (waiting p ob) \<noteq> slots - 1" and "\<And>q. length (bytes q) = sz"
  shows "waiting p (GetBCUDeviceVersionInfo bytes b own p (Some q) ob) = waiting p ob @ [bytes (version_answer b own q)]"
    and "takeWhile (\<lambda>c. c \<noteq> NUL) (software_version (bg_version (version_answer b own q))) = software_version own"
    and "get_or_set_version_info (bg_version (version_answer b own q)) = 0"
proof -
  obtain ob' r where w: "put p (bytes (version_answer b own q)) ob = (ob', r)" by fastforce
  show "waiting p (GetBCUDeviceVersionInfo bytes b own p (Some q) ob) = waiting p ob @ [bytes (version_answer b own q)]"
    using put_queue(4) [OF assms(7) assms(9) w assms(8)] assms(1-3) w by (simp add: GetBCUDeviceVersionInfo_def)
  show "takeWhile (\<lambda>c. c \<noteq> NUL) (software_version (bg_version (version_answer b own q))) = software_version own"
    using strncpy30_text(2) [OF assms(4-6)] by (simp add: version_answer_def Let_def)
  show "get_or_set_version_info (bg_version (version_answer b own q)) = 0"
    by (simp add: version_answer_def Let_def)
qed

section \<open>The flags of the coupled train\<close>

text \<open>
  \<open>network/zhw_bcu_to_cmu.cxx\<close>: a thread waits for six flags and sends a command for each that
  \<open>cyg_flag_wait\<close> reports; \<open>cyg_flag_maskbits\<close> clears it. The body of the thread that should run it,
  \<open>SendCmdToCmuEntry\<close> in \<open>bcu_main.cxx\<close>, is commented out.
\<close>

unbundle bit_operations_syntax

record cmu_link =
  cl_flags :: "32 word"
  cl_sent :: "(string \<times> nat \<times> send_info) list"

definition ZhwSendCmdInfo :: "string \<Rightarrow> byte \<Rightarrow> send_info \<Rightarrow> int \<Rightarrow> cmu_link \<Rightarrow> cmu_link" where
  "ZhwSendCmdInfo name no send_buffer t c =
     c\<lparr>cl_sent := cl_sent c @ [(''CMU'', 230, send_buffer\<lparr>si_src_name := name, si_src_no := no,
        si_line_cmd_type := t, si_line_pkg_type := 1, si_type_ann := ANN_IDLE,
        si_type_intercom := INTERCOM_IDLE\<rparr>)]\<rparr>"

definition cmu_flag :: "string \<Rightarrow> byte \<Rightarrow> send_info \<Rightarrow> 32 word \<Rightarrow> nat \<Rightarrow> cmu_link \<Rightarrow> cmu_link" where
  "cmu_flag name no send_buffer ret i c =
     (if ret AND push_bit i 1 = push_bit i 1
      then ZhwSendCmdInfo name no send_buffer (int i + 1)
        (c\<lparr>cl_flags := cl_flags c AND NOT (push_bit i 1)\<rparr>)
      else c)"

definition ZhwBcuToCmuEntry_round :: "string \<Rightarrow> byte \<Rightarrow> send_info \<Rightarrow> 32 word \<Rightarrow> cmu_link \<Rightarrow> cmu_link" where
  "ZhwBcuToCmuEntry_round name no send_buffer ret =
     cmu_flag name no send_buffer ret 5 \<circ> cmu_flag name no send_buffer ret 4
     \<circ> cmu_flag name no send_buffer ret 3 \<circ> cmu_flag name no send_buffer ret 2
     \<circ> cmu_flag name no send_buffer ret 1 \<circ> cmu_flag name no send_buffer ret 0"

lemma flag_set: "i < 32 \<Longrightarrow> (ret AND push_bit i 1 = (push_bit i 1 :: 32 word)) \<longleftrightarrow> bit ret i"
proof -
  assume i: "i < 32"
  have "(ret AND push_bit i 1 = (push_bit i 1 :: 32 word)) \<longleftrightarrow> (\<forall>k. bit ret k \<and> k = i \<and> k < 32 \<longleftrightarrow> k = i \<and> k < 32)"
    by (auto simp: bit_eq_iff bit_simps)
  then show ?thesis using i by auto
qed

text \<open>One command for each flag reported, in the order of their numbers; a flag that is set while
  the commands are sent stays, unless it is one of those reported.\<close>

lemma cmu_flags_served:
  "map (\<lambda>(_, _, s). si_line_cmd_type s) (cl_sent (ZhwBcuToCmuEntry_round name no sb ret c))
      = map (\<lambda>(_, _, s). si_line_cmd_type s) (cl_sent c) @ map (\<lambda>i. int i + 1) (filter (bit ret) [0..<6])
   \<and> (\<forall>k. bit (cl_flags (ZhwBcuToCmuEntry_round name no sb ret c)) k \<longleftrightarrow> bit (cl_flags c) k \<and> (k < 6 \<longrightarrow> \<not> bit ret k))"
proof -
  have one: "cmu_flag name no sb ret i c = (if bit ret i then ZhwSendCmdInfo name no sb (int i + 1)
        (c\<lparr>cl_flags := cl_flags c AND NOT (push_bit i 1)\<rparr>) else c)" if "i < 32" for i c
    unfolding cmu_flag_def flag_set [OF that] by (rule refl)
  have sent: "map (\<lambda>(_, _, s). si_line_cmd_type s) (cl_sent (cmu_flag name no sb ret i c))
      = map (\<lambda>(_, _, s). si_line_cmd_type s) (cl_sent c) @ (if bit ret i then [int i + 1] else [])" if "i < 32" for i c
    using one [OF that] by (simp add: ZhwSendCmdInfo_def)
  have flags: "bit (cl_flags (cmu_flag name no sb ret i c)) k \<longleftrightarrow> bit (cl_flags c) k \<and> (k = i \<longrightarrow> \<not> bit ret i)"
    if "i < 32" for i k c
  proof -
    have "bit (cl_flags c) k \<Longrightarrow> k < 32" using bit_imp_le_length [of "cl_flags c" k] by simp
    then show ?thesis using one [OF that, of c] by (auto simp: ZhwSendCmdInfo_def bit_simps)
  qed
  have six: "[0..<6] = [0, 1, 2, 3, 4, 5 :: nat]" by (simp add: upt_rec)
  have a: "map (\<lambda>(_, _, s). si_line_cmd_type s) (cl_sent (ZhwBcuToCmuEntry_round name no sb ret c))
      = map (\<lambda>(_, _, s). si_line_cmd_type s) (cl_sent c) @ map (\<lambda>i. int i + 1) (filter (bit ret) [0..<6])"
    by (simp add: ZhwBcuToCmuEntry_round_def sent six)
  have "bit (cl_flags (ZhwBcuToCmuEntry_round name no sb ret c)) k \<longleftrightarrow> bit (cl_flags c) k \<and> (k < 6 \<longrightarrow> \<not> bit ret k)" for k
  proof -
    have "k < 6 \<longleftrightarrow> k = 0 \<or> k = 1 \<or> k = 2 \<or> k = 3 \<or> k = 4 \<or> k = 5" by arith
    then show ?thesis by (simp only: ZhwBcuToCmuEntry_round_def o_def flags) auto
  qed
  with a show ?thesis by blast
qed

section \<open>Concrete buffers\<close>

definition demo_outbox :: outbox where
  "demo_outbox = \<lparr>ob_heap = block_demo, ob_sleeps = 0\<rparr>"

definition demo_package :: common_package where
  "demo_package = \<lparr>dst_dev_name = '''', dst_dev_number = 0, src_dev_name = '''', src_dev_number = 0,
     pkg_type = 4, common_data_u = map of_char ''BCU'' @ replicate 33 0 @ [4, 0, 0, 0] @ replicate 8 0\<rparr>"

lemma demo_queue: "queue_ok 3 2 7 (ob_heap demo_outbox)" "waiting 7 demo_outbox = [[65, 66]]"
proof -
  show "waiting 7 demo_outbox = [[65, 66]]" by (simp add: waiting_def demo_outbox_def block_demo_view)
  have "length (bb_view (bh_bufs block_demo 7)) \<le> 3 - 1" by (simp only: block_demo_view) simp
  then show "queue_ok 3 2 7 (ob_heap demo_outbox)"
    unfolding queue_ok_def demo_outbox_def outbox.simps using block_demo_inv block_demo_valid block_demo_view(2)
    by (simp del: bb_view_length)
qed

lemma no_drain: "drains slots sz p (\<lambda>k h. h)"
  unfolding drains_def by (intro allI impI conjI exI [of _ 0]) simp_all

theorem question_waits_for_room_witness:
  "\<exists>ob'. AskCCUTcmsCMUState (\<lambda>k h. h) (\<lambda>_. [1, 2]) demo_package bcu_rest 7 demo_outbox = Some ob' \<and> ob_sleeps ob' = 0"
proof -
  have len: "length ((\<lambda>_. [1, 2 :: byte]) (tcms_cmu_question bcu_rest demo_package)) = 2" by simp
  have "ob_sleeps demo_outbox = 0" by (simp add: demo_outbox_def)
  then show ?thesis
    using question_waits_for_room [OF demo_queue(1) no_drain _ len, THEN conjunct1, rule_format, of 0]
    by (auto simp: slept_simps demo_queue(2))
qed


lemma demo_volume_taken: "d2d_volume (fst (device_volume_received demo_package (bcu_rest, 2))) = 0"
  by code_simp

end
