(* ===== verification/Control_Start.thy ===== *)
theory Control_Start
  imports Start_Up Control_Props Status_Messages
begin

text \<open>
  How the parts come together: what \<open>main\<close> and \<open>InitBCUState\<close> store in the state of the unit, and
  the statements of \<open>SystemControl\<close> before its loop (\<open>bcu_main.cxx\<close>), on the buffers that
  \<open>InitBuffer\<close> created. \<open>attempts\<close> is how many times \<open>main\<close> opens the sound card, at most ten.
\<close>

section \<open>The first statements\<close>

definition InitBCUState :: "cunit \<Rightarrow> cunit" where
  "InitBCUState u =
     u\<lparr>u_bcu := (u_bcu u)\<lparr>live_button_state := 0, d2d_button_state := 0, tcmns_effective_flag := 1,
         bcu_mcu_connect_state := 0, bcu_cmu_connect_car_type := 0,
         bcu_have_the_initiative_of_cmu := 0, bcu_current_tcms_cmu_state := 0, d2d_volume := 3\<rparr>,
       d2p_button_state := 0, pcu_request_info_without_ts := replicate 12 0\<rparr>"

definition unit_of_main :: "nat \<Rightarrow> string \<Rightarrow> nat \<Rightarrow> nat \<Rightarrow> cunit \<Rightarrow> cunit" where
  "unit_of_main attempts name no opposite u =
     on_unit (seq ([(\<lambda>b. b\<lparr>devices_name := name, devices_no := no, opposite_bcu_no := opposite\<rparr>),
         ClearAudioDataDestination, call (AudioInCtrl 0), (\<lambda>b. b\<lparr>d2d_volume := 3\<rparr>),
         (\<lambda>b. call (SpeakerVolume (d2d_volume b)) b)]
       @ replicate attempts (call OpenSndCard) @ [call AdjustVolumeAfterCODEC]))
       (InitBCUState (on_unit (\<lambda>b. b\<lparr>bcu_requset_ocs_connecting := 0\<rparr>) u))"

record started =
  sd_registry :: "buffer_info list"
  sd_ids :: control_ids
  sd_volumes :: vol_packages
  sd_unit :: cunit
  sd_out :: outbox

definition SystemControl_start :: "(nat \<Rightarrow> block_heap \<Rightarrow> block_heap) \<Rightarrow> (common_package \<Rightarrow> byte list)
    \<Rightarrow> common_package \<Rightarrow> int \<Rightarrow> vol_packages \<Rightarrow> buffer_info list \<Rightarrow> boot \<Rightarrow> cunit \<Rightarrow> started option" where
  "SystemControl_start drain bytes junk rule_junk v nds b u =
     (let rules = BCURuleTableInit rule_junk;
          ids = BCUControlMainBufferInit b;
          nds = RegisterCommonBufferRecvBuffer nds (common_ids.truncate ids);
          u = on_unit BCUStateInit (u\<lparr>u_rules := rules\<rparr>);
          v = ControlCommomPackageInit (u_bcu u) v;
          u = (on_unit (\<lambda>b. b\<lparr>other_bcu_intercomm_state := INTERCOM_IDLE\<rparr>) u)\<lparr>this_bcu_is_active := 15\<rparr>
      in case AskCCUTcmsCMUState drain bytes junk (u_bcu u) (comm_cmd_send_buffer_id ids)
             \<lparr>ob_heap = bo_blocks b, ob_sleeps = 0\<rparr> of
           None \<Rightarrow> None
         | Some ob \<Rightarrow> Some \<lparr>sd_registry = nds, sd_ids = ids, sd_volumes = v, sd_unit = u, sd_out = ob\<rparr>)"

section \<open>The unit that results\<close>

lemma seq_calls_ctl: "ctl_of (seq (replicate n (call c)) b) = ctl_of b"
  by (induction n arbitrary: b) (simp_all add: call_def ctl_of_def)

lemma seq_append: "seq (fs @ gs) b = seq gs (seq fs b)"
  by (simp add: seq_def)

lemma call_ctl: "ctl_of (call c b) = ctl_of b"
  by (simp add: call_def ctl_of_def)

lemma main_unit:
  "live_button_state (u_bcu (unit_of_main n name no opp u)) = 0"
  "d2d_button_state (u_bcu (unit_of_main n name no opp u)) = 0"
  "length (pcu_request_info_without_ts (unit_of_main n name no opp u)) = 12"
proof -
  have "ctl_of (u_bcu (unit_of_main n name no opp u))
      = (ctl_of (u_bcu (InitBCUState u)))\<lparr>c_dst := ('''', 0)\<rparr>"
    unfolding unit_of_main_def
    by (simp add: on_unit_def seq_append seq_calls_ctl call_ctl)
       (simp add: ctl_of_def InitBCUState_def ClearAudioDataDestination_def call_def)
  then have "c_live (ctl_of (u_bcu (unit_of_main n name no opp u))) = 0"
    "c_d2d (ctl_of (u_bcu (unit_of_main n name no opp u))) = 0"
    by (simp_all add: ctl_of_def InitBCUState_def)
  then show "live_button_state (u_bcu (unit_of_main n name no opp u)) = 0"
    "d2d_button_state (u_bcu (unit_of_main n name no opp u)) = 0" by (simp_all add: ctl_of_def)
  show "length (pcu_request_info_without_ts (unit_of_main n name no opp u)) = 12"
    by (simp add: unit_of_main_def on_unit_def InitBCUState_def)
qed

lemma started_unit_ok:
  fixes z :: int
  assumes "live_button_state (u_bcu u) = 0" and "d2d_button_state (u_bcu u) = 0"
    and "length (pcu_request_info_without_ts u) = 12"
  defines "w \<equiv> (on_unit (\<lambda>b. b\<lparr>other_bcu_intercomm_state := INTERCOM_IDLE\<rparr>)
      (on_unit BCUStateInit (u\<lparr>u_rules := BCURuleTableInit z\<rparr>)))\<lparr>this_bcu_is_active := 15\<rparr>"
  shows "unit_ok w" and "loop_inv (uctl w)"
  using assms(1-3) unfolding w_def
  by (auto simp: unit_ok_def on_unit_def uctl_def ctl_of_def BCUStateInit_def loop_inv_def unit_inv_def
      ann_states_def intercom_states_def)

text \<open>The send buffer of the control thread after \<open>InitBuffer\<close>.\<close>

lemma send_buffer_ready:
  assumes "good_memory S given" and "InitBuffer S given (blank_boot cs bs vs) = (b, 0)"
  defines "p \<equiv> comm_cmd_send_buffer_id (BCUControlMainBufferInit b)"
  shows "queue_ok 5 (unat (sz_common S)) p (bo_blocks b)" and "bb_view (bh_bufs (bo_blocks b) p) = []"
    and "p \<noteq> -1"
proof -
  note st = init_stage [OF assms(1,2)]
  have what: "nth_what 12 = Blocks 5 sz_common ''network-udp-common-send''" "ic_bad (init_calls ! 12) = Some 0"
    "length init_calls = 25"
    by (simp_all add: nth_what_def init_calls_code call_of_def)
  have 12: "12 < length init_calls" by (simp add: what(3))
  have p: "p = opened b (nth_what 12)" by (simp add: p_def BCUControlMainBufferInit_def what(1))
  have stands: "stands S b p (nth_what 12)" and addr: "p = addr (given 12) (nth_what 12)"
    using stage_stands [OF st 12] what(2) p by auto
  have "addr (given 12) (nth_what 12) \<noteq> -1"
    using assms(1) 12 unfolding good_memory_def nth_what_def by blast
  then show "p \<noteq> -1" by (simp only: addr not_False_eq_True)
  have ok: "bh_inv (bo_blocks b)" using st by (simp add: stage_def boot_ok_def)
  show view: "bb_view (bh_bufs (bo_blocks b) p) = []" using stands by (simp add: what(1))
  have "length (bb_view (bh_bufs (bo_blocks b) p)) \<le> 5 - 1" by (simp only: view list.size)
  then show "queue_ok 5 (unat (sz_common S)) p (bo_blocks b)"
    using stands ok by (simp add: queue_ok_def what(1) del: bb_view_length)
qed

lemma question_sent:
  assumes "good_memory S given" and "InitBuffer S given (blank_boot cs bs vs) = (b, 0)"
    and len: "length m = unat (sz_common S)" and "sz_common S \<noteq> 0"
    and p: "p = comm_cmd_send_buffer_id (BCUControlMainBufferInit b)"
    and m: "m = bytes (tcms_cmu_question v junk)"
  obtains ob' where "AskCCUTcmsCMUState drain bytes junk v p \<lparr>ob_heap = bo_blocks b, ob_sleeps = 0\<rparr> = Some ob'"
    and "waiting p ob' = [m]" and "ob_sleeps ob' = 0"
    and "\<forall>q. q \<noteq> p \<longrightarrow> bh_bufs (ob_heap ob') q = bh_bufs (bo_blocks b) q"
proof -
  note ready = send_buffer_ready [OF assms(1,2), folded p]
  define ob where "ob = \<lparr>ob_heap = bo_blocks b, ob_sleeps = 0\<rparr>"
  obtain ob' r where put: "put p m ob = (ob', r)" by fastforce
  have pre: "queue_ok 5 (unat (sz_common S)) p (ob_heap ob)" "waiting p ob = []"
    using ready by (simp_all add: ob_def waiting_def)
  have sent: "waiting p ob' = [m]" "r = int (unat (sz_common S))" "ob_sleeps ob' = 0"
    using put_queue(2,4) [OF pre(1) len put] pre(2) by (simp_all add: ob_def)
  have "0 < unat (sz_common S)" using assms(4) by (simp only: unat_gt_0 not_False_eq_True)
  then have "0 < r" by (simp only: sent(2) of_nat_0_less_iff)
  then have ask: "AskCCUTcmsCMUState drain bytes junk v p ob = Some ob'"
    using write_until_ends [where n = 0 and conv = as_int and d = drain and p = p and m = m and ob = ob] put
    by (simp add: AskCCUTcmsCMUState_def as_int_def slept_simps m)
  have others: "bh_bufs (ob_heap ob') q = bh_bufs (bo_blocks b) q" if "q \<noteq> p" for q
  proof -
    obtain h where h: "BlockBufferWrite (bo_blocks b) p (Some m) (length m) = (h, r)" "ob' = ob\<lparr>ob_heap := h\<rparr>"
      using put by (auto simp: put_def ob_def split: prod.splits)
    show ?thesis
      using block_write_spec [OF _ _ h(1), of 5 "unat (sz_common S) + 4"] ready(1) that len h(2)
      by (auto simp: queue_ok_def split: if_splits)
  qed
  show thesis by (rule that [OF ask [unfolded ob_def] sent(1,3)]) (use others in blast)
qed

lemma others_empty:
  assumes "good_memory S given" and "InitBuffer S given (blank_boot cs bs vs) = (b, 0)"
    and p: "p = comm_cmd_send_buffer_id (BCUControlMainBufferInit b)"
    and others: "\<forall>q. q \<noteq> p \<longrightarrow> bh_bufs (ob_heap ob') q = bh_bufs (bo_blocks b) q"
    and k: "k < length init_calls" "k \<noteq> 12" "nth_what k = Blocks n isz t"
  shows "block_open b t = -1 \<or> waiting (block_open b t) ob' = []"
proof (cases "block_open b t = -1")
  case False
  note st = init_stage [OF assms(1,2)]
  have 12: "12 < length init_calls" "nth_what 12 = Blocks 5 sz_common ''network-udp-common-send''"
    by (simp_all add: nth_what_def init_calls_code call_of_def)
  have "block_open b t \<noteq> p"
    using stage_distinct [OF st assms(1) k(1) 12(1) k(2)] False k(3) 12(2)
    by (simp add: p BCUControlMainBufferInit_def)
  moreover have "bb_view (bh_bufs (bo_blocks b) (block_open b t)) = []"
    using stage_stands [OF st k(1)] False k(3) by auto
  ultimately show ?thesis using others by (simp only: waiting_def simp_thms)
qed simp


definition demo_volumes :: vol_packages where
  "demo_volumes = \<lparr>dev_vol_to_eamp = demo_package, dev_vol_to_pcu = demo_package,
     dev_vol_to_bcu = demo_package, dev_vol_to_ccu = demo_package\<rparr>"


end
