(* ===== verification/Journey_Sim.thy ===== *)
theory Journey_Sim
  imports Stations
begin

text \<open>
  The simulated journey (\<open>SimlateAtuoANNInofFill\<close> in \<open>bcu_main.cxx\<close>): when the maintenance tool has
  switched it on (\<open>OpenAtuoProc\<close>) and its timer has fired, each round of the control thread fills
  the next automatic announcement and sends it to the amplifiers. The static variables of the
  function are the record \<open>sim\<close>.
\<close>

record sim =
  record_pre_status :: byte
  sim_door_side :: byte
  sim_up_down :: byte
  sim_stop_or_leave :: byte
  start_station_code :: byte
  end_station_code :: byte
  current_station_code :: byte
  next_station_code :: byte

definition sim_start :: sim where
  "sim_start = \<lparr>record_pre_status = 0, sim_door_side = 1, sim_up_down = 1, sim_stop_or_leave = 0,
     start_station_code = 1, end_station_code = 6, current_station_code = 1, next_station_code = 2\<rparr>"

record sim_ann = tms_auto +
  ta_begin_or_over :: byte
  ta_active :: byte
  ta_response :: byte
  ta_line_number :: byte
  ta_pre_read :: byte

text \<open>The announcement sent, and the variables for the next one.\<close>

definition SimlateAtuoANNInofFill :: "sim \<Rightarrow> sim_ann \<times> sim" where
  "SimlateAtuoANNInofFill s =
     (\<lparr>ta_up_down = sim_up_down s, ta_stop_or_leave = sim_stop_or_leave s,
       ta_start_station_code = ucast (start_station_code s),
       ta_current_station_code = ucast (current_station_code s),
       ta_next_station_code = ucast (next_station_code s), ta_end_station_code = ucast (end_station_code s),
       ta_door_side = sim_door_side s, ta_begin_or_over = 1, ta_active = 1, ta_response = 0,
       ta_line_number = 3, ta_pre_read = 0\<rparr>,
      let s = s\<lparr>record_pre_status := (if sim_stop_or_leave s = 0 then 1 else 2)\<rparr> in
      if current_station_code s \<ge> 6 \<and> current_station_code s > 0
      then s\<lparr>sim_up_down := 1, sim_door_side := 1, start_station_code := 1, end_station_code := 6,
             current_station_code := 1, next_station_code := 2, sim_stop_or_leave := 0\<rparr>
      else (let s = s\<lparr>sim_up_down := 1, sim_door_side := 1, start_station_code := 1, end_station_code := 6\<rparr>
            in if record_pre_status s = 1 then s\<lparr>sim_stop_or_leave := 1\<rparr>
               else s\<lparr>sim_stop_or_leave := 0, next_station_code := next_station_code s + 1,
                      current_station_code := current_station_code s + 1\<rparr>))"

text \<open>
  The part of a round that belongs to it. The timer's alarm sets \<open>wherther_start_auto_ann\<close>; the
  statement that seems to reset it is a comparison. The sleeps are left out; the package for
  synchronisation that each such round sends first is in \<open>Main_Round\<close>.
\<close>

definition auto_round :: "int \<Rightarrow> nat \<Rightarrow> sim \<Rightarrow> sim_ann option \<times> nat \<times> sim" where
  "auto_round atuo_set_flag wherther_start_auto_ann s =
     (if atuo_set_flag = 1 \<and> wherther_start_auto_ann = 1
      then (let (a, s) = SimlateAtuoANNInofFill s in (Some a, wherther_start_auto_ann, s))
      else (None, wherther_start_auto_ann, s))"

definition journey :: "nat \<Rightarrow> sim" where
  "journey k = ((snd \<circ> SimlateAtuoANNInofFill) ^^ k) sim_start"

text \<open>The eleven announcements of a journey.\<close>

definition journey_sim :: "nat \<Rightarrow> byte \<Rightarrow> sim" where
  "journey_sim j pre = \<lparr>record_pre_status = pre, sim_door_side = 1, sim_up_down = 1,
     sim_stop_or_leave = of_nat (j mod 2), start_station_code = 1, end_station_code = 6,
     current_station_code = of_nat (1 + j div 2), next_station_code = of_nat (2 + j div 2)\<rparr>"

lemma below_eleven: "(j :: nat) < 11 \<Longrightarrow> j \<in> {0, 1, 2, 3, 4, 5, 6, 7, 8, 9, 10}"
  by (simp only: insert_iff empty_iff) presburger

lemma journey_step:
  assumes "j < 11"
  shows "\<exists>pre'. snd (SimlateAtuoANNInofFill (journey_sim j pre)) = journey_sim (Suc j mod 11) pre'"
proof -
  have "j \<in> {0, 1, 2, 3, 4, 5, 6, 7, 8, 9, 10}" by (rule below_eleven [OF assms])
  then show ?thesis
    by (elim insertE emptyE) (simp_all add: SimlateAtuoANNInofFill_def journey_sim_def Let_def word_le_nat_alt)
qed

lemma journey_shape: "\<exists>pre. journey k = journey_sim (k mod 11) pre"
proof (induction k)
  case 0
  show ?case by (auto simp: journey_def journey_sim_def sim_start_def)
next
  case (Suc k)
  then obtain pre where "journey k = journey_sim (k mod 11) pre" by blast
  then have "journey (Suc k) = snd (SimlateAtuoANNInofFill (journey_sim (k mod 11) pre))"
    by (simp add: journey_def)
  then show ?case using journey_step [of "k mod 11" pre] by (simp add: mod_Suc_eq)
qed

text \<open>The simulated journey repeats after eleven announcements: each station from the first to the fifth
  is announced twice, first with the mark 0 and then with the mark 1, and the sixth once, with a
  next station 7 that the line does not have. It never leaves these stations.\<close>

lemma journey_announced:
  "let a = fst (SimlateAtuoANNInofFill (journey k)); j = k mod 11 in
     ta_current_station_code a = of_nat (1 + j div 2) \<and> ta_next_station_code a = of_nat (2 + j div 2)
     \<and> ta_stop_or_leave a = of_nat (j mod 2) \<and> ta_start_station_code a = 1 \<and> ta_end_station_code a = 6
     \<and> ta_line_number a = 3 \<and> (j = 10 \<longleftrightarrow> ta_current_station_code a = ta_end_station_code a)"
proof -
  obtain pre where s: "journey k = journey_sim (k mod 11) pre" using journey_shape by blast
  have "k mod 11 \<in> {0, 1, 2, 3, 4, 5, 6, 7, 8, 9, 10}" by (rule below_eleven) simp
  then show ?thesis unfolding s Let_def
    by (elim insertE emptyE) (simp_all add: SimlateAtuoANNInofFill_def journey_sim_def)
qed

end
