(* ===== verification/Main_Round.thy ===== *)
theory Main_Round
  imports Control_Start Soft_Update Journey_Sim
begin

text \<open>
  One whole round of the main loop (\<open>SystemControl\<close> in \<open>bcu_main.cxx\<close>): \<open>Control_Unit\<close> has the part
  that moves the two state machines; here it is put together with everything else that the round
  does, in the order of the source: the analogue microphone, the blinking lamp, the volumes, the
  stations, the maintenance commands, the simulated journey and the enquiry about versions.

  The fields of the unions that the stations need are read by \<open>wi_tms\<close> and \<open>wi_manual\<close>;
  \<open>wi_fill\<close> writes a simulated announcement into a command. What the round does to the lamps and
  pins outside the unit is kept in \<open>w_toggles\<close> and \<open>w_analog\<close>.
\<close>

section \<open>The round\<close>

record whole =
  w_unit :: cunit
  w_intercomm_volume :: nat
  w_stations :: stations
  w_maint :: maint
  w_sim :: sim
  w_timer :: nat
  w_count :: nat
  w_toggles :: nat
  w_analog :: bool
  w_out :: outbox

record whole_input =
  wi_round :: round_input
  wi_analog :: bool
  wi_volume :: "common_package option"
  wi_tms :: "send_info \<Rightarrow> tms_auto"
  wi_manual :: "send_info \<Rightarrow> byte \<times> 16 word \<times> 16 word"
  wi_shell :: "shell_package option"
  wi_env :: maint_env
  wi_fired :: bool
  wi_fill :: "sim_ann \<Rightarrow> send_info"
  wi_version :: "big_package option"
  wi_bytes :: "big_package \<Rightarrow> byte list"
  wi_own :: version_info
  wi_big_send :: ptr

text \<open>The lamp of a request that is not answered yet changes in every third round.\<close>

definition blink :: "cunit \<Rightarrow> nat \<times> nat \<Rightarrow> nat \<times> nat" where
  "blink u c =
     (let (count, toggles) = c in
      if bcu_requset_ocs_connecting (u_bcu u) = 1
      then (if count = 3 then (1, toggles + 1) else (count + 1, toggles))
      else c)"

text \<open>What a command from the network does to the stations.\<close>

definition station_command :: "whole_input \<Rightarrow> send_info \<Rightarrow> stations \<Rightarrow> stations option" where
  "station_command i pkg s =
     (if unat (si_src_no pkg) > 12 then Some s
      else (let c = (if si_src_name pkg = ''PCU'' then zeroed pkg else pkg);
                s = (if si_type_ann c = MANUAL_ANN_EVENT
                     then (case wi_manual i c of (door, cur, next) \<Rightarrow> manual_received door cur next s) else s) in
        case (if si_type_ann c = LINE_NUMBER_CHANGE_EVENT
              then map_option snd (BCUUpdateTCMSLineInfo c s) else Some s) of
          None \<Rightarrow> None
        | Some s \<Rightarrow>
            map_option (skip_received c)
              (if si_type_ann c = TMS_AUTO_ANN_EVENT
               then tms_auto_received (si_src_name c) (wi_tms i c) s else Some s)))"

text \<open>The package for synchronisation that goes out before a simulated announcement.\<close>

definition SendSYNCPackageToEamp :: "bcu \<Rightarrow> bcu" where
  "SendSYNCPackageToEamp b =
     write_cmd 2 (''EAMP'', MUL_DST_NO,
       (set_src b (send_info_zero\<lparr>si_type_ann := 55, si_type_intercom := INTERCOM_IDLE\<rparr>))) b"

definition auto_part :: "whole_input \<Rightarrow> maint \<Rightarrow> nat \<times> sim \<times> cunit \<Rightarrow> nat \<times> sim \<times> cunit" where
  "auto_part i m x =
     (let (timer, sim, u) = x;
          timer = (if wi_fired i then 1 else timer);
          u = (if atuo_set_flag m = 1 then on_unit SendSYNCPackageToEamp u else u)
      in case auto_round (atuo_set_flag m) timer sim of
           (None, timer, sim) \<Rightarrow> (timer, sim, u)
         | (Some a, timer, sim) \<Rightarrow>
             (timer, sim, on_unit (\<lambda>b. SendCmd_copy ''EAMP'' MUL_DST_NO (set_src b (wi_fill i a)) b) u))"

definition SystemControl_whole :: "whole_input \<Rightarrow> whole \<Rightarrow> whole option" where
  "SystemControl_whole i w =
     (let r = wi_round i; junk = ri_junk r; u = w_unit w;
          u1 = u\<lparr>u_btn := GetPAAllOuterButtonState (ri_pins r) (u_btn u), this_bcu_is_active := 1\<rparr>;
          u2 = ReadOtherBCUPttState (ri_ptt r) (PAHandle junk u1) in
      case D2DHangUpD2PTimeOutHandle junk u2 of
        None \<Rightarrow> None
      | Some u3 \<Rightarrow>
      (case D2DReqAndResponseHandle junk u3 of
        None \<Rightarrow> None
      | Some u4 \<Rightarrow>
         (let (count, toggles) = blink u4 (w_count w, w_toggles w);
              u5 = (case ri_cmu_state r of None \<Rightarrow> u4
                    | Some c \<Rightarrow> on_unit (\<lambda>b. b\<lparr>bcu_current_tcms_cmu_state := c\<rparr>) u4);
              (b, volume) = (case wi_volume i of None \<Rightarrow> (u_bcu u5, w_intercomm_volume w)
                    | Some p \<Rightarrow> device_volume_received p (u_bcu u5, w_intercomm_volume w));
              u6 = u5\<lparr>u_bcu := b\<rparr> in
          case (case ri_cmd r of None \<Rightarrow> Some u6 | Some s \<Rightarrow> network_command junk s u6) of
            None \<Rightarrow> None
          | Some u7 \<Rightarrow>
          (case (case ri_cmd r of None \<Rightarrow> Some (w_stations w) | Some s \<Rightarrow> station_command i s (w_stations w)) of
            None \<Rightarrow> None
          | Some stations \<Rightarrow>
          (case (case wi_shell i of None \<Rightarrow> Some (w_maint w) | Some p \<Rightarrow> run_shell (wi_env i) p (w_maint w)) of
            None \<Rightarrow> None
          | Some m \<Rightarrow>
             (let (timer, sim, u8) = auto_part i m (w_timer w, w_sim w, u7);
                  u9 = on_unit run_processes u8
              in Some \<lparr>w_unit = u9, w_intercomm_volume = volume, w_stations = stations, w_maint = m,
                   w_sim = sim, w_timer = timer, w_count = count, w_toggles = toggles,
                   w_analog = wi_analog i,
                   w_out = GetBCUDeviceVersionInfo (wi_bytes i) (u_bcu u9) (wi_own i) (wi_big_send i)
                     (wi_version i) (w_out w)\<rparr>))))))"

fun whole_run :: "whole_input list \<Rightarrow> whole \<Rightarrow> whole option" where
  "whole_run [] w = Some w"
| "whole_run (i # is) w = (case SystemControl_whole i w of None \<Rightarrow> None | Some w \<Rightarrow> whole_run is w)"

section \<open>The other parts leave the machines alone\<close>

lemma volume_ctl: "ctl_of (fst (device_volume_received p s)) = ctl_of (fst s)"
  by (cases s) (auto simp: device_volume_received_def Let_def call_def ctl_of_def)

lemma volume_range: "snd s \<le> 4 \<Longrightarrow> snd (device_volume_received p s) \<le> 4"
  by (cases s) (auto simp: device_volume_received_def Let_def)

lemma auto_part_unit:
  assumes "auto_part i m (timer, sim, u) = (timer', sim', u')"
  shows "uctl u' = uctl u" and "unit_ok u' = unit_ok u"
proof -
  have send: "ctl_of (SendCmd_copy d n s b) = ctl_of b" for d n s b
    by (simp add: SendCmd_copy_def SendCmd_def ctl_simps Let_def)
  have sync: "ctl_of (SendSYNCPackageToEamp b) = ctl_of b" for b
    by (simp add: SendSYNCPackageToEamp_def ctl_simps)
  have on: "(\<And>b. ctl_of (f b) = ctl_of b) \<Longrightarrow> uctl (on_unit f u) = uctl u" for f u
    by (simp add: uctl_def on_unit_def)
  define v where "v = (if atuo_set_flag m = 1 then on_unit SendSYNCPackageToEamp u else u)"
  have v: "uctl v = uctl u" "unit_ok v = unit_ok u" by (simp_all add: v_def on sync unit_oks)
  obtain a t s where r: "auto_round (atuo_set_flag m) (if wi_fired i then 1 else timer) sim = (a, t, s)"
    by (metis prod_cases3)
  have "u' = (case a of None \<Rightarrow> v
      | Some a \<Rightarrow> on_unit (\<lambda>b. SendCmd_copy ''EAMP'' MUL_DST_NO (set_src b (wi_fill i a)) b) v)"
    using assms r by (auto simp: auto_part_def Let_def v_def split: option.splits)
  then show "uctl u' = uctl u" "unit_ok u' = unit_ok u"
    using v by (simp_all add: on send unit_oks split: option.split)
qed

lemma buttons_and_timeouts:
  assumes "unit_ok u"
    and u1: "u1 = u\<lparr>u_btn := GetPAAllOuterButtonState pins (u_btn u), this_bcu_is_active := 1\<rparr>"
  obtains u3 u4 where "D2DHangUpD2PTimeOutHandle junk (ReadOtherBCUPttState ptt (PAHandle junk u1)) = Some u3"
    and "D2DReqAndResponseHandle junk u3 = Some u4" and "unit_ok u4" and "loop_follows_from u (Some u4)"
proof -
  define u2 where "u2 = ReadOtherBCUPttState ptt (PAHandle junk u1)"
  have u1: "unit_ok u1" "uctl u1 = uctl u" using assms(1) by (simp_all add: u1 unit_oks uctl_simps)
  have f2: "loop_follows_from u (Some u2)"
    using loop_from [OF pa_loop [OF u1(1)] u1(2), of junk] by (simp add: follows_def ptt_loop u2_def)
  have ok2: "unit_ok u2" using f2 by (simp add: follows_def)
  obtain u3 where u3: "D2DHangUpD2PTimeOutHandle junk u2 = Some u3" "unit_ok u3" "loop_follows_from u2 (Some u3)"
    using timeout_loop [OF ok2, of junk] by (auto simp: follows_def)
  obtain u4 where u4: "D2DReqAndResponseHandle junk u3 = Some u4" "unit_ok u4" "loop_follows_from u3 (Some u4)"
    using d2d_handle_loop [OF u3(2), of junk] by (auto simp: follows_def)
  show thesis by (rule that [OF u3(1) [unfolded u2_def] u4(1,2) lm.trans [OF f2 lm.trans [OF u3(3) u4(3)]]])
qed

lemma volume_unit:
  assumes "unit_ok u" and "(case p of None \<Rightarrow> (u_bcu u, n) | Some p \<Rightarrow> device_volume_received p (u_bcu u, n)) = (b, volume)"
  shows "unit_ok (u\<lparr>u_bcu := b\<rparr>)" and "uctl (u\<lparr>u_bcu := b\<rparr>) = uctl u" and "n \<le> 4 \<Longrightarrow> volume \<le> 4"
proof -
  have b: "ctl_of b = ctl_of (u_bcu u)" "n \<le> 4 \<Longrightarrow> volume \<le> 4"
    using assms(2) volume_ctl [of _ "(u_bcu u, n)"] volume_range [of "(u_bcu u, n)"]
    by (auto split: option.splits) (metis fst_conv snd_conv)+
  have on: "u\<lparr>u_bcu := b\<rparr> = on_unit (\<lambda>_. b) u" by (simp add: on_unit_def)
  show "unit_ok (u\<lparr>u_bcu := b\<rparr>)" using assms(1) by (simp add: on unit_oks)
  show "uctl (u\<lparr>u_bcu := b\<rparr>) = uctl u" using b(1) by (simp add: uctl_def)
  show "n \<le> 4 \<Longrightarrow> volume \<le> 4" by (rule b(2))
qed

lemma command_unit:
  assumes "unit_ok u" and "\<And>s. cmd = Some s \<Longrightarrow> addressed s"
  obtains u' where "(case cmd of None \<Rightarrow> Some u | Some s \<Rightarrow> network_command junk s u) = Some u'"
    and "loop_follows_from u (Some u')"
proof (cases cmd)
  case None
  then show thesis using that [of u] assms(1) by (simp add: lm.stay)
next
  case (Some s)
  then have "loop_follows_from u (network_command junk s u)" using assms by (intro network_loop) simp_all
  then show thesis using that Some by (auto simp: follows_def)
qed

lemma whole_round_unit:
  assumes "unit_ok (w_unit w)" and "\<And>s. ri_cmd (wi_round i) = Some s \<Longrightarrow> addressed s"
  shows "(case SystemControl_whole i w of
      None \<Rightarrow> (\<exists>s. ri_cmd (wi_round i) = Some s \<and> station_command i s (w_stations w) = None)
        \<or> (\<exists>p. wi_shell i = Some p \<and> run_shell (wi_env i) p (w_maint w) = None)
    | Some w' \<Rightarrow> loop_follows_from (w_unit w) (Some (w_unit w'))
        \<and> (w_intercomm_volume w \<le> 4 \<longrightarrow> w_intercomm_volume w' \<le> 4))"
proof -
  define r where "r = wi_round i"
  define u1 where "u1 = (w_unit w)\<lparr>u_btn := GetPAAllOuterButtonState (ri_pins r) (u_btn (w_unit w)), this_bcu_is_active := 1\<rparr>"
  define u2 where "u2 = ReadOtherBCUPttState (ri_ptt r) (PAHandle (ri_junk r) u1)"
  obtain u3 u4 where u4: "D2DHangUpD2PTimeOutHandle (ri_junk r) u2 = Some u3" "D2DReqAndResponseHandle (ri_junk r) u3 = Some u4"
      "unit_ok u4" "loop_follows_from (w_unit w) (Some u4)"
    unfolding u2_def by (rule buttons_and_timeouts [OF assms(1) u1_def])
  obtain count toggles where bl: "blink u4 (w_count w, w_toggles w) = (count, toggles)" by fastforce
  define u5 where "u5 = (case ri_cmu_state r of None \<Rightarrow> u4
      | Some c \<Rightarrow> on_unit (\<lambda>b. b\<lparr>bcu_current_tcms_cmu_state := c\<rparr>) u4)"
  have u5: "unit_ok u5" "uctl u5 = uctl u4"
    using u4(3) by (simp_all add: u5_def uctl_simps unit_oks split: option.split) (simp add: uctl_def ctl_of_def)
  obtain b volume where vol: "(case wi_volume i of None \<Rightarrow> (u_bcu u5, w_intercomm_volume w)
      | Some p \<Rightarrow> device_volume_received p (u_bcu u5, w_intercomm_volume w)) = (b, volume)" by fastforce
  define u6 where "u6 = u5\<lparr>u_bcu := b\<rparr>"
  note u6 = volume_unit [OF u5(1) vol, folded u6_def]
  obtain u7 where u7: "(case ri_cmd r of None \<Rightarrow> Some u6 | Some s \<Rightarrow> network_command (ri_junk r) s u6) = Some u7"
      "loop_follows_from u6 (Some u7)"
    using command_unit [OF u6(1), of "ri_cmd r" "ri_junk r"] assms(2) by (auto simp: r_def)
  have f7: "loop_follows_from (w_unit w) (Some u7)"
    using lm.trans [OF u4(4) loop_from [OF u7(2)]] u5(2) u6(2) by simp
  define st where "st = (case ri_cmd r of None \<Rightarrow> Some (w_stations w) | Some s \<Rightarrow> station_command i s (w_stations w))"
  define sh where "sh = (case wi_shell i of None \<Rightarrow> Some (w_maint w) | Some p \<Rightarrow> run_shell (wi_env i) p (w_maint w))"
  note round = SystemControl_whole_def [of i w, unfolded Let_def, folded r_def, folded u1_def, folded u2_def,
      unfolded u4(1) option.case u4(2) bl prod.case, folded u5_def, unfolded vol prod.case, folded u6_def,
      unfolded u7(1) option.case, folded st_def sh_def]
  show ?thesis
  proof (cases "st = None \<or> sh = None")
    case True
    then have "SystemControl_whole i w = None" unfolding round by (auto split: option.split)
    then show ?thesis using True by (auto simp: st_def sh_def r_def split: option.splits)
  next
    case False
    then obtain stations m where some: "st = Some stations" "sh = Some m" by auto
    obtain timer sim u8 where a: "auto_part i m (w_timer w, w_sim w, u7) = (timer, sim, u8)" by (metis prod_cases3)
    obtain w' where w': "SystemControl_whole i w = Some w'" "w_unit w' = on_unit run_processes u8"
        "w_intercomm_volume w' = volume"
      unfolding round some a option.case prod.case by simp
    have "uctl (w_unit w') = uctl u8" "unit_ok (w_unit w') = unit_ok u8"
      using w'(2) by (simp_all add: unit_oks uctl_simps ctl_simps) (simp add: uctl_def)
    then have "loop_follows_from (w_unit w) (Some (w_unit w'))"
      using f7 auto_part_unit [OF a] by (simp add: follows_def)
    then show ?thesis using w' u6(3) by simp
  qed
qed

section \<open>Every run of it is safe\<close>

lemma station_command_waits:
  assumes "station_command i s st = None"
  shows "si_type_ann s \<in> {LINE_NUMBER_CHANGE_EVENT, TMS_AUTO_ANN_EVENT}"
proof -
  have "si_type_ann (if si_src_name s = ''PCU'' then zeroed s else s) \<in> {LINE_NUMBER_CHANGE_EVENT, TMS_AUTO_ANN_EVENT}"
    using assms by (auto simp: station_command_def Let_def split: if_splits option.splits)
  then show ?thesis by (auto simp: zeroed_def split: if_splits)
qed

definition round_addressed :: "whole_input \<Rightarrow> bool" where
  "round_addressed i = (case ri_cmd (wi_round i) of None \<Rightarrow> True | Some s \<Rightarrow> addressed s)"

definition may_wait :: "whole_input \<Rightarrow> bool" where
  "may_wait i = (wi_shell i \<noteq> None
     \<or> (case ri_cmd (wi_round i) of None \<Rightarrow> False
        | Some s \<Rightarrow> si_type_ann s \<in> {LINE_NUMBER_CHANGE_EVENT, TMS_AUTO_ANN_EVENT}))"

lemma whole_round_cases:
  assumes "unit_ok (w_unit w)" and "round_addressed i"
  obtains "SystemControl_whole i w = None" "may_wait i"
  | w' where "SystemControl_whole i w = Some w'" "loop_follows_from (w_unit w) (Some (w_unit w'))"
      "w_intercomm_volume w \<le> 4 \<Longrightarrow> w_intercomm_volume w' \<le> 4"
proof -
  have "addressed s" if "ri_cmd (wi_round i) = Some s" for s using assms(2) that by (simp add: round_addressed_def)
  note r = whole_round_unit [of w i, OF assms(1) this]
  show thesis using that r station_command_waits
    by (cases "SystemControl_whole i w") (auto simp: may_wait_def)
qed

lemma whole_run_follows:
  "unit_ok (w_unit w) \<Longrightarrow> list_all round_addressed is \<Longrightarrow> w_intercomm_volume w \<le> 4 \<Longrightarrow>
    (case whole_run is w of None \<Rightarrow> list_ex may_wait is
     | Some w' \<Rightarrow> loop_follows_from (w_unit w) (Some (w_unit w')) \<and> w_intercomm_volume w' \<le> 4)"
proof (induction "is" arbitrary: w)
  case Nil
  then show ?case by (simp add: lm.stay)
next
  case (Cons i "is")
  have "round_addressed i" using Cons.prems(2) by simp
  with Cons.prems(1) show ?case
  proof (cases rule: whole_round_cases)
    case 1
    then show ?thesis by simp
  next
    case (2 v)
    then have v: "unit_ok (w_unit v)" "w_intercomm_volume v \<le> 4" using Cons.prems(3) by (auto simp: follows_def)
    show ?thesis using Cons.IH [OF v(1) _ v(2)] Cons.prems(2) 2(1) lm.trans [OF 2(2)]
      by (auto split: option.splits)
  qed
qed

text \<open>C2: the whole main loop is safe. From a legal unit, and for any sequence of addressed commands,
  volumes, maintenance commands, key and button states, every run of whole rounds ends in a state in
  which the announcement machine is idle or live, the intercom machine idle or in a driver intercom,
  each lamp shows its machine, without an intercom the microphone belongs to the live
  announcement or to nobody, and the volume of the passengers' intercom is at most 4. A run can fail
  to return only if it contains a maintenance command, a change of the line or a journey
  announcement.\<close>

theorem whole_loop_safe:
  assumes "unit_ok (w_unit w)" and "loop_inv (uctl (w_unit w))" and "w_intercomm_volume w \<le> 4"
    and "list_all round_addressed is"
  shows "(case whole_run is w of None \<Rightarrow> list_ex may_wait is
    | Some w' \<Rightarrow> (let b = u_bcu (w_unit w') in
        bcu_active_ann_state b \<in> {IdleAnn, LiveAnn}
        \<and> bcu_active_intercom_state b \<in> {IdleIntercom, D2DIntercom}
        \<and> live_button_state b = (if bcu_active_ann_state b = LiveAnn then 1 else 0)
        \<and> d2d_button_state b = (if bcu_active_intercom_state b = D2DIntercom then 1 else 0)
        \<and> (bcu_active_intercom_state b = IdleIntercom \<longrightarrow>
            mic_owner b = (if bcu_active_ann_state b = LiveAnn then ANNOUNCE else NONE))
        \<and> w_intercomm_volume w' \<le> 4))"
proof (cases "whole_run is w")
  case None
  then show ?thesis using whole_run_follows [OF assms(1,4,3)] by simp
next
  case (Some w')
  then have f: "loop_follows_from (w_unit w) (Some (w_unit w'))" "w_intercomm_volume w' \<le> 4"
    using whole_run_follows [OF assms(1,4,3)] by auto
  have "loop_inv (uctl (w_unit w'))" using lm.keeps [OF f(1) assms(2)] by simp
  then show ?thesis using Some f(2) by (auto simp: loop_inv_def unit_inv_def uctl_def ctl_of_def Let_def)
qed

definition whole_start :: whole where
  "whole_start = \<lparr>w_unit = unit_start, w_intercomm_volume = 4, w_stations = sample_stations,
     w_maint = \<lparr>nand = Map.empty, tftp_created = False, atuo_set_flag = 0, resets = 0, replies = []\<rparr>,
     w_sim = sim_start, w_timer = 0, w_count = 0, w_toggles = 0, w_analog = False, w_out = demo_outbox\<rparr>"

definition whole_round_of :: "common_package option \<Rightarrow> send_info option \<Rightarrow> whole_input" where
  "whole_round_of v cmd = \<lparr>wi_round = round_of True False cmd, wi_analog = True, wi_volume = v,
     wi_tms = (\<lambda>_. sample_arrival), wi_manual = (\<lambda>_. (0, 1, 2)), wi_shell = None,
     wi_env = \<lparr>mount_ok = True, tftpd_ids = [], memory_ok = True, room = (\<lambda>_. True)\<rparr>, wi_fired = True,
     wi_fill = (\<lambda>_. send_info_zero), wi_version = None, wi_bytes = (\<lambda>_. [1, 2]),
     wi_own = \<lparr>get_or_set_version_info = 0, software_version = '''', software_date = '''',
        db_version_audio = '''', db_version_config = ''''\<rparr>, wi_big_send = 7\<rparr>"

text \<open>The coupled train asks for the driver while the live button is held and a volume arrives.\<close>

theorem whole_loop_safe_witness:
  "\<exists>w'. whole_run [whole_round_of (Some demo_package) None, whole_round_of None (Some (cmu_cmd 1 3))] whole_start = Some w'
    \<and> bcu_active_intercom_state (u_bcu (w_unit w')) \<in> {IdleIntercom, D2DIntercom} \<and> w_intercomm_volume w' \<le> 4"
proof -
  let ?is = "[whole_round_of (Some demo_package) None, whole_round_of None (Some (cmu_cmd 1 3))]"
  have a: "list_all round_addressed ?is"
    by (simp add: round_addressed_def whole_round_of_def round_of_def rounds_addressed)
  have wait: "\<not> list_ex may_wait ?is"
    by (simp add: may_wait_def whole_round_of_def round_of_def)
  have w: "unit_ok (w_unit whole_start)" "loop_inv (uctl (w_unit whole_start))" "w_intercomm_volume whole_start \<le> 4"
    using unit_start_ok by (simp_all add: whole_start_def)
  from whole_loop_safe [OF w a] wait show ?thesis by (auto simp: Let_def split: option.splits)
qed

end
