(* ===== verification/Spec2Isabelle.thy ===== *)
theory Spec2Isabelle
  imports Char_Buffer Block_Buffer Net_Register Alarm_List Audio_Loops Audio_Cache Gd_Sync Net_Loop Soft_Update
    Screen_Link Dev_Failure Main_Round
begin

text \<open>
  A verification library for the broadcast control unit (BCU) of a train's passenger
  information system, \<open>src/1.0.x/ProdExplUnits/sourcecode\<close> (paths below are relative to it).

  The program. A BCU sits in each driver's cab. Its control thread (\<open>SystemControl\<close> in
  \<open>bcu_main.cxx\<close>) polls the buttons, takes commands from the network and from the coupled
  train and moves two state machines: the announcement machine (idle, live, emergency, \<dots>) and
  the intercom machine (idle, driver to driver, driver to passenger, held). Entering and
  leaving a state lights lamps, gives the microphone to an owner, directs the audio and sends
  commands to the amplifiers and the other units. The threads hand each other bytes and
  commands through two kinds of ring buffers that are named in registries; the network thread
  routes packages to them by type. Another thread copies the tables of the central computer
  (CCU) when the unit starts. Audio travels in numbered UDP packages.

  Theories and what they model.

  \<^item> \<open>Bcu_Prelude\<close>: addresses, C strings and the arithmetic of a ring. \<open>Fifo_Interface\<close>: the
    contract of a bounded queue as locales, with the lemmas on traces of writes and reads that
    both buffers share.
  \<^item> \<open>Id_Registry\<close>, \<open>Char_Buffer\<close>, \<open>Block_Buffer\<close> (\<open>buffer_read_write_fun.cxx\<close>): the lists of
    identifiers, the byte buffer (\<open>char_buffer_t\<close>) and the command buffer (\<open>block_buffer_t\<close>) with
    their allocated memory, pointers and 32-bit sizes. Lemmas: both refine a queue; every
    operation keeps the heap invariant; the return codes; giving bytes back; the bound above
    which a command buffer is busy for ever.
  \<^item> \<open>Alarm_List\<close> (\<open>alarm_list_fun.cxx\<close>): named timers over the kernel's alarms; each one is
    refined to a timer of its own.
  \<^item> \<open>Net_Register\<close> (\<open>network/zhw_buffer_init.cxx\<close>, \<open>zhw_middle_forward.cxx\<close>,
    \<open>zhw_apply_common_func.cxx\<close>): the routing of an arriving package to the buffer of its type.
  \<^item> \<open>Bcu_Types\<close> (\<open>include/struct_type.h\<close>, \<open>include/data_struct.h\<close>): events, commands with their
    unions kept as bytes, and the eleven states. \<open>Bcu_Control\<close> (\<open>bcu_ann.cxx\<close>,
    \<open>bcu_intercom.cxx\<close>, \<open>thread_comm.cxx\<close>): what entering, leaving and processing does in each.
  \<^item> \<open>Ann_Priority\<close> (\<open>bcu_state_machine.cxx\<close>): the priority table, its sorting and the
    arbitration between announcements, shown equal to its rule.
  \<^item> \<open>Intercom_Rules\<close> (\<open>bcu_function.cxx\<close>): the rule table of the intercom machine; the installed
    table is shown to give exactly seven transitions.
  \<^item> \<open>Ext_Button\<close> (\<open>bcu_extern_button.cxx\<close>): the debounced buttons. \<open>Pcu_Requests\<close> (\<open>bcu_main.cxx\<close>):
    the numbered requests of passengers, refined to a queue.
  \<^item> \<open>Control_Unit\<close> (\<open>bcu_function.cxx\<close>, \<open>bcu_main.cxx\<close>): the handlers and the round of the main
    loop on the whole unit. \<open>Control_Safety\<close>: the abstract machine on the control view (states,
    lamps, microphone, destination of the audio) and the proof that handlers and loop follow
    it. \<open>Control_Props\<close> and \<open>Handler_Safety\<close>: the properties of the loop, and of every
    interleaving of the loop with the handlers that it does not call itself.
  \<^item> \<open>Audio_Net\<close>, \<open>Audio_Cache\<close> (\<open>network/udp_send_fun.cxx\<close>, \<open>network/udp_recv_fun.cxx\<close>): cutting
    audio into packages, the receiver in use and the older one with its cache of packages.
  \<^item> \<open>Audio_Loops\<close> (\<open>audio_sample.cxx\<close>, \<open>bcu_main.cxx\<close>, \<open>sound_driver.cxx\<close>): the audio thread on the
    unit and the heap of byte buffers: the players, the microphone, the tone of a request. Lemmas:
    no byte is lost by the players of files; the microphone has no effect unless the driver may
    talk; a request is heard in every round; the interleavings of this thread with the control
    thread and its handlers keep the unit legal.
  \<^item> \<open>Stations\<close> (\<open>bcu_function.cxx\<close>, \<open>bcu_update_table_from_ccu.cxx\<close>): the journey shown, the search
    for the next station that is not skipped, changes of the line and the rows of its tables.
  \<^item> \<open>Gd_Sync\<close> (\<open>bcu_gd_sync.cxx\<close>): the thread that copies the tables of a CCU, as a function of
    what arrives and of when its timer fires.
  \<^item> \<open>Heart_Beat\<close> (\<open>network/zhw_dev_selftest_module.cxx\<close>): who is on line: the primary server,
    the backup server that takes over from it, and the clients. \<open>Dev_Table\<close>
    (\<open>network/zhw_dev_config_info.cxx\<close>): the table of devices, its searches by name, address,
    type and number, and the two copies of it that the heart-beats keep alike.
  \<^item> \<open>Net_Loop\<close> (\<open>network/zhw_network_main.cxx\<close>): one turn of the network thread over its six
    sockets, composed from the tables, the registry, the buffers and the audio receiver.
  \<^item> \<open>Soft_Update\<close> (\<open>tftp_server_fun.cxx\<close>, \<open>tftp_server_apply.cxx\<close>,
    \<open>network/zhw_shell_function.cxx\<close>): the checksum of an image, shown to be the remainder of a
    division of polynomials, the acceptance of an image and the maintenance commands.
  \<^item> \<open>Start_Up\<close> (\<open>bcu_function.cxx\<close>, \<open>bcu_main.cxx\<close>): \<open>InitBuffer\<close> on both heaps with every failure
    of an allocation, and the names under which each thread opens the buffers. Lemmas: every
    name finds a valid empty buffer of its size; every type of package is routed to the buffer
    of its name; for which failures \<open>main\<close> goes on without the buffer.
  \<^item> \<open>Status_Messages\<close> (\<open>bcu_function.cxx\<close>, \<open>bcu_main.cxx\<close>, \<open>bcu_cmu_handle.cxx\<close>,
    \<open>network/zhw_bcu_to_cmu.cxx\<close>): the packages about the key, the volumes, the loudspeaker, the
    recording and the version, with their retries on the buffer of the network thread; the link
    to the coupled train. \<open>Journey_Sim\<close> (\<open>bcu_main.cxx\<close>): the announcements of a simulated journey.
  \<^item> \<open>Control_Start\<close>: the first statements of the control thread on what \<open>Start_Up\<close> leaves, which
    end in a legal unit. \<open>Main_Round\<close> (\<open>bcu_main.cxx\<close>): one whole round of \<open>SystemControl\<close>, composed
    from \<open>Control_Unit\<close>, \<open>Stations\<close>, \<open>Status_Messages\<close>, \<open>Soft_Update\<close> and \<open>Journey_Sim\<close>; the safety
    of the loop is proved of every sequence of such rounds.
  \<^item> \<open>Screen_Link\<close> (\<open>TouchScreen_horizontal.cxx\<close>): the variable through which other threads ask
    for a screen, under every interleaving, and the texts that are shown. \<open>Dev_Failure\<close>
    (\<open>bcu_function.cxx\<close>): the tables of failures, their summaries and what counts as a change.

  How state is represented. Structs are records and are passed explicitly; what lies behind
  pointers is a store from addresses; arrays whose subscripts the code does not check are total
  stores over the flat index. Bytes and 32-bit numbers that the code lets wrap are words. A call
  into the platform (lamps, codec, kernel alarms, sockets) is an entry in a log, or a parameter
  when the code uses its answer. Reading through a bad pointer and a loop that does not return
  are \<open>None\<close>; each property says when that cannot happen.

  Loops. Most are structural: the walks of the registries and the copies follow the lists. The
  cutting of audio ends by a measure. The loops that the code does not bound are
  \<open>partial_function (option)\<close> or \<open>while_option\<close>, with \<open>None\<close> for not returning: the enquiries of
  \<open>Block_Buffer\<close>, which are shown to return in every reachable heap, the searches of
  \<open>Stations\<close>, and the unbounded retries of a command in \<open>Stations\<close> and \<open>Status_Messages\<close> (their
  \<open>write_until\<close>), for which the exact cases are shown in which they do not. No fuel is used. An endless thread is a fold over the inputs of its rounds, and
  its properties are for every list of them.

  Not modelled. The sockets and the network set-up, the log files, the creation of the threads,
  the sleeps and the lay-out of the touch screen's windows are sequences of calls to the platform;
  \<open>alarm_pcu_audio.cxx\<close> and \<open>alarm_audio_data.cxx\<close> are tables of samples. Of the status messages
  those are left out that only \<open>UpdateTSInfoAccordingToDB\<close> sends, which nothing calls. Threads run
  one after the other in the model, except where a theory says that another one may act between two
  steps: the code takes a lock around each buffer operation, and other data races are outside the
  model.
\<close>

end
